(* ===== verification/Prelude.thy ===== *)
theory Prelude
  imports Main "HOL-Library.Multiset" "HOL-Library.Word"
begin

text \<open>
  Shared ground of the development: the session monad (a state that survives an
  exception, as a database session does), tables as lists of rows in insertion order
  with conditional updates that report how many rows they changed, text helpers for
  numbers and hexadecimal digits, and the generic lemmas and theorem collections that
  the component theories rely on.
\<close>

named_theorems session_simps \<open>unfolding rules of the session monad\<close>
named_theorems table_simps \<open>rewriting rules for tables\<close>

section \<open>Sessions: state passing with exceptions\<close>

text \<open>
  A computation takes the session state and returns an exception (\<^const>\<open>Inl\<close>) or a
  value (\<^const>\<open>Inr\<close>), together with the state it leaves. The state is kept on the
  exceptional branch too: what a handler wrote before raising stays in the session
  until the caller commits or rolls back.
\<close>

type_synonym ('s, 'e, 'a) session = "'s \<Rightarrow> ('e + 'a) \<times> 's"

definition ret :: "'a \<Rightarrow> ('s, 'e, 'a) session" where
  "ret x = (\<lambda>s. (Inr x, s))"

definition raise :: "'e \<Rightarrow> ('s, 'e, 'a) session" where
  "raise e = (\<lambda>s. (Inl e, s))"

definition bind :: "('s, 'e, 'a) session \<Rightarrow> ('a \<Rightarrow> ('s, 'e, 'b) session) \<Rightarrow> ('s, 'e, 'b) session"
  where
  "bind m f = (\<lambda>s. case m s of (Inl e, t) \<Rightarrow> (Inl e, t) | (Inr x, t) \<Rightarrow> f x t)"

definition andthen :: "('s, 'e, 'a) session \<Rightarrow> ('s, 'e, 'b) session \<Rightarrow> ('s, 'e, 'b) session" where
  "andthen m k = bind m (\<lambda>_. k)"

definition gets :: "('s \<Rightarrow> 'a) \<Rightarrow> ('s, 'e, 'a) session" where
  "gets f = (\<lambda>s. (Inr (f s), s))"

definition modify :: "('s \<Rightarrow> 's) \<Rightarrow> ('s, 'e, unit) session" where
  "modify f = (\<lambda>s. (Inr (), f s))"

definition lift :: "'e + 'a \<Rightarrow> ('s, 'e, 'a) session" where
  "lift r = (\<lambda>s. (r, s))"

definition guardE :: "bool \<Rightarrow> 'e \<Rightarrow> ('s, 'e, unit) session" where
  "guardE b e = (if b then ret () else raise e)"

definition whenS :: "bool \<Rightarrow> ('s, 'e, unit) session \<Rightarrow> ('s, 'e, unit) session" where
  "whenS b m = (if b then m else ret ())"

text \<open>A handler for exceptions: \<open>try: m except e: h e\<close>.\<close>

definition catch :: "('s, 'e, 'a) session \<Rightarrow> ('e \<Rightarrow> ('s, 'e, 'a) session) \<Rightarrow> ('s, 'e, 'a) session"
  where
  "catch m h = (\<lambda>s. case m s of (Inl e, t) \<Rightarrow> h e t | (Inr x, t) \<Rightarrow> (Inr x, t))"

fun forS :: "('a \<Rightarrow> ('s, 'e, unit) session) \<Rightarrow> 'a list \<Rightarrow> ('s, 'e, unit) session" where
  "forS f [] = ret ()"
| "forS f (x # xs) = andthen (f x) (forS f xs)"

lemmas session_defs = ret_def raise_def bind_def andthen_def gets_def modify_def lift_def
  guardE_def whenS_def catch_def

declare session_defs [session_simps]

lemma bind_eq_Inr_iff:
  "bind m f s = (Inr y, t) \<longleftrightarrow> (\<exists>x u. m s = (Inr x, u) \<and> f x u = (Inr y, t))"
  by (auto simp: bind_def split: prod.splits sum.splits)

lemma andthen_eq_Inr_iff:
  "andthen m k s = (Inr y, t) \<longleftrightarrow> (\<exists>x u. m s = (Inr x, u) \<and> k u = (Inr y, t))"
  by (simp add: andthen_def bind_eq_Inr_iff)

lemma guardE_eq_Inr_iff: "guardE b e s = (Inr u, t) \<longleftrightarrow> b \<and> t = s"
  by (auto simp: guardE_def ret_def raise_def)

lemma ret_eq_iff: "ret x s = (Inr y, t) \<longleftrightarrow> x = y \<and> s = t"
  by (auto simp: ret_def)

lemma raise_eq_Inr_iff: "raise e s = (Inr y, t) \<longleftrightarrow> False"
  by (simp add: raise_def)

lemma gets_eq_Inr_iff: "gets f s = (Inr y, t) \<longleftrightarrow> y = f s \<and> t = s"
  by (auto simp: gets_def)

lemma modify_eq_Inr_iff: "modify f s = (Inr y, t) \<longleftrightarrow> t = f s"
  by (auto simp: modify_def)

lemma lift_eq_Inr_iff: "lift r s = (Inr y, t) \<longleftrightarrow> r = Inr y \<and> t = s"
  by (auto simp: lift_def)

lemmas session_Inr_iffs = bind_eq_Inr_iff andthen_eq_Inr_iff guardE_eq_Inr_iff ret_eq_iff
  raise_eq_Inr_iff gets_eq_Inr_iff modify_eq_Inr_iff lift_eq_Inr_iff

lemma bind_run: "m s = (Inr x, t) \<Longrightarrow> bind m f s = f x t"
  by (simp add: bind_def)

lemma andthen_run: "m s = (Inr x, t) \<Longrightarrow> andthen m n s = n t"
  by (simp add: andthen_def bind_def)

lemma ret_run: "ret x s = (Inr x, s)"
  by (simp add: ret_def)

lemma lift_Inr: "lift (Inr x) = ret x"
  by (simp add: lift_def ret_def)

text \<open>
  What holds of the result and the state when a computation returns, given what held before. The
  collection \<open>ensures_intros\<close> below decomposes a program.
\<close>

definition ensures :: "('s \<Rightarrow> bool) \<Rightarrow> ('s, 'e, 'a) session \<Rightarrow> ('a \<Rightarrow> 's \<Rightarrow> bool) \<Rightarrow> bool" where
  "ensures P m Q \<longleftrightarrow> (\<forall>s x t. P s \<longrightarrow> m s = (Inr x, t) \<longrightarrow> Q x t)"

lemma ensuresI: "(\<And>s x t. P s \<Longrightarrow> m s = (Inr x, t) \<Longrightarrow> Q x t) \<Longrightarrow> ensures P m Q"
  by (simp add: ensures_def)

lemma ensuresD: "ensures P m Q \<Longrightarrow> P s \<Longrightarrow> m s = (Inr x, t) \<Longrightarrow> Q x t"
  by (simp add: ensures_def)

lemma ensures_bind: "ensures P m R \<Longrightarrow> (\<And>x. ensures (R x) (f x) Q) \<Longrightarrow> ensures P (bind m f) Q"
  by (auto simp: ensures_def bind_eq_Inr_iff)

lemma ensures_andthen: "ensures P m (\<lambda>_. R) \<Longrightarrow> ensures R k Q \<Longrightarrow> ensures P (andthen m k) Q"
  by (auto simp: ensures_def andthen_eq_Inr_iff)

lemma ensures_ret: "(\<And>s. P s \<Longrightarrow> Q x s) \<Longrightarrow> ensures P (ret x) Q"
  by (auto simp: ensures_def ret_eq_iff)

lemma ensures_raise: "ensures P (raise e) Q"
  by (simp add: ensures_def raise_eq_Inr_iff)

lemma ensures_lift: "(\<And>x s. r = Inr x \<Longrightarrow> P s \<Longrightarrow> Q x s) \<Longrightarrow> ensures P (lift r) Q"
  by (auto simp: ensures_def lift_eq_Inr_iff)

lemma ensures_gets: "(\<And>s. P s \<Longrightarrow> Q (f s) s) \<Longrightarrow> ensures P (gets f) Q"
  by (auto simp: ensures_def gets_eq_Inr_iff)

lemma ensures_modify: "(\<And>s. P s \<Longrightarrow> Q () (f s)) \<Longrightarrow> ensures P (modify f) Q"
  by (auto simp: ensures_def modify_def)

lemma ensures_whenS: "(b \<Longrightarrow> ensures P m (\<lambda>_. R)) \<Longrightarrow> (\<And>s. \<not> b \<Longrightarrow> P s \<Longrightarrow> R s) \<Longrightarrow> ensures P (whenS b m) (\<lambda>_. R)"
  by (auto simp: ensures_def whenS_def ret_def)

lemma ensures_forS: "(\<And>x. x \<in> set xs \<Longrightarrow> ensures I (f x) (\<lambda>_. I)) \<Longrightarrow> ensures I (forS f xs) (\<lambda>_. I)"
proof (induction xs)
  case Nil
  show ?case by (simp add: ensures_ret)
next
  case (Cons x xs)
  then have "ensures I (f x) (\<lambda>_. I)" "ensures I (forS f xs) (\<lambda>_. I)" by simp_all
  then show ?case by (simp add: ensures_andthen)
qed

lemma ensures_weaken: "ensures P' m Q' \<Longrightarrow> (\<And>s. P s \<Longrightarrow> P' s) \<Longrightarrow> (\<And>x s. Q' x s \<Longrightarrow> Q x s) \<Longrightarrow> ensures P m Q"
  unfolding ensures_def by blast

lemma ensures_catch_reraise:
  assumes "ensures P m Q" and "\<And>e. ensures (\<lambda>_. True) (h e) (\<lambda>_ _. False)"
  shows "ensures P (catch m h) Q"
  using assms by (fastforce simp: ensures_def catch_def split: prod.splits sum.splits)

text \<open>
  The total counterpart: from a state satisfying \<open>P\<close> the program returns, and does so in a state
  satisfying \<open>Q\<close>.
\<close>

definition returns :: "('s \<Rightarrow> bool) \<Rightarrow> ('s, 'e, 'a) session \<Rightarrow> ('a \<Rightarrow> 's \<Rightarrow> bool) \<Rightarrow> bool" where
  "returns P m Q \<longleftrightarrow> (\<forall>s. P s \<longrightarrow> (\<exists>x t. m s = (Inr x, t) \<and> Q x t))"

lemma returnsI: "(\<And>s. P s \<Longrightarrow> \<exists>x t. m s = (Inr x, t) \<and> Q x t) \<Longrightarrow> returns P m Q"
  by (simp add: returns_def)

lemma returnsD:
  assumes "returns P m Q" and "P s" obtains x t where "m s = (Inr x, t)" and "Q x t"
  using assms by (auto simp: returns_def)

lemma returns_bind: "returns P m R \<Longrightarrow> (\<And>x. returns (R x) (f x) Q) \<Longrightarrow> returns P (bind m f) Q"
  unfolding returns_def bind_eq_Inr_iff by blast

lemma returns_andthen: "returns P m (\<lambda>_. R) \<Longrightarrow> returns R k Q \<Longrightarrow> returns P (andthen m k) Q"
  unfolding andthen_def by (rule returns_bind)

lemma returns_ret: "(\<And>s. P s \<Longrightarrow> Q x s) \<Longrightarrow> returns P (ret x) Q"
  by (simp add: returns_def ret_def)

lemma returns_lift: "r = Inr x \<Longrightarrow> (\<And>s. P s \<Longrightarrow> Q x s) \<Longrightarrow> returns P (lift r) Q"
  by (simp add: returns_def lift_def)

lemma returns_whenS: "(b \<Longrightarrow> returns P m (\<lambda>_. R)) \<Longrightarrow> (\<And>s. \<not> b \<Longrightarrow> P s \<Longrightarrow> R s) \<Longrightarrow> returns P (whenS b m) (\<lambda>_. R)"
  by (auto simp: returns_def whenS_def ret_def)

lemma returns_weaken: "returns P' m Q' \<Longrightarrow> (\<And>s. P s \<Longrightarrow> P' s) \<Longrightarrow> (\<And>x s. Q' x s \<Longrightarrow> Q x s) \<Longrightarrow> returns P m Q"
  unfolding returns_def by blast

lemma returns_ensures:
  "returns P m Q \<Longrightarrow> ensures P' m Q' \<Longrightarrow> returns (\<lambda>s. P s \<and> P' s) m (\<lambda>x s. Q x s \<and> Q' x s)"
  unfolding returns_def ensures_def by blast

lemma returns_with:
  "returns P m Q \<Longrightarrow> ensures P' m Q' \<Longrightarrow> (\<And>s. P s \<Longrightarrow> P' s) \<Longrightarrow> returns P m (\<lambda>x s. Q x s \<and> Q' x s)"
  unfolding returns_def ensures_def by blast

lemma returns_bind_lift: "r = Inr x \<Longrightarrow> returns P (f x) Q \<Longrightarrow> returns P (bind (lift r) f) Q"
  by (simp add: returns_def bind_def lift_def)

lemma returns_forS: "(\<And>x. x \<in> set xs \<Longrightarrow> returns I (f x) (\<lambda>_. I)) \<Longrightarrow> returns I (forS f xs) (\<lambda>_. I)"
proof (induction xs)
  case Nil
  show ?case by (simp add: returns_ret)
next
  case (Cons x xs)
  then have "returns I (f x) (\<lambda>_. I)" "returns I (forS f xs) (\<lambda>_. I)" by simp_all
  then show ?case by (simp add: returns_andthen)
qed

subsection \<open>Pure computations that may raise\<close>

text \<open>The stateless part of the code raises too; its results are plain sums.\<close>

definition bindE :: "'e + 'a \<Rightarrow> ('a \<Rightarrow> 'e + 'b) \<Rightarrow> 'e + 'b" where
  "bindE r f = (case r of Inl e \<Rightarrow> Inl e | Inr x \<Rightarrow> f x)"

fun mapE :: "('a \<Rightarrow> 'e + 'b) \<Rightarrow> 'a list \<Rightarrow> 'e + 'b list" where
  "mapE f [] = Inr []"
| "mapE f (x # xs) = bindE (f x) (\<lambda>y. bindE (mapE f xs) (\<lambda>ys. Inr (y # ys)))"

lemma bindE_simps [simp]: "bindE (Inl e) f = Inl e" "bindE (Inr x) f = f x"
  by (simp_all add: bindE_def)

lemma bindE_eq_Inr_iff [simp]: "bindE r f = Inr y \<longleftrightarrow> (\<exists>x. r = Inr x \<and> f x = Inr y)"
  by (cases r) simp_all

lemma mapE_eq_Inr_iff: "mapE f xs = Inr ys \<longleftrightarrow> list_all2 (\<lambda>x y. f x = Inr y) xs ys"
proof (induction xs arbitrary: ys)
  case Nil
  show ?case by auto
next
  case (Cons x xs)
  show ?case by (cases ys) (auto simp: Cons.IH)
qed

subsection \<open>Facts every outcome keeps\<close>

text \<open>
  \<open>keeps P m\<close>: whatever \<open>m\<close> returns or raises, the state it leaves is related by \<open>P\<close>
  to the state it started in. Reflexive and transitive relations pass through every
  combinator, so a frame property of a long handler follows from those of its calls.
\<close>

definition keeps :: "('s \<Rightarrow> 's \<Rightarrow> bool) \<Rightarrow> ('s, 'e, 'a) session \<Rightarrow> bool" where
  "keeps P m \<longleftrightarrow> (\<forall>s. P s (snd (m s)))"

locale session_order =
  fixes P :: "'s \<Rightarrow> 's \<Rightarrow> bool"
  assumes refl: "P s s"
    and trans: "P s t \<Longrightarrow> P t u \<Longrightarrow> P s u"
begin

lemma keeps_ret: "keeps P (ret x)"
  by (simp add: keeps_def ret_def refl)

lemma keeps_raise: "keeps P (raise e)"
  by (simp add: keeps_def raise_def refl)

lemma keeps_gets: "keeps P (gets f)"
  by (simp add: keeps_def gets_def refl)

lemma keeps_lift: "keeps P (lift r)"
  by (simp add: keeps_def lift_def refl)

lemma keeps_guardE: "keeps P (guardE b e)"
  by (simp add: guardE_def keeps_ret keeps_raise)

text \<open>The continuation may use that the first part returned, and what it returned.\<close>

lemma keeps_bind_ok:
  assumes "keeps P m" and "\<And>s x t. m s = (Inr x, t) \<Longrightarrow> keeps P (f x)"
  shows "keeps P (bind m f)"
  unfolding keeps_def
proof
  fix s
  obtain r t where m: "m s = (r, t)" by (cases "m s")
  with assms(1) have 1: "P s t" unfolding keeps_def by (metis snd_conv)
  show "P s (snd (bind m f s))"
  proof (cases r)
    case (Inl e)
    with m 1 show ?thesis by (simp add: bind_def)
  next
    case (Inr x)
    from assms(2) [OF m [unfolded Inr]] have "P t (snd (f x t))" unfolding keeps_def by blast
    with 1 have "P s (snd (f x t))" by (rule trans)
    with Inr m show ?thesis by (simp add: bind_def)
  qed
qed

lemma keeps_bind: "keeps P m \<Longrightarrow> (\<And>x. keeps P (f x)) \<Longrightarrow> keeps P (bind m f)"
  by (rule keeps_bind_ok)

lemma keeps_andthen_ok:
  "keeps P m \<Longrightarrow> (\<And>s x t. m s = (Inr x, t) \<Longrightarrow> keeps P k) \<Longrightarrow> keeps P (andthen m k)"
  unfolding andthen_def by (rule keeps_bind_ok)

lemma keeps_andthen: "keeps P m \<Longrightarrow> keeps P k \<Longrightarrow> keeps P (andthen m k)"
  unfolding andthen_def by (rule keeps_bind)

lemma keeps_whenS: "keeps P m \<Longrightarrow> keeps P (whenS b m)"
  by (simp add: whenS_def keeps_ret)

lemma keeps_catch:
  assumes "keeps P m" and "\<And>e. keeps P (h e)"
  shows "keeps P (catch m h)"
  unfolding keeps_def
proof
  fix s
  obtain r t where m: "m s = (r, t)" by (cases "m s")
  with assms(1) have 1: "P s t" unfolding keeps_def by (metis snd_conv)
  show "P s (snd (catch m h s))"
  proof (cases r)
    case (Inl e)
    from assms(2) [of e] have "P t (snd (h e t))" unfolding keeps_def by blast
    with 1 have "P s (snd (h e t))" by (rule trans)
    with Inl m show ?thesis by (simp add: catch_def)
  next
    case (Inr x)
    with m 1 show ?thesis by (simp add: catch_def)
  qed
qed

lemma keeps_forS: "(\<And>x. keeps P (f x)) \<Longrightarrow> keeps P (forS f xs)"
  by (induction xs) (simp_all add: keeps_ret keeps_andthen)

lemma keeps_if: "(c \<Longrightarrow> keeps P m) \<Longrightarrow> (\<not> c \<Longrightarrow> keeps P k) \<Longrightarrow> keeps P (if c then m else k)"
  by simp

lemma keeps_option:
  "(v = None \<Longrightarrow> keeps P m) \<Longrightarrow> (\<And>x. v = Some x \<Longrightarrow> keeps P (f x)) \<Longrightarrow> keeps P (case v of None \<Rightarrow> m | Some x \<Rightarrow> f x)"
  by (simp split: option.split)

lemma keepsD: "keeps P m \<Longrightarrow> m s = (r, t) \<Longrightarrow> P s t"
  unfolding keeps_def by (metis snd_conv)

lemmas keeps_intros = keeps_ret keeps_raise keeps_gets keeps_lift keeps_guardE keeps_bind
  keeps_andthen keeps_whenS keeps_catch keeps_forS keeps_if keeps_option

end

section \<open>Lists\<close>

lemma in_enumerateD: "(i, x) \<in> set (enumerate n xs) \<Longrightarrow> x \<in> set xs"
  by (metis image_eqI list.set_map map_snd_enumerate snd_conv)

lemma map_enumerate_snd: "map (\<lambda>p. f (snd p)) (enumerate n xs) = map f xs"
  by (induction xs arbitrary: n) auto

lemma map_enumerate_fst: "map (\<lambda>p. f (fst p)) (enumerate n xs) = map f [n..<n + length xs]"
  by (induction xs arbitrary: n) (auto simp: upt_rec)

lemma list_all2_setD: "list_all2 P xs ys \<Longrightarrow> y \<in> set ys \<Longrightarrow> \<exists>x \<in> set xs. P x y"
  by (induction rule: list_all2_induct) auto

lemma sorted_le_last: "sorted xs \<Longrightarrow> x \<in> set xs \<Longrightarrow> x \<le> last xs"
  by (induction xs) auto

lemma sort_key_Nil_iff [simp]: "sort_key k xs = [] \<longleftrightarrow> xs = []"
  by (metis length_0_conv length_sort)

lemma sort_key_snoc:
  assumes "\<forall>x \<in> set xs. k x \<le> k y" shows "sort_key k (xs @ [y]) = sort_key k xs @ [y]"
proof (rule properties_for_sort_key)
  show "mset (sort_key k xs @ [y]) = mset (xs @ [y])" by simp
  show "sorted (map k (sort_key k xs @ [y]))" using assms by (simp add: sorted_append)
  fix c assume "c \<in> set (sort_key k xs @ [y])"
  have "filter (\<lambda>x. k c = k x) (sort_key k xs) = filter (\<lambda>x. k c = k x) xs"
    using sort_key_stable [of k "k c" xs] by (simp add: eq_commute)
  then show "filter (\<lambda>x. k c = k x) (sort_key k xs @ [y]) = filter (\<lambda>x. k c = k x) (xs @ [y])"
    by simp
qed

text \<open>Sorting by a key that tells the elements apart forgets the order they came in.\<close>

lemma sort_key_perm:
  assumes "mset xs = mset ys" and "inj_on k (set xs)"
  shows "sort_key k xs = sort_key k ys"
proof -
  have "sorted (map k (sort_key k xs))" "sorted (map k (sort_key k ys))" by simp_all
  moreover have "mset (map k (sort_key k xs)) = mset (map k (sort_key k ys))" using assms(1) by simp
  ultimately have "map k (sort_key k xs) = map k (sort_key k ys)" by (metis properties_for_sort)
  moreover have "inj_on k (set (sort_key k xs) \<union> set (sort_key k ys))"
    using assms(2) mset_eq_setD [OF assms(1)] by simp
  ultimately show ?thesis by (metis map_inj_on)
qed

section \<open>Tables\<close>

text \<open>
  A table is the list of its rows in insertion order. \<open>find_row\<close> is a primary-key read
  (\<open>session.get\<close>); \<open>update_where\<close> is \<open>UPDATE ... SET f WHERE p\<close> and \<open>rows_matching\<close> is
  the \<open>rowcount\<close> it reports.
\<close>

definition find_row :: "('r \<Rightarrow> bool) \<Rightarrow> 'r list \<Rightarrow> 'r option" where
  "find_row p rows = List.find p rows"

definition update_where :: "('r \<Rightarrow> bool) \<Rightarrow> ('r \<Rightarrow> 'r) \<Rightarrow> 'r list \<Rightarrow> 'r list" where
  "update_where p f rows = map (\<lambda>r. if p r then f r else r) rows"

definition rows_matching :: "('r \<Rightarrow> bool) \<Rightarrow> 'r list \<Rightarrow> nat" where
  "rows_matching p rows = length (filter p rows)"

definition keyed :: "('r \<Rightarrow> 'k) \<Rightarrow> 'r list \<Rightarrow> bool" where
  "keyed key rows \<longleftrightarrow> distinct (map key rows)"

lemma length_update_where [simp, table_simps]: "length (update_where p f rows) = length rows"
  by (simp add: update_where_def)

lemma set_update_where:
  "set (update_where p f rows) = (\<lambda>r. if p r then f r else r) ` set rows"
  by (simp add: update_where_def)

lemma map_key_update_where [simp, table_simps]:
  "(\<And>r. key (f r) = key r) \<Longrightarrow> map key (update_where p f rows) = map key rows"
  by (simp add: update_where_def)

lemma keyed_update_where:
  "(\<And>r. key (f r) = key r) \<Longrightarrow> keyed key (update_where p f rows) = keyed key rows"
  by (simp add: keyed_def)

lemma keyed_append_one:
  "keyed key (rows @ [r]) \<longleftrightarrow> keyed key rows \<and> key r \<notin> key ` set rows"
  by (auto simp: keyed_def)

lemma keyed_unique:
  "keyed key rows \<Longrightarrow> r \<in> set rows \<Longrightarrow> r' \<in> set rows \<Longrightarrow> key r = key r' \<Longrightarrow> r = r'"
  by (auto simp: keyed_def distinct_map dest: inj_onD)

lemma find_row_SomeD: "find_row p rows = Some r \<Longrightarrow> r \<in> set rows \<and> p r"
  by (auto simp: find_row_def find_Some_iff)

lemma find_row_None_iff: "find_row p rows = None \<longleftrightarrow> (\<forall>r\<in>set rows. \<not> p r)"
  by (auto simp: find_row_def find_None_iff)

lemma find_row_key:
  assumes "keyed key rows" and "r \<in> set rows"
  shows "find_row (\<lambda>x. key x = key r) rows = Some r"
  using assms
proof (induction rows)
  case Nil
  then show ?case by simp
next
  case (Cons a rows)
  show ?case
  proof (cases "key a = key r")
    case True
    with Cons.prems have "a = r" by (metis keyed_unique list.set_intros(1))
    with True show ?thesis by (simp add: find_row_def)
  next
    case False
    with Cons.prems have "r \<in> set rows" and "keyed key rows"
      by (auto simp: keyed_def)
    with False Cons.IH show ?thesis by (simp add: find_row_def)
  qed
qed

lemma find_row_key_iff:
  "keyed key rows \<Longrightarrow> find_row (\<lambda>x. key x = k) rows = Some r \<longleftrightarrow> r \<in> set rows \<and> key r = k"
  using find_row_key [of key rows r] find_row_SomeD by fastforce

lemma find_row_update_same:
  assumes "\<And>r. key (f r) = key r"
  shows "find_row (\<lambda>x. key x = k) (update_where (\<lambda>x. key x = k) f rows)
    = map_option f (find_row (\<lambda>x. key x = k) rows)"
  using assms by (induction rows) (simp_all add: find_row_def update_where_def)

lemma find_row_update_cond:
  assumes "\<And>r. key (f r) = key r"
  shows "find_row (\<lambda>x. key x = k) (update_where p f rows)
    = map_option (\<lambda>r. if p r then f r else r) (find_row (\<lambda>x. key x = k) rows)"
  using assms by (induction rows) (simp_all add: find_row_def update_where_def)

lemma find_row_append:
  "find_row p (rows @ rows') = (case find_row p rows of Some r \<Rightarrow> Some r | None \<Rightarrow> find_row p rows')"
  by (induction rows) (simp_all add: find_row_def)

lemma rows_matching_key:
  assumes "keyed key rows" and "\<And>r. p r \<Longrightarrow> key r = k"
  shows "rows_matching p rows
    = (case find_row (\<lambda>x. key x = k) rows of None \<Rightarrow> 0 | Some r \<Rightarrow> if p r then 1 else 0)"
  using assms
proof (induction rows)
  case Nil
  then show ?case by (simp add: rows_matching_def find_row_def)
next
  case (Cons a rows)
  from Cons.prems(1) have kr: "keyed key rows" and new: "key a \<notin> key ` set rows"
    by (auto simp: keyed_def)
  show ?case
  proof (cases "key a = k")
    case True
    have none: "filter p rows = []"
    proof (rule ccontr)
      assume "filter p rows \<noteq> []"
      then obtain x where "x \<in> set rows" and "p x" by (auto simp: filter_empty_conv)
      with Cons.prems(2) True new show False by (metis image_eqI)
    qed
    with True show ?thesis by (simp add: rows_matching_def find_row_def)
  next
    case False
    with Cons.prems(2) have "\<not> p a" by blast
    with False Cons.IH [OF kr Cons.prems(2)] show ?thesis
      by (simp add: rows_matching_def find_row_def)
  qed
qed

subsection \<open>How the rows of a table evolve\<close>

text \<open>
  \<open>grows R rows rows'\<close>: no row was deleted, every row is related by \<open>R\<close> to what it has
  become, and new rows were added at the end only.
\<close>

definition grows :: "('r \<Rightarrow> 'r \<Rightarrow> bool) \<Rightarrow> 'r list \<Rightarrow> 'r list \<Rightarrow> bool" where
  "grows R rows rows' \<longleftrightarrow> list_all2 R rows (take (length rows) rows')"

lemma growsD:
  assumes "grows R rows rows'" and "r \<in> set rows" shows "\<exists>r' \<in> set rows'. R r r'"
proof -
  from assms obtain r' where "r' \<in> set (take (length rows) rows')" and "R r r'"
    unfolding grows_def by (metis in_set_conv_nth list_all2_conv_all_nth)
  then show ?thesis by (meson in_set_takeD)
qed

locale row_order =
  fixes R :: "'r \<Rightarrow> 'r \<Rightarrow> bool"
  assumes row_refl: "R r r"
    and row_trans: "R r s \<Longrightarrow> R s t \<Longrightarrow> R r t"
begin

lemma grows_refl: "grows R rows rows"
  by (simp add: grows_def list_all2_refl row_refl)

lemma grows_trans:
  assumes "grows R xs ys" and "grows R ys zs" shows "grows R xs zs"
proof -
  from assms(1) have le: "length xs \<le> length ys"
    unfolding grows_def by (metis length_take list_all2_lengthD min.cobounded1)
  have "list_all2 R (take (length xs) ys) (take (length xs) (take (length ys) zs))"
    using assms(2) unfolding grows_def by (rule list_all2_takeI)
  then have "list_all2 R (take (length xs) ys) (take (length xs) zs)" using le by (simp add: min_absorb1)
  with assms(1) show ?thesis unfolding grows_def by (rule list_all2_trans [rotated]) (rule row_trans)
qed

lemma grows_update: "(\<And>r. p r \<Longrightarrow> R r (f r)) \<Longrightarrow> grows R rows (update_where p f rows)"
  by (auto simp: grows_def update_where_def list_all2_conv_all_nth row_refl)

lemma grows_append: "grows R rows (rows @ new)"
  by (simp add: grows_def list_all2_refl row_refl)

end

text \<open>Such a relation on the rows of a table orders the states of the session.\<close>

sublocale row_order \<subseteq> session_order "\<lambda>s t. grows R (tab s) (tab t)" for tab :: "'s \<Rightarrow> 'r list"
  by unfold_locales (rule grows_refl, erule (1) grows_trans)

section \<open>State machines\<close>

text \<open>
  A transition table with its terminal states: nothing leaves a terminal state, so along any
  path of allowed moves a terminal state is the last one.
\<close>

definition moves :: "('st \<Rightarrow> 'st set) \<Rightarrow> ('st \<times> 'st) set" where
  "moves allowed = {(s, t). t \<in> allowed s}\<^sup>*"

locale transition_table =
  fixes allowed :: "'st \<Rightarrow> 'st set" and terminal :: "'st \<Rightarrow> bool"
  assumes terminal_stuck: "terminal s \<Longrightarrow> allowed s = {}"
begin

lemma moves_refl [simp]: "(s, s) \<in> moves allowed"
  by (simp add: moves_def)

lemma moves_trans: "(s, t) \<in> moves allowed \<Longrightarrow> (t, u) \<in> moves allowed \<Longrightarrow> (s, u) \<in> moves allowed"
  unfolding moves_def by (rule rtrancl_trans)

lemma moves_step: "t \<in> allowed s \<Longrightarrow> (s, t) \<in> moves allowed"
  unfolding moves_def by (rule r_into_rtrancl) simp

lemma terminal_absorbing: "(s, t) \<in> moves allowed \<Longrightarrow> terminal s \<Longrightarrow> t = s"
  unfolding moves_def by (induction rule: converse_rtrancl_induct) (auto dest: terminal_stuck)

end

section \<open>Text helpers\<close>

definition hex_digit :: "int \<Rightarrow> char" where
  "hex_digit n = (''0123456789abcdef'' ! nat (n mod 16))"

definition hex_digits :: "char set" where
  "hex_digits = set ''0123456789abcdef''"

text \<open>The \<open>k\<close> low hexadecimal digits of a number, most significant first.\<close>

fun hex_fixed :: "nat \<Rightarrow> int \<Rightarrow> string" where
  "hex_fixed 0 n = []"
| "hex_fixed (Suc k) n = hex_fixed k (n div 16) @ [hex_digit n]"

text \<open>The \<open>k\<close> low decimal digits of a number, zero padded (\<open>%0kd\<close> on numbers that fit).\<close>

definition dec_digit :: "int \<Rightarrow> char" where
  "dec_digit n = (''0123456789'' ! nat (n mod 10))"

fun dec_fixed :: "nat \<Rightarrow> int \<Rightarrow> string" where
  "dec_fixed 0 n = []"
| "dec_fixed (Suc k) n = dec_fixed k (n div 10) @ [dec_digit n]"

text \<open>The decimal text of a non-negative number and of any integer (\<open>str(n)\<close>).\<close>

function dec_nat :: "int \<Rightarrow> string" where
  "dec_nat n = (if n < 10 then [dec_digit n] else dec_nat (n div 10) @ [dec_digit n])"
  by pat_completeness auto
termination by (relation "measure nat") auto

declare dec_nat.simps [simp del]

definition dec_int :: "int \<Rightarrow> string" where
  "dec_int i = (if i < 0 then CHR ''-'' # dec_nat (- i) else dec_nat i)"

definition dec_digits :: "char set" where
  "dec_digits = set ''0123456789''"

lemma nth_digit_inj:
  assumes "distinct xs" and "length xs = nat b" and "0 < b"
    and "xs ! nat (m mod b) = xs ! nat (n mod b)"
  shows "m mod b = n mod (b::int)"
proof -
  from \<open>0 < b\<close> have "nat (m mod b) < nat b" "nat (n mod b) < nat b" by simp_all
  with assms have "nat (m mod b) = nat (n mod b)" by (metis nth_eq_iff_index_eq)
  with \<open>0 < b\<close> show ?thesis by (metis eq_nat_nat_iff pos_mod_sign)
qed

lemma hex_digit_inj: "hex_digit m = hex_digit n \<Longrightarrow> m mod 16 = n mod 16"
  unfolding hex_digit_def
  by (rule nth_digit_inj [where xs = "''0123456789abcdef''"]) simp_all

lemma dec_digit_inj: "dec_digit m = dec_digit n \<Longrightarrow> m mod 10 = n mod 10"
  unfolding dec_digit_def by (rule nth_digit_inj [where xs = "''0123456789''"]) simp_all

lemma hex_digit_in [simp]: "hex_digit n \<in> hex_digits"
proof -
  have "nat (n mod 16) < length ''0123456789abcdef''" by simp
  then show ?thesis unfolding hex_digit_def hex_digits_def by (metis nth_mem)
qed

lemma dec_digit_in [simp]: "dec_digit n \<in> dec_digits"
proof -
  have "nat (n mod 10) < length ''0123456789''" by simp
  then show ?thesis unfolding dec_digit_def dec_digits_def by (metis nth_mem)
qed

lemma length_hex_fixed [simp]: "length (hex_fixed k n) = k"
  by (induction k arbitrary: n) auto

lemma set_hex_fixed: "set (hex_fixed k n) \<subseteq> hex_digits"
  by (induction k arbitrary: n) auto

lemma mod_digit_step:
  assumes "m div b mod b ^ k = n div b mod b ^ k" and "m mod b = n mod b" and "0 < (b::int)"
  shows "m mod b ^ Suc k = n mod b ^ Suc k"
proof -
  have "0 \<le> b ^ k" using assms(3) by simp
  then have "x mod (b * b ^ k) = b * (x div b mod b ^ k) + x mod b" for x :: int
    by (rule zmod_zmult2_eq)
  with assms show ?thesis by simp
qed

lemma hex_fixed_inj: "hex_fixed k m = hex_fixed k n \<Longrightarrow> m mod 16 ^ k = n mod 16 ^ k"
proof (induction k arbitrary: m n)
  case 0
  then show ?case by simp
next
  case (Suc k)
  from Suc.prems have 1: "hex_fixed k (m div 16) = hex_fixed k (n div 16)"
    and 2: "hex_digit m = hex_digit n" by simp_all
  from Suc.IH [OF 1] hex_digit_inj [OF 2] show ?case by (rule mod_digit_step) simp
qed

lemma length_dec_fixed [simp]: "length (dec_fixed k n) = k"
  by (induction k arbitrary: n) auto

lemma set_dec_fixed: "set (dec_fixed k n) \<subseteq> dec_digits"
  by (induction k arbitrary: n) auto

lemma dec_fixed_inj: "dec_fixed k m = dec_fixed k n \<Longrightarrow> m mod 10 ^ k = n mod 10 ^ k"
proof (induction k arbitrary: m n)
  case 0
  then show ?case by simp
next
  case (Suc k)
  from Suc.prems have 1: "dec_fixed k (m div 10) = dec_fixed k (n div 10)"
    and 2: "dec_digit m = dec_digit n" by simp_all
  from Suc.IH [OF 1] dec_digit_inj [OF 2] show ?case by (rule mod_digit_step) simp
qed

lemma dec_nat_nonempty [simp]: "dec_nat n \<noteq> []"
  by (subst dec_nat.simps) simp

lemma set_dec_nat: "set (dec_nat n) \<subseteq> dec_digits"
proof (induction n rule: dec_nat.induct)
  case (1 n)
  then show ?case by (subst dec_nat.simps) auto
qed

lemma dec_nat_inj: "dec_nat m = dec_nat n \<Longrightarrow> 0 \<le> m \<Longrightarrow> 0 \<le> n \<Longrightarrow> m = n"
proof (induction m arbitrary: n rule: dec_nat.induct)
  case (1 m)
  have last: "last (dec_nat k) = dec_digit k" for k
    by (subst dec_nat.simps) simp
  have bl: "butlast (dec_nat k) = (if k < 10 then [] else dec_nat (k div 10))" for k
    by (subst dec_nat.simps) simp
  from "1.prems"(1) last have "dec_digit m = dec_digit n" by metis
  then have md: "m mod 10 = n mod 10" by (rule dec_digit_inj)
  from "1.prems"(1) have bls: "butlast (dec_nat m) = butlast (dec_nat n)" by simp
  show ?case
  proof (cases "m < 10")
    case True
    with bls bl have "n < 10" by (metis dec_nat_nonempty)
    with True md "1.prems" show ?thesis by simp
  next
    case False
    with bls bl have n: "\<not> n < 10" by (metis dec_nat_nonempty)
    with False bls bl have "dec_nat (m div 10) = dec_nat (n div 10)" by metis
    with False "1.IH" "1.prems" have "m div 10 = n div 10" by simp
    with md show ?thesis by (metis div_mult_mod_eq)
  qed
qed

lemma minus_not_dec_digit [simp]: "CHR ''-'' \<notin> dec_digits"
  by (simp add: dec_digits_def)

lemma hd_dec_nat: "hd (dec_nat n) \<in> dec_digits"
  using set_dec_nat [of n] hd_in_set [of "dec_nat n"] by auto

lemma dec_int_inj:
  assumes eq: "dec_int i = dec_int j" shows "i = j"
proof -
  have hd: "hd (dec_nat n) \<noteq> CHR ''-''" for n
    using hd_dec_nat [of n] minus_not_dec_digit by metis
  have sg: "i < 0 \<longleftrightarrow> j < 0"
    using eq hd by (auto simp: dec_int_def split: if_splits) (metis list.sel(1))+
  show ?thesis
  proof (cases "i < 0")
    case True
    with sg eq have "dec_nat (- i) = dec_nat (- j)" by (simp add: dec_int_def)
    with True sg dec_nat_inj [of "- i" "- j"] show ?thesis by simp
  next
    case False
    with sg eq have "dec_nat i = dec_nat j" by (simp add: dec_int_def)
    with False sg dec_nat_inj [of i j] show ?thesis by simp
  qed
qed

lemma set_dec_int: "set (dec_int i) \<subseteq> insert (CHR ''-'') dec_digits"
  using set_dec_nat by (auto simp: dec_int_def)

lemma dec_int_nonempty [simp]: "dec_int i \<noteq> []"
  by (simp add: dec_int_def)

text \<open>
  Two texts over an alphabet, each followed by something outside the alphabet (or by
  nothing), that agree as wholes agree piece by piece. This is how a field whose text
  is not self-delimiting is read back from a longer text.
\<close>

lemma split_at_delimiter:
  assumes eq: "xs @ us = ys @ vs"
    and xs: "set xs \<subseteq> A" and ys: "set ys \<subseteq> A"
    and us: "us = [] \<or> hd us \<notin> A" and vs: "vs = [] \<or> hd vs \<notin> A"
  shows "xs = ys \<and> us = vs"
proof -
  have *: "takeWhile (\<lambda>c. c \<in> A) (zs @ ws) = zs"
    if "set zs \<subseteq> A" "ws = [] \<or> hd ws \<notin> A" for zs ws
    using that by (cases ws) (auto simp: takeWhile_append2 subset_eq)
  from * [OF xs us] * [OF ys vs] eq have "xs = ys" by simp
  with eq show ?thesis by simp
qed

section \<open>Identifiers\<close>

text \<open>A \<open>uuid.UUID\<close>: 128 bits, printed as 8-4-4-4-12 lowercase hexadecimal digits.\<close>

type_synonym uuid = "128 word"

definition uuid_str :: "uuid \<Rightarrow> string" where
  "uuid_str u = (let h = hex_fixed 32 (uint u) in
     take 8 h @ ''-'' @ take 4 (drop 8 h) @ ''-'' @ take 4 (drop 12 h) @ ''-''
       @ take 4 (drop 16 h) @ ''-'' @ drop 20 h)"

lemma uuid_str_inj:
  assumes "uuid_str u = uuid_str v" shows "u = v"
proof -
  define h where "h = hex_fixed 32 (uint u)"
  define k where "k = hex_fixed 32 (uint v)"
  have len: "length h = 32" "length k = 32" by (simp_all add: h_def k_def)
  from assms have
    "take 8 h @ ''-'' @ take 4 (drop 8 h) @ ''-'' @ take 4 (drop 12 h) @ ''-''
       @ take 4 (drop 16 h) @ ''-'' @ drop 20 h
     = take 8 k @ ''-'' @ take 4 (drop 8 k) @ ''-'' @ take 4 (drop 12 k) @ ''-''
       @ take 4 (drop 16 k) @ ''-'' @ drop 20 k"
    unfolding uuid_str_def Let_def h_def k_def .
  then have parts: "take 8 h = take 8 k" "take 4 (drop 8 h) = take 4 (drop 8 k)"
    "take 4 (drop 12 h) = take 4 (drop 12 k)" "take 4 (drop 16 h) = take 4 (drop 16 k)"
    "drop 20 h = drop 20 k"
    using len by (simp_all add: append_eq_append_conv)
  have split: "x = take 8 x @ take 4 (drop 8 x) @ take 4 (drop 12 x) @ take 4 (drop 16 x) @ drop 20 x"
    for x :: string
    using append_take_drop_id [of 8 x] append_take_drop_id [of 4 "drop 8 x"]
      append_take_drop_id [of 4 "drop 12 x"] append_take_drop_id [of 4 "drop 16 x"]
    by (simp del: append_take_drop_id)
  from parts have "h = k" using split [of h] split [of k] by metis
  then have "uint u mod 16 ^ 32 = uint v mod 16 ^ 32"
    unfolding h_def k_def by (rule hex_fixed_inj)
  moreover have "uint x mod 16 ^ 32 = uint x" for x :: uuid
    using unsigned_less [of x, where ?'a = int] by simp
  ultimately show ?thesis by (simp add: unsigned_word_eqI)
qed

end
