(* ===== verification/Domain.thy ===== *)
theory Domain
  imports Prelude
begin

text \<open>
  The controlled vocabularies of the system: every \<open>StrEnum\<close> of
  \<^verbatim>\<open>packages/schemas\<close> and of the services, as a datatype with the text
  the database and the audit ledger hold. A \<open>StrEnum\<close> member is read back from its
  text by \<open>Enum(text)\<close>, which finds the one member with that value or raises
  \<open>ValueError\<close>; the locale \<open>text_enum\<close> states that interface once and every
  vocabulary interprets it.
\<close>

section \<open>The interface of a vocabulary\<close>

locale text_enum =
  fixes text_of :: "'a \<Rightarrow> string" and members :: "'a list" and of_text :: "string \<Rightarrow> 'a option"
  assumes complete: "x \<in> set members"
    and texts_distinct: "distinct (map text_of members)"
    and lookup: "of_text s = List.find (\<lambda>x. text_of x = s) members"
begin

lemma text_inj: "text_of x = text_of y \<Longrightarrow> x = y"
  using texts_distinct complete by (auto simp: distinct_map dest: inj_onD)

lemma text_eq_iff: "text_of x = text_of y \<longleftrightarrow> x = y"
  using text_inj by blast

lemma of_text_Some: "of_text s = Some x \<longleftrightarrow> s = text_of x"
proof
  assume "of_text s = Some x"
  then show "s = text_of x" by (auto simp: lookup find_Some_iff)
next
  assume s: "s = text_of x"
  then have "find (\<lambda>y. text_of y = s) members \<noteq> None"
    using complete [of x] by (auto simp: find_None_iff)
  then obtain y where y: "find (\<lambda>y. text_of y = s) members = Some y" by blast
  then have "text_of y = s" by (auto simp: find_Some_iff)
  with s have "y = x" using text_inj by blast
  with y show "of_text s = Some x" by (simp add: lookup)
qed

lemma of_text_text: "of_text (text_of x) = Some x"
  by (simp add: of_text_Some)

lemma of_text_None: "of_text s = None \<longleftrightarrow> (\<forall>x. text_of x \<noteq> s)"
  using of_text_Some by (metis not_None_eq)

end

section \<open>The vocabularies\<close>

text \<open>\<open>MissionState\<close> of \<^verbatim>\<open>packages/schemas/domain.py\<close>.\<close>

datatype mission_state =
    M_CREATED | M_INTENT_PARSED | M_DISCOVERING | M_OFFERS_RECEIVED | M_OFFERS_NORMALIZED
  | M_RANKED | M_POLICY_CHECKED | M_AWAITING_APPROVAL | M_AUTHORIZED | M_PAYMENT_PENDING
  | M_PAYMENT_SUCCEEDED | M_PAYMENT_FAILED | M_COMPLETED | M_CANCELLED

fun mission_text :: "mission_state \<Rightarrow> string" where
  "mission_text M_CREATED = ''CREATED''"
| "mission_text M_INTENT_PARSED = ''INTENT_PARSED''"
| "mission_text M_DISCOVERING = ''DISCOVERING''"
| "mission_text M_OFFERS_RECEIVED = ''OFFERS_RECEIVED''"
| "mission_text M_OFFERS_NORMALIZED = ''OFFERS_NORMALIZED''"
| "mission_text M_RANKED = ''RANKED''"
| "mission_text M_POLICY_CHECKED = ''POLICY_CHECKED''"
| "mission_text M_AWAITING_APPROVAL = ''AWAITING_APPROVAL''"
| "mission_text M_AUTHORIZED = ''AUTHORIZED''"
| "mission_text M_PAYMENT_PENDING = ''PAYMENT_PENDING''"
| "mission_text M_PAYMENT_SUCCEEDED = ''PAYMENT_SUCCEEDED''"
| "mission_text M_PAYMENT_FAILED = ''PAYMENT_FAILED''"
| "mission_text M_COMPLETED = ''COMPLETED''"
| "mission_text M_CANCELLED = ''CANCELLED''"

definition mission_all :: "mission_state list" where
  "mission_all =
    [M_CREATED, M_INTENT_PARSED, M_DISCOVERING, M_OFFERS_RECEIVED, M_OFFERS_NORMALIZED
     , M_RANKED, M_POLICY_CHECKED, M_AWAITING_APPROVAL, M_AUTHORIZED, M_PAYMENT_PENDING
     , M_PAYMENT_SUCCEEDED, M_PAYMENT_FAILED, M_COMPLETED, M_CANCELLED]"

definition mission_of_text :: "string \<Rightarrow> mission_state option" where
  "mission_of_text s = List.find (\<lambda>x. mission_text x = s) mission_all"

interpretation mission_enum: text_enum mission_text mission_all mission_of_text
proof unfold_locales
  show "x \<in> set mission_all" for x by (cases x) (simp_all add: mission_all_def)
  show "distinct (map mission_text mission_all)" by (simp add: mission_all_def)
qed (simp add: mission_of_text_def)

text \<open>\<open>EventType\<close> of \<^verbatim>\<open>packages/schemas/domain.py\<close>.\<close>

datatype event_type =
    E_MISSION_CREATED | E_INTENT_PARSED | E_DISCOVERY_STARTED | E_OFFERS_RECEIVED
  | E_OFFERS_NORMALIZED | E_OFFERS_RANKED | E_POLICY_DECISION | E_APPROVAL_REQUESTED
  | E_MISSION_DENIED | E_SECURITY_VIOLATION | E_AUTHORIZATION_CREATED
  | E_AUTHORIZATION_ACTIVATED | E_AUTHORIZATION_CONSUMED | E_AUTHORIZATION_EXPIRED
  | E_AUTHORIZATION_REVOKED | E_AUTHORIZATION_REPLAY_DETECTED
  | E_TRANSACTION_BINDING_FAILURE | E_PAYMENT_INTENT_CREATED | E_PAYMENT_QUEUED
  | E_PAYMENT_ATTEMPTED | E_PAYMENT_PROVIDER_TIMEOUT | E_PAYMENT_PROVIDER_UNCERTAIN
  | E_PAYMENT_RETRY_SCHEDULED | E_PAYMENT_RECONCILED | E_PAYMENT_SUCCEEDED
  | E_PAYMENT_FAILED | E_PAYMENT_INTENT_REUSED | E_IDEMPOTENCY_CONFLICT
  | E_OUTBOX_EVENT_DEAD_LETTERED | E_WEBHOOK_VERIFIED | E_WEBHOOK_REJECTED
  | E_DUPLICATE_WEBHOOK_IGNORED | E_WEBHOOK_OUT_OF_ORDER_IGNORED | E_RISK_ASSESSED

fun event_text :: "event_type \<Rightarrow> string" where
  "event_text E_MISSION_CREATED = ''MISSION_CREATED''"
| "event_text E_INTENT_PARSED = ''INTENT_PARSED''"
| "event_text E_DISCOVERY_STARTED = ''DISCOVERY_STARTED''"
| "event_text E_OFFERS_RECEIVED = ''OFFERS_RECEIVED''"
| "event_text E_OFFERS_NORMALIZED = ''OFFERS_NORMALIZED''"
| "event_text E_OFFERS_RANKED = ''OFFERS_RANKED''"
| "event_text E_POLICY_DECISION = ''POLICY_DECISION''"
| "event_text E_APPROVAL_REQUESTED = ''APPROVAL_REQUESTED''"
| "event_text E_MISSION_DENIED = ''MISSION_DENIED''"
| "event_text E_SECURITY_VIOLATION = ''SECURITY_VIOLATION''"
| "event_text E_AUTHORIZATION_CREATED = ''AUTHORIZATION_CREATED''"
| "event_text E_AUTHORIZATION_ACTIVATED = ''AUTHORIZATION_ACTIVATED''"
| "event_text E_AUTHORIZATION_CONSUMED = ''AUTHORIZATION_CONSUMED''"
| "event_text E_AUTHORIZATION_EXPIRED = ''AUTHORIZATION_EXPIRED''"
| "event_text E_AUTHORIZATION_REVOKED = ''AUTHORIZATION_REVOKED''"
| "event_text E_AUTHORIZATION_REPLAY_DETECTED = ''AUTHORIZATION_REPLAY_DETECTED''"
| "event_text E_TRANSACTION_BINDING_FAILURE = ''TRANSACTION_BINDING_FAILURE''"
| "event_text E_PAYMENT_INTENT_CREATED = ''PAYMENT_INTENT_CREATED''"
| "event_text E_PAYMENT_QUEUED = ''PAYMENT_QUEUED''"
| "event_text E_PAYMENT_ATTEMPTED = ''PAYMENT_ATTEMPTED''"
| "event_text E_PAYMENT_PROVIDER_TIMEOUT = ''PAYMENT_PROVIDER_TIMEOUT''"
| "event_text E_PAYMENT_PROVIDER_UNCERTAIN = ''PAYMENT_PROVIDER_UNCERTAIN''"
| "event_text E_PAYMENT_RETRY_SCHEDULED = ''PAYMENT_RETRY_SCHEDULED''"
| "event_text E_PAYMENT_RECONCILED = ''PAYMENT_RECONCILED''"
| "event_text E_PAYMENT_SUCCEEDED = ''PAYMENT_SUCCEEDED''"
| "event_text E_PAYMENT_FAILED = ''PAYMENT_FAILED''"
| "event_text E_PAYMENT_INTENT_REUSED = ''PAYMENT_INTENT_REUSED''"
| "event_text E_IDEMPOTENCY_CONFLICT = ''IDEMPOTENCY_CONFLICT''"
| "event_text E_OUTBOX_EVENT_DEAD_LETTERED = ''OUTBOX_EVENT_DEAD_LETTERED''"
| "event_text E_WEBHOOK_VERIFIED = ''WEBHOOK_VERIFIED''"
| "event_text E_WEBHOOK_REJECTED = ''WEBHOOK_REJECTED''"
| "event_text E_DUPLICATE_WEBHOOK_IGNORED = ''DUPLICATE_WEBHOOK_IGNORED''"
| "event_text E_WEBHOOK_OUT_OF_ORDER_IGNORED = ''WEBHOOK_OUT_OF_ORDER_IGNORED''"
| "event_text E_RISK_ASSESSED = ''RISK_ASSESSED''"

definition event_all :: "event_type list" where
  "event_all =
    [E_MISSION_CREATED, E_INTENT_PARSED, E_DISCOVERY_STARTED, E_OFFERS_RECEIVED
     , E_OFFERS_NORMALIZED, E_OFFERS_RANKED, E_POLICY_DECISION, E_APPROVAL_REQUESTED
     , E_MISSION_DENIED, E_SECURITY_VIOLATION, E_AUTHORIZATION_CREATED
     , E_AUTHORIZATION_ACTIVATED, E_AUTHORIZATION_CONSUMED, E_AUTHORIZATION_EXPIRED
     , E_AUTHORIZATION_REVOKED, E_AUTHORIZATION_REPLAY_DETECTED
     , E_TRANSACTION_BINDING_FAILURE, E_PAYMENT_INTENT_CREATED, E_PAYMENT_QUEUED
     , E_PAYMENT_ATTEMPTED, E_PAYMENT_PROVIDER_TIMEOUT, E_PAYMENT_PROVIDER_UNCERTAIN
     , E_PAYMENT_RETRY_SCHEDULED, E_PAYMENT_RECONCILED, E_PAYMENT_SUCCEEDED, E_PAYMENT_FAILED
     , E_PAYMENT_INTENT_REUSED, E_IDEMPOTENCY_CONFLICT, E_OUTBOX_EVENT_DEAD_LETTERED
     , E_WEBHOOK_VERIFIED, E_WEBHOOK_REJECTED, E_DUPLICATE_WEBHOOK_IGNORED
     , E_WEBHOOK_OUT_OF_ORDER_IGNORED, E_RISK_ASSESSED]"

definition event_of_text :: "string \<Rightarrow> event_type option" where
  "event_of_text s = List.find (\<lambda>x. event_text x = s) event_all"

interpretation event_enum: text_enum event_text event_all event_of_text
proof unfold_locales
  show "x \<in> set event_all" for x by (cases x) (simp_all add: event_all_def)
  show "distinct (map event_text event_all)" by (simp add: event_all_def)
qed (simp add: event_of_text_def)

text \<open>\<open>PolicyOutcome\<close> of \<^verbatim>\<open>packages/schemas/domain.py\<close>.\<close>

datatype policy_outcome =
    D_ALLOW | D_REQUIRE_APPROVAL | D_DENY

fun outcome_text :: "policy_outcome \<Rightarrow> string" where
  "outcome_text D_ALLOW = ''ALLOW''"
| "outcome_text D_REQUIRE_APPROVAL = ''REQUIRE_APPROVAL''"
| "outcome_text D_DENY = ''DENY''"

definition outcome_all :: "policy_outcome list" where
  "outcome_all =
    [D_ALLOW, D_REQUIRE_APPROVAL, D_DENY]"

definition outcome_of_text :: "string \<Rightarrow> policy_outcome option" where
  "outcome_of_text s = List.find (\<lambda>x. outcome_text x = s) outcome_all"

interpretation outcome_enum: text_enum outcome_text outcome_all outcome_of_text
proof unfold_locales
  show "x \<in> set outcome_all" for x by (cases x) (simp_all add: outcome_all_def)
  show "distinct (map outcome_text outcome_all)" by (simp add: outcome_all_def)
qed (simp add: outcome_of_text_def)

text \<open>\<open>ReasonCode\<close> of \<^verbatim>\<open>packages/schemas/domain.py\<close>.\<close>

datatype reason_code =
    R_NO_VALID_OFFERS | R_HARD_LIMIT_EXCEEDED | R_BLOCKED_MERCHANT | R_MERCHANT_NOT_ALLOWED
  | R_RATING_BELOW_MIN | R_CURRENCY_NOT_ALLOWED | R_OUT_OF_STOCK
  | R_MERCHANT_TRUST_TOO_LOW | R_MERCHANT_IDENTITY_MISMATCH | R_SOFT_BUDGET_EXCEEDED
  | R_WITHIN_LIMITS | R_AUTHORITY_ESCALATION | R_CAPABILITY_DENIED
  | R_TRANSACTION_BINDING_FAILURE | R_AUTHORIZATION_REPLAY_DETECTED
  | R_AUTHORIZATION_EXPIRED | R_AUTHORIZATION_NOT_ACTIVE | R_AUTHORIZATION_NOT_FOUND
  | R_AUTHORIZATION_SIGNATURE_INVALID | R_AUTHORIZATION_SIGNATURE_MALFORMED
  | R_AUTHORIZATION_SIGNING_KEY_UNKNOWN | R_AUTHORIZATION_PROOF_MISSING
  | R_AUTHORIZATION_APPROVAL_SCHEME_INVALID | R_BIND_REFUSED_OFFER_CHANGED
  | R_IDEMPOTENCY_CONFLICT | R_PAYMENT_PROVIDER_TIMEOUT | R_PROVIDER_TRANSIENT_FAILURE
  | R_PROVIDER_AMBIGUITY | R_PROVIDER_TERMINAL_FAILURE | R_PROVIDER_RESPONSE_MISMATCH
  | R_PROVIDER_PAYMENT_NOT_FOUND | R_PROVIDER_CREATE_FENCED
  | R_PROVIDER_PAYMENT_ATTEMPT_FAILED | R_ILLEGAL_PAYMENT_TRANSITION
  | R_MISSION_NOT_AUTHORIZED | R_PAYMENT_INTENT_NOT_FOUND | R_WEBHOOK_SIGNATURE_INVALID
  | R_WEBHOOK_EVENT_ID_MISSING | R_WEBHOOK_PAYLOAD_INVALID | R_WEBHOOK_DUPLICATE
  | R_WEBHOOK_UNKNOWN_PAYMENT

fun reason_text :: "reason_code \<Rightarrow> string" where
  "reason_text R_NO_VALID_OFFERS = ''NO_VALID_OFFERS''"
| "reason_text R_HARD_LIMIT_EXCEEDED = ''HARD_LIMIT_EXCEEDED''"
| "reason_text R_BLOCKED_MERCHANT = ''BLOCKED_MERCHANT''"
| "reason_text R_MERCHANT_NOT_ALLOWED = ''MERCHANT_NOT_ALLOWED''"
| "reason_text R_RATING_BELOW_MIN = ''RATING_BELOW_MIN''"
| "reason_text R_CURRENCY_NOT_ALLOWED = ''CURRENCY_NOT_ALLOWED''"
| "reason_text R_OUT_OF_STOCK = ''OUT_OF_STOCK''"
| "reason_text R_MERCHANT_TRUST_TOO_LOW = ''MERCHANT_TRUST_TOO_LOW''"
| "reason_text R_MERCHANT_IDENTITY_MISMATCH = ''MERCHANT_IDENTITY_MISMATCH''"
| "reason_text R_SOFT_BUDGET_EXCEEDED = ''SOFT_BUDGET_EXCEEDED''"
| "reason_text R_WITHIN_LIMITS = ''WITHIN_LIMITS''"
| "reason_text R_AUTHORITY_ESCALATION = ''AUTHORITY_ESCALATION''"
| "reason_text R_CAPABILITY_DENIED = ''CAPABILITY_DENIED''"
| "reason_text R_TRANSACTION_BINDING_FAILURE = ''TRANSACTION_BINDING_FAILURE''"
| "reason_text R_AUTHORIZATION_REPLAY_DETECTED = ''AUTHORIZATION_REPLAY_DETECTED''"
| "reason_text R_AUTHORIZATION_EXPIRED = ''AUTHORIZATION_EXPIRED''"
| "reason_text R_AUTHORIZATION_NOT_ACTIVE = ''AUTHORIZATION_NOT_ACTIVE''"
| "reason_text R_AUTHORIZATION_NOT_FOUND = ''AUTHORIZATION_NOT_FOUND''"
| "reason_text R_AUTHORIZATION_SIGNATURE_INVALID = ''AUTHORIZATION_SIGNATURE_INVALID''"
| "reason_text R_AUTHORIZATION_SIGNATURE_MALFORMED = ''AUTHORIZATION_SIGNATURE_MALFORMED''"
| "reason_text R_AUTHORIZATION_SIGNING_KEY_UNKNOWN = ''AUTHORIZATION_SIGNING_KEY_UNKNOWN''"
| "reason_text R_AUTHORIZATION_PROOF_MISSING = ''AUTHORIZATION_PROOF_MISSING''"
| "reason_text R_AUTHORIZATION_APPROVAL_SCHEME_INVALID = ''AUTHORIZATION_APPROVAL_SCHEME_INVALID''"
| "reason_text R_BIND_REFUSED_OFFER_CHANGED = ''BIND_REFUSED_OFFER_CHANGED''"
| "reason_text R_IDEMPOTENCY_CONFLICT = ''IDEMPOTENCY_CONFLICT''"
| "reason_text R_PAYMENT_PROVIDER_TIMEOUT = ''PAYMENT_PROVIDER_TIMEOUT''"
| "reason_text R_PROVIDER_TRANSIENT_FAILURE = ''PROVIDER_TRANSIENT_FAILURE''"
| "reason_text R_PROVIDER_AMBIGUITY = ''PROVIDER_AMBIGUITY''"
| "reason_text R_PROVIDER_TERMINAL_FAILURE = ''PROVIDER_TERMINAL_FAILURE''"
| "reason_text R_PROVIDER_RESPONSE_MISMATCH = ''PROVIDER_RESPONSE_MISMATCH''"
| "reason_text R_PROVIDER_PAYMENT_NOT_FOUND = ''PROVIDER_PAYMENT_NOT_FOUND''"
| "reason_text R_PROVIDER_CREATE_FENCED = ''PROVIDER_CREATE_FENCED''"
| "reason_text R_PROVIDER_PAYMENT_ATTEMPT_FAILED = ''PROVIDER_PAYMENT_ATTEMPT_FAILED''"
| "reason_text R_ILLEGAL_PAYMENT_TRANSITION = ''ILLEGAL_PAYMENT_TRANSITION''"
| "reason_text R_MISSION_NOT_AUTHORIZED = ''MISSION_NOT_AUTHORIZED''"
| "reason_text R_PAYMENT_INTENT_NOT_FOUND = ''PAYMENT_INTENT_NOT_FOUND''"
| "reason_text R_WEBHOOK_SIGNATURE_INVALID = ''WEBHOOK_SIGNATURE_INVALID''"
| "reason_text R_WEBHOOK_EVENT_ID_MISSING = ''WEBHOOK_EVENT_ID_MISSING''"
| "reason_text R_WEBHOOK_PAYLOAD_INVALID = ''WEBHOOK_PAYLOAD_INVALID''"
| "reason_text R_WEBHOOK_DUPLICATE = ''WEBHOOK_DUPLICATE''"
| "reason_text R_WEBHOOK_UNKNOWN_PAYMENT = ''WEBHOOK_UNKNOWN_PAYMENT''"

definition reason_all :: "reason_code list" where
  "reason_all =
    [R_NO_VALID_OFFERS, R_HARD_LIMIT_EXCEEDED, R_BLOCKED_MERCHANT, R_MERCHANT_NOT_ALLOWED
     , R_RATING_BELOW_MIN, R_CURRENCY_NOT_ALLOWED, R_OUT_OF_STOCK, R_MERCHANT_TRUST_TOO_LOW
     , R_MERCHANT_IDENTITY_MISMATCH, R_SOFT_BUDGET_EXCEEDED, R_WITHIN_LIMITS
     , R_AUTHORITY_ESCALATION, R_CAPABILITY_DENIED, R_TRANSACTION_BINDING_FAILURE
     , R_AUTHORIZATION_REPLAY_DETECTED, R_AUTHORIZATION_EXPIRED, R_AUTHORIZATION_NOT_ACTIVE
     , R_AUTHORIZATION_NOT_FOUND, R_AUTHORIZATION_SIGNATURE_INVALID
     , R_AUTHORIZATION_SIGNATURE_MALFORMED, R_AUTHORIZATION_SIGNING_KEY_UNKNOWN
     , R_AUTHORIZATION_PROOF_MISSING, R_AUTHORIZATION_APPROVAL_SCHEME_INVALID
     , R_BIND_REFUSED_OFFER_CHANGED, R_IDEMPOTENCY_CONFLICT, R_PAYMENT_PROVIDER_TIMEOUT
     , R_PROVIDER_TRANSIENT_FAILURE, R_PROVIDER_AMBIGUITY, R_PROVIDER_TERMINAL_FAILURE
     , R_PROVIDER_RESPONSE_MISMATCH, R_PROVIDER_PAYMENT_NOT_FOUND, R_PROVIDER_CREATE_FENCED
     , R_PROVIDER_PAYMENT_ATTEMPT_FAILED, R_ILLEGAL_PAYMENT_TRANSITION
     , R_MISSION_NOT_AUTHORIZED, R_PAYMENT_INTENT_NOT_FOUND, R_WEBHOOK_SIGNATURE_INVALID
     , R_WEBHOOK_EVENT_ID_MISSING, R_WEBHOOK_PAYLOAD_INVALID, R_WEBHOOK_DUPLICATE
     , R_WEBHOOK_UNKNOWN_PAYMENT]"

definition reason_of_text :: "string \<Rightarrow> reason_code option" where
  "reason_of_text s = List.find (\<lambda>x. reason_text x = s) reason_all"

interpretation reason_enum: text_enum reason_text reason_all reason_of_text
proof unfold_locales
  show "x \<in> set reason_all" for x by (cases x) (simp_all add: reason_all_def)
  show "distinct (map reason_text reason_all)" by (simp add: reason_all_def)
qed (simp add: reason_of_text_def)

text \<open>\<open>ApprovalScheme\<close> of \<^verbatim>\<open>packages/schemas/approval.py\<close>.\<close>

datatype approval_scheme =
    S_POLICY_AUTO | S_USER_ED25519 | S_LEGACY_SERVER

fun scheme_text :: "approval_scheme \<Rightarrow> string" where
  "scheme_text S_POLICY_AUTO = ''POLICY_AUTO''"
| "scheme_text S_USER_ED25519 = ''USER_ED25519''"
| "scheme_text S_LEGACY_SERVER = ''LEGACY_SERVER''"

definition scheme_all :: "approval_scheme list" where
  "scheme_all =
    [S_POLICY_AUTO, S_USER_ED25519, S_LEGACY_SERVER]"

definition scheme_of_text :: "string \<Rightarrow> approval_scheme option" where
  "scheme_of_text s = List.find (\<lambda>x. scheme_text x = s) scheme_all"

interpretation scheme_enum: text_enum scheme_text scheme_all scheme_of_text
proof unfold_locales
  show "x \<in> set scheme_all" for x by (cases x) (simp_all add: scheme_all_def)
  show "distinct (map scheme_text scheme_all)" by (simp add: scheme_all_def)
qed (simp add: scheme_of_text_def)

text \<open>\<open>AuthorizationStatus\<close> of \<^verbatim>\<open>packages/schemas/authorization.py\<close>.\<close>

datatype authorization_status =
    A_PENDING | A_ACTIVE | A_CONSUMED | A_EXPIRED | A_REVOKED

fun auth_text :: "authorization_status \<Rightarrow> string" where
  "auth_text A_PENDING = ''PENDING''"
| "auth_text A_ACTIVE = ''ACTIVE''"
| "auth_text A_CONSUMED = ''CONSUMED''"
| "auth_text A_EXPIRED = ''EXPIRED''"
| "auth_text A_REVOKED = ''REVOKED''"

definition auth_all :: "authorization_status list" where
  "auth_all =
    [A_PENDING, A_ACTIVE, A_CONSUMED, A_EXPIRED, A_REVOKED]"

definition auth_of_text :: "string \<Rightarrow> authorization_status option" where
  "auth_of_text s = List.find (\<lambda>x. auth_text x = s) auth_all"

interpretation auth_enum: text_enum auth_text auth_all auth_of_text
proof unfold_locales
  show "x \<in> set auth_all" for x by (cases x) (simp_all add: auth_all_def)
  show "distinct (map auth_text auth_all)" by (simp add: auth_all_def)
qed (simp add: auth_of_text_def)

text \<open>\<open>PaymentIntentState\<close> of \<^verbatim>\<open>packages/schemas/payment.py\<close>.\<close>

datatype payment_state =
    P_CREATED | P_QUEUED | P_PROCESSING | P_PROVIDER_PENDING | P_SUCCEEDED
  | P_FAILED_RETRYABLE | P_FAILED_TERMINAL | P_CANCELLED

fun payment_text :: "payment_state \<Rightarrow> string" where
  "payment_text P_CREATED = ''CREATED''"
| "payment_text P_QUEUED = ''QUEUED''"
| "payment_text P_PROCESSING = ''PROCESSING''"
| "payment_text P_PROVIDER_PENDING = ''PROVIDER_PENDING''"
| "payment_text P_SUCCEEDED = ''SUCCEEDED''"
| "payment_text P_FAILED_RETRYABLE = ''FAILED_RETRYABLE''"
| "payment_text P_FAILED_TERMINAL = ''FAILED_TERMINAL''"
| "payment_text P_CANCELLED = ''CANCELLED''"

definition payment_all :: "payment_state list" where
  "payment_all =
    [P_CREATED, P_QUEUED, P_PROCESSING, P_PROVIDER_PENDING, P_SUCCEEDED, P_FAILED_RETRYABLE
     , P_FAILED_TERMINAL, P_CANCELLED]"

definition payment_of_text :: "string \<Rightarrow> payment_state option" where
  "payment_of_text s = List.find (\<lambda>x. payment_text x = s) payment_all"

interpretation payment_enum: text_enum payment_text payment_all payment_of_text
proof unfold_locales
  show "x \<in> set payment_all" for x by (cases x) (simp_all add: payment_all_def)
  show "distinct (map payment_text payment_all)" by (simp add: payment_all_def)
qed (simp add: payment_of_text_def)

text \<open>\<open>OutboxStatus\<close> of \<^verbatim>\<open>packages/schemas/payment.py\<close>.\<close>

datatype outbox_status =
    O_PENDING | O_IN_PROGRESS | O_PROCESSED | O_FAILED

fun outbox_text :: "outbox_status \<Rightarrow> string" where
  "outbox_text O_PENDING = ''PENDING''"
| "outbox_text O_IN_PROGRESS = ''IN_PROGRESS''"
| "outbox_text O_PROCESSED = ''PROCESSED''"
| "outbox_text O_FAILED = ''FAILED''"

definition outbox_all :: "outbox_status list" where
  "outbox_all =
    [O_PENDING, O_IN_PROGRESS, O_PROCESSED, O_FAILED]"

definition outbox_of_text :: "string \<Rightarrow> outbox_status option" where
  "outbox_of_text s = List.find (\<lambda>x. outbox_text x = s) outbox_all"

interpretation outbox_enum: text_enum outbox_text outbox_all outbox_of_text
proof unfold_locales
  show "x \<in> set outbox_all" for x by (cases x) (simp_all add: outbox_all_def)
  show "distinct (map outbox_text outbox_all)" by (simp add: outbox_all_def)
qed (simp add: outbox_of_text_def)

text \<open>\<open>OutboxEventType\<close> of \<^verbatim>\<open>packages/schemas/payment.py\<close>.\<close>

datatype outbox_event_type =
    OE_PAYMENT_CREATE_REQUESTED | OE_PAYMENT_RECONCILE_REQUESTED

fun outbox_event_text :: "outbox_event_type \<Rightarrow> string" where
  "outbox_event_text OE_PAYMENT_CREATE_REQUESTED = ''PAYMENT_CREATE_REQUESTED''"
| "outbox_event_text OE_PAYMENT_RECONCILE_REQUESTED = ''PAYMENT_RECONCILE_REQUESTED''"

definition outbox_event_all :: "outbox_event_type list" where
  "outbox_event_all =
    [OE_PAYMENT_CREATE_REQUESTED, OE_PAYMENT_RECONCILE_REQUESTED]"

definition outbox_event_of_text :: "string \<Rightarrow> outbox_event_type option" where
  "outbox_event_of_text s = List.find (\<lambda>x. outbox_event_text x = s) outbox_event_all"

interpretation outbox_event_enum: text_enum outbox_event_text outbox_event_all outbox_event_of_text
proof unfold_locales
  show "x \<in> set outbox_event_all" for x by (cases x) (simp_all add: outbox_event_all_def)
  show "distinct (map outbox_event_text outbox_event_all)" by (simp add: outbox_event_all_def)
qed (simp add: outbox_event_of_text_def)

text \<open>\<open>ProviderPaymentStatus\<close> of \<^verbatim>\<open>packages/schemas/payment.py\<close>.\<close>

datatype provider_status =
    PP_CREATED | PP_PENDING | PP_SUCCEEDED | PP_FAILED

fun provider_text :: "provider_status \<Rightarrow> string" where
  "provider_text PP_CREATED = ''CREATED''"
| "provider_text PP_PENDING = ''PENDING''"
| "provider_text PP_SUCCEEDED = ''SUCCEEDED''"
| "provider_text PP_FAILED = ''FAILED''"

definition provider_all :: "provider_status list" where
  "provider_all =
    [PP_CREATED, PP_PENDING, PP_SUCCEEDED, PP_FAILED]"

definition provider_of_text :: "string \<Rightarrow> provider_status option" where
  "provider_of_text s = List.find (\<lambda>x. provider_text x = s) provider_all"

interpretation provider_enum: text_enum provider_text provider_all provider_of_text
proof unfold_locales
  show "x \<in> set provider_all" for x by (cases x) (simp_all add: provider_all_def)
  show "distinct (map provider_text provider_all)" by (simp add: provider_all_def)
qed (simp add: provider_of_text_def)

text \<open>\<open>WebhookEventType\<close> of \<^verbatim>\<open>packages/schemas/payment.py\<close>.\<close>

datatype webhook_type =
    W_PAYMENT_SUCCEEDED | W_PAYMENT_FAILED | W_PAYMENT_PENDING | W_PAYMENT_ATTEMPT_FAILED

fun webhook_text :: "webhook_type \<Rightarrow> string" where
  "webhook_text W_PAYMENT_SUCCEEDED = ''payment.succeeded''"
| "webhook_text W_PAYMENT_FAILED = ''payment.failed''"
| "webhook_text W_PAYMENT_PENDING = ''payment.pending''"
| "webhook_text W_PAYMENT_ATTEMPT_FAILED = ''payment.attempt_failed''"

definition webhook_all :: "webhook_type list" where
  "webhook_all =
    [W_PAYMENT_SUCCEEDED, W_PAYMENT_FAILED, W_PAYMENT_PENDING, W_PAYMENT_ATTEMPT_FAILED]"

definition webhook_of_text :: "string \<Rightarrow> webhook_type option" where
  "webhook_of_text s = List.find (\<lambda>x. webhook_text x = s) webhook_all"

interpretation webhook_enum: text_enum webhook_text webhook_all webhook_of_text
proof unfold_locales
  show "x \<in> set webhook_all" for x by (cases x) (simp_all add: webhook_all_def)
  show "distinct (map webhook_text webhook_all)" by (simp add: webhook_all_def)
qed (simp add: webhook_of_text_def)

text \<open>\<open>Capability\<close> of \<^verbatim>\<open>packages/schemas/capability.py\<close>.\<close>

datatype capability =
    C_CATALOG_READ | C_MERCHANT_DISCOVER | C_OFFER_REQUEST | C_OFFER_RANK
  | C_PAYMENT_PROPOSE | C_PAYMENT_EXECUTE | C_REFUND_EXECUTE | C_POLICY_MODIFY
  | C_AUTHORIZATION_ISSUE | C_MERCHANT_MODIFY

fun capab_text :: "capability \<Rightarrow> string" where
  "capab_text C_CATALOG_READ = ''catalog.read''"
| "capab_text C_MERCHANT_DISCOVER = ''merchant.discover''"
| "capab_text C_OFFER_REQUEST = ''offer.request''"
| "capab_text C_OFFER_RANK = ''offer.rank''"
| "capab_text C_PAYMENT_PROPOSE = ''payment.propose''"
| "capab_text C_PAYMENT_EXECUTE = ''payment.execute''"
| "capab_text C_REFUND_EXECUTE = ''refund.execute''"
| "capab_text C_POLICY_MODIFY = ''policy.modify''"
| "capab_text C_AUTHORIZATION_ISSUE = ''authorization.issue''"
| "capab_text C_MERCHANT_MODIFY = ''merchant.modify''"

definition capab_all :: "capability list" where
  "capab_all =
    [C_CATALOG_READ, C_MERCHANT_DISCOVER, C_OFFER_REQUEST, C_OFFER_RANK, C_PAYMENT_PROPOSE
     , C_PAYMENT_EXECUTE, C_REFUND_EXECUTE, C_POLICY_MODIFY, C_AUTHORIZATION_ISSUE
     , C_MERCHANT_MODIFY]"

definition capab_of_text :: "string \<Rightarrow> capability option" where
  "capab_of_text s = List.find (\<lambda>x. capab_text x = s) capab_all"

interpretation capab_enum: text_enum capab_text capab_all capab_of_text
proof unfold_locales
  show "x \<in> set capab_all" for x by (cases x) (simp_all add: capab_all_def)
  show "distinct (map capab_text capab_all)" by (simp add: capab_all_def)
qed (simp add: capab_of_text_def)

text \<open>\<open>TrustLevel\<close> of \<^verbatim>\<open>packages/schemas/provenance.py\<close>.\<close>

datatype trust_level =
    T_AUTHORITATIVE | T_TRUSTED | T_UNTRUSTED

fun trust_text :: "trust_level \<Rightarrow> string" where
  "trust_text T_AUTHORITATIVE = ''authoritative''"
| "trust_text T_TRUSTED = ''trusted''"
| "trust_text T_UNTRUSTED = ''untrusted''"

definition trust_all :: "trust_level list" where
  "trust_all =
    [T_AUTHORITATIVE, T_TRUSTED, T_UNTRUSTED]"

definition trust_of_text :: "string \<Rightarrow> trust_level option" where
  "trust_of_text s = List.find (\<lambda>x. trust_text x = s) trust_all"

interpretation trust_enum: text_enum trust_text trust_all trust_of_text
proof unfold_locales
  show "x \<in> set trust_all" for x by (cases x) (simp_all add: trust_all_def)
  show "distinct (map trust_text trust_all)" by (simp add: trust_all_def)
qed (simp add: trust_of_text_def)

text \<open>\<open>AuditReasonCode\<close> of \<^verbatim>\<open>packages/schemas/audit.py\<close>.\<close>

datatype audit_reason =
    V_AUDIT_VALID | V_AUDIT_SEQUENCE_GAP | V_AUDIT_PREVIOUS_HASH_MISMATCH
  | V_AUDIT_EVENT_HASH_MISMATCH | V_AUDIT_GENESIS_INVALID | V_AUDIT_EVENT_MALFORMED

fun audit_text :: "audit_reason \<Rightarrow> string" where
  "audit_text V_AUDIT_VALID = ''AUDIT_VALID''"
| "audit_text V_AUDIT_SEQUENCE_GAP = ''AUDIT_SEQUENCE_GAP''"
| "audit_text V_AUDIT_PREVIOUS_HASH_MISMATCH = ''AUDIT_PREVIOUS_HASH_MISMATCH''"
| "audit_text V_AUDIT_EVENT_HASH_MISMATCH = ''AUDIT_EVENT_HASH_MISMATCH''"
| "audit_text V_AUDIT_GENESIS_INVALID = ''AUDIT_GENESIS_INVALID''"
| "audit_text V_AUDIT_EVENT_MALFORMED = ''AUDIT_EVENT_MALFORMED''"

definition audit_all :: "audit_reason list" where
  "audit_all =
    [V_AUDIT_VALID, V_AUDIT_SEQUENCE_GAP, V_AUDIT_PREVIOUS_HASH_MISMATCH
     , V_AUDIT_EVENT_HASH_MISMATCH, V_AUDIT_GENESIS_INVALID, V_AUDIT_EVENT_MALFORMED]"

definition audit_of_text :: "string \<Rightarrow> audit_reason option" where
  "audit_of_text s = List.find (\<lambda>x. audit_text x = s) audit_all"

interpretation audit_enum: text_enum audit_text audit_all audit_of_text
proof unfold_locales
  show "x \<in> set audit_all" for x by (cases x) (simp_all add: audit_all_def)
  show "distinct (map audit_text audit_all)" by (simp add: audit_all_def)
qed (simp add: audit_of_text_def)

text \<open>\<open>ReplayReasonCode\<close> of \<^verbatim>\<open>packages/schemas/audit.py\<close>.\<close>

datatype replay_reason =
    RR_REPLAY_OK | RR_REPLAY_AUDIT_INVALID | RR_REPLAY_UNSUPPORTED_EVENT_TYPE
  | RR_REPLAY_MALFORMED_EVENT

fun replay_text :: "replay_reason \<Rightarrow> string" where
  "replay_text RR_REPLAY_OK = ''REPLAY_OK''"
| "replay_text RR_REPLAY_AUDIT_INVALID = ''REPLAY_AUDIT_INVALID''"
| "replay_text RR_REPLAY_UNSUPPORTED_EVENT_TYPE = ''REPLAY_UNSUPPORTED_EVENT_TYPE''"
| "replay_text RR_REPLAY_MALFORMED_EVENT = ''REPLAY_MALFORMED_EVENT''"

definition replay_all :: "replay_reason list" where
  "replay_all =
    [RR_REPLAY_OK, RR_REPLAY_AUDIT_INVALID, RR_REPLAY_UNSUPPORTED_EVENT_TYPE
     , RR_REPLAY_MALFORMED_EVENT]"

definition replay_of_text :: "string \<Rightarrow> replay_reason option" where
  "replay_of_text s = List.find (\<lambda>x. replay_text x = s) replay_all"

interpretation replay_enum: text_enum replay_text replay_all replay_of_text
proof unfold_locales
  show "x \<in> set replay_all" for x by (cases x) (simp_all add: replay_all_def)
  show "distinct (map replay_text replay_all)" by (simp add: replay_all_def)
qed (simp add: replay_of_text_def)

text \<open>\<open>DecisionStage\<close> of \<^verbatim>\<open>packages/schemas/audit.py\<close>.\<close>

datatype decision_stage =
    DS_ADMIT | DS_BIND | DS_EXECUTE

fun stage_text :: "decision_stage \<Rightarrow> string" where
  "stage_text DS_ADMIT = ''ADMIT''"
| "stage_text DS_BIND = ''BIND''"
| "stage_text DS_EXECUTE = ''EXECUTE''"

definition stage_all :: "decision_stage list" where
  "stage_all =
    [DS_ADMIT, DS_BIND, DS_EXECUTE]"

definition stage_of_text :: "string \<Rightarrow> decision_stage option" where
  "stage_of_text s = List.find (\<lambda>x. stage_text x = s) stage_all"

interpretation stage_enum: text_enum stage_text stage_all stage_of_text
proof unfold_locales
  show "x \<in> set stage_all" for x by (cases x) (simp_all add: stage_all_def)
  show "distinct (map stage_text stage_all)" by (simp add: stage_all_def)
qed (simp add: stage_of_text_def)

text \<open>\<open>DecisionTraceVerdict\<close> of \<^verbatim>\<open>packages/schemas/audit.py\<close>.\<close>

datatype trace_verdict =
    DV_ACCEPTED | DV_REFUSED | DV_PENDING | DV_SUCCEEDED | DV_FAILED | DV_IGNORED
  | DV_ADVISORY

fun verdict_text :: "trace_verdict \<Rightarrow> string" where
  "verdict_text DV_ACCEPTED = ''ACCEPTED''"
| "verdict_text DV_REFUSED = ''REFUSED''"
| "verdict_text DV_PENDING = ''PENDING''"
| "verdict_text DV_SUCCEEDED = ''SUCCEEDED''"
| "verdict_text DV_FAILED = ''FAILED''"
| "verdict_text DV_IGNORED = ''IGNORED''"
| "verdict_text DV_ADVISORY = ''ADVISORY''"

definition verdict_all :: "trace_verdict list" where
  "verdict_all =
    [DV_ACCEPTED, DV_REFUSED, DV_PENDING, DV_SUCCEEDED, DV_FAILED, DV_IGNORED, DV_ADVISORY]"

definition verdict_of_text :: "string \<Rightarrow> trace_verdict option" where
  "verdict_of_text s = List.find (\<lambda>x. verdict_text x = s) verdict_all"

interpretation verdict_enum: text_enum verdict_text verdict_all verdict_of_text
proof unfold_locales
  show "x \<in> set verdict_all" for x by (cases x) (simp_all add: verdict_all_def)
  show "distinct (map verdict_text verdict_all)" by (simp add: verdict_all_def)
qed (simp add: verdict_of_text_def)

text \<open>\<open>DecisionTraceNextAction\<close> of \<^verbatim>\<open>packages/schemas/audit.py\<close>.\<close>

datatype next_action =
    NA_CONTINUE_ADMIT | NA_CONTINUE_BIND | NA_AWAIT_USER_SIGNATURE
  | NA_CREATE_PAYMENT_INTENT | NA_DISPATCH_PAYMENT | NA_AWAIT_PROVIDER
  | NA_RECONCILE_PAYMENT | NA_RETRY_PAYMENT | NA_NONE

fun action_text :: "next_action \<Rightarrow> string" where
  "action_text NA_CONTINUE_ADMIT = ''CONTINUE_ADMIT''"
| "action_text NA_CONTINUE_BIND = ''CONTINUE_BIND''"
| "action_text NA_AWAIT_USER_SIGNATURE = ''AWAIT_USER_SIGNATURE''"
| "action_text NA_CREATE_PAYMENT_INTENT = ''CREATE_PAYMENT_INTENT''"
| "action_text NA_DISPATCH_PAYMENT = ''DISPATCH_PAYMENT''"
| "action_text NA_AWAIT_PROVIDER = ''AWAIT_PROVIDER''"
| "action_text NA_RECONCILE_PAYMENT = ''RECONCILE_PAYMENT''"
| "action_text NA_RETRY_PAYMENT = ''RETRY_PAYMENT''"
| "action_text NA_NONE = ''NONE''"

definition action_all :: "next_action list" where
  "action_all =
    [NA_CONTINUE_ADMIT, NA_CONTINUE_BIND, NA_AWAIT_USER_SIGNATURE, NA_CREATE_PAYMENT_INTENT
     , NA_DISPATCH_PAYMENT, NA_AWAIT_PROVIDER, NA_RECONCILE_PAYMENT, NA_RETRY_PAYMENT
     , NA_NONE]"

definition action_of_text :: "string \<Rightarrow> next_action option" where
  "action_of_text s = List.find (\<lambda>x. action_text x = s) action_all"

interpretation action_enum: text_enum action_text action_all action_of_text
proof unfold_locales
  show "x \<in> set action_all" for x by (cases x) (simp_all add: action_all_def)
  show "distinct (map action_text action_all)" by (simp add: action_all_def)
qed (simp add: action_of_text_def)

section \<open>The authority lattice\<close>

text \<open>
  \<open>AuthorityLevel\<close> of \<^verbatim>\<open>packages/schemas/provenance.py\<close> is an \<open>IntEnum\<close>: its members
  compare as their numbers, a linear order.
\<close>

datatype authority_level =
    MERCHANT_DATA | AGENT_PROPOSAL | TRUSTED_INTERNAL_SERVICE | AUTHORIZATION
  | SYSTEM_SECURITY_POLICY | USER_POLICY

fun authority_value :: "authority_level \<Rightarrow> int" where
  "authority_value MERCHANT_DATA = 10"
| "authority_value AGENT_PROPOSAL = 20"
| "authority_value TRUSTED_INTERNAL_SERVICE = 30"
| "authority_value AUTHORIZATION = 40"
| "authority_value SYSTEM_SECURITY_POLICY = 50"
| "authority_value USER_POLICY = 60"

lemma authority_value_inj: "authority_value a = authority_value b \<Longrightarrow> a = b"
  by (cases a; cases b) simp_all

instantiation authority_level :: linorder
begin

definition less_eq_authority_level :: "authority_level \<Rightarrow> authority_level \<Rightarrow> bool" where
  "less_eq_authority_level a b \<longleftrightarrow> authority_value a \<le> authority_value b"

definition less_authority_level :: "authority_level \<Rightarrow> authority_level \<Rightarrow> bool" where
  "less_authority_level a b \<longleftrightarrow> authority_value a < authority_value b"

instance
  by standard (auto simp: less_eq_authority_level_def less_authority_level_def authority_value_inj)

end

lemma USER_POLICY_top: "a \<le> USER_POLICY"
  by (cases a) (simp_all add: less_eq_authority_level_def)

section \<open>Exceptions\<close>

text \<open>
  Every exception the modelled code raises, with the data a handler or the audit trail reads
  from it. An \<open>InvariantViolation\<close> carries the name of the invariant
  (\<^verbatim>\<open>packages/schemas/invariants.py\<close>), a \<open>ValidationError\<close> the pydantic
  model that rejected its input, an \<open>IntegrityError\<close> the database constraint, a provider
  error its detail text.
\<close>

datatype exn =
    InvariantViolation string
  | ValidationError string
  | UnicodeEncodeError
  | OverflowError
  | ValueError string
  | TypeError string
  | RuntimeError string
  | IntegrityError string
  | AuthorityEscalation authority_level authority_level string
  | CapabilityDenied string capability
  | IllegalTransition mission_state mission_state
  | IllegalPaymentTransition payment_state payment_state
  | BindRefusedOfferChanged string
  | ApprovalVerificationError reason_code
  | AuthorizationNotFound
  | TransactionBindingFailure
  | AuthorizationReplayDetected
  | AuthorizationExpired
  | AuthorizationNotActive
  | AuthorizationProofFailure reason_code
  | PaymentRequestRejected
  | IdempotencyConflict
  | MissionNotAuthorized
  | ProviderTimeout string
  | ProviderTransientError string
  | ProviderAmbiguity string
  | ProviderTerminalError string
  | ProviderPaymentMismatch string
  | WebhookVerificationError string
  | WebhookRejected string
  | OSError
  | KeyError string
  | MissionNotFound
  | UnknownProvider string
  | ProviderUnavailable string
  | HTTPException int string

text \<open>\<open>require(condition, invariant, detail)\<close>.\<close>

definition require :: "bool \<Rightarrow> string \<Rightarrow> exn + unit" where
  "require condition invariant = (if condition then Inr () else Inl (InvariantViolation invariant))"

lemma require_eq_Inr_iff [simp]: "require b i = Inr u \<longleftrightarrow> b"
  by (simp add: require_def)

end
