(* ===== verification/Json.thy ===== *)
theory Json
  imports Prelude "HOL-Library.Char_ord" "HOL-Library.List_Lexorder"
begin

text \<open>
  JSON values and \<open>json.dumps(..., sort_keys=True, separators=(",", ":"))\<close> of the Python
  standard library, with and without \<open>ensure_ascii\<close>, and the proof that the text
  determines the value. A character of a \<^typ>\<open>string\<close> is a code point below U+0100.
  An object is the list of its members in insertion order; \<open>normalise\<close> sorts the members
  by key, as \<open>sort_keys\<close> does, so that two Python dictionaries that are equal have the same
  normal form. A float is represented by the shortest text that \<open>float.__repr__\<close> gives it
  (which determines the float).
\<close>

datatype json =
    JNull
  | JBool bool
  | JInt int
  | JFloat string
  | JStr string
  | JList "json list"
  | JObj "(string \<times> json) list"

section \<open>Encoding\<close>

definition esc_char :: "bool \<Rightarrow> char \<Rightarrow> string" where
  "esc_char ascii c =
     (if c = CHR 0x22 then [CHR 0x5C, CHR 0x22]
      else if c = CHR 0x5C then [CHR 0x5C, CHR 0x5C]
      else if c = CHR 0x0A then [CHR 0x5C, CHR ''n'']
      else if c = CHR 0x0D then [CHR 0x5C, CHR ''r'']
      else if c = CHR 0x09 then [CHR 0x5C, CHR ''t'']
      else if c = CHR 0x08 then [CHR 0x5C, CHR ''b'']
      else if c = CHR 0x0C then [CHR 0x5C, CHR ''f'']
      else if of_char c < (32::int) \<or> ascii \<and> (127::int) \<le> of_char c
        then [CHR 0x5C, CHR ''u''] @ hex_fixed 4 (of_char c)
      else [c])"

definition enc_str :: "bool \<Rightarrow> string \<Rightarrow> string" where
  "enc_str ascii s = CHR 0x22 # concat (map (esc_char ascii) s) @ [CHR 0x22]"

text \<open>The flag of \<open>enc_elems\<close> and \<open>enc_members\<close> says that no element has been written
  yet, so that no comma is due.\<close>

fun enc :: "bool \<Rightarrow> json \<Rightarrow> string"
  and enc_elems :: "bool \<Rightarrow> bool \<Rightarrow> json list \<Rightarrow> string"
  and enc_members :: "bool \<Rightarrow> bool \<Rightarrow> (string \<times> json) list \<Rightarrow> string"
where
  "enc a JNull = ''null''"
| "enc a (JBool b) = (if b then ''true'' else ''false'')"
| "enc a (JInt i) = dec_int i"
| "enc a (JFloat lexeme) = lexeme"
| "enc a (JStr s) = enc_str a s"
| "enc a (JList xs) = CHR ''['' # enc_elems a True xs"
| "enc a (JObj ms) = CHR 0x7B # enc_members a True ms"
| "enc_elems a start [] = '']''"
| "enc_elems a start (x # xs) = (if start then [] else '','') @ enc a x @ enc_elems a False xs"
| "enc_members a start [] = ''}''"
| "enc_members a start ((k, v) # ms) =
     (if start then [] else '','') @ enc_str a k @ '':'' @ enc a v @ enc_members a False ms"

fun normalise :: "json \<Rightarrow> json" where
  "normalise (JList xs) = JList (map normalise xs)"
| "normalise (JObj ms) = JObj (sort_key fst (map (\<lambda>(k, v). (k, normalise v)) ms))"
| "normalise j = j"

definition dumps :: "bool \<Rightarrow> json \<Rightarrow> string" where
  "dumps ascii j = enc ascii (normalise j)"

text \<open>The member of an object under a key (\<open>payload.get(key)\<close> of Python), if any.\<close>

definition jget :: "string \<Rightarrow> (string \<times> json) list \<Rightarrow> json option" where
  "jget k ms = map_of ms k"

section \<open>Texts that determine their value\<close>

text \<open>
  The interface of an encoder inside a longer text: under well-formedness, an encoded
  value followed by a character that may follow it (or by the end of the text) can be
  read back in one way only.
\<close>

locale delimited =
  fixes encode :: "'a \<Rightarrow> string"
    and ok :: "'a \<Rightarrow> bool"
    and follow :: "char set"
  assumes decode: "ok x \<Longrightarrow> ok y \<Longrightarrow> r = [] \<or> hd r \<in> follow \<Longrightarrow> s = [] \<or> hd s \<in> follow
      \<Longrightarrow> encode x @ r = encode y @ s \<Longrightarrow> x = y \<and> r = s"
begin

lemma encode_inj: "ok x \<Longrightarrow> ok y \<Longrightarrow> encode x = encode y \<Longrightarrow> x = y"
  using decode [of x y "[]" "[]"] by simp

lemma encode_then:
  "ok x \<Longrightarrow> ok y \<Longrightarrow> c \<in> follow \<Longrightarrow> d \<in> follow \<Longrightarrow>
   encode x @ c # r = encode y @ d # s \<Longrightarrow> x = y \<and> c = d \<and> r = s"
  using decode [of x y "c # r" "d # s"] by simp

end

text \<open>A quoted text may be followed by anything: it ends at the first unescaped quote.\<close>

lemma esc_char_shape:
  "esc_char a c = [c] \<and> c \<noteq> CHR 0x22 \<and> c \<noteq> CHR 0x5C
   \<or> (\<exists>d. d \<in> set ''\"nrtbf'' \<union> {CHR 0x5C} \<and> esc_char a c = [CHR 0x5C, d])
   \<or> esc_char a c = [CHR 0x5C, CHR ''u''] @ hex_fixed 4 (of_char c)"
  by (auto simp: esc_char_def)

lemma esc_char_nonempty [simp]: "esc_char a c \<noteq> []"
  by (simp add: esc_char_def)

lemma hd_esc_char: "hd (esc_char a c) \<noteq> CHR 0x22"
  by (simp add: esc_char_def)

lemma of_char_lt_256: "(of_char c :: int) < 256"
  by (cases c) (simp add: of_char_def)

lemma of_char_ge_0: "0 \<le> (of_char c :: int)"
  by (cases c) (simp add: of_char_def)

lemma hex4_inj:
  assumes "hex_fixed 4 (of_char c) @ r = hex_fixed 4 (of_char d) @ s"
  shows "c = d \<and> r = s"
proof -
  from assms have eq: "hex_fixed 4 (of_char c) = hex_fixed 4 (of_char d)" and rs: "r = s"
    by (simp_all add: append_eq_append_conv)
  from hex_fixed_inj [OF eq] have "(of_char c :: int) = of_char d"
    using of_char_lt_256 [of c] of_char_lt_256 [of d] of_char_ge_0 [of c] of_char_ge_0 [of d] by simp
  with rs show ?thesis by simp
qed

lemma esc_char_decode:
  assumes "esc_char a c @ r = esc_char a d @ s"
  shows "c = d \<and> r = s"
proof (cases "esc_char a c = [CHR 0x5C, CHR ''u''] @ hex_fixed 4 (of_char c)")
  case u: True
  show ?thesis
  proof (cases "esc_char a d = [CHR 0x5C, CHR ''u''] @ hex_fixed 4 (of_char d)")
    case True
    with u assms have "hex_fixed 4 (of_char c) @ r = hex_fixed 4 (of_char d) @ s" by simp
    then show ?thesis by (rule hex4_inj)
  next
    case False
    with u assms show ?thesis by (auto simp: esc_char_def split: if_splits)
  qed
next
  case False
  with assms show ?thesis by (auto simp: esc_char_def split: if_splits)
qed

lemma enc_chars_decode:
  "concat (map (esc_char a) s) @ CHR 0x22 # r = concat (map (esc_char a) t) @ CHR 0x22 # r'
   \<Longrightarrow> s = t \<and> r = r'"
proof (induction s arbitrary: t)
  case Nil
  show ?case
  proof (cases t)
    case Nil
    with Nil.prems show ?thesis by simp
  next
    case (Cons d t')
    with Nil.prems have "hd (esc_char a d) = CHR 0x22"
      by (cases "esc_char a d") auto
    with hd_esc_char show ?thesis by metis
  qed
next
  case (Cons c s)
  show ?case
  proof (cases t)
    case Nil
    with Cons.prems have "hd (esc_char a c) = CHR 0x22"
      by (cases "esc_char a c") auto
    with hd_esc_char show ?thesis by metis
  next
    case t: (Cons d t')
    with Cons.prems have
      "esc_char a c @ concat (map (esc_char a) s) @ CHR 0x22 # r
       = esc_char a d @ concat (map (esc_char a) t') @ CHR 0x22 # r'" by simp
    from esc_char_decode [OF this] have "c = d"
      and "concat (map (esc_char a) s) @ CHR 0x22 # r = concat (map (esc_char a) t') @ CHR 0x22 # r'"
      by blast+
    with Cons.IH [of t'] t show ?thesis by blast
  qed
qed

lemma enc_str_decode: "enc_str a s @ r = enc_str a t @ r' \<Longrightarrow> s = t \<and> r = r'"
  using enc_chars_decode [of a s r t r'] by (simp add: enc_str_def)

interpretation quoted: delimited "enc_str a" "\<lambda>_. True" UNIV
  by unfold_locales (rule enc_str_decode)

text \<open>Integers end at the first character that is neither a digit nor a minus sign.\<close>

definition int_chars :: "char set" where
  "int_chars = insert (CHR ''-'') dec_digits"

interpretation integer: delimited dec_int "\<lambda>_. True" "- int_chars"
proof unfold_locales
  fix x y r s
  assume r: "r = [] \<or> hd r \<in> - int_chars" and s: "s = [] \<or> hd s \<in> - int_chars"
    and eq: "dec_int x @ r = dec_int y @ s"
  have "set (dec_int i) \<subseteq> int_chars" for i
    using set_dec_int [of i] by (simp add: int_chars_def)
  with r s eq have "dec_int x = dec_int y \<and> r = s"
    by (intro split_at_delimiter [where A = int_chars]) auto
  then show "x = y \<and> r = s" by (auto dest: dec_int_inj)
qed

section \<open>The encoder of values\<close>

definition float_chars :: "char set" where
  "float_chars = int_chars \<union> set ''+.eNaIfinty''"

definition float_lexeme :: "string \<Rightarrow> bool" where
  "float_lexeme s \<longleftrightarrow> s \<noteq> [] \<and> set s \<subseteq> float_chars \<and> hd s \<in> int_chars \<union> set ''NI''
     \<and> \<not> set s \<subseteq> int_chars"

fun json_ok :: "json \<Rightarrow> bool" where
  "json_ok (JFloat s) = float_lexeme s"
| "json_ok (JList xs) = (\<forall>x \<in> set xs. json_ok x)"
| "json_ok (JObj ms) = (\<forall>m \<in> set ms. json_ok (snd m))"
| "json_ok _ = True"

definition close_chars :: "char set" where
  "close_chars = {CHR '','', CHR '']'', CHR 0x7D}"

text \<open>The first character of a value tells its kind.\<close>

datatype kind = KOther | KNull | KTrue | KFalse | KNum | KStr | KList | KObj

fun kind_of :: "json \<Rightarrow> kind" where
  "kind_of JNull = KNull"
| "kind_of (JBool b) = (if b then KTrue else KFalse)"
| "kind_of (JInt _) = KNum"
| "kind_of (JFloat _) = KNum"
| "kind_of (JStr _) = KStr"
| "kind_of (JList _) = KList"
| "kind_of (JObj _) = KObj"

definition kind_of_char :: "char \<Rightarrow> kind" where
  "kind_of_char c = (if c = CHR ''n'' then KNull else if c = CHR ''t'' then KTrue
     else if c = CHR ''f'' then KFalse else if c = CHR 0x22 then KStr
     else if c = CHR ''['' then KList else if c = CHR 0x7B then KObj
     else if c \<in> int_chars \<union> set ''NI'' then KNum else KOther)"

lemma hd_dec_int: "hd (dec_int i) \<in> int_chars"
  using hd_dec_nat by (simp add: dec_int_def int_chars_def)

lemma int_chars_kind: "c \<in> int_chars \<Longrightarrow> kind_of_char c = KNum"
  by (auto simp: int_chars_def dec_digits_def kind_of_char_def)

lemma enc_hd:
  assumes "json_ok j" shows "enc a j \<noteq> [] \<and> kind_of_char (hd (enc a j)) = kind_of j"
proof (cases j)
  case (JInt i)
  then show ?thesis using int_chars_kind [OF hd_dec_int [of i]] by simp
next
  case (JFloat s)
  with assms have "s \<noteq> []" and "hd s \<in> int_chars \<union> set ''NI''" by (simp_all add: float_lexeme_def)
  then show ?thesis using JFloat int_chars_kind [of "hd s"] by (auto simp: kind_of_char_def)
qed (simp_all add: kind_of_char_def enc_str_def)

lemma hd_enc_kind: "json_ok j \<Longrightarrow> enc a j @ r = c # r' \<Longrightarrow> kind_of j = kind_of_char c"
  using enc_hd [of j a] by (cases "enc a j") auto

lemma kind_eq:
  assumes "json_ok j" and "json_ok j'" and "enc a j @ r = enc a j' @ r'"
  shows "kind_of j = kind_of j'"
proof -
  from enc_hd [OF assms(2), of a] obtain c cs where c: "enc a j' = c # cs" by (cases "enc a j'") auto
  with assms hd_enc_kind [of j a r c "cs @ r'"] hd_enc_kind [of j' a r' c "cs @ r'"]
  show ?thesis by simp
qed

lemma kind_of_neq_other: "kind_of j \<noteq> KOther"
  by (cases j) simp_all

lemma kind_inversions:
  "kind_of j = KNull \<Longrightarrow> j = JNull"
  "kind_of j = KTrue \<Longrightarrow> j = JBool True"
  "kind_of j = KFalse \<Longrightarrow> j = JBool False"
  "kind_of j = KNum \<Longrightarrow> (\<exists>i. j = JInt i) \<or> (\<exists>s. j = JFloat s)"
  "kind_of j = KStr \<Longrightarrow> \<exists>s. j = JStr s"
  "kind_of j = KList \<Longrightarrow> \<exists>xs. j = JList xs"
  "kind_of j = KObj \<Longrightarrow> \<exists>ms. j = JObj ms"
  by (cases j; simp split: if_splits)+

lemma close_not_num: "c \<in> close_chars \<Longrightarrow> c \<notin> float_chars"
  by (auto simp: close_chars_def float_chars_def int_chars_def dec_digits_def)

lemma set_dec_int_chars: "set (dec_int i) \<subseteq> int_chars"
  using set_dec_int [of i] by (simp add: int_chars_def)

lemma number_chars:
  "json_ok v \<Longrightarrow> kind_of v = KNum \<Longrightarrow> set (enc a v) \<subseteq> float_chars"
  by (drule kind_inversions(4))
    (auto simp: float_chars_def float_lexeme_def dest: subsetD [OF set_dec_int_chars])

lemma number_inj:
  assumes "json_ok j" "json_ok j'" "kind_of j = KNum" "kind_of j' = KNum" "enc a j = enc a j'"
  shows "j = j'"
proof -
  have no: "\<not> float_lexeme (dec_int i)" for i
    by (simp add: float_lexeme_def set_dec_int_chars)
  with assms kind_inversions(4) [of j] kind_inversions(4) [of j'] show ?thesis
    by (auto dest: dec_int_inj)
qed

lemma number_decode:
  assumes ok: "json_ok j" "json_ok j'" and k: "kind_of j = KNum"
    and r: "r = [] \<or> hd r \<in> close_chars" and r': "r' = [] \<or> hd r' \<in> close_chars"
    and eq: "enc a j @ r = enc a j' @ r'"
  shows "j = j' \<and> r = r'"
proof -
  from kind_eq [OF ok eq] k have k': "kind_of j' = KNum" by simp
  from eq number_chars [OF ok(1) k] number_chars [OF ok(2) k'] r r' close_not_num
  have "enc a j = enc a j' \<and> r = r'"
    by (intro split_at_delimiter [where A = float_chars]) auto
  with number_inj [OF ok k k'] show ?thesis by blast
qed

lemma enc_elems_close: "enc_elems a False xs @ r = [] \<or> hd (enc_elems a False xs @ r) \<in> close_chars"
  by (cases xs) (simp_all add: close_chars_def)

lemma enc_members_close:
  "enc_members a False ms @ r = [] \<or> hd (enc_members a False ms @ r) \<in> close_chars"
  by (cases ms) (auto simp: close_chars_def)

lemma bracket_not_value: "json_ok y \<Longrightarrow> CHR '']'' # r = enc a y @ r' \<Longrightarrow> False"
  using hd_enc_kind [of y a r' "CHR '']''" r] kind_of_neq_other [of y]
  by (simp add: kind_of_char_def int_chars_def dec_digits_def)

lemma enc_decode:
  "json_ok j \<Longrightarrow> json_ok j' \<Longrightarrow> r = [] \<or> hd r \<in> close_chars \<Longrightarrow> r' = [] \<or> hd r' \<in> close_chars
    \<Longrightarrow> enc a j @ r = enc a j' @ r' \<Longrightarrow> j = j' \<and> r = r'"
  "\<forall>x\<in>set xs. json_ok x \<Longrightarrow> \<forall>x\<in>set xs'. json_ok x
    \<Longrightarrow> enc_elems a start xs @ r = enc_elems a start xs' @ r' \<Longrightarrow> xs = xs' \<and> r = r'"
  "\<forall>m\<in>set ms. json_ok (snd m) \<Longrightarrow> \<forall>m\<in>set ms'. json_ok (snd m)
    \<Longrightarrow> enc_members a start ms @ r = enc_members a start ms' @ r' \<Longrightarrow> ms = ms' \<and> r = r'"
proof (induction a j and a start xs and a start ms arbitrary: j' r r' and xs' r r' and ms' r r'
    rule: enc_enc_elems_enc_members.induct)
  case (1 a)
  then show ?case using kind_eq [OF 1(1,2,5)] kind_inversions(1) [of j'] by simp
next
  case (2 a b)
  then show ?case using kind_eq [OF 2(1,2,5)] kind_inversions(2,3) [of j'] by (auto split: if_splits)
next
  case (3 a i)
  then show ?case by (intro number_decode [OF 3(1,2) _ 3(3-5)]) simp
next
  case (4 a s)
  then show ?case by (intro number_decode [OF 4(1,2) _ 4(3-5)]) simp
next
  case (5 a s)
  then obtain t where "j' = JStr t" using kind_eq [OF 5(1,2,5)] kind_inversions(5) [of j'] by auto
  with 5 enc_str_decode [of a s r t r'] show ?case by simp
next
  case (6 a xs)
  from kind_eq [OF 6(2,3,6)] kind_inversions(6) [of j'] obtain ys where j': "j' = JList ys" by auto
  from 6(2,3,6) j' "6.IH" [of ys r r'] show ?case by simp
next
  case (7 a ms)
  from kind_eq [OF 7(2,3,6)] kind_inversions(7) [of j'] obtain ns where j': "j' = JObj ns" by auto
  from 7(2,3,6) j' "7.IH" [of ns r r'] show ?case by simp
next
  case (8 a start)
  show ?case
  proof (cases xs')
    case Nil
    with 8 show ?thesis by simp
  next
    case (Cons y ys)
    with 8 have "json_ok y" and "start \<Longrightarrow> CHR '']'' # r = enc a y @ enc_elems a False ys @ r'"
      and start by (simp_all split: if_splits)
    then show ?thesis using bracket_not_value by blast
  qed
next
  case (9 a start x xs)
  show ?case
  proof (cases xs')
    case Nil
    with "9.prems" have "json_ok x" and "start \<Longrightarrow> CHR '']'' # r' = enc a x @ enc_elems a False xs @ r"
      and start by (simp_all split: if_splits)
    then show ?thesis using bracket_not_value by blast
  next
    case (Cons y ys)
    with "9.prems" have "enc a x @ enc_elems a False xs @ r = enc a y @ enc_elems a False ys @ r'"
      by (simp split: if_splits)
    from "9.IH"(1) [OF _ _ enc_elems_close enc_elems_close this] "9.prems" Cons
    have "x = y" and eq: "enc_elems a False xs @ r = enc_elems a False ys @ r'" by simp_all
    with "9.IH"(2) [OF _ _ eq] "9.prems" Cons show ?thesis by simp
  qed
next
  case (10 a start)
  then show ?case by (cases ms') (auto simp: enc_str_def split: if_splits)
next
  case (11 a start k v ms)
  show ?case
  proof (cases ms')
    case Nil
    with "11.prems" show ?thesis by (auto simp: enc_str_def split: if_splits)
  next
    case (Cons m ns)
    obtain l w where m: "m = (l, w)" by (cases m)
    from "11.prems" Cons m have
      "enc_str a k @ '':'' @ enc a v @ enc_members a False ms @ r
       = enc_str a l @ '':'' @ enc a w @ enc_members a False ns @ r'"
      by (simp split: if_splits)
    from enc_str_decode [OF this] have kl: "k = l"
      and "enc a v @ enc_members a False ms @ r = enc a w @ enc_members a False ns @ r'" by simp_all
    from "11.IH"(1) [OF _ _ enc_members_close enc_members_close this(2)] "11.prems" Cons m
    have "v = w" and eq: "enc_members a False ms @ r = enc_members a False ns @ r'" by simp_all
    with "11.IH"(2) [OF _ _ eq] "11.prems" Cons m kl show ?thesis by simp
  qed
qed

interpretation jvalue: delimited "enc a" json_ok close_chars
  by unfold_locales (rule enc_decode(1))

section \<open>Normal forms\<close>

lemma json_ok_normalise [simp]: "json_ok (normalise j) = json_ok j"
  by (induction j rule: normalise.induct) (auto simp: case_prod_beta image_iff)

text \<open>Equal texts come from values with the same normal form.\<close>

theorem dumps_inj:
  "json_ok j \<Longrightarrow> json_ok j' \<Longrightarrow> dumps a j = dumps a j' \<Longrightarrow> normalise j = normalise j'"
  unfolding dumps_def by (rule jvalue.encode_inj) simp_all

end
