(* ===== verification/Timestamp.thy ===== *)
theory Timestamp
  imports Json
begin

text \<open>
  \<open>datetime\<close> of the Python standard library as far as PACTRA uses it. A timezone-aware
  value is the instant it names, in microseconds since 0001-01-01T00:00:00 UTC, with its
  offset; a naive value is only its wall-clock reading. The calendar is the proleptic
  Gregorian one, computed as the library's \<open>_ord2ymd\<close> and \<open>_ymd2ord\<close> do.
\<close>

type_synonym instant = int

datatype datetime = Naive instant | Aware instant int

definition usec_per_day :: int where
  "usec_per_day = 86400000000"

section \<open>The calendar\<close>

definition days_before_month :: "bool \<Rightarrow> int \<Rightarrow> int" where
  "days_before_month leap m =
     [0, 0, 31, 59, 90, 120, 151, 181, 212, 243, 273, 304, 334] ! nat m
       + (if 2 < m \<and> leap then 1 else 0)"

definition days_in_month :: "bool \<Rightarrow> int \<Rightarrow> int" where
  "days_in_month leap m = [0, 31, 28, 31, 30, 31, 30, 31, 31, 30, 31, 30, 31] ! nat m
     + (if m = 2 \<and> leap then 1 else 0)"

definition is_leap :: "int \<Rightarrow> bool" where
  "is_leap y \<longleftrightarrow> y mod 4 = 0 \<and> (y mod 100 \<noteq> 0 \<or> y mod 400 = 0)"

definition days_before_year :: "int \<Rightarrow> int" where
  "days_before_year y = (y - 1) * 365 + (y - 1) div 4 - (y - 1) div 100 + (y - 1) div 400"

text \<open>Zero-based day number of a date.\<close>

definition ymd2ord :: "int \<Rightarrow> int \<Rightarrow> int \<Rightarrow> int" where
  "ymd2ord y m d = days_before_year y + days_before_month (is_leap y) m + (d - 1)"

text \<open>Month and day of the zero-based day of a year.\<close>

definition month_day :: "bool \<Rightarrow> int \<Rightarrow> int \<times> int" where
  "month_day leap n = (let
     m = (n + 50) div 32;
     p = days_before_month leap m
     in if n < p then (m - 1, n - (p - days_in_month leap (m - 1)) + 1) else (m, n - p + 1))"

definition ord2ymd :: "int \<Rightarrow> int \<times> int \<times> int" where
  "ord2ymd n = (let
     n400 = n div 146097; r400 = n mod 146097;
     n100 = r400 div 36524; r100 = r400 mod 36524;
     n4 = r100 div 1461; r4 = r100 mod 1461;
     n1 = r4 div 365; r1 = r4 mod 365;
     year = n400 * 400 + 1 + n100 * 100 + n4 * 4 + n1
     in if n1 = 4 \<or> n100 = 4 then (year - 1, 12, 31)
        else let leap = (n1 = 3 \<and> (n4 \<noteq> 24 \<or> n100 = 3)) in (year, month_day leap r1))"

lemma month_day_table:
  "\<forall>n \<in> set [0..365]. \<forall>leap \<in> set [False, True]. (n < 365 \<or> leap) \<longrightarrow>
     (let (m, d) = month_day leap n in
        1 \<le> m \<and> m \<le> 12 \<and> 1 \<le> d \<and> d \<le> 31 \<and> days_before_month leap m + (d - 1) = n)"
  by code_simp

lemma month_day_correct:
  assumes "0 \<le> n" and "n < 365 \<or> n = 365 \<and> leap" and "month_day leap n = (m, d)"
  shows "1 \<le> m \<and> m \<le> 12 \<and> 1 \<le> d \<and> d \<le> 31 \<and> days_before_month leap m + (d - 1) = n"
proof -
  have "n \<in> set [0..365]" and "leap \<in> set [False, True]" and "n < 365 \<or> leap"
    using assms(1,2) by auto
  then show ?thesis using month_day_table assms(3) by fastforce
qed

lemma cycle_days:
  assumes "0 \<le> b" "b \<le> 3" "0 \<le> c" "c \<le> 24" "0 \<le> d" "d \<le> (3::int)"
  shows "days_before_year (a * 400 + 1 + b * 100 + c * 4 + d)
    = 146097 * a + 36524 * b + 1461 * c + 365 * d"
    and "is_leap (a * 400 + 1 + b * 100 + c * 4 + d) \<longleftrightarrow> d = 3 \<and> (c \<noteq> 24 \<or> b = 3)"
proof -
  have "(a * 400 + b * 100 + c * 4 + d) div 4 = 100 * a + 25 * b + c"
    and "(a * 400 + b * 100 + c * 4 + d) div 100 = 4 * a + b"
    and "(a * 400 + b * 100 + c * 4 + d) div 400 = a"
    using assms by linarith+
  then show "days_before_year (a * 400 + 1 + b * 100 + c * 4 + d)
    = 146097 * a + 36524 * b + 1461 * c + 365 * d"
    by (simp add: days_before_year_def algebra_simps)
  have low: "(k * q + x) mod k = 0 \<longleftrightarrow> x = k" if "0 < x" "x \<le> k" for k q x :: int
    using that by (cases "x = k") (simp_all add: mod_pos_pos_trivial)
  have 4: "a * 400 + 1 + b * 100 + c * 4 + d = 4 * (100 * a + 25 * b + c) + (d + 1)"
    and 100: "a * 400 + 1 + b * 100 + c * 4 + d = 100 * (4 * a + b) + (c * 4 + d + 1)"
    and 400: "a * 400 + 1 + b * 100 + c * 4 + d = 400 * a + (b * 100 + c * 4 + d + 1)" by simp_all
  have "(a * 400 + 1 + b * 100 + c * 4 + d) mod 4 = 0 \<longleftrightarrow> d + 1 = 4"
    unfolding 4 by (rule low) (use assms in simp_all)
  moreover have "(a * 400 + 1 + b * 100 + c * 4 + d) mod 100 = 0 \<longleftrightarrow> c * 4 + d + 1 = 100"
    unfolding 100 by (rule low) (use assms in simp_all)
  moreover have "(a * 400 + 1 + b * 100 + c * 4 + d) mod 400 = 0 \<longleftrightarrow> b * 100 + c * 4 + d + 1 = 400"
    unfolding 400 by (rule low) (use assms in simp_all)
  moreover have "c * 4 + d + 1 = 100 \<longleftrightarrow> c = 24 \<and> d = 3"
    and "b * 100 + c * 4 + d + 1 = 400 \<longleftrightarrow> b = 3 \<and> c = 24 \<and> d = 3" using assms by linarith+
  ultimately show "is_leap (a * 400 + 1 + b * 100 + c * 4 + d) \<longleftrightarrow> d = 3 \<and> (c \<noteq> 24 \<or> b = 3)"
    by (auto simp: is_leap_def)
qed

text \<open>The calendar date of a day determines the day.\<close>

theorem ymd2ord_ord2ymd:
  assumes "ord2ymd n = (y, m, d)"
  shows "ymd2ord y m d = n" and "1 \<le> m" and "m \<le> 12" and "1 \<le> d" and "d \<le> 31"
    and "0 \<le> n \<Longrightarrow> 0 \<le> y"
proof -
  define a r where "a = n div 146097" and "r = n mod 146097"
  define b s where "b = r div 36524" and "s = r mod 36524"
  define c t where "c = s div 1461" and "t = s mod 1461"
  define e u where "e = t div 365" and "u = t mod 365"
  note defs = a_def r_def b_def s_def c_def t_def e_def u_def
  have n: "n = 146097 * a + 36524 * b + 1461 * c + 365 * e + u"
    unfolding defs by (simp add: algebra_simps)
  have r: "0 \<le> r" "r < 146097" by (simp_all add: r_def)
  have s: "0 \<le> s" "s < 36524" by (simp_all add: s_def)
  have rs: "r = 36524 * b + s" by (simp add: b_def s_def)
  have b: "0 \<le> b" "b \<le> 4" "b = 4 \<Longrightarrow> s = 0" using rs r s by linarith+
  have t: "0 \<le> t" "t < 1461" by (simp_all add: t_def)
  have st: "s = 1461 * c + t" by (simp add: c_def t_def)
  have c: "0 \<le> c" "c \<le> 24" "c = 24 \<Longrightarrow> t < 1460" using st s t by linarith+
  have u: "0 \<le> u" "u < 365" by (simp_all add: u_def)
  have tu: "t = 365 * e + u" by (simp add: e_def u_def)
  have e: "0 \<le> e" "e \<le> 4" "e = 4 \<Longrightarrow> u = 0" using tu t u by linarith+
  have ob: "ord2ymd n = (if e = 4 \<or> b = 4 then (a * 400 + 1 + b * 100 + c * 4 + e - 1, 12, 31)
      else (a * 400 + 1 + b * 100 + c * 4 + e, month_day (e = 3 \<and> (c \<noteq> 24 \<or> b = 3)) u))"
    by (simp only: ord2ymd_def Let_def defs)
  have an: "0 \<le> n \<Longrightarrow> 0 \<le> a" by (simp add: a_def pos_imp_zdiv_nonneg_iff)
  have "ymd2ord y m d = n \<and> 1 \<le> m \<and> m \<le> 12 \<and> 1 \<le> d \<and> d \<le> 31 \<and> (0 \<le> n \<longrightarrow> 0 \<le> y)"
  proof (cases "e = 4 \<or> b = 4")
    case True
    with assms have ymd: "y = a * 400 + b * 100 + c * 4 + e" "m = 12" "d = 31"
      by (simp_all add: ob)
    show ?thesis
    proof (cases "b = 4")
      case b4: True
      with b have "s = 0" by simp
      then have "c = 0" "e = 0" "u = 0" by (simp_all add: defs)
      with ymd b4 have "y = a * 400 + 1 + 3 * 100 + 24 * 4 + 3" by simp
      with cycle_days [of 3 24 3 a] n b4 \<open>c = 0\<close> \<open>e = 0\<close> \<open>u = 0\<close> ymd an show ?thesis
        by (simp add: ymd2ord_def days_before_month_def)
    next
      case False
      with True have e4: "e = 4" by simp
      with tu u c(3) have "c \<noteq> 24" by linarith
      moreover from ymd e4 have "y = a * 400 + 1 + b * 100 + c * 4 + 3" by simp
      ultimately have "days_before_year y = 146097 * a + 36524 * b + 1461 * c + 365 * 3"
        and "is_leap y" using cycle_days [of b c 3 a] b c False by simp_all
      moreover from ymd(1) an b c e have "0 \<le> n \<longrightarrow> 0 \<le> y" by linarith
      moreover from n e(3) [OF e4] e4 have "n = 146097 * a + 36524 * b + 1461 * c + 1460" by simp
      ultimately show ?thesis using ymd(2,3) by (simp add: ymd2ord_def days_before_month_def)
    qed
  next
    case False
    define leap where "leap \<longleftrightarrow> e = 3 \<and> (c \<noteq> 24 \<or> b = 3)"
    from False assms have y: "y = a * 400 + 1 + b * 100 + c * 4 + e"
      and md: "month_day leap u = (m, d)"
      by (simp_all add: ob leap_def)
    from False b c e cycle_days [of b c e a] y
    have "days_before_year y = 146097 * a + 36524 * b + 1461 * c + 365 * e"
      and "is_leap y = leap" by (simp_all add: leap_def)
    moreover from month_day_correct [OF u(1) disjI1 [OF u(2)] md]
    have "1 \<le> m" "m \<le> 12" "1 \<le> d" "d \<le> 31" "days_before_month leap m + (d - 1) = u" by simp_all
    moreover from y an b c e have "0 \<le> n \<longrightarrow> 0 \<le> y" by linarith
    ultimately show ?thesis using n by (simp add: ymd2ord_def)
  qed
  then show "ymd2ord y m d = n" "1 \<le> m" "m \<le> 12" "1 \<le> d" "d \<le> 31" "0 \<le> n \<Longrightarrow> 0 \<le> y"
    by simp_all
qed

section \<open>Formatting\<close>

text \<open>\<open>%Y-%m-%dT%H:%M:%S.%fZ\<close> of the reading \<open>i\<close>.\<close>

definition strftime_utc :: "instant \<Rightarrow> string" where
  "strftime_utc i = (let
     (y, m, d) = ord2ymd (i div usec_per_day);
     u = i mod usec_per_day
     in dec_nat y @ ''-'' @ dec_fixed 2 m @ ''-'' @ dec_fixed 2 d @ ''T''
        @ dec_fixed 2 (u div 3600000000) @ '':'' @ dec_fixed 2 (u div 60000000 mod 60) @ '':''
        @ dec_fixed 2 (u div 1000000 mod 60) @ ''.'' @ dec_fixed 6 (u mod 1000000) @ ''Z'')"

text \<open>\<open>isoformat()\<close>: microseconds only when there are any, then the offset of an aware value.\<close>

definition iso_reading :: "instant \<Rightarrow> string" where
  "iso_reading i = (let
     (y, m, d) = ord2ymd (i div usec_per_day);
     u = i mod usec_per_day
     in dec_fixed 4 y @ ''-'' @ dec_fixed 2 m @ ''-'' @ dec_fixed 2 d @ ''T''
        @ dec_fixed 2 (u div 3600000000) @ '':'' @ dec_fixed 2 (u div 60000000 mod 60) @ '':''
        @ dec_fixed 2 (u div 1000000 mod 60)
        @ (if u mod 1000000 = 0 then [] else ''.'' @ dec_fixed 6 (u mod 1000000)))"

definition iso_offset :: "int \<Rightarrow> string" where
  "iso_offset off = (let a = \<bar>off\<bar> in
     (if off < 0 then ''-'' else ''+'') @ dec_fixed 2 (a div 3600000000) @ '':''
       @ dec_fixed 2 (a div 60000000 mod 60)
       @ (if a mod 60000000 = 0 then []
          else '':'' @ dec_fixed 2 (a div 1000000 mod 60)
            @ (if a mod 1000000 = 0 then [] else ''.'' @ dec_fixed 6 (a mod 1000000))))"

definition isoformat :: "datetime \<Rightarrow> string" where
  "isoformat t = (case t of Naive i \<Rightarrow> iso_reading i | Aware i off \<Rightarrow> iso_reading (i + off) @ iso_offset off)"

abbreviation iso_utc :: "instant \<Rightarrow> string" where
  "iso_utc i \<equiv> isoformat (Aware i 0)"

lemma reading_parts:
  assumes "0 \<le> i" "i < (86400000000::int)" "0 \<le> j" "j < (86400000000::int)"
    and "i div 3600000000 = j div 3600000000" "i div 60000000 mod 60 = j div 60000000 mod 60"
    and "i div 1000000 mod 60 = j div 1000000 mod 60" "i mod 1000000 = j mod 1000000"
  shows "i = j"
proof -
  have e: "x = 3600000000 * (x div 3600000000) + 60000000 * (x div 60000000 mod 60)
      + 1000000 * (x div 1000000 mod 60) + x mod 1000000" for x :: int
  proof -
    have "x div 3600000000 = x div 60000000 div 60"
      using zdiv_zmult2_eq [of 60 x 60000000] by simp
    moreover have "x div 60000000 = x div 1000000 div 60"
      using zdiv_zmult2_eq [of 60 x 1000000] by simp
    moreover have "x = 1000000 * (x div 1000000) + x mod 1000000"
      and "x div 1000000 = 60 * (x div 1000000 div 60) + x div 1000000 mod 60"
      and "x div 60000000 = 60 * (x div 60000000 div 60) + x div 60000000 mod 60" by simp_all
    ultimately show ?thesis by linarith
  qed
  from e [of i] e [of j] assms show ?thesis by linarith
qed

text \<open>
  Equal date fields and equal time-of-day fields mean the same instant. Both formats
  print each field on a fixed number of digits, so both reduce to this.
\<close>

lemma same_reading:
  assumes "ord2ymd (i div usec_per_day) = (y, m, d)" "ord2ymd (j div usec_per_day) = (y, m', d')"
    and "dec_fixed 2 m = dec_fixed 2 m'" "dec_fixed 2 d = dec_fixed 2 d'"
    and "dec_fixed 2 (i mod usec_per_day div 3600000000)
         = dec_fixed 2 (j mod usec_per_day div 3600000000)"
    and "dec_fixed 2 (i mod usec_per_day div 60000000 mod 60)
         = dec_fixed 2 (j mod usec_per_day div 60000000 mod 60)"
    and "dec_fixed 2 (i mod usec_per_day div 1000000 mod 60)
         = dec_fixed 2 (j mod usec_per_day div 1000000 mod 60)"
    and "i mod usec_per_day mod 1000000 = j mod usec_per_day mod 1000000"
  shows "i = j"
proof -
  have two: "x = x'" if "dec_fixed 2 x = dec_fixed 2 x'" "0 \<le> x" "x < 100" "0 \<le> x'" "x' < 100"
    for x x' using dec_fixed_inj [OF that(1)] that by simp
  from ymd2ord_ord2ymd [OF assms(1)] ymd2ord_ord2ymd [OF assms(2)]
  have "m = m'" "d = d'" using two [OF assms(3)] two [OF assms(4)] by simp_all
  with ymd2ord_ord2ymd(1) [OF assms(1)] ymd2ord_ord2ymd(1) [OF assms(2)]
  have days: "i div usec_per_day = j div usec_per_day" by simp
  define u v where "u = i mod usec_per_day" and "v = j mod usec_per_day"
  have uv: "0 \<le> u" "u < 86400000000" "0 \<le> v" "v < 86400000000"
    by (simp_all add: u_def v_def usec_per_day_def)
  then have h: "0 \<le> u div 3600000000" "u div 3600000000 < 100"
    "0 \<le> v div 3600000000" "v div 3600000000 < 100" by linarith+
  have "u = v"
  proof (rule reading_parts [OF uv])
    show "u div 3600000000 = v div 3600000000"
      using two [OF assms(5) [folded u_def v_def] h] .
    show "u div 60000000 mod 60 = v div 60000000 mod 60"
      using two [OF assms(6) [folded u_def v_def]] by simp
    show "u div 1000000 mod 60 = v div 1000000 mod 60"
      using two [OF assms(7) [folded u_def v_def]] by simp
    show "u mod 1000000 = v mod 1000000" using assms(8) [folded u_def v_def] .
  qed
  with days show ?thesis unfolding u_def v_def by (metis div_mult_mod_eq)
qed

text \<open>The canonical timestamp text determines the instant.\<close>

theorem strftime_utc_inj:
  assumes "strftime_utc i = strftime_utc j" and "0 \<le> i" and "0 \<le> j"
  shows "i = j"
proof -
  obtain y m d where 1: "ord2ymd (i div usec_per_day) = (y, m, d)" by (metis prod_cases3)
  obtain y' m' d' where 2: "ord2ymd (j div usec_per_day) = (y', m', d')" by (metis prod_cases3)
  define u v where "u = i mod usec_per_day" and "v = j mod usec_per_day"
  from 1 2 assms(2,3) have y: "0 \<le> y" "0 \<le> y'"
    using ymd2ord_ord2ymd(6) [OF 1] ymd2ord_ord2ymd(6) [OF 2]
    by (simp_all add: usec_per_day_def pos_imp_zdiv_nonneg_iff)
  from assms(1) have
    "dec_nat y @ ''-'' @ dec_fixed 2 m @ ''-'' @ dec_fixed 2 d @ ''T''
        @ dec_fixed 2 (u div 3600000000) @ '':'' @ dec_fixed 2 (u div 60000000 mod 60) @ '':''
        @ dec_fixed 2 (u div 1000000 mod 60) @ ''.'' @ dec_fixed 6 (u mod 1000000) @ ''Z''
     = dec_nat y' @ ''-'' @ dec_fixed 2 m' @ ''-'' @ dec_fixed 2 d' @ ''T''
        @ dec_fixed 2 (v div 3600000000) @ '':'' @ dec_fixed 2 (v div 60000000 mod 60) @ '':''
        @ dec_fixed 2 (v div 1000000 mod 60) @ ''.'' @ dec_fixed 6 (v mod 1000000) @ ''Z''"
    by (simp only: strftime_utc_def Let_def 1 2 prod.case u_def v_def)
  from split_at_delimiter [OF this set_dec_nat set_dec_nat]
  have yy: "dec_nat y = dec_nat y'" and fields:
    "dec_fixed 2 m = dec_fixed 2 m'" "dec_fixed 2 d = dec_fixed 2 d'"
    "dec_fixed 2 (u div 3600000000) = dec_fixed 2 (v div 3600000000)"
    "dec_fixed 2 (u div 60000000 mod 60) = dec_fixed 2 (v div 60000000 mod 60)"
    "dec_fixed 2 (u div 1000000 mod 60) = dec_fixed 2 (v div 1000000 mod 60)"
    "dec_fixed 6 (u mod 1000000) = dec_fixed 6 (v mod 1000000)"
    by (simp_all add: append_eq_append_conv del: dec_fixed.simps)
  from dec_nat_inj [OF yy y] have "y = y'" .
  moreover from dec_fixed_inj [OF fields(6)] have "u mod 1000000 = v mod 1000000" by simp
  ultimately show ?thesis
    using same_reading [OF 1 2 [folded \<open>y = y'\<close>] fields(1,2)] fields unfolding u_def v_def by blast
qed

end
