(* ===== verification/Sha256.thy ===== *)
theory Sha256
  imports Prelude
begin

text \<open>
  \<open>hashlib.sha256(...).hexdigest()\<close> of the Python standard library, which every digest,
  fingerprint and audit hash of PACTRA goes through. The function is the FIPS 180-4
  algorithm on 32-bit words, so that no property of the hash is assumed: a statement
  that needs the absence of a collision says which two messages must not collide.
  A byte string is a \<^typ>\<open>string\<close> whose characters are its bytes.
\<close>

unbundle bit_operations_syntax

type_synonym u32 = "32 word"

definition rotr32 :: "nat \<Rightarrow> u32 \<Rightarrow> u32" where
  "rotr32 n x = drop_bit n x OR push_bit (32 - n) x"

definition sha_ch :: "u32 \<Rightarrow> u32 \<Rightarrow> u32 \<Rightarrow> u32" where
  "sha_ch x y z = (x AND y) XOR (NOT x AND z)"

definition sha_maj :: "u32 \<Rightarrow> u32 \<Rightarrow> u32 \<Rightarrow> u32" where
  "sha_maj x y z = (x AND y) XOR (x AND z) XOR (y AND z)"

definition sha_S0 :: "u32 \<Rightarrow> u32" where
  "sha_S0 x = rotr32 2 x XOR rotr32 13 x XOR rotr32 22 x"

definition sha_S1 :: "u32 \<Rightarrow> u32" where
  "sha_S1 x = rotr32 6 x XOR rotr32 11 x XOR rotr32 25 x"

definition sha_s0 :: "u32 \<Rightarrow> u32" where
  "sha_s0 x = rotr32 7 x XOR rotr32 18 x XOR drop_bit 3 x"

definition sha_s1 :: "u32 \<Rightarrow> u32" where
  "sha_s1 x = rotr32 17 x XOR rotr32 19 x XOR drop_bit 10 x"

text \<open>The round constants of FIPS 180-4, in decimal.\<close>

definition sha_K :: "u32 list" where
  "sha_K = [
    1116352408, 1899447441, 3049323471, 3921009573, 961987163, 1508970993, 2453635748,
    2870763221, 3624381080, 310598401, 607225278, 1426881987, 1925078388, 2162078206,
    2614888103, 3248222580, 3835390401, 4022224774, 264347078, 604807628, 770255983,
    1249150122, 1555081692, 1996064986, 2554220882, 2821834349, 2952996808, 3210313671,
    3336571891, 3584528711, 113926993, 338241895, 666307205, 773529912, 1294757372,
    1396182291, 1695183700, 1986661051, 2177026350, 2456956037, 2730485921, 2820302411,
    3259730800, 3345764771, 3516065817, 3600352804, 4094571909, 275423344, 430227734,
    506948616, 659060556, 883997877, 958139571, 1322822218, 1537002063, 1747873779,
    1955562222, 2024104815, 2227730452, 2361852424, 2428436474, 2756734187, 3204031479,
    3329325298]"

record sha_state =
  sa :: u32
  sb :: u32
  sc :: u32
  sd :: u32
  se :: u32
  sf :: u32
  sg :: u32
  sh :: u32

definition sha_init :: sha_state where
  "sha_init = \<lparr>sa = 1779033703, sb = 3144134277, sc = 1013904242, sd = 2773480762,
     se = 1359893119, sf = 2600822924, sg = 528734635, sh = 1541459225\<rparr>"

text \<open>Padding: a \<open>1\<close> bit, zeros up to 56 modulo 64 bytes, the length in bits on 8 bytes.\<close>

fun bytes_be :: "nat \<Rightarrow> int \<Rightarrow> string" where
  "bytes_be 0 n = []"
| "bytes_be (Suc k) n = bytes_be k (n div 256) @ [char_of (n mod 256)]"

definition sha_pad :: "string \<Rightarrow> string" where
  "sha_pad m = m @ [char_of (128::nat)]
     @ replicate ((119 - length m mod 64) mod 64) (char_of (0::nat))
     @ bytes_be 8 (8 * int (length m))"

fun sha_words :: "string \<Rightarrow> u32 list" where
  "sha_words (a # b # c # d # rest) =
     word_of_int (((of_char a * 256 + of_char b) * 256 + of_char c) * 256 + of_char d)
       # sha_words rest"
| "sha_words _ = []"

text \<open>The message schedule, newest word first: each step reads \<open>W[t-2]\<close>, \<open>W[t-7]\<close>,
  \<open>W[t-15]\<close> and \<open>W[t-16]\<close>.\<close>

fun sha_extend :: "nat \<Rightarrow> u32 list \<Rightarrow> u32 list" where
  "sha_extend 0 rws = rws"
| "sha_extend (Suc n) rws =
     sha_extend n ((sha_s1 (rws ! 1) + rws ! 6 + sha_s0 (rws ! 14) + rws ! 15) # rws)"

definition sha_round :: "u32 \<times> u32 \<Rightarrow> sha_state \<Rightarrow> sha_state" where
  "sha_round kw s = (let
     t1 = sh s + sha_S1 (se s) + sha_ch (se s) (sf s) (sg s) + fst kw + snd kw;
     t2 = sha_S0 (sa s) + sha_maj (sa s) (sb s) (sc s)
     in \<lparr>sa = t1 + t2, sb = sa s, sc = sb s, sd = sc s,
         se = sd s + t1, sf = se s, sg = sf s, sh = sg s\<rparr>)"

definition sha_block :: "sha_state \<Rightarrow> u32 list \<Rightarrow> sha_state" where
  "sha_block s ws = (let
     r = fold sha_round (zip sha_K (rev (sha_extend 48 (rev ws)))) s
     in \<lparr>sa = sa s + sa r, sb = sb s + sb r, sc = sc s + sc r, sd = sd s + sd r,
         se = se s + se r, sf = sf s + sf r, sg = sg s + sg r, sh = sh s + sh r\<rparr>)"

function sha_blocks :: "sha_state \<Rightarrow> u32 list \<Rightarrow> sha_state" where
  "sha_blocks s ws = (if length ws < 16 then s
     else sha_blocks (sha_block s (take 16 ws)) (drop 16 ws))"
  by pat_completeness auto
termination by (relation "measure (\<lambda>(s, ws). length ws)") auto

declare sha_blocks.simps [simp del]

definition sha_state_words :: "sha_state \<Rightarrow> u32 list" where
  "sha_state_words s = [sa s, sb s, sc s, sd s, se s, sf s, sg s, sh s]"

text \<open>The digest as lowercase hexadecimal text, as \<open>hexdigest()\<close> returns it.\<close>

definition sha256_hex :: "string \<Rightarrow> string" where
  "sha256_hex m = concat (map (\<lambda>w. hex_fixed 8 (uint w))
     (sha_state_words (sha_blocks sha_init (sha_words (sha_pad m)))))"

lemma length_sha256_hex [simp]: "length (sha256_hex m) = 64"
  by (simp add: sha256_hex_def sha_state_words_def)

lemma set_sha256_hex: "set (sha256_hex m) \<subseteq> hex_digits"
  using set_hex_fixed by (auto simp: sha256_hex_def sha_state_words_def)

text \<open>
  Two messages collide when they differ and hash alike. Theorems about digests conclude
  with a collision of two named messages rather than assuming that none exists.
\<close>

definition sha_collision :: "string \<Rightarrow> string \<Rightarrow> bool" where
  "sha_collision m m' \<longleftrightarrow> m \<noteq> m' \<and> sha256_hex m = sha256_hex m'"

lemma sha256_eqD: "sha256_hex m = sha256_hex m' \<Longrightarrow> m = m' \<or> sha_collision m m'"
  by (auto simp: sha_collision_def)

end
