(* ===== verification/Canonical.thy ===== *)
theory Canonical
  imports Domain Timestamp Sha256 Floats
begin

text \<open>
  Canonical serialization and the digests built on it:
  \<^verbatim>\<open>packages/schemas/canonical.py\<close>, \<^verbatim>\<open>transaction.py\<close>,
  \<^verbatim>\<open>approval.py\<close> and \<open>request_fingerprint\<close> of \<^verbatim>\<open>payment.py\<close>.
  The main results: a canonical message determines its domain and its fields, so a
  transaction digest commits to all nine bound fields, up to an explicit SHA-256 collision.
\<close>

section \<open>Canonical messages\<close>

text \<open>
  The values a canonical digest may cover. \<open>COther\<close> stands for a value of any other Python
  type (a float, a list); it is rejected. A mapping is the list of its items.
\<close>

datatype cvalue = CStr string | CInt int | CBool bool | CTime datetime | CNone | COther string

type_synonym fields = "(string \<times> cvalue) list"

text \<open>The instants a \<open>datetime\<close> can hold: years 1 to 9999.\<close>

definition max_instant :: instant where
  "max_instant = 315537897599999999"

definition encode_timestamp :: "datetime \<Rightarrow> exn + string" where
  "encode_timestamp t = (case t of
     Naive i \<Rightarrow> Inl (InvariantViolation ''canonical.timestamp_is_timezone_aware'')
   | Aware i off \<Rightarrow> if 0 \<le> i \<and> i \<le> max_instant then Inr (strftime_utc i) else Inl OverflowError)"

definition encode_value :: "cvalue \<Rightarrow> exn + json" where
  "encode_value v = (case v of
     CBool b \<Rightarrow> Inr (JList [JStr ''b'', JBool b])
   | CInt i \<Rightarrow> Inr (JList [JStr ''i'', JInt i])
   | CStr s \<Rightarrow> Inr (JList [JStr ''s'', JStr s])
   | CTime t \<Rightarrow> bindE (encode_timestamp t) (\<lambda>s. Inr (JList [JStr ''t'', JStr s]))
   | CNone \<Rightarrow> Inr (JList [JStr ''n'', JNull])
   | COther ty \<Rightarrow> Inl (InvariantViolation ''canonical.value_type_is_supported''))"

definition encode_field :: "string \<times> cvalue \<Rightarrow> exn + string \<times> json" where
  "encode_field f = bindE (encode_value (snd f)) (\<lambda>j. Inr (fst f, j))"

definition canonical_bytes :: "fields \<Rightarrow> exn + string" where
  "canonical_bytes fs = bindE (mapE encode_field fs) (\<lambda>encoded. Inr (dumps True (JObj encoded)))"

definition domain_separator :: char where
  "domain_separator = CHR 0x1F"

definition is_ascii :: "string \<Rightarrow> bool" where
  "is_ascii s \<longleftrightarrow> (\<forall>c \<in> set s. of_char c < (128::int))"

definition canonical_message :: "string \<Rightarrow> fields \<Rightarrow> exn + string" where
  "canonical_message domain fs =
     bindE (require (domain \<noteq> []) ''canonical.message_has_domain'') (\<lambda>_.
     if \<not> is_ascii domain then Inl UnicodeEncodeError
     else bindE (canonical_bytes fs) (\<lambda>body. Inr (domain @ domain_separator # body)))"

definition canonical_digest :: "string \<Rightarrow> fields \<Rightarrow> exn + string" where
  "canonical_digest domain fs =
     bindE (canonical_message domain fs) (\<lambda>m. Inr (sha256_hex m))"

subsection \<open>What a canonical message says\<close>

text \<open>
  Two readings of one instant in different zones are the same value to the encoder;
  \<open>view_value\<close> forgets the offset and nothing else.
\<close>

definition view_value :: "cvalue \<Rightarrow> cvalue" where
  "view_value v = (case v of CTime (Aware i off) \<Rightarrow> CTime (Aware i 0) | _ \<Rightarrow> v)"

definition view_fields :: "fields \<Rightarrow> (string \<rightharpoonup> cvalue)" where
  "view_fields fs k = map_option view_value (map_of fs k)"

lemma encode_timestamp_inj:
  assumes "encode_timestamp t = Inr s" "encode_timestamp t' = Inr s"
  shows "\<exists>i off off'. t = Aware i off \<and> t' = Aware i off'"
  using assms by (auto simp: encode_timestamp_def dest: strftime_utc_inj
      split: datetime.splits if_splits)

lemma encode_value_inj:
  assumes "encode_value v = Inr j" "encode_value w = Inr j"
  shows "view_value v = view_value w"
  using assms by (cases v; cases w)
    (auto simp: encode_value_def view_value_def split: datetime.splits dest: encode_timestamp_inj)

lemma encode_value_json:
  "encode_value v = Inr j \<Longrightarrow> json_ok j \<and> normalise j = j"
  by (cases v) (auto simp: encode_value_def)

lemma encode_field_json:
  "encode_field f = Inr m \<Longrightarrow> json_ok (snd m) \<and> normalise (snd m) = snd m \<and> fst m = fst f"
  by (auto simp: encode_field_def dest: encode_value_json)

lemma encode_fields_ok:
  assumes "mapE encode_field fs = Inr js"
  shows "json_ok (JObj js)" and "normalise (JObj js) = JObj (sort_key fst js)"
    and "map fst js = map fst fs"
proof -
  from assms have all: "list_all2 (\<lambda>f j. encode_field f = Inr j) fs js" by (simp add: mapE_eq_Inr_iff)
  have each: "\<exists>f. encode_field f = Inr m" if "m \<in> set js" for m
    using all that by induction (auto simp del: split_paired_Ex)
  then show "json_ok (JObj js)" using encode_field_json by fastforce
  have "map (\<lambda>(k, v). (k, normalise v)) js = js"
    by (rule map_idI) (use each encode_field_json in fastforce)
  then show "normalise (JObj js) = JObj (sort_key fst js)" by simp
  from all show "map fst js = map fst fs"
    by induction (auto simp: encode_field_def)
qed

lemma encode_fields_map_of:
  assumes "mapE encode_field fs = Inr js"
  shows "map_of js k = (case map_of fs k of None \<Rightarrow> None
    | Some v \<Rightarrow> (case encode_value v of Inl e \<Rightarrow> None | Inr j \<Rightarrow> Some j))"
  using assms unfolding mapE_eq_Inr_iff
  by induction (auto simp: encode_field_def)

lemma encode_fields_total:
  assumes "mapE encode_field fs = Inr js" "map_of fs k = Some v"
  shows "\<exists>j. encode_value v = Inr j"
  using assms unfolding mapE_eq_Inr_iff
  by induction (auto simp: encode_field_def split: if_splits)

lemma sorted_members_map_of:
  assumes "distinct (map fst ms)" shows "map_of (sort_key fst ms) = map_of ms"
proof -
  have "mset (map fst (sort_key fst ms)) = mset (map fst ms)" by simp
  then have "distinct (map fst (sort_key fst ms))" using assms mset_eq_imp_distinct_iff by blast
  then show ?thesis using assms by (intro map_of_inject_set [THEN iffD2]) simp_all
qed

text \<open>JSON text holds no control character: the separator after the domain is the last one.\<close>

lemma hex_digits_printable: "c \<in> hex_digits \<Longrightarrow> c \<noteq> domain_separator"
  by (auto simp: hex_digits_def domain_separator_def)

lemma esc_char_printable:
  assumes "c \<in> set (esc_char a d)" shows "c \<noteq> domain_separator"
proof (cases "esc_char a d = [CHR 0x5C, CHR ''u''] @ hex_fixed 4 (of_char d)")
  case True
  with assms have "c \<in> {CHR 0x5C, CHR ''u''} \<or> c \<in> hex_digits"
    using subsetD [OF set_hex_fixed, of c 4 "of_char d"] by (simp only: set_append) auto
  then show ?thesis using hex_digits_printable by (auto simp: domain_separator_def)
next
  case False
  then have "d \<noteq> CHR 0x1F" by (auto simp: esc_char_def)
  with False esc_char_shape [of a d] assms show ?thesis by (auto simp: domain_separator_def)
qed

lemma enc_str_printable: "domain_separator \<notin> set (enc_str a s)"
  using esc_char_printable by (auto simp: enc_str_def) (auto simp: domain_separator_def)

lemma number_chars_printable: "c \<in> float_chars \<Longrightarrow> c \<noteq> domain_separator"
  by (auto simp: float_chars_def int_chars_def dec_digits_def domain_separator_def)

lemma dec_int_printable: "domain_separator \<notin> set (dec_int i)"
  using set_dec_int_chars [of i] number_chars_printable by (auto simp: float_chars_def)

lemma enc_printable:
  "json_ok j \<Longrightarrow> domain_separator \<notin> set (enc a j)"
  "\<forall>x\<in>set xs. json_ok x \<Longrightarrow> domain_separator \<notin> set (enc_elems a start xs)"
  "\<forall>m\<in>set ms. json_ok (snd m) \<Longrightarrow> domain_separator \<notin> set (enc_members a start ms)"
proof (induction a j and a start xs and a start ms rule: enc_enc_elems_enc_members.induct)
  case (4 a lexeme)
  then show ?case using number_chars_printable by (auto simp: float_lexeme_def)
qed (use dec_int_printable enc_str_printable in \<open>auto simp: domain_separator_def\<close>)

lemma canonical_bytes_printable:
  assumes "canonical_bytes fs = Inr body" shows "domain_separator \<notin> set body"
proof -
  from assms obtain js where "mapE encode_field fs = Inr js" and "body = dumps True (JObj js)"
    by (auto simp: canonical_bytes_def)
  with encode_fields_ok(1) enc_printable(1) json_ok_normalise show ?thesis unfolding dumps_def by metis
qed

text \<open>Canonical bytes determine the field mapping.\<close>

lemma canonical_bytes_inj:
  assumes "canonical_bytes fs = Inr body" "canonical_bytes gs = Inr body"
    and "distinct (map fst fs)" "distinct (map fst gs)"
  shows "view_fields fs = view_fields gs"
proof
  fix k
  from assms(1,2) obtain js ks where js: "mapE encode_field fs = Inr js"
    and ks: "mapE encode_field gs = Inr ks" and "dumps True (JObj js) = dumps True (JObj ks)"
    by (auto simp: canonical_bytes_def)
  with encode_fields_ok [OF js] encode_fields_ok [OF ks]
  have "sort_key fst js = sort_key fst ks" using dumps_inj [of "JObj js" "JObj ks"] by auto
  moreover from encode_fields_ok(3) [OF js] encode_fields_ok(3) [OF ks] assms(3,4)
  have "distinct (map fst js)" "distinct (map fst ks)" by simp_all
  ultimately have eq: "map_of js k = map_of ks k" by (metis sorted_members_map_of)
  then show "view_fields fs k = view_fields gs k"
    using encode_fields_total [OF js, of k] encode_fields_total [OF ks, of k]
    by (auto simp: view_fields_def encode_fields_map_of [OF js] encode_fields_map_of [OF ks]
        split: option.splits sum.splits dest: encode_value_inj)
qed

lemma separator_splits:
  assumes "d @ domain_separator # b = d' @ domain_separator # b'"
    and "domain_separator \<notin> set b" "domain_separator \<notin> set b'"
  shows "d = d' \<and> b = b'"
proof -
  from assms(1) have "rev b @ domain_separator # rev d = rev b' @ domain_separator # rev d'"
    by (metis append.assoc append_Cons append_Nil rev.simps(2) rev_append)
  from split_at_delimiter [where A = "- {domain_separator}", OF this] assms(2,3) show ?thesis by auto
qed

lemma canonical_message_inj:
  assumes "canonical_message d fs = Inr m" "canonical_message d' fs' = Inr m"
    and "distinct (map fst fs)" "distinct (map fst fs')"
  shows "d = d' \<and> view_fields fs = view_fields fs'"
proof -
  from assms(1,2) obtain b b' where b: "canonical_bytes fs = Inr b" "canonical_bytes fs' = Inr b'"
    and "d @ domain_separator # b = d' @ domain_separator # b'"
    by (auto simp: canonical_message_def split: if_splits)
  with separator_splits [of d b d' b'] canonical_bytes_printable have "d = d' \<and> b = b'" by blast
  with b canonical_bytes_inj assms(3,4) show ?thesis by blast
qed

text \<open>
  Two equal digests come from the same domain and the same fields, or exhibit a collision
  of SHA-256 between the two messages.
\<close>

lemma canonical_digest_commits:
  assumes "canonical_digest d fs = Inr h" "canonical_digest d' fs' = Inr h"
    and "distinct (map fst fs)" "distinct (map fst fs')"
  shows "d = d' \<and> view_fields fs = view_fields fs'
    \<or> (\<exists>m m'. canonical_message d fs = Inr m \<and> canonical_message d' fs' = Inr m' \<and> sha_collision m m')"
proof -
  from assms(1,2) obtain m m' where m: "canonical_message d fs = Inr m" "canonical_message d' fs' = Inr m'"
    and "sha256_hex m = sha256_hex m'" by (auto simp: canonical_digest_def)
  then consider "m = m'" | "sha_collision m m'" using sha256_eqD by blast
  then show ?thesis
  proof cases
    case 1
    with m assms(3,4) canonical_message_inj show ?thesis by blast
  next
    case 2
    with m show ?thesis by blast
  qed
qed

section \<open>Bound transactions\<close>

definition BINDING_VERSION :: string where
  "BINDING_VERSION = ''pactra-txn-bind-v1''"

definition OFFER_VERSION_DOMAIN :: string where
  "OFFER_VERSION_DOMAIN = ''pactra-offer-version-v1''"

definition NONCE_HEX_LENGTH :: nat where
  "NONCE_HEX_LENGTH = 64"

record bound_transaction =
  bt_merchant_id :: string
  bt_product_id :: string
  bt_quantity :: int
  bt_amount_inr :: int
  bt_currency :: string
  bt_policy_version :: string
  bt_offer_version :: string
  bt_expires_at :: datetime
  bt_nonce :: string

text \<open>
  \<open>str.upper\<close> on the Latin-1 range. (The upper case of U+00B5 and of U+00FF lies outside that
  range; those two characters are left alone.)
\<close>

definition upper_char :: "char \<Rightarrow> string" where
  "upper_char c = (let n = of_char c :: int in
     if 97 \<le> n \<and> n \<le> 122 \<or> 224 \<le> n \<and> n \<le> 254 \<and> n \<noteq> 247 then [char_of (n - 32)]
     else if n = 223 then ''SS'' else [c])"

definition py_upper :: "string \<Rightarrow> string" where
  "py_upper s = concat (map upper_char s)"

text \<open>\<open>Field(min_length=a, max_length=b)\<close> and the pattern of lowercase hexadecimal text.\<close>

definition sized :: "nat \<Rightarrow> nat \<Rightarrow> string \<Rightarrow> bool" where
  "sized a b s \<longleftrightarrow> a \<le> length s \<and> length s \<le> b"

definition is_hex :: "string \<Rightarrow> bool" where
  "is_hex s \<longleftrightarrow> s \<noteq> [] \<and> (\<forall>c \<in> set s. c \<in> set ''0123456789abcdef'')"

text \<open>
  The validating constructor \<open>BoundTransaction(...)\<close>: pydantic checks every field, upper-cases
  the currency, and only then runs the model validator that requires an aware expiry.
\<close>

definition BoundTransaction :: "bound_transaction \<Rightarrow> exn + bound_transaction" where
  "BoundTransaction t =
    (if \<not> sized 1 120 (bt_merchant_id t) \<or> \<not> sized 1 120 (bt_product_id t)
        \<or> bt_quantity t < 1 \<or> 100 < bt_quantity t \<or> bt_amount_inr t < 1
        \<or> \<not> sized 3 3 (bt_currency t) \<or> \<not> sized 1 40 (bt_policy_version t)
        \<or> \<not> sized 1 64 (bt_offer_version t)
        \<or> \<not> sized NONCE_HEX_LENGTH 128 (bt_nonce t) \<or> \<not> is_hex (bt_nonce t)
     then Inl (ValidationError ''BoundTransaction'')
     else case bt_expires_at t of
       Naive _ \<Rightarrow> Inl (InvariantViolation ''transaction.expiry_is_timezone_aware'')
     | Aware _ _ \<Rightarrow> Inr (t\<lparr>bt_currency := py_upper (bt_currency t)\<rparr>))"

text \<open>The mapping over \<open>BOUND_FIELDS\<close>, in that order.\<close>

definition BOUND_FIELDS :: "string list" where
  "BOUND_FIELDS = [''merchant_id'', ''product_id'', ''quantity'', ''amount_inr'', ''currency'',
     ''policy_version'', ''offer_version'', ''expires_at'', ''nonce'']"

definition canonical_fields :: "bound_transaction \<Rightarrow> fields" where
  "canonical_fields t = zip BOUND_FIELDS
     [CStr (bt_merchant_id t), CStr (bt_product_id t), CInt (bt_quantity t), CInt (bt_amount_inr t),
      CStr (bt_currency t), CStr (bt_policy_version t), CStr (bt_offer_version t),
      CTime (bt_expires_at t), CStr (bt_nonce t)]"

definition txn_digest :: "bound_transaction \<Rightarrow> exn + string" where
  "txn_digest t = canonical_digest BINDING_VERSION (canonical_fields t)"

text \<open>\<open>compute_offer_version\<close>: the first 32 digits of a digest over the offer's content.\<close>

definition compute_offer_version ::
  "string \<Rightarrow> string \<Rightarrow> int \<Rightarrow> string \<Rightarrow> rat \<Rightarrow> bool \<Rightarrow> datetime \<Rightarrow> exn + string" where
  "compute_offer_version merchant_id product_id amount_inr currency rating in_stock offered_at =
     bindE (canonical_digest OFFER_VERSION_DOMAIN
       [(''merchant_id'', CStr merchant_id), (''product_id'', CStr product_id),
        (''amount_inr'', CInt amount_inr), (''currency'', CStr currency),
        (''rating_centis'', CInt (py_round (fl (rating * 100)))), (''in_stock'', CBool in_stock),
        (''offered_at'', CTime offered_at)])
     (\<lambda>h. Inr (take 32 h))"

subsection \<open>What a transaction digest commits to\<close>

text \<open>Two transactions that agree on every field but the offset of the expiry.\<close>

definition same_transaction :: "bound_transaction \<Rightarrow> bound_transaction \<Rightarrow> bool" where
  "same_transaction t u \<longleftrightarrow> bt_merchant_id t = bt_merchant_id u \<and> bt_product_id t = bt_product_id u
     \<and> bt_quantity t = bt_quantity u \<and> bt_amount_inr t = bt_amount_inr u
     \<and> bt_currency t = bt_currency u \<and> bt_policy_version t = bt_policy_version u
     \<and> bt_offer_version t = bt_offer_version u \<and> bt_nonce t = bt_nonce u
     \<and> view_value (CTime (bt_expires_at t)) = view_value (CTime (bt_expires_at u))"

lemma distinct_BOUND_FIELDS: "distinct BOUND_FIELDS"
  by (simp add: BOUND_FIELDS_def)

lemma map_fst_canonical_fields [simp]: "map fst (canonical_fields t) = BOUND_FIELDS"
  by (simp add: canonical_fields_def BOUND_FIELDS_def)

lemma view_value_simps [simp]:
  "view_value (CStr s) = CStr s" "view_value (CInt i) = CInt i" "view_value (CBool b) = CBool b"
  "view_value CNone = CNone" "view_value (CTime (Aware i off)) = CTime (Aware i 0)"
  by (simp_all add: view_value_def)

lemma view_fieldsD: "view_fields fs = view_fields gs \<Longrightarrow>
  map_option view_value (map_of fs k) = map_option view_value (map_of gs k)"
  by (metis view_fields_def)

lemma canonical_fields_same:
  assumes "view_fields (canonical_fields t) = view_fields (canonical_fields u)"
  shows "same_transaction t u"
  using view_fieldsD [OF assms, of "''merchant_id''"] view_fieldsD [OF assms, of "''product_id''"]
    view_fieldsD [OF assms, of "''quantity''"] view_fieldsD [OF assms, of "''amount_inr''"]
    view_fieldsD [OF assms, of "''currency''"] view_fieldsD [OF assms, of "''policy_version''"]
    view_fieldsD [OF assms, of "''offer_version''"] view_fieldsD [OF assms, of "''expires_at''"]
    view_fieldsD [OF assms, of "''nonce''"]
  by (simp add: canonical_fields_def BOUND_FIELDS_def same_transaction_def)

lemma txn_digest_commits:
  assumes "txn_digest t = Inr h" "txn_digest u = Inr h"
  shows "same_transaction t u
    \<or> (\<exists>m m'. canonical_message BINDING_VERSION (canonical_fields t) = Inr m
        \<and> canonical_message BINDING_VERSION (canonical_fields u) = Inr m' \<and> sha_collision m m')"
  using canonical_digest_commits [OF assms [unfolded txn_digest_def]] canonical_fields_same
  by (auto simp: distinct_BOUND_FIELDS)

lemma is_ascii_simps [simp]: "is_ascii []" "is_ascii (c # s) \<longleftrightarrow> of_char c < (128::int) \<and> is_ascii s"
  by (auto simp: is_ascii_def)

text \<open>A valid bound transaction with a representable expiry always has a digest.\<close>

lemma txn_digest_total:
  assumes "bt_expires_at t = Aware i off" "0 \<le> i" "i \<le> max_instant"
  shows "\<exists>m. canonical_message BINDING_VERSION (canonical_fields t) = Inr m
    \<and> txn_digest t = Inr (sha256_hex m)"
  using assms
  by (simp add: txn_digest_def canonical_digest_def canonical_message_def require_def
      BINDING_VERSION_def canonical_bytes_def canonical_fields_def BOUND_FIELDS_def
      encode_field_def encode_value_def encode_timestamp_def)

lemma txn_digest_shape: "txn_digest t = Inr h \<Longrightarrow> length h = 64 \<and> set h \<subseteq> hex_digits"
  using set_sha256_hex by (auto simp: txn_digest_def canonical_digest_def)

lemma BoundTransaction_Inr:
  "BoundTransaction t = Inr u \<Longrightarrow> 1 \<le> bt_amount_inr u \<and> 1 \<le> bt_quantity u \<and> bt_quantity u \<le> 100
     \<and> (\<exists>i off. bt_expires_at u = Aware i off)"
  by (auto simp: BoundTransaction_def split: if_splits datetime.splits)

section \<open>Approval messages\<close>

definition APPROVAL_DOMAIN :: string where
  "APPROVAL_DOMAIN = ''pactra-user-approval-v1''"

definition APPROVAL_MESSAGE_FIELDS :: "string list" where
  "APPROVAL_MESSAGE_FIELDS = [''authorization_id'', ''mission_id'', ''binding_version'',
     ''transaction_digest'', ''signing_key_id'']"

text \<open>The only byte sequence an approver may sign.\<close>

definition approval_message :: "uuid \<Rightarrow> uuid \<Rightarrow> string \<Rightarrow> string \<Rightarrow> string \<Rightarrow> exn + string" where
  "approval_message authorization_id mission_id binding_version transaction_digest signing_key_id =
     bindE (require (length transaction_digest = 64 \<and> is_hex transaction_digest)
       ''approval.transaction_digest_is_lowercase_sha256_hex'') (\<lambda>_.
     bindE (require (binding_version \<noteq> []) ''approval.binding_version_present'') (\<lambda>_.
     bindE (require (signing_key_id \<noteq> []) ''approval.signing_key_id_present'') (\<lambda>_.
     let fields = [(''authorization_id'', CStr (uuid_str authorization_id)),
       (''mission_id'', CStr (uuid_str mission_id)), (''binding_version'', CStr binding_version),
       (''transaction_digest'', CStr transaction_digest), (''signing_key_id'', CStr signing_key_id)]
     in bindE (require (map fst fields = APPROVAL_MESSAGE_FIELDS) ''approval.message_fields_complete'')
       (\<lambda>_. canonical_message APPROVAL_DOMAIN fields))))"

lemma approval_message_inj:
  assumes "approval_message a m b d k = Inr s" "approval_message a' m' b' d' k' = Inr s"
  shows "a = a' \<and> m = m' \<and> b = b' \<and> d = d' \<and> k = k'"
proof -
  define fs where "fs a m b d k = [(''authorization_id'', CStr (uuid_str a)),
       (''mission_id'', CStr (uuid_str m)), (''binding_version'', CStr b),
       (''transaction_digest'', CStr d), (''signing_key_id'', CStr k)]" for a m b d k
  from assms have "canonical_message APPROVAL_DOMAIN (fs a m b d k) = Inr s"
    "canonical_message APPROVAL_DOMAIN (fs a' m' b' d' k') = Inr s"
    by (auto simp: approval_message_def Let_def fs_def)
  moreover have "distinct (map fst (fs a m b d k))" for a m b d k by (simp add: fs_def)
  ultimately have eq: "view_fields (fs a m b d k) = view_fields (fs a' m' b' d' k')"
    using canonical_message_inj by blast
  show ?thesis
    using view_fieldsD [OF eq, of "''authorization_id''"] view_fieldsD [OF eq, of "''mission_id''"]
      view_fieldsD [OF eq, of "''binding_version''"] view_fieldsD [OF eq, of "''transaction_digest''"]
      view_fieldsD [OF eq, of "''signing_key_id''"]
    by (simp add: fs_def uuid_str_inj)
qed

section \<open>Payment request fingerprints\<close>

definition PAYMENT_REQUEST_FINGERPRINT_DOMAIN :: string where
  "PAYMENT_REQUEST_FINGERPRINT_DOMAIN = ''pactra-payment-request-v1''"

definition fingerprint_fields ::
  "uuid \<Rightarrow> uuid \<Rightarrow> string \<Rightarrow> int \<Rightarrow> string \<Rightarrow> string \<Rightarrow> string \<Rightarrow> fields" where
  "fingerprint_fields mission_id authorization_id transaction_digest amount_inr currency
     merchant_id provider =
     [(''mission_id'', CStr (uuid_str mission_id)),
      (''authorization_id'', CStr (uuid_str authorization_id)),
      (''transaction_digest'', CStr transaction_digest), (''amount_inr'', CInt amount_inr),
      (''currency'', CStr currency), (''merchant_id'', CStr merchant_id),
      (''provider'', CStr provider)]"

definition request_fingerprint ::
  "uuid \<Rightarrow> uuid \<Rightarrow> string \<Rightarrow> int \<Rightarrow> string \<Rightarrow> string \<Rightarrow> string \<Rightarrow> exn + string" where
  "request_fingerprint mission_id authorization_id transaction_digest amount_inr currency
     merchant_id provider =
   canonical_digest PAYMENT_REQUEST_FINGERPRINT_DOMAIN
     (fingerprint_fields mission_id authorization_id transaction_digest amount_inr currency
        merchant_id provider)"

text \<open>Digests for different purposes agree only on a collision: their domains differ.\<close>

lemma digests_separated:
  assumes "canonical_digest d fs = Inr h" "canonical_digest d' fs' = Inr h" "d \<noteq> d'"
    and "distinct (map fst fs)" "distinct (map fst fs')"
  shows "\<exists>m m'. canonical_message d fs = Inr m \<and> canonical_message d' fs' = Inr m' \<and> sha_collision m m'"
  using canonical_digest_commits [OF assms(1,2,4,5)] assms(3) by blast

lemma fingerprint_commits:
  assumes "request_fingerprint m a d n c s p = Inr h" "request_fingerprint m' a' d' n' c' s' p' = Inr h"
  shows "(m, a, d, n, c, s, p) = (m', a', d', n', c', s', p') \<or>
    (\<exists>x x'. canonical_message PAYMENT_REQUEST_FINGERPRINT_DOMAIN (fingerprint_fields m a d n c s p) = Inr x
      \<and> canonical_message PAYMENT_REQUEST_FINGERPRINT_DOMAIN (fingerprint_fields m' a' d' n' c' s' p') = Inr x'
      \<and> sha_collision x x')"
proof -
  have same: "(m, a, d, n, c, s, p) = (m', a', d', n', c', s', p')"
    if eq: "view_fields (fingerprint_fields m a d n c s p)
      = view_fields (fingerprint_fields m' a' d' n' c' s' p')"
    using view_fieldsD [OF eq, of "''mission_id''"] view_fieldsD [OF eq, of "''authorization_id''"]
      view_fieldsD [OF eq, of "''transaction_digest''"] view_fieldsD [OF eq, of "''amount_inr''"]
      view_fieldsD [OF eq, of "''currency''"] view_fieldsD [OF eq, of "''merchant_id''"]
      view_fieldsD [OF eq, of "''provider''"]
    by (simp add: fingerprint_fields_def uuid_str_inj)
  have "distinct (map fst (fingerprint_fields m a d n c s p))" for m a d n c s p
    by (simp add: fingerprint_fields_def)
  with canonical_digest_commits [OF assms [unfolded request_fingerprint_def]] same show ?thesis by blast
qed

lemma request_fingerprint_total:
  "\<exists>x. canonical_message PAYMENT_REQUEST_FINGERPRINT_DOMAIN (fingerprint_fields m a d n c s p) = Inr x
    \<and> request_fingerprint m a d n c s p = Inr (sha256_hex x)"
  by (simp add: request_fingerprint_def canonical_digest_def canonical_message_def require_def
      PAYMENT_REQUEST_FINGERPRINT_DOMAIN_def canonical_bytes_def fingerprint_fields_def
      encode_field_def encode_value_def)

section \<open>Properties of canonical digests\<close>

text \<open>
  A canonical message determines its domain and its fields: two messages are equal only
  if the domains are equal and every field holds the same value (two readings of one instant
  in different zones count as the same value). No value can bleed across a field boundary,
  no type can be confused with another, and no domain can be extended into a body.
\<close>

theorem canonical_message_binds_domain_and_fields:
  assumes "canonical_message d fs = Inr m" and "canonical_message d' fs' = Inr m"
    and "distinct (map fst fs)" and "distinct (map fst fs')"
  shows "d = d' \<and> view_fields fs = view_fields fs'"
  using canonical_message_inj [OF assms] .

theorem canonical_message_binds_domain_and_fields_witness:
  "\<exists>m. canonical_message ''d'' [(''b'', CStr ''1''), (''a'', CInt 1)] = Inr m
    \<and> canonical_message ''d'' [(''a'', CInt 1), (''b'', CStr ''1'')] = Inr m
    \<and> view_fields [(''b'', CStr ''1''), (''a'', CInt 1)] = view_fields [(''a'', CInt 1), (''b'', CStr ''1'')]"
proof -
  have 1: "canonical_message ''d'' [(''b'', CStr ''1''), (''a'', CInt 1)]
      = canonical_message ''d'' [(''a'', CInt 1), (''b'', CStr ''1'')]" by code_simp
  obtain m where m: "canonical_message ''d'' [(''a'', CInt 1), (''b'', CStr ''1'')] = Inr m"
    by (simp add: canonical_message_def require_def canonical_bytes_def encode_field_def encode_value_def)
  from canonical_message_binds_domain_and_fields
    [of "''d''" "[(''b'', CStr ''1''), (''a'', CInt 1)]" m "''d''" "[(''a'', CInt 1), (''b'', CStr ''1'')]"]
  show ?thesis using 1 m by simp
qed

text \<open>
  C37. The transaction digest commits to all nine bound fields: two transactions with the same
  digest agree on merchant, product, quantity, amount, currency, both version stamps, the
  expiry instant and the nonce, or their two canonical messages are a collision of SHA-256.
\<close>

theorem transaction_digest_binds_every_field:
  assumes "txn_digest t = Inr h" and "txn_digest u = Inr h"
  shows "same_transaction t u
    \<or> (\<exists>m m'. canonical_message BINDING_VERSION (canonical_fields t) = Inr m
        \<and> canonical_message BINDING_VERSION (canonical_fields u) = Inr m' \<and> sha_collision m m')"
  using txn_digest_commits [OF assms] .

definition sample_transaction :: "int \<Rightarrow> bound_transaction" where
  "sample_transaction off = \<lparr>bt_merchant_id = ''merchant_a'', bt_product_id = ''p1'', bt_quantity = 2,
     bt_amount_inr = 7598, bt_currency = ''INR'', bt_policy_version = ''policy-v1'',
     bt_offer_version = ''v'', bt_expires_at = Aware 63000000000000000 off,
     bt_nonce = replicate 64 (CHR ''a'')\<rparr>"

theorem transaction_digest_binds_every_field_witness:
  "\<exists>h. txn_digest (sample_transaction 0) = Inr h \<and> txn_digest (sample_transaction 19800000000) = Inr h
    \<and> (same_transaction (sample_transaction 0) (sample_transaction 19800000000)
      \<or> (\<exists>m m'. canonical_message BINDING_VERSION (canonical_fields (sample_transaction 0)) = Inr m
        \<and> canonical_message BINDING_VERSION (canonical_fields (sample_transaction 19800000000)) = Inr m'
        \<and> sha_collision m m'))"
proof -
  have "bt_expires_at (sample_transaction 0) = Aware 63000000000000000 0" by (simp add: sample_transaction_def)
  from txn_digest_total [OF this] obtain h where h: "txn_digest (sample_transaction 0) = Inr h"
    by (auto simp: max_instant_def)
  have "txn_digest (sample_transaction 19800000000) = txn_digest (sample_transaction 0)"
    by (simp add: txn_digest_def canonical_digest_def canonical_message_def canonical_bytes_def
        canonical_fields_def BOUND_FIELDS_def sample_transaction_def encode_field_def encode_value_def
        encode_timestamp_def)
  with h transaction_digest_binds_every_field [of "sample_transaction 0" h "sample_transaction 19800000000"]
  show ?thesis by simp
qed

text \<open>
  The message an approver signs determines the authorization, the mission, the binding
  version, the transaction digest and the signing key, so a signature for one challenge is
  the signature of no other.
\<close>

theorem approval_message_unambiguous:
  assumes "approval_message a m b d k = Inr s" and "approval_message a' m' b' d' k' = Inr s"
  shows "(a, m, b, d, k) = (a', m', b', d', k')"
  using approval_message_inj [OF assms] by simp

theorem approval_message_unambiguous_witness:
  "\<exists>s. approval_message 1 2 ''v'' (replicate 64 (CHR ''0'')) ''key'' = Inr s
    \<and> (1 :: uuid, 2 :: uuid, ''v'', replicate 64 (CHR ''0''), ''key'')
      = (1, 2, ''v'', replicate 64 (CHR ''0''), ''key'')"
proof -
  obtain s where "approval_message 1 2 ''v'' (replicate 64 (CHR ''0'')) ''key'' = Inr s"
    by (simp add: approval_message_def require_def is_hex_def APPROVAL_MESSAGE_FIELDS_def
        canonical_message_def APPROVAL_DOMAIN_def canonical_bytes_def encode_field_def encode_value_def)
  with approval_message_unambiguous [of 1 2 "''v''" "replicate 64 (CHR ''0'')" "''key''" s 1 2 "''v''"
      "replicate 64 (CHR ''0'')" "''key''"] show ?thesis by blast
qed

text \<open>
  Domain separation: the digest of a transaction and the fingerprint of a payment request
  differ, or the two canonical messages they hash are a collision of SHA-256. A digest issued
  for one purpose cannot be replayed for another.
\<close>

theorem digest_purposes_are_separated:
  assumes "txn_digest t = Inr h" and "request_fingerprint m a d n c s p = Inr h'"
  shows "h \<noteq> h' \<or> (\<exists>x y. canonical_message BINDING_VERSION (canonical_fields t) = Inr x
    \<and> canonical_message PAYMENT_REQUEST_FINGERPRINT_DOMAIN (fingerprint_fields m a d n c s p) = Inr y
    \<and> sha_collision x y)"
  using digests_separated [OF assms(1) [unfolded txn_digest_def], of PAYMENT_REQUEST_FINGERPRINT_DOMAIN
      "fingerprint_fields m a d n c s p"] assms(2)
  by (auto simp: BINDING_VERSION_def PAYMENT_REQUEST_FINGERPRINT_DOMAIN_def distinct_BOUND_FIELDS
      fingerprint_fields_def request_fingerprint_def)

theorem digest_purposes_are_separated_witness:
  "\<exists>h h'. txn_digest (sample_transaction 0) = Inr h
    \<and> request_fingerprint 1 2 ''d'' 7598 ''INR'' ''merchant_a'' ''fake'' = Inr h'
    \<and> (h \<noteq> h' \<or> (\<exists>x y. canonical_message BINDING_VERSION (canonical_fields (sample_transaction 0)) = Inr x
      \<and> canonical_message PAYMENT_REQUEST_FINGERPRINT_DOMAIN
          (fingerprint_fields 1 2 ''d'' 7598 ''INR'' ''merchant_a'' ''fake'') = Inr y
      \<and> sha_collision x y))"
proof -
  have "bt_expires_at (sample_transaction 0) = Aware 63000000000000000 0" by (simp add: sample_transaction_def)
  from txn_digest_total [OF this] obtain h where h: "txn_digest (sample_transaction 0) = Inr h"
    by (auto simp: max_instant_def)
  obtain h' where h': "request_fingerprint 1 2 ''d'' 7598 ''INR'' ''merchant_a'' ''fake'' = Inr h'"
    using request_fingerprint_total by blast
  from digest_purposes_are_separated [OF h h'] h h' show ?thesis by blast
qed

end
