(* ===== verification/Kernel.thy ===== *)
theory Kernel
  imports Canonical
begin

text \<open>
  The deterministic core of the security kernel: provenance and taint
  (\<^verbatim>\<open>packages/schemas/provenance.py\<close>), the authority lattice and the protected
  policy register (\<^verbatim>\<open>services/security_kernel/authority.py\<close>,
  \<^verbatim>\<open>policy_register.py\<close>), and the capability firewall with its server-owned
  registry (\<^verbatim>\<open>packages/schemas/capability.py\<close>,
  \<^verbatim>\<open>services/security_kernel/capability.py\<close>, \<^verbatim>\<open>capability_registry.py\<close>).
\<close>

section \<open>Provenance\<close>

record provenance_meta =
  pm_source :: string
  pm_authority :: authority_level
  pm_trust :: trust_level
  pm_tainted :: bool
  pm_transformed :: bool

text \<open>\<open>Provenanced[T]\<close>: a value together with its provenance record.\<close>

record 'a provenanced =
  pv_value :: 'a
  pv_meta :: provenance_meta

definition prov_map :: "('a \<Rightarrow> 'b) \<Rightarrow> 'a provenanced \<Rightarrow> 'b provenanced" where
  "prov_map f p = \<lparr>pv_value = f (pv_value p), pv_meta = (pv_meta p)\<lparr>pm_transformed := True\<rparr>\<rparr>"

definition is_tainted :: "'a provenanced \<Rightarrow> bool" where
  "is_tainted p = pm_tainted (pv_meta p)"

definition provenanced_of ::
  "authority_level \<Rightarrow> trust_level \<Rightarrow> bool \<Rightarrow> 'a \<Rightarrow> string \<Rightarrow> 'a provenanced" where
  "provenanced_of a t d v source = \<lparr>pv_value = v, pv_meta =
     \<lparr>pm_source = source, pm_authority = a, pm_trust = t, pm_tainted = d, pm_transformed = False\<rparr>\<rparr>"

definition authoritative :: "'a \<Rightarrow> string \<Rightarrow> 'a provenanced" where
  "authoritative = provenanced_of USER_POLICY T_AUTHORITATIVE False"

definition system_value :: "'a \<Rightarrow> string \<Rightarrow> 'a provenanced" where
  "system_value = provenanced_of SYSTEM_SECURITY_POLICY T_TRUSTED False"

definition trusted_value :: "'a \<Rightarrow> string \<Rightarrow> 'a provenanced" where
  "trusted_value = provenanced_of TRUSTED_INTERNAL_SERVICE T_TRUSTED False"

definition agent_value :: "'a \<Rightarrow> string \<Rightarrow> 'a provenanced" where
  "agent_value = provenanced_of AGENT_PROPOSAL T_UNTRUSTED True"

definition untrusted :: "'a \<Rightarrow> string \<Rightarrow> 'a provenanced" where
  "untrusted = provenanced_of MERCHANT_DATA T_UNTRUSTED True"

lemmas provenance_defs = provenanced_of_def authoritative_def system_value_def trusted_value_def
  agent_value_def untrusted_def

text \<open>What \<open>map\<close> keeps: everything but the value and the \<open>transformed\<close> mark.\<close>

lemma prov_map_simps [simp]:
  "pv_value (prov_map f p) = f (pv_value p)"
  "pm_source (pv_meta (prov_map f p)) = pm_source (pv_meta p)"
  "pm_authority (pv_meta (prov_map f p)) = pm_authority (pv_meta p)"
  "pm_trust (pv_meta (prov_map f p)) = pm_trust (pv_meta p)"
  "pm_tainted (pv_meta (prov_map f p)) = pm_tainted (pv_meta p)"
  by (simp_all add: prov_map_def)

section \<open>Authority\<close>

definition can_write :: "authority_level \<Rightarrow> authority_level \<Rightarrow> bool" where
  "can_write source target \<longleftrightarrow> target \<le> source"

definition guard_write :: "authority_level \<Rightarrow> authority_level \<Rightarrow> string \<Rightarrow> exn + unit" where
  "guard_write source target field =
     (if can_write source target then Inr () else Inl (AuthorityEscalation source target field))"

definition assert_can_write :: "string \<Rightarrow> 'a provenanced \<Rightarrow> authority_level \<Rightarrow> exn + unit" where
  "assert_can_write field incoming required =
     guard_write (pm_authority (pv_meta incoming)) required field"

definition merge_keep_higher ::
  "string \<Rightarrow> 'a provenanced \<Rightarrow> 'a provenanced \<Rightarrow> exn + 'a provenanced" where
  "merge_keep_higher field current incoming =
     (if pm_authority (pv_meta incoming) < pm_authority (pv_meta current)
      then Inl (AuthorityEscalation (pm_authority (pv_meta incoming)) (pm_authority (pv_meta current)) field)
      else Inr incoming)"

section \<open>The protected policy register\<close>

text \<open>The values a policy field or a merchant's claim about one may hold.\<close>

datatype policy_value =
  PInt int | PFloat rat | PBool bool | PStr string | PList "string list" | PNone

type_synonym register = "(string \<times> policy_value provenanced) list"

definition register_get :: "register \<Rightarrow> string \<Rightarrow> exn + policy_value provenanced" where
  "register_get reg field = (case map_of reg field of
     Some v \<Rightarrow> Inr v
   | None \<Rightarrow> Inl (InvariantViolation ''policy_register.field_is_protected''))"

definition is_protected :: "register \<Rightarrow> string \<Rightarrow> bool" where
  "is_protected reg field \<longleftrightarrow> field \<in> set (map fst reg)"

text \<open>Assignment to an existing key of a dictionary keeps its position.\<close>

definition register_set :: "register \<Rightarrow> string \<Rightarrow> policy_value provenanced \<Rightarrow> register" where
  "register_set reg field v = map (\<lambda>(k, w). if k = field then (k, v) else (k, w)) reg"

text \<open>\<open>ProtectedPolicyRegister.apply\<close>: the outcome and the register it leaves.\<close>

definition register_apply ::
  "string \<Rightarrow> policy_value provenanced \<Rightarrow> (register, exn, policy_value provenanced) session" where
  "register_apply field incoming =
     bind (gets (\<lambda>reg. register_get reg field)) (\<lambda>r. bind (lift r) (\<lambda>current.
     bind (lift (merge_keep_higher field current incoming)) (\<lambda>updated.
     andthen (modify (\<lambda>reg. register_set reg field updated)) (ret updated))))"

lemma map_of_register_set:
  "map_of (register_set reg field v) k
   = (if k = field \<and> map_of reg k \<noteq> None then Some v else map_of reg k)"
  by (induction reg) (auto simp: register_set_def)

lemma register_apply_cases:
  "register_apply field incoming reg =
    (case map_of reg field of
       None \<Rightarrow> (Inl (InvariantViolation ''policy_register.field_is_protected''), reg)
     | Some current \<Rightarrow>
         if pm_authority (pv_meta incoming) < pm_authority (pv_meta current)
         then (Inl (AuthorityEscalation (pm_authority (pv_meta incoming))
                      (pm_authority (pv_meta current)) field), reg)
         else (Inr incoming, register_set reg field incoming))"
  by (simp add: register_apply_def register_get_def merge_keep_higher_def session_defs
      split: option.splits)

text \<open>
  A sequence of attempted writes, each adjudicated on its own and its exception caught, as
  the orchestrator handles the claims of an offer.
\<close>

definition register_attempts ::
  "(string \<times> policy_value provenanced) list \<Rightarrow> register \<Rightarrow> register" where
  "register_attempts writes reg = fold (\<lambda>(f, v) r. snd (register_apply f v r)) writes reg"

lemma register_apply_below:
  assumes "\<forall>v. map_of reg field = Some v \<longrightarrow> pm_authority (pv_meta incoming) < pm_authority (pv_meta v)"
  shows "snd (register_apply field incoming reg) = reg"
  using assms by (auto simp: register_apply_cases split: option.splits)

lemma register_attempts_below:
  assumes "\<forall>(f, v) \<in> set writes. pm_authority (pv_meta v) < a"
    and "\<forall>(f, v) \<in> set reg. a \<le> pm_authority (pv_meta v)"
  shows "register_attempts writes reg = reg"
  using assms(1)
proof (induction writes)
  case Nil
  show ?case by (simp add: register_attempts_def)
next
  case (Cons w ws)
  obtain f v where w: "w = (f, v)" by (cases w)
  have "snd (register_apply f v reg) = reg"
  proof (rule register_apply_below, intro allI impI)
    fix u assume "map_of reg f = Some u"
    then have "(f, u) \<in> set reg" by (rule map_of_SomeD)
    with assms(2) Cons.prems w show "pm_authority (pv_meta v) < pm_authority (pv_meta u)" by fastforce
  qed
  with Cons w show ?case by (simp add: register_attempts_def)
qed

section \<open>Capabilities\<close>

record capability_set =
  cs_principal :: string
  cs_allow :: "capability set"
  cs_deny :: "capability set"
  cs_limits :: "(string \<times> int) list"

definition buyer_agent_capabilities :: "string \<Rightarrow> capability_set" where
  "buyer_agent_capabilities who = \<lparr>cs_principal = who,
     cs_allow = {C_CATALOG_READ, C_MERCHANT_DISCOVER, C_OFFER_REQUEST, C_OFFER_RANK, C_PAYMENT_PROPOSE},
     cs_deny = {C_PAYMENT_EXECUTE, C_REFUND_EXECUTE, C_POLICY_MODIFY, C_AUTHORIZATION_ISSUE,
       C_MERCHANT_MODIFY},
     cs_limits = [(''single_transaction_inr'', 4500), (''daily_inr'', 10000)]\<rparr>"

definition security_kernel_capabilities :: "string \<Rightarrow> capability_set" where
  "security_kernel_capabilities who = \<lparr>cs_principal = who,
     cs_allow = {C_AUTHORIZATION_ISSUE, C_PAYMENT_PROPOSE},
     cs_deny = {C_PAYMENT_EXECUTE, C_REFUND_EXECUTE, C_POLICY_MODIFY, C_MERCHANT_MODIFY},
     cs_limits = []\<rparr>"

definition payment_executor_capabilities :: "string \<Rightarrow> capability_set" where
  "payment_executor_capabilities who = \<lparr>cs_principal = who,
     cs_allow = {C_PAYMENT_EXECUTE, C_PAYMENT_PROPOSE},
     cs_deny = {C_AUTHORIZATION_ISSUE, C_REFUND_EXECUTE, C_POLICY_MODIFY, C_MERCHANT_MODIFY},
     cs_limits = []\<rparr>"

definition permits :: "capability_set \<Rightarrow> capability \<Rightarrow> bool" where
  "permits cs c \<longleftrightarrow> (if c \<in> cs_deny cs then False else c \<in> cs_allow cs)"

definition enforce :: "capability_set \<Rightarrow> capability \<Rightarrow> exn + unit" where
  "enforce cs c = (if permits cs c then Inr () else Inl (CapabilityDenied (cs_principal cs) c))"

text \<open>\<open>run_privileged\<close>: the wrapped operation runs only after enforcement.\<close>

definition run_privileged ::
  "capability_set \<Rightarrow> capability \<Rightarrow> ('s, exn, 'a) session \<Rightarrow> ('s, exn, 'a) session" where
  "run_privileged cs c operation = andthen (lift (enforce cs c)) operation"

definition capability_registry :: "(string \<times> (string \<Rightarrow> capability_set)) list" where
  "capability_registry = [(''buyer-agent'', buyer_agent_capabilities),
     (''security-kernel'', security_kernel_capabilities),
     (''payment-executor'', payment_executor_capabilities)]"

definition capabilities_for :: "string \<Rightarrow> capability_set" where
  "capabilities_for who = (case map_of capability_registry who of
     None \<Rightarrow> \<lparr>cs_principal = who, cs_allow = {}, cs_deny = {}, cs_limits = []\<rparr>
   | Some factory \<Rightarrow> factory who)"

text \<open>Equality of two capability sets; dictionaries compare without regard to order.\<close>

definition capset_eq :: "capability_set \<Rightarrow> capability_set \<Rightarrow> bool" where
  "capset_eq a b \<longleftrightarrow> cs_principal a = cs_principal b \<and> cs_allow a = cs_allow b \<and> cs_deny a = cs_deny b
     \<and> set (map fst (cs_limits a)) = set (map fst (cs_limits b))
     \<and> (\<forall>k \<in> set (map fst (cs_limits a)). map_of (cs_limits a) k = map_of (cs_limits b) k)"

definition enforce_registered :: "capability_set \<Rightarrow> capability \<Rightarrow> exn + unit" where
  "enforce_registered cs c =
     (if \<not> capset_eq cs (capabilities_for (cs_principal cs)) then Inl (CapabilityDenied (cs_principal cs) c)
      else enforce (capabilities_for (cs_principal cs)) c)"

lemma capabilities_for_cases:
  "capabilities_for p =
    (if p = ''buyer-agent'' then buyer_agent_capabilities p
     else if p = ''security-kernel'' then security_kernel_capabilities p
     else if p = ''payment-executor'' then payment_executor_capabilities p
     else \<lparr>cs_principal = p, cs_allow = {}, cs_deny = {}, cs_limits = []\<rparr>)"
  by (simp add: capabilities_for_def capability_registry_def)

lemma cs_principal_capabilities_for [simp]: "cs_principal (capabilities_for p) = p"
  by (simp add: capabilities_for_cases buyer_agent_capabilities_def security_kernel_capabilities_def
      payment_executor_capabilities_def)

text \<open>The grants of the registry, principal by principal.\<close>

lemma permits_registered:
  "permits (capabilities_for p) c \<longleftrightarrow>
     p = ''buyer-agent'' \<and> c \<in> {C_CATALOG_READ, C_MERCHANT_DISCOVER, C_OFFER_REQUEST, C_OFFER_RANK,
       C_PAYMENT_PROPOSE}
     \<or> p = ''security-kernel'' \<and> c \<in> {C_AUTHORIZATION_ISSUE, C_PAYMENT_PROPOSE}
     \<or> p = ''payment-executor'' \<and> c \<in> {C_PAYMENT_EXECUTE, C_PAYMENT_PROPOSE}"
  by (cases c) (simp_all add: permits_def capabilities_for_cases buyer_agent_capabilities_def
      security_kernel_capabilities_def payment_executor_capabilities_def)

lemma enforce_registered_Inr_iff:
  "enforce_registered cs c = Inr u \<longleftrightarrow>
     capset_eq cs (capabilities_for (cs_principal cs)) \<and> permits (capabilities_for (cs_principal cs)) c"
  by (simp add: enforce_registered_def enforce_def)

lemma enforce_registered_issue:
  "enforce_registered cs C_AUTHORIZATION_ISSUE = Inr u \<Longrightarrow> cs_principal cs = ''security-kernel''"
  by (auto simp: enforce_registered_Inr_iff permits_registered)

lemma enforce_registered_execute:
  "enforce_registered cs C_PAYMENT_EXECUTE = Inr u \<Longrightarrow> cs_principal cs = ''payment-executor''"
  by (auto simp: enforce_registered_Inr_iff permits_registered)

section \<open>Properties of the kernel's authority checks\<close>

text \<open>
  A lower authority never moves the protected register: after any sequence of attempted
  writes, each refused or accepted on its own, whose authority lies below the authority of
  every protected value, the register is exactly what it was.
\<close>

theorem register_withstands_lower_authority:
  assumes "\<forall>(f, v) \<in> set writes. pm_authority (pv_meta v) < a"
    and "\<forall>(f, v) \<in> set reg. a \<le> pm_authority (pv_meta v)"
  shows "register_attempts writes reg = reg"
  using register_attempts_below [OF assms] .

theorem register_withstands_lower_authority_witness:
  "register_attempts [(''hard_limit_inr'', untrusted (PInt 1000000) ''merchant:m''),
      (''no_such_field'', agent_value PNone ''buyer-agent'')]
     [(''hard_limit_inr'', authoritative (PInt 4500) ''user-policy:hard_limit_inr'')]
   = [(''hard_limit_inr'', authoritative (PInt 4500) ''user-policy:hard_limit_inr'')]"
  by (rule register_withstands_lower_authority [where a = USER_POLICY])
    (simp_all add: provenance_defs less_authority_level_def)

text \<open>
  What a write to the register does, on every branch: an unprotected field is refused
  with the register's invariant, a lower authority is refused as an escalation that names
  both levels and the field, and both refusals leave the register unchanged; any other write
  returns the incoming value and stores it under that field alone.
\<close>

theorem register_write_outcomes:
  "register_apply field incoming reg =
    (case map_of reg field of
       None \<Rightarrow> (Inl (InvariantViolation ''policy_register.field_is_protected''), reg)
     | Some current \<Rightarrow>
         if pm_authority (pv_meta incoming) < pm_authority (pv_meta current)
         then (Inl (AuthorityEscalation (pm_authority (pv_meta incoming))
                      (pm_authority (pv_meta current)) field), reg)
         else (Inr incoming, register_set reg field incoming))
   \<and> map_of (register_set reg field incoming) =
      (if map_of reg field = None then map_of reg else (map_of reg)(field \<mapsto> incoming))"
  by (auto simp: register_apply_cases map_of_register_set fun_eq_iff)

text \<open>
  A privileged boundary grants a capability only to a capability set that is exactly the
  server-owned one of its principal, and the registry then grants: authorization issuance to
  the security kernel alone, payment execution to the payment executor alone, and neither
  refunds, policy changes nor merchant changes to anyone. A forged set grants nothing.
\<close>

theorem registered_grants:
  "(enforce_registered cs c = Inr () \<longleftrightarrow>
      capset_eq cs (capabilities_for (cs_principal cs))
      \<and> (cs_principal cs = ''buyer-agent'' \<and> c \<in> {C_CATALOG_READ, C_MERCHANT_DISCOVER, C_OFFER_REQUEST,
            C_OFFER_RANK, C_PAYMENT_PROPOSE}
        \<or> cs_principal cs = ''security-kernel'' \<and> c \<in> {C_AUTHORIZATION_ISSUE, C_PAYMENT_PROPOSE}
        \<or> cs_principal cs = ''payment-executor'' \<and> c \<in> {C_PAYMENT_EXECUTE, C_PAYMENT_PROPOSE}))
   \<and> (enforce_registered cs c \<noteq> Inr () \<longleftrightarrow>
      enforce_registered cs c = Inl (CapabilityDenied (cs_principal cs) c))"
proof
  show "enforce_registered cs c \<noteq> Inr () \<longleftrightarrow>
      enforce_registered cs c = Inl (CapabilityDenied (cs_principal cs) c)"
    by (simp add: enforce_registered_def enforce_def)
qed (simp only: enforce_registered_Inr_iff permits_registered)

text \<open>
  The privileged choke point: \<open>run_privileged\<close> behaves as its operation when the set
  permits the capability, and otherwise raises and leaves the state untouched, whatever the
  operation is. A denied principal never reaches the operation.
\<close>

theorem run_privileged_gates:
  "run_privileged cs c operation s =
    (if c \<in> cs_allow cs \<and> c \<notin> cs_deny cs then operation s
     else (Inl (CapabilityDenied (cs_principal cs) c), s))"
  by (simp add: run_privileged_def enforce_def permits_def session_defs)

end
