(* ===== verification/Database.thy ===== *)
theory Database
  imports Offers
begin

text \<open>
  The persistent state of \<^verbatim>\<open>apps/api/db/models.py\<close> as one session sees it: a table per
  ORM class, rows in insertion order, with the primary keys, foreign keys, UNIQUE and CHECK
  constraints the schema declares checked on every INSERT and UPDATE. A timestamp column
  holds an instant: every value is written as UTC and read back through \<open>as_utc\<close>. A column
  that holds the value of an enumeration is modelled by the enumeration; the audit trail
  alone keeps its event type as text, because verification has to cope with rows nobody
  should have written. \<open>uuid.uuid4\<close>, \<open>secrets.token_hex\<close> and \<open>utcnow\<close> read the next element
  of three streams of the state.
\<close>

section \<open>Rows\<close>

type_synonym payload = "(string \<times> json) list"

text \<open>A JSON object, as the list of its members. The payload of an audit event is any JSON
  value: verification checks that it is an object.\<close>

record mission_row =
  ms_id :: uuid
  ms_raw_query :: "string option"
  ms_quantity :: int
  ms_state :: mission_state

text \<open>The columns of \<open>mission_constraints\<close> other than the two keys are those of the value.\<close>

record mission_constraints_row =
  cr_id :: uuid
  cr_mission_id :: uuid
  cr_constraints :: mission_constraints

record offer_row =
  of_id :: uuid
  of_mission_id :: uuid
  of_offer_version :: string
  of_merchant_id :: string
  of_merchant_name :: string
  of_merchant_trust :: rat
  of_product_id :: string
  of_title :: string
  of_amount_inr :: int
  of_currency :: string
  of_rating :: rat
  of_in_stock :: bool
  of_offered_at :: instant
  of_valid :: bool
  of_rejection_reasons :: "reason_code list"
  of_rank :: "int option"
  of_raw :: payload

record policy_decision_row =
  pdr_id :: uuid
  pdr_mission_id :: uuid
  pdr_decision :: policy_outcome
  pdr_policy_version :: string
  pdr_reason_codes :: "reason_code list"
  pdr_requested_amount :: "int option"
  pdr_soft_budget :: int
  pdr_hard_limit :: int
  pdr_selected_offer_id :: "uuid option"
  pdr_created_at :: instant

record audit_event_row =
  ae_event_id :: uuid
  ae_mission_id :: uuid
  ae_sequence :: int
  ae_event_type :: string
  ae_actor :: string
  ae_payload :: json
  ae_previous_hash :: string
  ae_event_hash :: string
  ae_created_at :: instant

record authorization_row =
  az_authorization_id :: uuid
  az_mission_id :: uuid
  az_transaction_digest :: string
  az_nonce :: string
  az_binding_version :: string
  az_policy_version :: string
  az_offer_version :: string
  az_approval_scheme :: approval_scheme
  az_signing_key_id :: "string option"
  az_approval_signature :: "string option"
  az_status :: authorization_status
  az_issued_at :: instant
  az_expires_at :: instant
  az_consumed_at :: "instant option"
  az_bound_merchant_id :: string
  az_bound_product_id :: string
  az_bound_quantity :: int
  az_bound_amount_inr :: int
  az_bound_currency :: string

record payment_intent_row =
  pi_id :: uuid
  pi_mission_id :: uuid
  pi_authorization_id :: uuid
  pi_transaction_digest :: string
  pi_idempotency_key :: string
  pi_request_fingerprint :: string
  pi_amount_inr :: int
  pi_currency :: string
  pi_merchant_id :: string
  pi_provider :: string
  pi_provider_payment_id :: "string option"
  pi_provider_order_id :: "string option"
  pi_provider_transaction_id :: "string option"
  pi_provider_receipt :: "string option"
  pi_provider_status :: "string option"
  pi_provider_attempts :: "int option"
  pi_provider_create_fenced_at :: "instant option"
  pi_provider_ambiguity_observed_at :: "instant option"
  pi_state :: payment_state
  pi_attempts :: int
  pi_last_reason_code :: "string option"
  pi_created_at :: instant

record outbox_event_row =
  ob_id :: uuid
  ob_payment_intent_id :: uuid
  ob_event_type :: outbox_event_type
  ob_payload :: payload
  ob_status :: outbox_status
  ob_attempts :: int
  ob_max_attempts :: int
  ob_available_at :: instant
  ob_claimed_by :: "string option"
  ob_last_error :: "string option"
  ob_created_at :: instant
  ob_processed_at :: "instant option"

record webhook_event_row =
  wh_id :: uuid
  wh_provider :: string
  wh_provider_event_id :: string
  wh_event_type :: webhook_type
  wh_provider_payment_id :: string
  wh_provider_transaction_id :: "string option"
  wh_payment_intent_id :: "uuid option"
  wh_sequence :: "int option"
  wh_received_at :: instant
  wh_processed_at :: "instant option"
  wh_applied_state :: "payment_state option"

section \<open>The session state\<close>

record world =
  w_uuids :: "nat \<Rightarrow> uuid"
  w_uuid_idx :: nat
  w_clock :: "nat \<Rightarrow> instant"
  w_clock_idx :: nat
  w_nonces :: "nat \<Rightarrow> string"
  w_nonce_idx :: nat
  w_missions :: "mission_row list"
  w_mission_constraints :: "mission_constraints_row list"
  w_offers :: "offer_row list"
  w_policy_decisions :: "policy_decision_row list"
  w_audit_events :: "audit_event_row list"
  w_authorizations :: "authorization_row list"
  w_payment_intents :: "payment_intent_row list"
  w_outbox_events :: "outbox_event_row list"
  w_webhook_events :: "webhook_event_row list"

type_synonym 'a db = "(world, exn, 'a) session"

definition uuid4 :: "uuid db" where
  "uuid4 w = (Inr (w_uuids w (w_uuid_idx w)), w\<lparr>w_uuid_idx := Suc (w_uuid_idx w)\<rparr>)"

definition utcnow :: "instant db" where
  "utcnow w = (Inr (w_clock w (w_clock_idx w)), w\<lparr>w_clock_idx := Suc (w_clock_idx w)\<rparr>)"

definition token_hex :: "string db" where
  "token_hex w = (Inr (w_nonces w (w_nonce_idx w)), w\<lparr>w_nonce_idx := Suc (w_nonce_idx w)\<rparr>)"

text \<open>\<open>as_utc(now or utcnow())\<close>.\<close>

definition moment_of :: "instant option \<Rightarrow> instant db" where
  "moment_of now = (case now of Some t \<Rightarrow> ret t | None \<Rightarrow> utcnow)"

text \<open>A constraint of the schema: the statement is refused when it would be broken.\<close>

definition db_require :: "bool \<Rightarrow> string \<Rightarrow> unit db" where
  "db_require holds constraint = guardE holds (IntegrityError constraint)"

text \<open>The row \<open>ORDER BY key DESC LIMIT 1\<close> returns (the newest of several equal ones).\<close>

definition latest_by :: "('r \<Rightarrow> 'k :: linorder) \<Rightarrow> 'r list \<Rightarrow> 'r option" where
  "latest_by key rows = (case sort_key key rows of [] \<Rightarrow> None | r # rs \<Rightarrow> Some (last (r # rs)))"

section \<open>Constraints\<close>

text \<open>The CHECK constraints of \<open>authorizations\<close>.\<close>

definition is_lower :: "string \<Rightarrow> bool" where
  "is_lower s \<longleftrightarrow> (\<forall>c \<in> set s. \<not> (65 \<le> (of_char c :: int) \<and> of_char c \<le> (90 :: int)))"

definition ck_consumed_at_matches_status :: "authorization_row \<Rightarrow> bool" where
  "ck_consumed_at_matches_status r \<longleftrightarrow> (az_status r = A_CONSUMED) = (az_consumed_at r \<noteq> None)"

definition ck_proof_pair_complete :: "authorization_row \<Rightarrow> bool" where
  "ck_proof_pair_complete r \<longleftrightarrow> (az_signing_key_id r = None) = (az_approval_signature r = None)"

definition ck_signature_shape :: "authorization_row \<Rightarrow> bool" where
  "ck_signature_shape r \<longleftrightarrow> (case az_approval_signature r of None \<Rightarrow> True
     | Some s \<Rightarrow> length s = 128 \<and> is_lower s)"

definition ck_scheme_proof_state :: "authorization_row \<Rightarrow> bool" where
  "ck_scheme_proof_state r \<longleftrightarrow>
     (az_approval_scheme r = S_POLICY_AUTO \<and> az_signing_key_id r = None)
   \<or> (az_approval_scheme r = S_LEGACY_SERVER \<and> az_signing_key_id r = None)
   \<or> (az_approval_scheme r = S_USER_ED25519
        \<and> (az_status r = A_PENDING \<and> az_signing_key_id r = None
          \<or> az_status r \<in> {A_ACTIVE, A_CONSUMED} \<and> az_signing_key_id r \<noteq> None
          \<or> az_status r \<in> {A_EXPIRED, A_REVOKED}))"

definition authorization_checks :: "authorization_row \<Rightarrow> bool" where
  "authorization_checks r \<longleftrightarrow> ck_consumed_at_matches_status r \<and> ck_proof_pair_complete r
     \<and> ck_signature_shape r \<and> ck_scheme_proof_state r"

text \<open>The CHECK and UNIQUE constraints of \<open>payment_intents\<close>; NULLs are never compared.\<close>

definition payment_intent_checks :: "payment_intent_row \<Rightarrow> bool" where
  "payment_intent_checks r \<longleftrightarrow> (pi_state r = P_SUCCEEDED \<longrightarrow> pi_provider_payment_id r \<noteq> None)
     \<and> 1 \<le> pi_amount_inr r \<and> 0 \<le> pi_attempts r
     \<and> (case pi_provider_attempts r of None \<Rightarrow> True | Some n \<Rightarrow> 0 \<le> n)"

definition somes :: "('r \<Rightarrow> 'k option) \<Rightarrow> 'r list \<Rightarrow> 'k list" where
  "somes f rows = concat (map (\<lambda>r. case f r of None \<Rightarrow> [] | Some k \<Rightarrow> [k]) rows)"

definition payment_intents_unique :: "payment_intent_row list \<Rightarrow> bool" where
  "payment_intents_unique rows \<longleftrightarrow> keyed pi_id rows \<and> keyed pi_idempotency_key rows
     \<and> keyed pi_authorization_id rows \<and> distinct (somes pi_provider_payment_id rows)
     \<and> distinct (somes pi_provider_order_id rows) \<and> distinct (somes pi_provider_transaction_id rows)"

definition outbox_checks :: "outbox_event_row \<Rightarrow> bool" where
  "outbox_checks r \<longleftrightarrow> 0 \<le> ob_attempts r \<and> 1 \<le> ob_max_attempts r"

section \<open>Statements\<close>

definition find_mission :: "uuid \<Rightarrow> world \<Rightarrow> mission_row option" where
  "find_mission i w = find_row (\<lambda>r. ms_id r = i) (w_missions w)"

definition find_authorization :: "uuid \<Rightarrow> world \<Rightarrow> authorization_row option" where
  "find_authorization i w = find_row (\<lambda>r. az_authorization_id r = i) (w_authorizations w)"

definition find_intent :: "uuid \<Rightarrow> world \<Rightarrow> payment_intent_row option" where
  "find_intent i w = find_row (\<lambda>r. pi_id r = i) (w_payment_intents w)"

definition find_outbox :: "uuid \<Rightarrow> world \<Rightarrow> outbox_event_row option" where
  "find_outbox i w = find_row (\<lambda>r. ob_id r = i) (w_outbox_events w)"

definition insert_mission :: "mission_row \<Rightarrow> unit db" where
  "insert_mission r =
     bind (gets (\<lambda>w. keyed ms_id (w_missions w @ [r]))) (\<lambda>unique.
     andthen (db_require unique ''missions.id'')
    (modify (\<lambda>w. w\<lparr>w_missions := w_missions w @ [r]\<rparr>)))"

definition insert_mission_constraints :: "mission_constraints_row \<Rightarrow> unit db" where
  "insert_mission_constraints r =
     bind (gets (\<lambda>w. find_mission (cr_mission_id r) w \<noteq> None)) (\<lambda>fk.
     bind (gets (\<lambda>w. keyed cr_id (w_mission_constraints w @ [r])
        \<and> keyed cr_mission_id (w_mission_constraints w @ [r]))) (\<lambda>unique.
     andthen (db_require fk ''mission_constraints.mission_id'')
    (andthen (db_require unique ''mission_constraints.id'')
    (modify (\<lambda>w. w\<lparr>w_mission_constraints := w_mission_constraints w @ [r]\<rparr>)))))"

definition insert_offer :: "offer_row \<Rightarrow> unit db" where
  "insert_offer r =
     bind (gets (\<lambda>w. find_mission (of_mission_id r) w \<noteq> None)) (\<lambda>fk.
     bind (gets (\<lambda>w. keyed of_id (w_offers w @ [r]))) (\<lambda>unique.
     andthen (db_require fk ''offers.mission_id'')
    (andthen (db_require unique ''offers.id'')
    (modify (\<lambda>w. w\<lparr>w_offers := w_offers w @ [r]\<rparr>)))))"

definition insert_policy_decision :: "policy_decision_row \<Rightarrow> unit db" where
  "insert_policy_decision r =
     bind (gets (\<lambda>w. find_mission (pdr_mission_id r) w \<noteq> None)) (\<lambda>fk.
     bind (gets (\<lambda>w. keyed pdr_id (w_policy_decisions w @ [r]))) (\<lambda>unique.
     andthen (db_require fk ''policy_decisions.mission_id'')
    (andthen (db_require unique ''policy_decisions.id'')
    (modify (\<lambda>w. w\<lparr>w_policy_decisions := w_policy_decisions w @ [r]\<rparr>)))))"

definition insert_audit_event :: "audit_event_row \<Rightarrow> unit db" where
  "insert_audit_event r =
     bind (gets (\<lambda>w. find_mission (ae_mission_id r) w \<noteq> None)) (\<lambda>fk.
     bind (gets (\<lambda>w. keyed ae_event_id (w_audit_events w @ [r])
        \<and> keyed (\<lambda>e. (ae_mission_id e, ae_sequence e)) (w_audit_events w @ [r]))) (\<lambda>unique.
     andthen (db_require fk ''audit_events.mission_id'')
    (andthen (db_require unique ''uq_audit_mission_sequence'')
    (modify (\<lambda>w. w\<lparr>w_audit_events := w_audit_events w @ [r]\<rparr>)))))"

definition insert_authorization :: "authorization_row \<Rightarrow> unit db" where
  "insert_authorization r =
     bind (gets (\<lambda>w. find_mission (az_mission_id r) w \<noteq> None)) (\<lambda>fk.
     bind (gets (\<lambda>w. keyed az_authorization_id (w_authorizations w @ [r])
        \<and> keyed az_nonce (w_authorizations w @ [r]))) (\<lambda>unique.
     andthen (db_require fk ''authorizations.mission_id'')
    (andthen (db_require unique ''uq_authorizations_nonce'')
    (andthen (db_require (authorization_checks r) ''ck_authorizations'')
    (modify (\<lambda>w. w\<lparr>w_authorizations := w_authorizations w @ [r]\<rparr>))))))"

text \<open>\<open>UPDATE authorizations SET f WHERE p\<close>; the result is the row count.\<close>

definition update_authorizations ::
  "(authorization_row \<Rightarrow> bool) \<Rightarrow> (authorization_row \<Rightarrow> authorization_row) \<Rightarrow> nat db" where
  "update_authorizations p f =
     bind (gets (\<lambda>w. list_all authorization_checks (map f (filter p (w_authorizations w))))) (\<lambda>ok.
     bind (gets (\<lambda>w. rows_matching p (w_authorizations w))) (\<lambda>n.
     andthen (db_require ok ''ck_authorizations'')
    (andthen (modify (\<lambda>w. w\<lparr>w_authorizations := update_where p f (w_authorizations w)\<rparr>))
    (ret n))))"

definition insert_payment_intent :: "payment_intent_row \<Rightarrow> unit db" where
  "insert_payment_intent r =
     bind (gets (\<lambda>w. find_mission (pi_mission_id r) w \<noteq> None
        \<and> find_authorization (pi_authorization_id r) w \<noteq> None)) (\<lambda>fk.
     bind (gets (\<lambda>w. payment_intents_unique (w_payment_intents w @ [r]))) (\<lambda>unique.
     andthen (db_require fk ''payment_intents.fk'')
    (andthen (db_require unique ''uq_payment_intents'')
    (andthen (db_require (payment_intent_checks r) ''ck_payment_intents'')
    (modify (\<lambda>w. w\<lparr>w_payment_intents := w_payment_intents w @ [r]\<rparr>))))))"

definition update_payment_intents ::
  "(payment_intent_row \<Rightarrow> bool) \<Rightarrow> (payment_intent_row \<Rightarrow> payment_intent_row) \<Rightarrow> nat db" where
  "update_payment_intents p f =
     bind (gets (\<lambda>w. update_where p f (w_payment_intents w))) (\<lambda>rows.
     bind (gets (\<lambda>w. rows_matching p (w_payment_intents w))) (\<lambda>n.
     andthen (db_require (payment_intents_unique rows) ''uq_payment_intents'')
    (andthen (db_require (list_all payment_intent_checks rows) ''ck_payment_intents'')
    (andthen (modify (\<lambda>w. w\<lparr>w_payment_intents := rows\<rparr>))
    (ret n)))))"

definition insert_outbox_event :: "outbox_event_row \<Rightarrow> unit db" where
  "insert_outbox_event r =
     bind (gets (\<lambda>w. find_intent (ob_payment_intent_id r) w \<noteq> None)) (\<lambda>fk.
     bind (gets (\<lambda>w. keyed ob_id (w_outbox_events w @ [r]))) (\<lambda>unique.
     andthen (db_require fk ''outbox_events.payment_intent_id'')
    (andthen (db_require unique ''outbox_events.id'')
    (andthen (db_require (outbox_checks r) ''ck_outbox'')
    (modify (\<lambda>w. w\<lparr>w_outbox_events := w_outbox_events w @ [r]\<rparr>))))))"

definition update_outbox ::
  "(outbox_event_row \<Rightarrow> bool) \<Rightarrow> (outbox_event_row \<Rightarrow> outbox_event_row) \<Rightarrow> nat db" where
  "update_outbox p f =
     bind (gets (\<lambda>w. list_all outbox_checks (map f (filter p (w_outbox_events w))))) (\<lambda>ok.
     bind (gets (\<lambda>w. rows_matching p (w_outbox_events w))) (\<lambda>n.
     andthen (db_require ok ''ck_outbox'')
    (andthen (modify (\<lambda>w. w\<lparr>w_outbox_events := update_where p f (w_outbox_events w)\<rparr>))
    (ret n))))"

definition set_mission_state :: "uuid \<Rightarrow> mission_state \<Rightarrow> unit db" where
  "set_mission_state i st =
     modify (\<lambda>w. w\<lparr>w_missions := update_where (\<lambda>r. ms_id r = i) (\<lambda>r. r\<lparr>ms_state := st\<rparr>) (w_missions w)\<rparr>)"

text \<open>
  A transaction block \<open>begin_nested\<close>: on an exception the tables are those of the savepoint;
  the clock and the entropy already drawn stay drawn.
\<close>

definition restore_tables :: "world \<Rightarrow> world \<Rightarrow> world" where
  "restore_tables saved w = w\<lparr>w_missions := w_missions saved,
     w_mission_constraints := w_mission_constraints saved, w_offers := w_offers saved,
     w_policy_decisions := w_policy_decisions saved, w_audit_events := w_audit_events saved,
     w_authorizations := w_authorizations saved, w_payment_intents := w_payment_intents saved,
     w_outbox_events := w_outbox_events saved, w_webhook_events := w_webhook_events saved\<rparr>"

definition begin_nested :: "'a db \<Rightarrow> 'a db" where
  "begin_nested m = (\<lambda>w. case m w of (Inl e, w') \<Rightarrow> (Inl e, restore_tables w w') | (Inr x, w') \<Rightarrow> (Inr x, w'))"

end
