(* ===== verification/Ledger.thy ===== *)
theory Ledger
  imports Database
begin

text \<open>
  The audit ledger: hashing (\<^verbatim>\<open>services/audit_ledger/hashing.py\<close>), the append-only
  writer (\<^verbatim>\<open>ledger.py\<close>) and the verifier (\<^verbatim>\<open>verify.py\<close>). The writer keeps
  every mission's chain verifiable; the verifier detects every change to a hashed field of
  an event that is not the removal of a suffix, up to an explicit SHA-256 collision.
\<close>

section \<open>Hashing\<close>

definition GENESIS_HASH :: string where
  "GENESIS_HASH = replicate 64 (CHR ''0'')"

definition HASH_HEX_LENGTH :: nat where
  "HASH_HEX_LENGTH = 64"

definition utf8_char :: "char \<Rightarrow> string" where
  "utf8_char c = (let n = of_char c :: int in
     if n < 128 then [c] else [char_of (192 + n div 64), char_of (128 + n mod 64)])"

definition utf8 :: "string \<Rightarrow> string" where
  "utf8 s = concat (map utf8_char s)"

definition canonical_json :: "json \<Rightarrow> string" where
  "canonical_json j = dumps False j"

definition event_json ::
  "string \<Rightarrow> int \<Rightarrow> string \<Rightarrow> string \<Rightarrow> json \<Rightarrow> string \<Rightarrow> instant \<Rightarrow> json" where
  "event_json mission_id sequence event_type actor payload previous_hash created_at = JObj
     [(''mission_id'', JStr mission_id), (''sequence'', JInt sequence),
      (''event_type'', JStr event_type), (''actor'', JStr actor), (''payload'', payload),
      (''previous_hash'', JStr previous_hash), (''created_at'', JStr (iso_utc created_at))]"

definition canonical_event_body ::
  "string \<Rightarrow> int \<Rightarrow> string \<Rightarrow> string \<Rightarrow> json \<Rightarrow> string \<Rightarrow> instant \<Rightarrow> string" where
  "canonical_event_body mission_id sequence event_type actor payload previous_hash created_at =
     canonical_json (event_json mission_id sequence event_type actor payload previous_hash created_at)"

definition compute_event_hash ::
  "string \<Rightarrow> int \<Rightarrow> string \<Rightarrow> string \<Rightarrow> json \<Rightarrow> string \<Rightarrow> instant \<Rightarrow> string" where
  "compute_event_hash mission_id sequence event_type actor payload previous_hash created_at =
     sha256_hex (utf8 (canonical_event_body mission_id sequence event_type actor payload
       previous_hash created_at))"

text \<open>The body and the hash of a stored row.\<close>

definition row_body :: "audit_event_row \<Rightarrow> string" where
  "row_body e = utf8 (canonical_event_body (uuid_str (ae_mission_id e)) (ae_sequence e)
     (ae_event_type e) (ae_actor e) (ae_payload e) (ae_previous_hash e) (ae_created_at e))"

definition row_hash :: "audit_event_row \<Rightarrow> string" where
  "row_hash e = compute_event_hash (uuid_str (ae_mission_id e)) (ae_sequence e)
     (ae_event_type e) (ae_actor e) (ae_payload e) (ae_previous_hash e) (ae_created_at e)"

section \<open>The writer\<close>

definition list_events :: "uuid \<Rightarrow> world \<Rightarrow> audit_event_row list" where
  "list_events mission_id w =
     sort_key ae_sequence (filter (\<lambda>e. ae_mission_id e = mission_id) (w_audit_events w))"

definition last_event :: "uuid \<Rightarrow> world \<Rightarrow> audit_event_row option" where
  "last_event mission_id w =
     latest_by ae_sequence (filter (\<lambda>e. ae_mission_id e = mission_id) (w_audit_events w))"

definition append_event :: "uuid \<Rightarrow> event_type \<Rightarrow> string \<Rightarrow> payload \<Rightarrow> audit_event_row db" where
  "append_event mission_id event_type actor payload =
     bind (gets (last_event mission_id)) (\<lambda>prev.
     let sequence = (case prev of None \<Rightarrow> 0 | Some e \<Rightarrow> ae_sequence e + 1);
         previous_hash = (case prev of None \<Rightarrow> GENESIS_HASH | Some e \<Rightarrow> ae_event_hash e) in
     bind utcnow (\<lambda>created_at.
     let event_hash = compute_event_hash (uuid_str mission_id) sequence (event_text event_type) actor
           (JObj payload) previous_hash created_at in
     bind uuid4 (\<lambda>event_id.
     let row = \<lparr>ae_event_id = event_id, ae_mission_id = mission_id, ae_sequence = sequence,
           ae_event_type = event_text event_type, ae_actor = actor, ae_payload = JObj payload,
           ae_previous_hash = previous_hash, ae_event_hash = event_hash, ae_created_at = created_at\<rparr> in
     andthen (insert_audit_event row) (ret row))))"

section \<open>The verifier\<close>

record verification_result =
  vr_valid :: bool
  vr_mission_id :: uuid
  vr_events_checked :: nat
  vr_first_invalid_sequence :: "int option"
  vr_reason_code :: audit_reason
  vr_expected_hash :: "string option"
  vr_actual_hash :: "string option"

definition is_hash_shaped :: "string \<Rightarrow> bool" where
  "is_hash_shaped s \<longleftrightarrow> length s = HASH_HEX_LENGTH \<and> list_all (\<lambda>c. c \<in> set ''0123456789abcdef'') s"

definition invalid_result :: "uuid \<Rightarrow> nat \<Rightarrow> int \<Rightarrow> audit_reason \<Rightarrow> string option \<Rightarrow> string option
    \<Rightarrow> verification_result" where
  "invalid_result mission_id checked sequence reason expected actual =
     \<lparr>vr_valid = False, vr_mission_id = mission_id, vr_events_checked = checked,
      vr_first_invalid_sequence = Some sequence, vr_reason_code = reason,
      vr_expected_hash = expected, vr_actual_hash = actual\<rparr>"

definition valid_result :: "uuid \<Rightarrow> nat \<Rightarrow> verification_result" where
  "valid_result mission_id checked = \<lparr>vr_valid = True, vr_mission_id = mission_id,
     vr_events_checked = checked, vr_first_invalid_sequence = None, vr_reason_code = V_AUDIT_VALID,
     vr_expected_hash = None, vr_actual_hash = None\<rparr>"

text \<open>
  The shape of a row. The sequence is an integer and the creation time is present by the type
  of the column; a payload column may hold any JSON value.
\<close>

definition well_shaped :: "audit_event_row \<Rightarrow> bool" where
  "well_shaped e \<longleftrightarrow> 0 \<le> ae_sequence e \<and> is_hash_shaped (ae_previous_hash e)
     \<and> is_hash_shaped (ae_event_hash e) \<and> (case ae_payload e of JObj _ \<Rightarrow> True | _ \<Rightarrow> False)
     \<and> ae_event_type e \<noteq> [] \<and> ae_actor e \<noteq> []"

definition structural_failure :: "uuid \<Rightarrow> nat \<Rightarrow> audit_event_row \<Rightarrow> verification_result option" where
  "structural_failure mission_id checked e =
     (if well_shaped e then None
      else Some (invalid_result mission_id checked (ae_sequence e) V_AUDIT_EVENT_MALFORMED None None))"

text \<open>
  The loop of \<open>verify_events\<close> at position \<open>index\<close>; \<open>preceding\<close> is the event before it.
\<close>

fun verify_loop :: "uuid \<Rightarrow> nat \<Rightarrow> audit_event_row option \<Rightarrow> audit_event_row list \<Rightarrow> verification_result"
where
  "verify_loop mission_id index preceding [] = valid_result mission_id index"
| "verify_loop mission_id index preceding (e # es) =
    (case structural_failure mission_id index e of Some failure \<Rightarrow> failure | None \<Rightarrow>
     if ae_sequence e \<noteq> int index then
       invalid_result mission_id index (ae_sequence e) V_AUDIT_SEQUENCE_GAP None None
     else case preceding of
       None \<Rightarrow>
         if ae_previous_hash e \<noteq> GENESIS_HASH then
           invalid_result mission_id 0 (ae_sequence e) V_AUDIT_GENESIS_INVALID
             (Some GENESIS_HASH) (Some (ae_previous_hash e))
         else if row_hash e \<noteq> ae_event_hash e then
           invalid_result mission_id index (ae_sequence e) V_AUDIT_EVENT_HASH_MISMATCH
             (Some (row_hash e)) (Some (ae_event_hash e))
         else verify_loop mission_id (Suc index) (Some e) es
     | Some p \<Rightarrow>
         if ae_previous_hash e \<noteq> ae_event_hash p then
           invalid_result mission_id index (ae_sequence e) V_AUDIT_PREVIOUS_HASH_MISMATCH
             (Some (ae_event_hash p)) (Some (ae_previous_hash e))
         else if row_hash e \<noteq> ae_event_hash e then
           invalid_result mission_id index (ae_sequence e) V_AUDIT_EVENT_HASH_MISMATCH
             (Some (row_hash e)) (Some (ae_event_hash e))
         else verify_loop mission_id (Suc index) (Some e) es)"

definition verify_events :: "uuid \<Rightarrow> audit_event_row list \<Rightarrow> verification_result" where
  "verify_events mission_id events =
     verify_loop mission_id 0 None (sort_key (\<lambda>e. (ae_sequence e, uuid_str (ae_event_id e))) events)"

definition verify_mission_chain :: "uuid \<Rightarrow> verification_result db" where
  "verify_mission_chain mission_id =
     bind (gets (list_events mission_id)) (\<lambda>events. ret (verify_events mission_id events))"

section \<open>The hashed text determines the event\<close>

lemma year_range:
  assumes "ord2ymd (i div usec_per_day) = (y, m, d)" "0 \<le> i" "i \<le> max_instant"
  shows "0 \<le> y" "y < 10000"
proof -
  have n: "0 \<le> i div usec_per_day" "i div usec_per_day \<le> 3652058"
    using assms(2,3) by (simp_all add: usec_per_day_def max_instant_def pos_imp_zdiv_nonneg_iff)
  note o = ymd2ord_ord2ymd [OF assms(1)]
  from o(6) n show "0 \<le> y" by simp
  have "0 \<le> days_before_month (is_leap y) m"
  proof -
    from o(2,3) have "m \<in> set [1..12]" by simp
    then show ?thesis by (auto simp: days_before_month_def upto_rec1)
  qed
  with o(1,4) n(2) have "days_before_year y \<le> 3652058" by (simp add: ymd2ord_def)
  then have sum: "y * 365 - 365 + (y - 1) div 4 - (y - 1) div 100 + (y - 1) div 400 \<le> 3652058"
    by (simp add: days_before_year_def left_diff_distrib)
  show "y < 10000"
  proof (rule ccontr)
    assume "\<not> y < 10000"
    then have y: "10000 \<le> y" by simp
    define p q r where "p = (y - 1) div 4" and "q = (y - 1) div 100" and "r = (y - 1) div 400"
    have "y - 4 \<le> 4 * p" "100 * q \<le> y - 1" "24 \<le> r"
      unfolding p_def q_def r_def using y by linarith+
    with sum [folded p_def q_def r_def] y show False by linarith
  qed
qed

lemma iso_utc_inj:
  assumes eq: "isoformat (Aware i 0) = isoformat (Aware j 0)"
    and i: "0 \<le> i" "i \<le> max_instant" and j: "0 \<le> j" "j \<le> max_instant"
  shows "i = j"
proof -
  obtain y m d where 1: "ord2ymd (i div usec_per_day) = (y, m, d)" by (metis prod_cases3)
  obtain y' m' d' where 2: "ord2ymd (j div usec_per_day) = (y', m', d')" by (metis prod_cases3)
  define u v where "u = i mod usec_per_day" and "v = j mod usec_per_day"
  define frac :: "int \<Rightarrow> string" where
    "frac z = (if z mod 1000000 = 0 then [] else ''.'' @ dec_fixed 6 (z mod 1000000))" for z
  have iso0: "iso_offset 0 = ''+00:00''" by (simp add: iso_offset_def dec_digit_def numeral_2_eq_2)
  from eq have
    "(dec_fixed 4 y @ ''-'' @ dec_fixed 2 m @ ''-'' @ dec_fixed 2 d @ ''T''
        @ dec_fixed 2 (u div 3600000000) @ '':'' @ dec_fixed 2 (u div 60000000 mod 60) @ '':''
        @ dec_fixed 2 (u div 1000000 mod 60)) @ frac u @ ''+00:00''
     = (dec_fixed 4 y' @ ''-'' @ dec_fixed 2 m' @ ''-'' @ dec_fixed 2 d' @ ''T''
        @ dec_fixed 2 (v div 3600000000) @ '':'' @ dec_fixed 2 (v div 60000000 mod 60) @ '':''
        @ dec_fixed 2 (v div 1000000 mod 60)) @ frac v @ ''+00:00''"
    by (simp only: isoformat_def iso_reading_def datetime.case Let_def add_0_right 1 2 prod.case
        u_def v_def frac_def iso0 append_assoc)
  then have fields: "dec_fixed 4 y = dec_fixed 4 y'" "dec_fixed 2 m = dec_fixed 2 m'" "dec_fixed 2 d = dec_fixed 2 d'"
    "dec_fixed 2 (u div 3600000000) = dec_fixed 2 (v div 3600000000)"
    "dec_fixed 2 (u div 60000000 mod 60) = dec_fixed 2 (v div 60000000 mod 60)"
    "dec_fixed 2 (u div 1000000 mod 60) = dec_fixed 2 (v div 1000000 mod 60)"
    and fr: "frac u = frac v"
    by (simp_all add: append_eq_append_conv del: dec_fixed.simps)
  have "u mod 1000000 = v mod 1000000"
    using fr dec_fixed_inj [of 6 "u mod 1000000" "v mod 1000000"]
    by (simp add: frac_def del: dec_fixed.simps split: if_splits)
  moreover have "y = y'"
    using dec_fixed_inj [OF fields(1)] year_range [OF 1 i] year_range [OF 2 j] by simp
  ultimately show ?thesis
    using same_reading [OF 1 2 [folded \<open>y = y'\<close>] fields(2,3)] fields unfolding u_def v_def by blast
qed

text \<open>UTF-8 is injective on the characters of the model: the lead byte tells the length.\<close>

lemma utf8_char_decode:
  assumes "utf8_char c @ r = utf8_char d @ s" shows "c = d \<and> r = s"
proof -
  define n m where "n = (of_char c :: int)" and "m = (of_char d :: int)"
  have nm: "0 \<le> n" "n < 256" "0 \<le> m" "m < 256"
    using of_char_ge_0 of_char_lt_256 by (simp_all add: n_def m_def)
  have byte: "(of_char (char_of k :: char) :: int) = k" if "0 \<le> k" "k < 256" for k
    using that by simp
  consider "n < 128" "m < 128" | "n < 128" "128 \<le> m" | "128 \<le> n" "m < 128" | "128 \<le> n" "128 \<le> m"
    by linarith
  then show ?thesis
  proof cases
    case 1
    with assms show ?thesis by (simp add: utf8_char_def Let_def flip: n_def m_def)
  next
    case 2
    with assms have "c = char_of (192 + m div 64)" by (simp add: utf8_char_def Let_def flip: n_def m_def)
    with byte [of "192 + m div 64"] nm 2 have "n = 192 + m div 64" by (simp add: n_def)
    with 2 nm show ?thesis by linarith
  next
    case 3
    with assms have "d = char_of (192 + n div 64)" by (simp add: utf8_char_def Let_def flip: n_def m_def)
    with byte [of "192 + n div 64"] nm 3 have "m = 192 + n div 64" by (simp add: m_def)
    with 3 nm show ?thesis by linarith
  next
    case 4
    with assms have "char_of (192 + n div 64) = (char_of (192 + m div 64) :: char)"
      "char_of (128 + n mod 64) = (char_of (128 + m mod 64) :: char)" and rs: "r = s"
      by (simp_all add: utf8_char_def Let_def flip: n_def m_def)
    then have "(of_char (char_of (192 + n div 64) :: char) :: int) = of_char (char_of (192 + m div 64) :: char)"
      "(of_char (char_of (128 + n mod 64) :: char) :: int) = of_char (char_of (128 + m mod 64) :: char)"
      by simp_all
    moreover have "0 \<le> 192 + k div 64 \<and> 192 + k div 64 < 256 \<and> 0 \<le> 128 + k mod 64 \<and> 128 + k mod 64 < 256"
      if "0 \<le> k" "k < 256" for k :: int using that by (intro conjI; linarith)
    ultimately have "192 + n div 64 = 192 + m div 64" "128 + n mod 64 = 128 + m mod 64"
      using byte nm by simp_all
    then have "n = m" by (metis add_left_cancel div_mult_mod_eq)
    with rs show ?thesis by (simp add: n_def m_def)
  qed
qed

lemma utf8_char_nonempty [simp]: "utf8_char c \<noteq> []"
  by (simp add: utf8_char_def Let_def)

lemma utf8_inj: "utf8 s = utf8 t \<Longrightarrow> s = t"
proof (induction s arbitrary: t)
  case Nil
  then show ?case by (cases t) (simp_all add: utf8_def)
next
  case (Cons c s)
  from Cons.prems obtain d t' where t: "t = d # t'" by (cases t) (simp_all add: utf8_def)
  with Cons.prems have "utf8_char c @ utf8 s = utf8_char d @ utf8 t'" by (simp add: utf8_def)
  from utf8_char_decode [OF this] Cons.IH t show ?case by blast
qed

text \<open>Two rows that agree on everything the hash covers.\<close>

definition same_event :: "audit_event_row \<Rightarrow> audit_event_row \<Rightarrow> bool" where
  "same_event e f \<longleftrightarrow> ae_mission_id e = ae_mission_id f \<and> ae_sequence e = ae_sequence f
     \<and> ae_event_type e = ae_event_type f \<and> ae_actor e = ae_actor f
     \<and> normalise (ae_payload e) = normalise (ae_payload f)
     \<and> ae_previous_hash e = ae_previous_hash f \<and> ae_created_at e = ae_created_at f"

text \<open>A representable row: the floats of its payload carry float lexemes, its creation time is
  one a \<open>datetime\<close> can hold.\<close>

definition event_ok :: "audit_event_row \<Rightarrow> bool" where
  "event_ok e \<longleftrightarrow> json_ok (ae_payload e) \<and> 0 \<le> ae_created_at e \<and> ae_created_at e \<le> max_instant"

lemma event_json_member:
  assumes "normalise (event_json m n t a p h c) = normalise (event_json m' n' t' a' p' h' c')"
  shows "m = m' \<and> n = n' \<and> t = t' \<and> a = a' \<and> normalise p = normalise p' \<and> h = h' \<and> iso_utc c = iso_utc c'"
proof -
  define ms where "ms m n t a p h c = [(''mission_id'', JStr m), (''sequence'', JInt n),
      (''event_type'', JStr t), (''actor'', JStr a), (''payload'', normalise p),
      (''previous_hash'', JStr h), (''created_at'', JStr (iso_utc c))]" for m n t a p h c
  have n: "normalise (event_json m n t a p h c) = JObj (sort_key fst (ms m n t a p h c))" for m n t a p h c
    by (simp add: event_json_def ms_def)
  have d: "distinct (map fst (ms m n t a p h c))" for m n t a p h c by (simp add: ms_def)
  from assms have "sort_key fst (ms m n t a p h c) = sort_key fst (ms m' n' t' a' p' h' c')"
    by (simp only: n json.inject)
  then have eq: "map_of (ms m n t a p h c) = map_of (ms m' n' t' a' p' h' c')"
    by (metis d sorted_members_map_of)
  show ?thesis
    using fun_cong [OF eq, of "''mission_id''"] fun_cong [OF eq, of "''sequence''"]
      fun_cong [OF eq, of "''event_type''"] fun_cong [OF eq, of "''actor''"]
      fun_cong [OF eq, of "''payload''"] fun_cong [OF eq, of "''previous_hash''"]
      fun_cong [OF eq, of "''created_at''"]
    by (simp add: ms_def)
qed

lemma row_body_inj:
  assumes "row_body e = row_body f" and "event_ok e" and "event_ok f"
  shows "same_event e f"
proof -
  define j where "j e = event_json (uuid_str (ae_mission_id e)) (ae_sequence e) (ae_event_type e)
      (ae_actor e) (ae_payload e) (ae_previous_hash e) (ae_created_at e)" for e :: audit_event_row
  have ok: "json_ok (j e)" if "event_ok e" for e using that by (simp add: j_def event_json_def event_ok_def)
  from assms(1) have "dumps False (j e) = dumps False (j f)"
    unfolding row_body_def canonical_event_body_def canonical_json_def j_def by (rule utf8_inj)
  from dumps_inj [OF ok [OF assms(2)] ok [OF assms(3)] this]
  have "normalise (j e) = normalise (j f)" .
  from event_json_member [OF this [unfolded j_def]] assms(2,3) show ?thesis
    by (auto simp: same_event_def event_ok_def dest: uuid_str_inj iso_utc_inj)
qed

section \<open>Hash chains\<close>

text \<open>
  The interface of a hash chain: every element stores the digest of its predecessor, and a
  digest binds the content of its element, the stored digest included, or else exhibits a
  collision.
\<close>

fun linked :: "('e \<Rightarrow> 'h) \<Rightarrow> ('e \<Rightarrow> 'h) \<Rightarrow> 'h \<Rightarrow> 'e list \<Rightarrow> bool" where
  "linked prev digest h [] \<longleftrightarrow> True"
| "linked prev digest h (e # es) \<longleftrightarrow> prev e = h \<and> linked prev digest (digest e) es"

lemma linked_append:
  "linked prev digest h (es @ [e]) \<longleftrightarrow>
     linked prev digest h es \<and> prev e = (if es = [] then h else digest (last es))"
  by (induction es arbitrary: h) auto

locale hash_chain =
  fixes prev :: "'e \<Rightarrow> 'h" and digest :: "'e \<Rightarrow> 'h" and ok :: "'e \<Rightarrow> bool"
    and same :: "'e \<Rightarrow> 'e \<Rightarrow> bool" and collide :: "'e \<Rightarrow> 'e \<Rightarrow> bool"
  assumes binding: "ok x \<Longrightarrow> ok y \<Longrightarrow> digest x = digest y \<Longrightarrow> same x y \<or> collide x y"
    and same_prev: "same x y \<Longrightarrow> prev x = prev y"
begin

text \<open>The digest of the last element commits to the whole chain.\<close>

lemma head_commits:
  assumes "linked prev digest g xs" "linked prev digest g ys" "length xs = length ys"
    and "xs \<noteq> [] \<Longrightarrow> digest (last xs) = digest (last ys)"
    and "\<forall>x \<in> set xs. ok x" "\<forall>y \<in> set ys. ok y"
  shows "list_all2 same xs ys \<or> (\<exists>x \<in> set xs. \<exists>y \<in> set ys. collide x y)"
  using assms
proof (induction xs arbitrary: ys rule: rev_induct)
  case Nil
  then show ?case by simp
next
  case (snoc x xs)
  from snoc.prems(3) obtain y ys' where ys: "ys = ys' @ [y]" and len: "length xs = length ys'"
    by (cases ys rule: rev_cases) auto
  with snoc.prems(4) have "digest x = digest y" by simp
  with snoc.prems(5,6) ys binding [of x y] consider "same x y" | "collide x y" by auto
  then show ?case
  proof cases
    case 1
    from snoc.prems(1,2) ys have "linked prev digest g xs" "linked prev digest g ys'"
      and pr: "prev x = (if xs = [] then g else digest (last xs))"
        "prev y = (if ys' = [] then g else digest (last ys'))" by (simp_all add: linked_append)
    with same_prev [OF 1] len have "xs \<noteq> [] \<Longrightarrow> digest (last xs) = digest (last ys')" by auto
    with snoc.IH [OF \<open>linked prev digest g xs\<close> \<open>linked prev digest g ys'\<close> len] snoc.prems(5,6) ys
    have "list_all2 same xs ys' \<or> (\<exists>x \<in> set xs. \<exists>y \<in> set ys'. collide x y)" by auto
    with 1 ys show ?thesis by (auto intro: list_all2_appendI)
  next
    case 2
    with ys show ?thesis by auto
  qed
qed

end

interpretation audit: hash_chain ae_previous_hash row_hash event_ok same_event
  "\<lambda>e f. sha_collision (row_body e) (row_body f)"
proof unfold_locales
  fix x y assume ok: "event_ok x" "event_ok y" and "row_hash x = row_hash y"
  then have "sha256_hex (row_body x) = sha256_hex (row_body y)"
    by (simp add: row_hash_def compute_event_hash_def row_body_def)
  then consider "row_body x = row_body y" | "sha_collision (row_body x) (row_body y)"
    using sha256_eqD by blast
  then show "same_event x y \<or> sha_collision (row_body x) (row_body y)"
    using row_body_inj [OF _ ok] by cases auto
qed (simp add: same_event_def)

section \<open>What the verifier accepts\<close>

text \<open>The specification of an intact chain.\<close>

definition intact :: "audit_event_row list \<Rightarrow> bool" where
  "intact es \<longleftrightarrow> (\<forall>e \<in> set es. well_shaped e \<and> row_hash e = ae_event_hash e)
     \<and> map ae_sequence es = map int [0..<length es] \<and> linked ae_previous_hash ae_event_hash GENESIS_HASH es"

lemma structural_failure_None [simp]: "structural_failure m k e = None \<longleftrightarrow> well_shaped e"
  by (simp add: structural_failure_def)

lemma invalid_result_simps [simp]: "\<not> vr_valid (invalid_result m k s r x y)"
  "vr_reason_code (invalid_result m k s r x y) = r" "vr_valid (valid_result m k)"
  "vr_events_checked (valid_result m k) = k" "vr_reason_code (valid_result m k) = V_AUDIT_VALID"
  by (simp_all add: invalid_result_def valid_result_def)

lemma verify_loop_valid:
  "vr_valid (verify_loop m k p es) \<longleftrightarrow>
     (\<forall>e \<in> set es. well_shaped e \<and> row_hash e = ae_event_hash e)
     \<and> map ae_sequence es = map int [k..<k + length es]
     \<and> linked ae_previous_hash ae_event_hash (case p of None \<Rightarrow> GENESIS_HASH | Some e \<Rightarrow> ae_event_hash e) es"
proof (induction es arbitrary: k p)
  case Nil
  show ?case by simp
next
  case (Cons e es)
  have up: "[k..<Suc (k + length es)] = k # [Suc k..<Suc (k + length es)]" by (simp add: upt_rec)
  let ?h = "case p of None \<Rightarrow> GENESIS_HASH | Some e \<Rightarrow> ae_event_hash e"
  show ?case
  proof (cases "well_shaped e \<and> ae_sequence e = int k \<and> ae_previous_hash e = ?h \<and> row_hash e = ae_event_hash e")
    case False
    then have "\<not> vr_valid (verify_loop m k p (e # es))"
      by (cases p) (auto simp: structural_failure_def)
    with False show ?thesis by (auto simp: up simp del: upt_Suc verify_loop.simps)
  next
    case True
    then have "verify_loop m k p (e # es) = verify_loop m (Suc k) (Some e) es"
      by (simp add: structural_failure_def split: option.splits)
    with True Cons.IH [of "Suc k" "Some e"] show ?thesis by (simp add: up del: upt_Suc verify_loop.simps)
  qed
qed

definition verify_key :: "audit_event_row \<Rightarrow> int \<times> string" where
  "verify_key e = (ae_sequence e, uuid_str (ae_event_id e))"

lemma verify_events_valid_iff:
  "vr_valid (verify_events m es) \<longleftrightarrow> intact (sort_key verify_key es)"
  unfolding verify_events_def verify_key_def by (simp add: verify_loop_valid intact_def)

text \<open>The verdict does not depend on the order in which the rows arrive.\<close>

lemma keyed_verify_key: "keyed ae_event_id es \<Longrightarrow> inj_on verify_key (set es)"
  by (auto simp: keyed_def distinct_map inj_on_def verify_key_def dest: uuid_str_inj)

lemma verify_events_perm:
  assumes "mset es = mset fs" and "keyed ae_event_id es"
  shows "verify_events m es = verify_events m fs"
  using sort_key_perm [OF assms(1) keyed_verify_key [OF assms(2)]]
  by (simp add: verify_events_def verify_key_def [abs_def])

text \<open>On rows in sequence order the verifier's own sort changes nothing.\<close>

lemma sorted_by_verify_key:
  assumes "map ae_sequence es = map int [0..<length es]"
  shows "sort_key verify_key es = es"
proof (rule sort_key_id_if_sorted)
  have "ae_sequence (es ! i) = int i" if "i < length es" for i
    using arg_cong [OF assms, of "\<lambda>xs. xs ! i"] that by simp
  then show "sorted (map verify_key es)"
    by (auto simp: sorted_iff_nth_mono_less verify_key_def)
qed

section \<open>The writer keeps every chain intact\<close>

definition ledger_ok :: "world \<Rightarrow> bool" where
  "ledger_ok w \<longleftrightarrow> (\<forall>m. intact (list_events m w))"

lemma intact_verifies: "intact es \<Longrightarrow> verify_events m es = valid_result m (length es)"
proof -
  assume i: "intact es"
  then have s: "sort_key verify_key es = es" by (simp add: intact_def sorted_by_verify_key)
  have "verify_loop m k p xs = valid_result m (k + length xs)" if "vr_valid (verify_loop m k p xs)" for k p xs
    using that
  proof (induction xs arbitrary: k p)
    case Nil
    show ?case by simp
  next
    case (Cons x xs)
    from Cons.prems Cons.IH [of "Suc k" "Some x"] show ?case
      by (cases p) (auto simp: structural_failure_def split: if_splits)
  qed
  moreover have "vr_valid (verify_loop m 0 None es)" using i by (simp add: verify_loop_valid intact_def)
  ultimately have "verify_loop m 0 None es = valid_result m (0 + length es)" by blast
  with s show ?thesis by (simp add: verify_events_def verify_key_def [abs_def])
qed

lemma is_hash_shaped_sha [simp]: "is_hash_shaped (sha256_hex m)"
  using set_sha256_hex [of m] unfolding is_hash_shaped_def HASH_HEX_LENGTH_def list_all_iff hex_digits_def
  by (simp only: length_sha256_hex) blast

lemma is_hash_shaped_genesis [simp]: "is_hash_shaped GENESIS_HASH"
  by (simp add: is_hash_shaped_def HASH_HEX_LENGTH_def GENESIS_HASH_def list_all_iff)

lemma event_text_nonempty [simp]: "event_text t \<noteq> []"
  by (cases t) simp_all

lemma latest_by_None [simp]: "latest_by k rows = None \<longleftrightarrow> rows = []"
  by (auto simp: latest_by_def split: list.splits)

lemma latest_by_Some: "latest_by k rows = Some r \<longleftrightarrow> rows \<noteq> [] \<and> r = last (sort_key k rows)"
proof (cases "sort_key k rows")
  case Nil
  then show ?thesis by (simp add: latest_by_def)
next
  case (Cons x xs)
  then have "rows \<noteq> []" by auto
  with Cons show ?thesis by (auto simp: latest_by_def)
qed

lemma latest_by_max:
  assumes "latest_by k rows = Some r" and "x \<in> set rows" shows "k x \<le> k r"
proof -
  from assms have r: "k r = last (map k (sort_key k rows))" by (simp add: latest_by_Some last_map)
  have "sorted (map k (sort_key k rows))" by simp
  moreover from assms(2) have "k x \<in> set (map k (sort_key k rows))" by simp
  ultimately show ?thesis unfolding r by (rule sorted_le_last)
qed

text \<open>The row an append would write, and the state after its draws from clock and entropy.\<close>

definition next_row :: "uuid \<Rightarrow> event_type \<Rightarrow> string \<Rightarrow> payload \<Rightarrow> world \<Rightarrow> audit_event_row" where
  "next_row m t a p w = (let
     n = (case last_event m w of None \<Rightarrow> 0 | Some e \<Rightarrow> ae_sequence e + 1);
     h = (case last_event m w of None \<Rightarrow> GENESIS_HASH | Some e \<Rightarrow> ae_event_hash e);
     c = w_clock w (w_clock_idx w)
     in \<lparr>ae_event_id = w_uuids w (w_uuid_idx w), ae_mission_id = m, ae_sequence = n,
         ae_event_type = event_text t, ae_actor = a, ae_payload = JObj p, ae_previous_hash = h,
         ae_event_hash = compute_event_hash (uuid_str m) n (event_text t) a (JObj p) h c,
         ae_created_at = c\<rparr>)"

definition draw :: "world \<Rightarrow> world" where
  "draw w = w\<lparr>w_uuid_idx := Suc (w_uuid_idx w), w_clock_idx := Suc (w_clock_idx w)\<rparr>"

definition appendable :: "audit_event_row list \<Rightarrow> audit_event_row \<Rightarrow> bool" where
  "appendable es r \<longleftrightarrow> keyed ae_event_id (es @ [r]) \<and> keyed (\<lambda>e. (ae_mission_id e, ae_sequence e)) (es @ [r])"

lemma append_event_eq:
  "append_event m t a p w =
    (let r = next_row m t a p w in
     if find_mission m w = None then (Inl (IntegrityError ''audit_events.mission_id''), draw w)
     else if \<not> appendable (w_audit_events w) r then (Inl (IntegrityError ''uq_audit_mission_sequence''), draw w)
     else (Inr r, (draw w)\<lparr>w_audit_events := w_audit_events w @ [r]\<rparr>))"
  by (simp add: append_event_def next_row_def insert_audit_event_def draw_def appendable_def
      db_require_def utcnow_def uuid4_def session_defs Let_def find_mission_def add.commute)

text \<open>Frame: an append touches no other table.\<close>

interpretation frame: session_order "\<lambda>s t. f t = f s" for f :: "'s \<Rightarrow> 'f"
  by unfold_locales simp_all

interpretation stable: session_order "\<lambda>s t. I s \<longrightarrow> I t" for I :: "'s \<Rightarrow> bool"
  by unfold_locales simp_all

lemma append_event_frame:
  "keeps (\<lambda>w w'. w_authorizations w' = w_authorizations w) (append_event m t a p)"
  "keeps (\<lambda>w w'. w_payment_intents w' = w_payment_intents w) (append_event m t a p)"
  "keeps (\<lambda>w w'. w_outbox_events w' = w_outbox_events w) (append_event m t a p)"
  "keeps (\<lambda>w w'. w_missions w' = w_missions w) (append_event m t a p)"
  "keeps (\<lambda>w w'. w_policy_decisions w' = w_policy_decisions w) (append_event m t a p)"
  "keeps (\<lambda>w w'. w_offers w' = w_offers w) (append_event m t a p)"
  "keeps (\<lambda>w w'. w_webhook_events w' = w_webhook_events w) (append_event m t a p)"
  by (simp_all add: keeps_def append_event_eq Let_def draw_def)

lemma next_row_simps [simp]:
  "ae_mission_id (next_row m t a p w) = m" "ae_actor (next_row m t a p w) = a"
  "ae_event_type (next_row m t a p w) = event_text t" "ae_payload (next_row m t a p w) = JObj p"
  by (simp_all add: next_row_def Let_def)

lemma row_hash_next_row: "row_hash (next_row m t a p w) = ae_event_hash (next_row m t a p w)"
  by (simp add: row_hash_def next_row_def Let_def)

lemma list_events_append:
  "list_events k (w\<lparr>w_audit_events := w_audit_events w @ [next_row m t a p w]\<rparr>)
    = (if k = m then list_events k w @ [next_row m t a p w] else list_events k w)"
proof -
  have "\<forall>e \<in> set (filter (\<lambda>e. ae_mission_id e = m) (w_audit_events w)).
      ae_sequence e \<le> ae_sequence (next_row m t a p w)"
  proof
    fix e assume e: "e \<in> set (filter (\<lambda>e. ae_mission_id e = m) (w_audit_events w))"
    then obtain l where l: "last_event m w = Some l"
      by (metis empty_iff last_event_def latest_by_None list.set(1) not_None_eq)
    from latest_by_max [OF l [unfolded last_event_def] e] l
    show "ae_sequence e \<le> ae_sequence (next_row m t a p w)" by (simp add: next_row_def Let_def)
  qed
  then show ?thesis by (simp add: list_events_def sort_key_snoc)
qed

lemma list_events_draw [simp]: "list_events k (draw w) = list_events k w"
  by (simp add: list_events_def draw_def)

lemma last_event_list_events: "last_event m w = (case list_events m w of [] \<Rightarrow> None | e # es \<Rightarrow> Some (last (e # es)))"
  by (simp add: last_event_def latest_by_def list_events_def)

lemma intact_append:
  assumes i: "intact (list_events m w)" and a: "a \<noteq> []"
  shows "intact (list_events m w @ [next_row m t a p w])"
proof -
  define es where "es = list_events m w"
  define r where "r = next_row m t a p w"
  have seqs: "map ae_sequence es = map int [0..<length es]"
    and ok: "\<forall>e \<in> set es. well_shaped e \<and> row_hash e = ae_event_hash e"
    and lk: "linked ae_previous_hash ae_event_hash GENESIS_HASH es"
    using i by (simp_all add: intact_def es_def)
  have last: "last_event m w = (if es = [] then None else Some (last es))"
    by (simp add: last_event_list_events es_def split: list.splits)
  have lseq: "ae_sequence (last es) = int (length es) - 1" if "es \<noteq> []"
    using arg_cong [OF seqs, of last] that by (simp add: last_map of_nat_diff Suc_leI)
  have n: "ae_sequence r = int (length es)" and h: "ae_previous_hash r = (if es = [] then GENESIS_HASH else ae_event_hash (last es))"
    using lseq by (simp_all add: r_def next_row_def Let_def last)
  have "is_hash_shaped (ae_previous_hash r)" using h ok by (simp add: well_shaped_def)
  then have "well_shaped r" using n a
    by (simp add: well_shaped_def) (simp add: r_def next_row_def Let_def compute_event_hash_def)
  moreover have "row_hash r = ae_event_hash r" unfolding r_def by (rule row_hash_next_row)
  ultimately show ?thesis using seqs ok lk n h
    by (simp add: intact_def linked_append flip: es_def r_def)
qed

lemma append_event_ledger:
  assumes "a \<noteq> []" shows "keeps (\<lambda>w w'. ledger_ok w \<longrightarrow> ledger_ok w') (append_event m t a p)"
  unfolding keeps_def
proof (intro allI impI)
  fix w assume ok: "ledger_ok w"
  have "ledger_ok (w\<lparr>w_audit_events := w_audit_events w @ [next_row m t a p w]\<rparr>)"
    using ok intact_append [OF _ assms] by (simp add: ledger_ok_def list_events_append)
  then have "ledger_ok ((draw w)\<lparr>w_audit_events := w_audit_events w @ [next_row m t a p w]\<rparr>)"
    by (simp add: ledger_ok_def list_events_def draw_def)
  with ok show "ledger_ok (snd (append_event m t a p w))"
    by (simp add: append_event_eq Let_def ledger_ok_def)
qed

lemma append_event_success:
  assumes "find_mission m w \<noteq> None" and "appendable (w_audit_events w) (next_row m t a p w)"
  shows "append_event m t a p w
    = (Inr (next_row m t a p w), (draw w)\<lparr>w_audit_events := w_audit_events w @ [next_row m t a p w]\<rparr>)"
  using assms by (auto simp: append_event_eq Let_def)

text \<open>The sequence of an append is always new: only a reused event identifier is refused.\<close>

lemma appendable_fresh:
  assumes "keyed ae_event_id (w_audit_events w)"
    and "keyed (\<lambda>e. (ae_mission_id e, ae_sequence e)) (w_audit_events w)"
    and "w_uuids w (w_uuid_idx w) \<notin> ae_event_id ` set (w_audit_events w)"
  shows "appendable (w_audit_events w) (next_row m t a p w)"
proof -
  have "ae_sequence e \<noteq> ae_sequence (next_row m t a p w)"
    if e: "e \<in> set (w_audit_events w)" "ae_mission_id e = m" for e
  proof -
    from e have mem: "e \<in> set (filter (\<lambda>e. ae_mission_id e = m) (w_audit_events w))" by simp
    then obtain l where l: "last_event m w = Some l"
      by (metis empty_iff last_event_def latest_by_None list.set(1) not_None_eq)
    from latest_by_max [OF l [unfolded last_event_def] mem] l show ?thesis
      by (simp add: next_row_def Let_def)
  qed
  then have "(m, ae_sequence (next_row m t a p w)) \<notin> (\<lambda>e. (ae_mission_id e, ae_sequence e)) ` set (w_audit_events w)"
    by force
  moreover have "ae_event_id (next_row m t a p w) = w_uuids w (w_uuid_idx w)"
    by (simp add: next_row_def Let_def)
  ultimately show ?thesis using assms by (simp add: appendable_def keyed_append_one)
qed

section \<open>What the verifier detects\<close>

lemma verify_loop_append:
  assumes "vr_valid (verify_loop m k p xs)"
  shows "verify_loop m k p (xs @ ys)
    = verify_loop m (k + length xs) (if xs = [] then p else Some (last xs)) ys"
  using assms
proof (induction xs arbitrary: k p)
  case Nil
  show ?case by simp
next
  case (Cons x xs)
  from Cons.prems have v: "vr_valid (verify_loop m (Suc k) (Some x) xs)"
    and "\<And>zs. verify_loop m k p (x # zs) = verify_loop m (Suc k) (Some x) zs"
    by (cases p; auto simp: structural_failure_def split: if_splits)+
  with Cons.IH [OF v] show ?case by simp
qed

lemma intact_nth_sequence: "intact es \<Longrightarrow> i < length es \<Longrightarrow> ae_sequence (es ! i) = int i"
  unfolding intact_def by (metis (no_types, lifting) add_0 length_map nth_map nth_upt map_nth diff_zero length_upt)

lemma linked_take: "linked pr dg h es \<Longrightarrow> linked pr dg h (take n es)"
  by (induction es arbitrary: h n) (auto simp: take_Cons split: nat.splits)

lemma intact_take: "intact es \<Longrightarrow> intact (take n es)"
proof -
  assume i: "intact es"
  then have "map ae_sequence (take n es) = take n (map int [0..<length es])"
    by (simp add: intact_def flip: take_map)
  also have "\<dots> = map int [0..<length (take n es)]" by (simp add: take_map min_def)
  finally show ?thesis using i by (auto simp: intact_def linked_take dest: in_set_takeD)
qed

lemma sorted_remove: "sorted xs \<Longrightarrow> sorted (take i xs @ drop (Suc i) xs)"
  by (induction xs arbitrary: i) (auto simp: take_Cons drop_Cons split: nat.splits dest: in_set_takeD in_set_dropD)

lemma distinct_remove: "distinct xs \<Longrightarrow> distinct (take i xs @ drop (Suc i) xs)"
  by (induction xs arbitrary: i) (auto simp: take_Cons drop_Cons split: nat.splits dest: in_set_takeD in_set_dropD)

lemma removal_sorted:
  assumes "intact es"
  shows "sort_key verify_key (take i es @ drop (Suc i) es) = take i es @ drop (Suc i) es"
proof (rule sort_key_id_if_sorted)
  have "sorted (map verify_key es)"
    using sorted_by_verify_key [of es] assms sorted_sort_key [of verify_key es] by (simp add: intact_def)
  from sorted_remove [OF this, of i] show "sorted (map verify_key (take i es @ drop (Suc i) es))"
    by (simp add: take_map drop_map)
qed

lemma removal_detected:
  assumes i: "intact es" and n: "Suc i < length es"
  shows "verify_events m (take i es @ drop (Suc i) es)
    = invalid_result m i (int (Suc i)) V_AUDIT_SEQUENCE_GAP None None"
proof -
  define xs where "xs = take i es"
  have lx: "length xs = i" using n by (simp add: xs_def)
  have "intact xs" using intact_take [OF i] by (simp add: xs_def)
  then have v: "vr_valid (verify_loop m 0 None xs)" by (simp add: verify_loop_valid intact_def)
  have dr: "drop (Suc i) es = es ! Suc i # drop (Suc (Suc i)) es" using n by (simp add: Cons_nth_drop_Suc)
  have ws: "well_shaped (es ! Suc i)" using i n by (simp add: intact_def)
  have "verify_loop m 0 None (xs @ drop (Suc i) es)
      = invalid_result m i (int (Suc i)) V_AUDIT_SEQUENCE_GAP None None"
    using verify_loop_append [OF v] ws intact_nth_sequence [OF i n] by (simp add: dr lx structural_failure_def)
  moreover have "sort_key verify_key (xs @ drop (Suc i) es) = xs @ drop (Suc i) es"
    using removal_sorted [OF i] n by (simp add: xs_def)
  ultimately show ?thesis by (simp add: verify_events_def verify_key_def [abs_def] flip: xs_def)
qed

lemma linked_digests:
  assumes "\<forall>e \<in> set es. row_hash e = ae_event_hash e"
  shows "linked ae_previous_hash ae_event_hash h es = linked ae_previous_hash row_hash h es"
  using assms by (induction es arbitrary: h) auto

text \<open>Two histories that both verify and end in the same hash are the same history.\<close>

lemma intact_unique:
  assumes "intact es" "intact fs" "length es = length fs"
    and "es \<noteq> [] \<Longrightarrow> ae_event_hash (last es) = ae_event_hash (last fs)"
    and "\<forall>e \<in> set es. event_ok e" "\<forall>f \<in> set fs. event_ok f"
  shows "list_all2 same_event es fs
    \<or> (\<exists>e \<in> set es. \<exists>f \<in> set fs. sha_collision (row_body e) (row_body f))"
proof (rule audit.head_commits [OF _ _ assms(3) _ assms(5,6)])
  show "linked ae_previous_hash row_hash GENESIS_HASH es" "linked ae_previous_hash row_hash GENESIS_HASH fs"
    using assms(1,2) linked_digests by (auto simp: intact_def)
  assume ne: "es \<noteq> []"
  with assms(3) have "fs \<noteq> []" by auto
  with ne assms(1,2,4) show "row_hash (last es) = row_hash (last fs)" by (simp add: intact_def)
qed

section \<open>Properties of the audit ledger\<close>

text \<open>
  Appending keeps every mission's history verifiable: whatever an append returns or
  raises, if every chain of the ledger was intact before it, every chain is intact after it,
  and verification of any mission then reports a valid chain with all its events checked.
\<close>

theorem append_keeps_every_chain_verifiable:
  assumes "ledger_ok w" and "actor \<noteq> []"
  shows "ledger_ok (snd (append_event m t actor p w))
    \<and> verify_events k (list_events k (snd (append_event m t actor p w)))
      = valid_result k (length (list_events k (snd (append_event m t actor p w))))"
proof -
  from append_event_ledger [OF assms(2), of m t p] assms(1)
  have "ledger_ok (snd (append_event m t actor p w))" unfolding keeps_def by blast
  then show ?thesis using intact_verifies by (auto simp: ledger_ok_def)
qed

definition empty_world :: world where
  "empty_world = \<lparr>w_uuids = (\<lambda>n. of_nat (n + 100)), w_uuid_idx = 0,
     w_clock = (\<lambda>n. 63000000000000000 + int n), w_clock_idx = 0,
     w_nonces = (\<lambda>n. replicate 64 (CHR ''a'')), w_nonce_idx = 0,
     w_missions = [], w_mission_constraints = [], w_offers = [], w_policy_decisions = [], w_audit_events = [],
     w_authorizations = [], w_payment_intents = [], w_outbox_events = [], w_webhook_events = []\<rparr>"

definition sample_mission :: "mission_state \<Rightarrow> mission_row" where
  "sample_mission st = \<lparr>ms_id = 1, ms_raw_query = None, ms_quantity = 2, ms_state = st\<rparr>"

definition sample_world :: world where
  "sample_world = empty_world\<lparr>w_missions := [sample_mission M_CREATED]\<rparr>"

lemma sample_world_ledger: "ledger_ok sample_world"
  by (simp add: ledger_ok_def list_events_def sample_world_def empty_world_def intact_def)

theorem append_keeps_every_chain_verifiable_witness:
  "(\<exists>r. fst (append_event 1 E_MISSION_CREATED ''api'' [] sample_world) = Inr r)
   \<and> verify_events 1 (list_events 1 (snd (append_event 1 E_MISSION_CREATED ''api'' [] sample_world)))
      = valid_result 1 1"
proof -
  have "append_event 1 E_MISSION_CREATED ''api'' [] sample_world
      = (Inr (next_row 1 E_MISSION_CREATED ''api'' [] sample_world),
         (draw sample_world)\<lparr>w_audit_events := [next_row 1 E_MISSION_CREATED ''api'' [] sample_world]\<rparr>)"
    by (simp add: append_event_eq Let_def find_mission_def find_row_def sample_world_def sample_mission_def
        appendable_def keyed_def empty_world_def)
  moreover have "length (list_events 1 ((draw sample_world)\<lparr>w_audit_events :=
      [next_row 1 E_MISSION_CREATED ''api'' [] sample_world]\<rparr>)) = 1"
    by (simp add: list_events_def)
  ultimately show ?thesis
    using append_keeps_every_chain_verifiable
      [OF sample_world_ledger, of "''api''" 1 E_MISSION_CREATED "[]" 1] by simp
qed

text \<open>
  C38. Tamper evidence: two event lists that both verify, have the same number of events and
  end in the same stored hash agree, position by position, on the mission, sequence, type,
  actor, payload, previous hash and time of every event, or two of their events collide
  under SHA-256. An edit to any hashed field below an unmodified head is detected.
\<close>

theorem verified_history_is_unique:
  assumes "vr_valid (verify_events m es)" and "vr_valid (verify_events m fs)"
    and "length es = length fs"
    and "ae_event_hash (last (sort_key verify_key es)) = ae_event_hash (last (sort_key verify_key fs))"
    and "\<forall>e \<in> set es \<union> set fs. event_ok e"
  shows "list_all2 same_event (sort_key verify_key es) (sort_key verify_key fs)
    \<or> (\<exists>e \<in> set es. \<exists>f \<in> set fs. sha_collision (row_body e) (row_body f))"
  using intact_unique [of "sort_key verify_key es" "sort_key verify_key fs"] assms
  by (simp add: verify_events_valid_iff)

text \<open>One appended event, and the same event with its payload members in another order.\<close>

definition sample_event :: "payload \<Rightarrow> audit_event_row" where
  "sample_event p = next_row 1 E_MISSION_CREATED ''api'' p empty_world"

lemma sample_event_intact: "intact [sample_event p]"
  using intact_append [of 1 empty_world "''api''" E_MISSION_CREATED p]
  by (simp add: sample_event_def list_events_def empty_world_def intact_def)

theorem verified_history_is_unique_witness:
  "vr_valid (verify_events 1 [sample_event [(''b'', JInt 2), (''a'', JInt 1)]])
   \<and> (list_all2 same_event [sample_event [(''b'', JInt 2), (''a'', JInt 1)]] [sample_event [(''a'', JInt 1), (''b'', JInt 2)]]
      \<or> sha_collision (row_body (sample_event [(''b'', JInt 2), (''a'', JInt 1)]))
           (row_body (sample_event [(''a'', JInt 1), (''b'', JInt 2)])))"
proof -
  let ?e = "sample_event [(''b'', JInt 2), (''a'', JInt 1)]"
  let ?f = "sample_event [(''a'', JInt 1), (''b'', JInt 2)]"
  have v: "vr_valid (verify_events 1 [sample_event p])" for p
    using sample_event_intact by (simp add: verify_events_valid_iff)
  have n: "normalise (JObj [(''b'', JInt 2), (''a'', JInt 1)]) = normalise (JObj [(''a'', JInt 1), (''b'', JInt 2)])"
    by code_simp
  have h: "ae_event_hash ?e = ae_event_hash ?f"
    using n by (simp add: sample_event_def next_row_def Let_def compute_event_hash_def canonical_event_body_def
        canonical_json_def dumps_def event_json_def)
  have "event_ok ?e" "event_ok ?f"
    by (simp_all add: event_ok_def sample_event_def next_row_def Let_def empty_world_def max_instant_def)
  with verified_history_is_unique [OF v v] h v show ?thesis by simp
qed

text \<open>
  Removing any event but the last from an intact chain is detected, whatever the order
  the surviving rows are read in: verification reports a sequence gap at the position of the
  removed event, naming the sequence number that follows it.
\<close>

theorem removed_event_is_detected:
  assumes "intact es" and "Suc i < length es" and "keyed ae_event_id es"
    and "mset fs = mset (take i es @ drop (Suc i) es)"
  shows "verify_events m fs = invalid_result m i (int (Suc i)) V_AUDIT_SEQUENCE_GAP None None"
proof -
  have "keyed ae_event_id (take i es @ drop (Suc i) es)"
    using distinct_remove [of "map ae_event_id es" i] assms(3) by (simp add: keyed_def take_map drop_map)
  with assms(4) have "verify_events m fs = verify_events m (take i es @ drop (Suc i) es)"
    by (metis verify_events_perm)
  with removal_detected [OF assms(1,2)] show ?thesis by simp
qed

definition two_events :: "audit_event_row list" where
  "two_events = [sample_event [],
     next_row 1 E_INTENT_PARSED ''api'' [] ((draw empty_world)\<lparr>w_audit_events := [sample_event []]\<rparr>)]"

theorem removed_event_is_detected_witness:
  "intact two_events \<and> verify_events 1 (tl two_events)
     = invalid_result 1 0 1 V_AUDIT_SEQUENCE_GAP None None"
proof -
  let ?w = "(draw empty_world)\<lparr>w_audit_events := [sample_event []]\<rparr>"
  have l: "list_events 1 ?w = [sample_event []]"
    by (simp add: list_events_def sample_event_def)
  with sample_event_intact [of "[]"] have "intact (list_events 1 ?w @ [next_row 1 E_INTENT_PARSED ''api'' [] ?w])"
    by (intro intact_append) simp_all
  then have i: "intact two_events" by (simp add: two_events_def l)
  have k: "keyed ae_event_id two_events"
    by (simp add: two_events_def keyed_def sample_event_def next_row_def Let_def empty_world_def draw_def)
  from removed_event_is_detected [OF i _ k, of 0 "tl two_events" 1] i show ?thesis
    by (simp add: two_events_def)
qed

text \<open>
  The stated limit of a per-mission chain: cutting any number of events off the end of an
  intact chain leaves a chain that verifies. Detecting truncation needs an anchor outside
  the ledger.
\<close>

theorem truncation_is_not_detected:
  assumes "intact es"
  shows "verify_events m (take n es) = valid_result m (min (length es) n)"
  using intact_verifies [OF intact_take [OF assms]] by simp

theorem truncation_is_not_detected_witness:
  "verify_events 1 (take 0 [sample_event []]) = valid_result 1 0
   \<and> verify_events 1 (take 5 [sample_event []]) = valid_result 1 1"
  using truncation_is_not_detected [OF sample_event_intact, of 1 0 "[]"]
    truncation_is_not_detected [OF sample_event_intact, of 1 5 "[]"] by simp

end
