(* ===== verification/Authorization.thy ===== *)
theory Authorization
  imports Ledger
begin

text \<open>
  Transaction binding (\<^verbatim>\<open>services/security_kernel/binding.py\<close>), the verification of user
  approvals (\<^verbatim>\<open>approval.py\<close>) and the authorization lifecycle
  (\<^verbatim>\<open>authorization.py\<close>, with the domain object of
  \<^verbatim>\<open>packages/schemas/authorization.py\<close>). Every lifecycle transition is one conditional
  UPDATE whose row count decides. Ed25519 and the server's settings are parameters.
\<close>

section \<open>Binding\<close>

definition AUTHORIZABLE_OUTCOMES :: "policy_outcome set" where
  "AUTHORIZABLE_OUTCOMES = {D_ALLOW, D_REQUIRE_APPROVAL}"

definition OFFER_VERSION_INVARIANT :: string where
  "OFFER_VERSION_INVARIANT = ''binding.selected_offer_version_matches_authoritative_record''"

definition OFFER_VALID_INVARIANT :: string where
  "OFFER_VALID_INVARIANT = ''binding.offer_is_valid''"

definition build_bound_transaction_from_values ::
  "uuid \<Rightarrow> bool \<Rightarrow> string \<Rightarrow> string \<Rightarrow> int \<Rightarrow> string \<Rightarrow> string \<Rightarrow> policy_decision \<Rightarrow> int \<Rightarrow> string
    \<Rightarrow> datetime \<Rightarrow> exn + bound_transaction" where
  "build_bound_transaction_from_values offer_id offer_valid merchant_id product_id unit_amount_inr
     currency version decision quantity nonce expires_at =
     bindE (require (pd_decision decision \<in> AUTHORIZABLE_OUTCOMES) ''binding.decision_is_authorizable'') (\<lambda>_.
     bindE (require offer_valid OFFER_VALID_INVARIANT) (\<lambda>_.
     bindE (require (pd_selected_offer_id decision = Some offer_id) ''binding.offer_matches_decision'') (\<lambda>_.
     case pd_requested_amount decision of
       None \<Rightarrow> Inl (InvariantViolation ''binding.decision_has_amount'')
     | Some amount \<Rightarrow>
       bindE (require (amount = unit_amount_inr * quantity) ''binding.amount_matches_offer_and_quantity'') (\<lambda>_.
       BoundTransaction \<lparr>bt_merchant_id = merchant_id, bt_product_id = product_id,
         bt_quantity = quantity, bt_amount_inr = amount, bt_currency = currency,
         bt_policy_version = pd_policy_version decision, bt_offer_version = version,
         bt_expires_at = expires_at, bt_nonce = nonce\<rparr>))))"

definition build_bound_transaction ::
  "provenanced_offer \<Rightarrow> policy_decision \<Rightarrow> int \<Rightarrow> string \<Rightarrow> datetime \<Rightarrow> exn + bound_transaction" where
  "build_bound_transaction offer decision quantity nonce expires_at =
     bindE (offer_version offer) (\<lambda>version.
     build_bound_transaction_from_values (po_offer_id offer) (po_valid offer)
       (pv_value (po_merchant_id offer)) (pv_value (po_product_id offer))
       (pv_value (po_amount_inr offer)) (pv_value (po_currency offer)) version decision quantity
       nonce expires_at)"

definition build_bound_transaction_from_selected_offer ::
  "uuid \<Rightarrow> uuid \<Rightarrow> string \<Rightarrow> policy_decision \<Rightarrow> int \<Rightarrow> string \<Rightarrow> datetime \<Rightarrow> bound_transaction db" where
  "build_bound_transaction_from_selected_offer mission_id offer_id selected_offer_version decision
     quantity nonce expires_at =
     bind (gets (\<lambda>w. find_row (\<lambda>r. of_id r = offer_id \<and> of_mission_id r = mission_id) (w_offers w))) (\<lambda>found.
     case found of
       None \<Rightarrow> raise (BindRefusedOfferChanged OFFER_VERSION_INVARIANT)
     | Some row \<Rightarrow>
       bind (lift (compute_offer_version (of_merchant_id row) (of_product_id row) (of_amount_inr row)
         (of_currency row) (of_rating row) (of_in_stock row) (Aware (of_offered_at row) 0))) (\<lambda>current_version.
       if of_offer_version row \<noteq> current_version \<or> current_version \<noteq> selected_offer_version
       then raise (BindRefusedOfferChanged OFFER_VERSION_INVARIANT)
       else if \<not> of_valid row then raise (BindRefusedOfferChanged OFFER_VALID_INVARIANT)
       else lift (build_bound_transaction_from_values (of_id row) (of_valid row) (of_merchant_id row)
         (of_product_id row) (of_amount_inr row) (of_currency row) current_version decision quantity
         nonce expires_at)))"

definition digests_match :: "string \<Rightarrow> bound_transaction \<Rightarrow> exn + bool" where
  "digests_match expected_digest transaction =
     bindE (txn_digest transaction) (\<lambda>d. Inr (expected_digest = d))"

section \<open>User approvals\<close>

definition SIGNATURE_HEX_LENGTH :: nat where
  "SIGNATURE_HEX_LENGTH = 128"

definition PUBLIC_KEY_HEX_LENGTH :: nat where
  "PUBLIC_KEY_HEX_LENGTH = 64"

text \<open>
  The server's settings and the Ed25519 library: which byte strings are public keys
  (\<open>from_public_bytes\<close> accepts them), and whether a signature verifies for a message.
\<close>

record approver =
  ap_signing_key_id :: string
  ap_public_key_hex :: "string option"
  ap_key_valid :: "string \<Rightarrow> bool"
  ap_verify :: "string \<Rightarrow> string \<Rightarrow> string \<Rightarrow> bool"

definition hex_val :: "char \<Rightarrow> int option" where
  "hex_val c = (let n = of_char c in
     if 48 \<le> n \<and> n \<le> 57 then Some (n - 48)
     else if 97 \<le> n \<and> n \<le> 102 then Some (n - 87)
     else if 65 \<le> n \<and> n \<le> 70 then Some (n - 55) else None)"

definition hex_space :: "char \<Rightarrow> bool" where
  "hex_space c \<longleftrightarrow> (let n = of_char c :: int in 9 \<le> n \<and> n \<le> 13 \<or> n = 32)"

text \<open>\<open>bytes.fromhex\<close>: pairs of digits, with ASCII blanks skipped between them.\<close>

fun bytes_fromhex :: "string \<Rightarrow> string option" where
  "bytes_fromhex [] = Some []"
| "bytes_fromhex (c # cs) =
    (if hex_space c then bytes_fromhex cs
     else case cs of
       [] \<Rightarrow> None
     | d # ds \<Rightarrow> (case (hex_val c, hex_val d) of
         (Some h, Some l) \<Rightarrow> map_option ((#) (char_of (16 * h + l))) (bytes_fromhex ds)
       | _ \<Rightarrow> None))"

definition py_is_lower :: "string \<Rightarrow> bool" where
  "py_is_lower s \<longleftrightarrow> (\<forall>c \<in> set s. let n = of_char c :: int in
     \<not> (65 \<le> n \<and> n \<le> 90 \<or> 192 \<le> n \<and> n \<le> 222 \<and> n \<noteq> 215))"

definition decode_lowercase_hex :: "string \<Rightarrow> nat \<Rightarrow> exn + string" where
  "decode_lowercase_hex v n =
     (if length v \<noteq> n \<or> \<not> py_is_lower v
      then Inl (ApprovalVerificationError R_AUTHORIZATION_SIGNATURE_MALFORMED)
      else case bytes_fromhex v of
        None \<Rightarrow> Inl (ApprovalVerificationError R_AUTHORIZATION_SIGNATURE_MALFORMED)
      | Some decoded \<Rightarrow> if length decoded * 2 \<noteq> n
          then Inl (ApprovalVerificationError R_AUTHORIZATION_SIGNATURE_MALFORMED) else Inr decoded)"

text \<open>\<open>secrets.compare_digest\<close> compares two texts only if both are ASCII.\<close>

definition compare_digest :: "string \<Rightarrow> string \<Rightarrow> exn + bool" where
  "compare_digest a b = (if is_ascii a \<and> is_ascii b then Inr (a = b)
     else Inl (TypeError ''comparing strings with non-ASCII characters is not supported''))"

definition trusted_demo_public_key :: "approver \<Rightarrow> string \<Rightarrow> exn + string" where
  "trusted_demo_public_key cfg signing_key_id =
     bindE (compare_digest signing_key_id (ap_signing_key_id cfg)) (\<lambda>same.
     if \<not> same then Inl (ApprovalVerificationError R_AUTHORIZATION_SIGNING_KEY_UNKNOWN)
     else case ap_public_key_hex cfg of
       None \<Rightarrow> Inl (ApprovalVerificationError R_AUTHORIZATION_SIGNING_KEY_UNKNOWN)
     | Some encoded \<Rightarrow>
       if length encoded \<noteq> PUBLIC_KEY_HEX_LENGTH \<or> \<not> is_hex encoded
       then Inl (ApprovalVerificationError R_AUTHORIZATION_SIGNING_KEY_UNKNOWN)
       else case bytes_fromhex encoded of
         Some key \<Rightarrow> if ap_key_valid cfg key then Inr key
           else Inl (ApprovalVerificationError R_AUTHORIZATION_SIGNING_KEY_UNKNOWN)
       | None \<Rightarrow> Inl (ApprovalVerificationError R_AUTHORIZATION_SIGNING_KEY_UNKNOWN))"

definition verify_user_ed25519_signature ::
  "approver \<Rightarrow> uuid \<Rightarrow> uuid \<Rightarrow> string \<Rightarrow> string \<Rightarrow> string \<Rightarrow> string \<Rightarrow> exn + unit" where
  "verify_user_ed25519_signature cfg authorization_id mission_id binding_version transaction_digest
     signing_key_id signature_hex =
     bindE (decode_lowercase_hex signature_hex SIGNATURE_HEX_LENGTH) (\<lambda>signature.
     bindE (trusted_demo_public_key cfg signing_key_id) (\<lambda>public_key.
     bindE (approval_message authorization_id mission_id binding_version transaction_digest signing_key_id)
       (\<lambda>message. if ap_verify cfg public_key signature message then Inr ()
         else Inl (ApprovalVerificationError R_AUTHORIZATION_SIGNATURE_INVALID))))"

section \<open>The authorization domain object\<close>

definition DIGEST_HEX_LENGTH :: nat where
  "DIGEST_HEX_LENGTH = 64"

definition TERMINAL_STATUSES :: "authorization_status set" where
  "TERMINAL_STATUSES = {A_CONSUMED, A_EXPIRED, A_REVOKED}"

record authorization =
  au_authorization_id :: uuid
  au_mission_id :: uuid
  au_transaction_digest :: string
  au_nonce :: string
  au_issued_at :: instant
  au_expires_at :: instant
  au_status :: authorization_status
  au_policy_version :: string
  au_offer_version :: string
  au_binding_version :: string
  au_approval_scheme :: approval_scheme
  au_signing_key_id :: "string option"
  au_approval_signature :: "string option"
  au_consumed_at :: "instant option"

definition opt_sized :: "nat \<Rightarrow> nat \<Rightarrow> string option \<Rightarrow> bool" where
  "opt_sized a b v = (case v of None \<Rightarrow> True | Some s \<Rightarrow> sized a b s)"

text \<open>The validating constructor \<open>Authorization(...)\<close>: fields, then the model validator.\<close>

definition Authorization :: "authorization \<Rightarrow> exn + authorization" where
  "Authorization a =
    (if \<not> sized DIGEST_HEX_LENGTH DIGEST_HEX_LENGTH (au_transaction_digest a) \<or> \<not> is_hex (au_transaction_digest a)
        \<or> \<not> sized 64 128 (au_nonce a) \<or> \<not> is_hex (au_nonce a)
        \<or> \<not> sized 1 40 (au_policy_version a) \<or> \<not> sized 1 64 (au_offer_version a)
        \<or> \<not> sized 1 40 (au_binding_version a) \<or> \<not> opt_sized 1 120 (au_signing_key_id a)
        \<or> \<not> opt_sized SIGNATURE_HEX_LENGTH SIGNATURE_HEX_LENGTH (au_approval_signature a)
        \<or> (\<exists>s \<in> set_option (au_approval_signature a). \<not> is_hex s)
     then Inl (ValidationError ''Authorization'')
     else let has_key = au_signing_key_id a \<noteq> None; has_signature = au_approval_signature a \<noteq> None in
       bindE (require ((au_status a = A_CONSUMED) = (au_consumed_at a \<noteq> None))
         ''authorization.consumed_at_matches_status'') (\<lambda>_.
       bindE (require (has_key = has_signature) ''authorization.proof_metadata_is_complete'') (\<lambda>_.
       bindE
         (if au_approval_scheme a \<in> {S_POLICY_AUTO, S_LEGACY_SERVER}
          then require (\<not> has_key) ''authorization.unsigned_scheme_has_no_proof''
          else if au_status a = A_PENDING
          then require (\<not> has_key) ''authorization.pending_user_approval_has_no_proof''
          else if au_status a \<in> {A_ACTIVE, A_CONSUMED}
          then require has_key ''authorization.active_user_approval_has_proof''
          else Inr ())
       (\<lambda>_. Inr a))))"

definition auth_is_terminal :: "authorization \<Rightarrow> bool" where
  "auth_is_terminal a \<longleftrightarrow> au_status a \<in> TERMINAL_STATUSES"

definition is_expired_at :: "authorization \<Rightarrow> instant \<Rightarrow> bool" where
  "is_expired_at a now \<longleftrightarrow> au_expires_at a \<le> now"

definition to_authorization :: "authorization_row \<Rightarrow> exn + authorization" where
  "to_authorization r = Authorization \<lparr>au_authorization_id = az_authorization_id r,
     au_mission_id = az_mission_id r, au_transaction_digest = az_transaction_digest r,
     au_nonce = az_nonce r, au_issued_at = az_issued_at r, au_expires_at = az_expires_at r,
     au_status = az_status r, au_policy_version = az_policy_version r,
     au_offer_version = az_offer_version r, au_binding_version = az_binding_version r,
     au_approval_scheme = az_approval_scheme r, au_signing_key_id = az_signing_key_id r,
     au_approval_signature = az_approval_signature r, au_consumed_at = az_consumed_at r\<rparr>"

section \<open>Helpers of the lifecycle\<close>

definition KERNEL_ACTOR :: string where
  "KERNEL_ACTOR = ''security-kernel''"

definition DIGEST_LOG_PREFIX :: nat where
  "DIGEST_LOG_PREFIX = 16"

definition digest_prefix :: "string \<Rightarrow> string" where
  "digest_prefix d = take DIGEST_LOG_PREFIX d"

definition generate_nonce :: "string db" where
  "generate_nonce = token_hex"

definition reload :: "uuid \<Rightarrow> authorization_row option db" where
  "reload authorization_id = gets (find_authorization authorization_id)"

definition kernel_audit :: "uuid \<Rightarrow> event_type \<Rightarrow> payload \<Rightarrow> unit db" where
  "kernel_audit mission_id event_type payload =
     andthen (append_event mission_id event_type KERNEL_ACTOR payload) (ret ())"

definition jopt :: "string option \<Rightarrow> json" where
  "jopt v = (case v of None \<Rightarrow> JNull | Some s \<Rightarrow> JStr s)"

text \<open>The instant a \<open>datetime\<close> names once \<open>as_utc\<close> has normalized it.\<close>

definition instant_of :: "datetime \<Rightarrow> instant" where
  "instant_of t = (case t of Naive i \<Rightarrow> i | Aware i off \<Rightarrow> i)"

definition rebuild_bound_transaction :: "authorization_row \<Rightarrow> exn + bound_transaction" where
  "rebuild_bound_transaction row =
     bindE (BoundTransaction \<lparr>bt_merchant_id = az_bound_merchant_id row,
       bt_product_id = az_bound_product_id row, bt_quantity = az_bound_quantity row,
       bt_amount_inr = az_bound_amount_inr row, bt_currency = az_bound_currency row,
       bt_policy_version = az_policy_version row, bt_offer_version = az_offer_version row,
       bt_expires_at = Aware (az_expires_at row) 0, bt_nonce = az_nonce row\<rparr>) (\<lambda>transaction.
     bindE (digests_match (az_transaction_digest row) transaction) (\<lambda>matches.
     bindE (require matches ''authorization.rebuilt_transaction_matches_digest'') (\<lambda>_.
     Inr transaction)))"

section \<open>The lifecycle\<close>

definition issued_row :: "uuid \<Rightarrow> uuid \<Rightarrow> string \<Rightarrow> bound_transaction \<Rightarrow> approval_scheme \<Rightarrow> instant
    \<Rightarrow> authorization_row" where
  "issued_row authorization_id mission_id digest transaction scheme now =
     \<lparr>az_authorization_id = authorization_id, az_mission_id = mission_id,
      az_transaction_digest = digest, az_nonce = bt_nonce transaction,
      az_binding_version = BINDING_VERSION, az_policy_version = bt_policy_version transaction,
      az_offer_version = bt_offer_version transaction, az_approval_scheme = scheme,
      az_signing_key_id = None, az_approval_signature = None, az_status = A_PENDING,
      az_issued_at = now, az_expires_at = instant_of (bt_expires_at transaction),
      az_consumed_at = None, az_bound_merchant_id = bt_merchant_id transaction,
      az_bound_product_id = bt_product_id transaction, az_bound_quantity = bt_quantity transaction,
      az_bound_amount_inr = bt_amount_inr transaction, az_bound_currency = bt_currency transaction\<rparr>"

definition issue_authorization ::
  "capability_set \<Rightarrow> uuid \<Rightarrow> bound_transaction \<Rightarrow> approval_scheme \<Rightarrow> instant option \<Rightarrow> authorization_row db" where
  "issue_authorization capabilities mission_id transaction scheme issued_at =
     andthen (lift (enforce_registered capabilities C_AUTHORIZATION_ISSUE))
    (andthen (lift (require (scheme \<noteq> S_LEGACY_SERVER) ''authorization.new_scheme_is_not_legacy''))
    (bind (moment_of issued_at) (\<lambda>now.
     andthen (lift (require (now < instant_of (bt_expires_at transaction)) ''authorization.issued_before_expiry''))
    (bind (lift (txn_digest transaction)) (\<lambda>digest.
     bind uuid4 (\<lambda>authorization_id.
     let row = issued_row authorization_id mission_id digest transaction scheme now in
     andthen (insert_authorization row)
    (andthen (kernel_audit mission_id E_AUTHORIZATION_CREATED
       [(''authorization_id'', JStr (uuid_str authorization_id)),
        (''status'', JStr (auth_text A_PENDING)),
        (''transaction_digest_prefix'', JStr (digest_prefix digest)),
        (''policy_version'', JStr (bt_policy_version transaction)),
        (''offer_version'', JStr (bt_offer_version transaction)),
        (''binding_version'', JStr BINDING_VERSION),
        (''approval_scheme'', JStr (scheme_text scheme)),
        (''expires_at'', JStr (isoformat (bt_expires_at transaction))),
        (''bound_merchant_id'', JStr (bt_merchant_id transaction)),
        (''bound_product_id'', JStr (bt_product_id transaction)),
        (''bound_quantity'', JInt (bt_quantity transaction)),
        (''bound_amount_inr'', JInt (bt_amount_inr transaction)),
        (''bound_currency'', JStr (bt_currency transaction))])
    (ret row))))))))"

definition expire_if_stale :: "uuid \<Rightarrow> instant option \<Rightarrow> bool db" where
  "expire_if_stale authorization_id now =
     bind (moment_of now) (\<lambda>moment.
     bind (update_authorizations
       (\<lambda>r. az_authorization_id r = authorization_id \<and> az_status r \<in> {A_PENDING, A_ACTIVE}
          \<and> az_expires_at r \<le> moment)
       (\<lambda>r. r\<lparr>az_status := A_EXPIRED\<rparr>)) (\<lambda>changed.
     if changed \<noteq> 1 then ret False
     else bind (reload authorization_id) (\<lambda>found.
       case found of
         None \<Rightarrow> ret False
       | Some row \<Rightarrow>
         andthen (kernel_audit (az_mission_id row) E_AUTHORIZATION_EXPIRED
           [(''authorization_id'', JStr (uuid_str (az_authorization_id row))),
            (''status'', JStr (auth_text (az_status row))),
            (''expires_at'', JStr (iso_utc (az_expires_at row)))])
         (ret True))))"

text \<open>Explain a refused transition, record it, and raise.\<close>

definition classify_and_raise :: "uuid \<Rightarrow> bound_transaction option \<Rightarrow> instant \<Rightarrow> unit db" where
  "classify_and_raise authorization_id transaction now =
     bind (reload authorization_id) (\<lambda>found.
     case found of
       None \<Rightarrow> raise AuthorizationNotFound
     | Some row \<Rightarrow>
       if az_status row = A_CONSUMED then
         andthen (kernel_audit (az_mission_id row) E_AUTHORIZATION_REPLAY_DETECTED
           [(''authorization_id'', JStr (uuid_str (az_authorization_id row))),
            (''status'', JStr (auth_text (az_status row))),
            (''reason_code'', JStr (reason_text R_AUTHORIZATION_REPLAY_DETECTED)),
            (''consumed_at'', jopt (map_option iso_utc (az_consumed_at row)))])
         (raise AuthorizationReplayDetected)
       else
         bind (case transaction of None \<Rightarrow> ret False
           | Some t \<Rightarrow> bind (lift (digests_match (az_transaction_digest row) t)) (\<lambda>m. ret (\<not> m))) (\<lambda>mutated.
         if mutated then
           bind (lift (case transaction of Some t \<Rightarrow> txn_digest t | None \<Rightarrow> Inr [])) (\<lambda>presented.
           andthen (kernel_audit (az_mission_id row) E_TRANSACTION_BINDING_FAILURE
             [(''authorization_id'', JStr (uuid_str (az_authorization_id row))),
              (''status'', JStr (auth_text (az_status row))),
              (''reason_code'', JStr (reason_text R_TRANSACTION_BINDING_FAILURE)),
              (''bound_digest_prefix'', JStr (digest_prefix (az_transaction_digest row))),
              (''presented_digest_prefix'', JStr (digest_prefix presented))])
           (raise TransactionBindingFailure))
         else if az_expires_at row \<le> now then
           andthen (expire_if_stale authorization_id (Some now)) (raise AuthorizationExpired)
         else raise AuthorizationNotActive))"

definition activate_authorization :: "uuid \<Rightarrow> instant option \<Rightarrow> authorization_row db" where
  "activate_authorization authorization_id now =
     bind (moment_of now) (\<lambda>moment.
     bind (update_authorizations
       (\<lambda>r. az_authorization_id r = authorization_id \<and> az_approval_scheme r = S_POLICY_AUTO
          \<and> az_status r = A_PENDING \<and> moment < az_expires_at r
          \<and> az_signing_key_id r = None \<and> az_approval_signature r = None)
       (\<lambda>r. r\<lparr>az_status := A_ACTIVE\<rparr>)) (\<lambda>changed.
     andthen (whenS (changed \<noteq> 1) (classify_and_raise authorization_id None moment))
    (bind (reload authorization_id) (\<lambda>found.
     case found of
       None \<Rightarrow> raise AuthorizationNotFound
     | Some row \<Rightarrow>
       andthen (kernel_audit (az_mission_id row) E_AUTHORIZATION_ACTIVATED
         [(''authorization_id'', JStr (uuid_str (az_authorization_id row))),
          (''status'', JStr (auth_text (az_status row))),
          (''transaction_digest_prefix'', JStr (digest_prefix (az_transaction_digest row))),
          (''approval_scheme'', JStr (scheme_text S_POLICY_AUTO))])
       (ret row)))))"

definition schemes_by_decision :: "policy_outcome \<Rightarrow> approval_scheme option" where
  "schemes_by_decision d = (case d of D_ALLOW \<Rightarrow> Some S_POLICY_AUTO
     | D_REQUIRE_APPROVAL \<Rightarrow> Some S_USER_ED25519 | D_DENY \<Rightarrow> None)"

definition latest_decision :: "authorization_row \<Rightarrow> world \<Rightarrow> policy_outcome option" where
  "latest_decision row w = map_option pdr_decision (latest_by pdr_created_at
     (filter (\<lambda>d. pdr_mission_id d = az_mission_id row \<and> pdr_policy_version d = az_policy_version row)
       (w_policy_decisions w)))"

definition require_policy_scheme :: "authorization_row \<Rightarrow> unit db" where
  "require_policy_scheme row =
     bind (gets (latest_decision row)) (\<lambda>decision.
     let expected = Option.bind decision schemes_by_decision in
     guardE (expected \<noteq> None \<and> Some (az_approval_scheme row) = expected)
       (AuthorizationProofFailure R_AUTHORIZATION_APPROVAL_SCHEME_INVALID))"

definition audit_proof_failure :: "authorization_row \<Rightarrow> reason_code \<Rightarrow> string option \<Rightarrow> unit db" where
  "audit_proof_failure row reason signing_key_id =
     kernel_audit (az_mission_id row) E_SECURITY_VIOLATION
       [(''reason_code'', JStr (reason_text reason)),
        (''authorization_id'', JStr (uuid_str (az_authorization_id row))),
        (''approval_scheme'', JStr (scheme_text (az_approval_scheme row))),
        (''signing_key_id'', jopt signing_key_id),
        (''transaction_digest'', JStr (az_transaction_digest row)),
        (''proof_accepted'', JBool False)]"

definition verify_supplied_user_proof :: "approver \<Rightarrow> authorization_row \<Rightarrow> string \<Rightarrow> string \<Rightarrow> exn + unit" where
  "verify_supplied_user_proof cfg row signing_key_id signature_hex =
     (case verify_user_ed25519_signature cfg (az_authorization_id row) (az_mission_id row)
         (az_binding_version row) (az_transaction_digest row) signing_key_id signature_hex of
        Inl (ApprovalVerificationError reason) \<Rightarrow> Inl (AuthorizationProofFailure reason)
      | Inl e \<Rightarrow> Inl e
      | Inr u \<Rightarrow> Inr u)"

definition approve_authorization_with_signature ::
  "approver \<Rightarrow> uuid \<Rightarrow> uuid \<Rightarrow> string \<Rightarrow> string \<Rightarrow> instant option \<Rightarrow> authorization_row db" where
  "approve_authorization_with_signature cfg mission_id authorization_id signing_key_id signature_hex now =
     bind (moment_of now) (\<lambda>moment.
     bind (reload authorization_id) (\<lambda>found.
     case found of
       None \<Rightarrow> raise AuthorizationNotFound
     | Some row \<Rightarrow>
       andthen (guardE (az_mission_id row = mission_id) AuthorizationNotFound)
      (andthen (whenS (az_status row \<noteq> A_PENDING \<or> az_expires_at row \<le> moment)
         (classify_and_raise authorization_id None moment))
      (andthen (whenS (az_approval_scheme row \<noteq> S_USER_ED25519)
         (andthen (audit_proof_failure row R_AUTHORIZATION_APPROVAL_SCHEME_INVALID (Some signing_key_id))
           (raise (AuthorizationProofFailure R_AUTHORIZATION_APPROVAL_SCHEME_INVALID))))
      (andthen (lift (rebuild_bound_transaction row))
      (andthen (guardE (az_binding_version row = BINDING_VERSION) TransactionBindingFailure)
      (andthen (catch
         (andthen (require_policy_scheme row)
           (lift (verify_supplied_user_proof cfg row signing_key_id signature_hex)))
         (\<lambda>e. case e of
            AuthorizationProofFailure reason \<Rightarrow>
              andthen (audit_proof_failure row reason (Some signing_key_id)) (raise e)
          | _ \<Rightarrow> raise e))
      (bind (update_authorizations
         (\<lambda>r. az_authorization_id r = authorization_id \<and> az_mission_id r = mission_id
            \<and> az_approval_scheme r = S_USER_ED25519 \<and> az_status r = A_PENDING
            \<and> moment < az_expires_at r \<and> az_binding_version r = BINDING_VERSION
            \<and> az_transaction_digest r = az_transaction_digest row
            \<and> az_signing_key_id r = None \<and> az_approval_signature r = None)
         (\<lambda>r. r\<lparr>az_status := A_ACTIVE, az_signing_key_id := Some signing_key_id,
              az_approval_signature := Some signature_hex\<rparr>)) (\<lambda>changed.
       andthen (whenS (changed \<noteq> 1) (classify_and_raise authorization_id None moment))
      (bind (reload authorization_id) (\<lambda>found.
       case found of
         None \<Rightarrow> raise AuthorizationNotFound
       | Some activated \<Rightarrow>
         andthen (kernel_audit (az_mission_id activated) E_AUTHORIZATION_ACTIVATED
           [(''authorization_id'', JStr (uuid_str (az_authorization_id activated))),
            (''status'', JStr (auth_text (az_status activated))),
            (''approval_scheme'', JStr (scheme_text S_USER_ED25519)),
            (''signing_key_id'', JStr signing_key_id),
            (''transaction_digest'', JStr (az_transaction_digest activated))])
         (ret activated))))))))))))"

definition verify_authorization_for_payment ::
  "approver \<Rightarrow> authorization_row \<Rightarrow> authorization_status \<Rightarrow> instant \<Rightarrow> bound_transaction db" where
  "verify_authorization_for_payment cfg row expected_status now =
     bind (lift (rebuild_bound_transaction row)) (\<lambda>transaction.
     andthen (guardE (az_binding_version row = BINDING_VERSION) TransactionBindingFailure)
    (andthen (whenS (az_status row \<noteq> expected_status)
       (andthen (whenS (expected_status = A_ACTIVE)
          (classify_and_raise (az_authorization_id row) (Some transaction) now))
        (raise AuthorizationNotActive)))
    (andthen (whenS (expected_status = A_ACTIVE \<and> az_expires_at row \<le> now)
       (andthen (expire_if_stale (az_authorization_id row) (Some now)) (raise AuthorizationExpired)))
    (andthen (require_policy_scheme row)
    (if az_approval_scheme row = S_POLICY_AUTO then
       andthen (guardE (az_signing_key_id row = None \<and> az_approval_signature row = None)
         (AuthorizationProofFailure R_AUTHORIZATION_APPROVAL_SCHEME_INVALID))
       (ret transaction)
     else if az_approval_scheme row \<noteq> S_USER_ED25519 then
       raise (AuthorizationProofFailure R_AUTHORIZATION_APPROVAL_SCHEME_INVALID)
     else case (az_signing_key_id row, az_approval_signature row) of
       (Some key_id, Some signature) \<Rightarrow>
         andthen (lift (verify_supplied_user_proof cfg row key_id signature)) (ret transaction)
     | _ \<Rightarrow> raise (AuthorizationProofFailure R_AUTHORIZATION_PROOF_MISSING))))))"

definition consume_authorization :: "uuid \<Rightarrow> bound_transaction \<Rightarrow> instant option \<Rightarrow> authorization_row db" where
  "consume_authorization authorization_id transaction now =
     bind (moment_of now) (\<lambda>moment.
     bind (lift (txn_digest transaction)) (\<lambda>digest.
     bind (update_authorizations
       (\<lambda>r. az_authorization_id r = authorization_id \<and> az_status r = A_ACTIVE
          \<and> az_transaction_digest r = digest \<and> moment < az_expires_at r)
       (\<lambda>r. r\<lparr>az_status := A_CONSUMED, az_consumed_at := Some moment\<rparr>)) (\<lambda>changed.
     andthen (whenS (changed \<noteq> 1) (classify_and_raise authorization_id (Some transaction) moment))
    (bind (reload authorization_id) (\<lambda>found.
     case found of
       None \<Rightarrow> raise AuthorizationNotFound
     | Some row \<Rightarrow>
       andthen (kernel_audit (az_mission_id row) E_AUTHORIZATION_CONSUMED
         [(''authorization_id'', JStr (uuid_str (az_authorization_id row))),
          (''status'', JStr (auth_text (az_status row))),
          (''transaction_digest_prefix'', JStr (digest_prefix digest)),
          (''consumed_at'', JStr (iso_utc moment))])
       (ret row))))))"

definition revoke_authorization :: "uuid \<Rightarrow> string \<Rightarrow> instant option \<Rightarrow> authorization_row db" where
  "revoke_authorization authorization_id reason now =
     bind (moment_of now) (\<lambda>moment.
     bind (update_authorizations
       (\<lambda>r. az_authorization_id r = authorization_id \<and> az_status r \<in> {A_PENDING, A_ACTIVE})
       (\<lambda>r. r\<lparr>az_status := A_REVOKED\<rparr>)) (\<lambda>changed.
     andthen (whenS (changed \<noteq> 1) (classify_and_raise authorization_id None moment))
    (bind (reload authorization_id) (\<lambda>found.
     case found of
       None \<Rightarrow> raise AuthorizationNotFound
     | Some row \<Rightarrow>
       andthen (kernel_audit (az_mission_id row) E_AUTHORIZATION_REVOKED
         [(''authorization_id'', JStr (uuid_str (az_authorization_id row))),
          (''status'', JStr (auth_text (az_status row))),
          (''reason'', JStr reason)])
       (ret row)))))"

definition authorization_for_mission :: "uuid \<Rightarrow> authorization_row option db" where
  "authorization_for_mission mission_id = gets (\<lambda>w. latest_by az_issued_at
     (filter (\<lambda>r. az_mission_id r = mission_id) (w_authorizations w)))"

section \<open>The abstract lifecycle\<close>

text \<open>
  The specification of one authorization row. Every UPDATE of the kernel is a step of this
  relation (the interface \<open>kernel_order\<close> below), so what holds along its steps holds of the
  code.
\<close>

inductive auth_step :: "approver \<Rightarrow> authorization_row \<Rightarrow> authorization_row \<Rightarrow> bool" for cfg where
  expire: "az_status r \<in> {A_PENDING, A_ACTIVE} \<Longrightarrow> auth_step cfg r (r\<lparr>az_status := A_EXPIRED\<rparr>)"
| revoke: "az_status r \<in> {A_PENDING, A_ACTIVE} \<Longrightarrow> auth_step cfg r (r\<lparr>az_status := A_REVOKED\<rparr>)"
| activate: "az_status r = A_PENDING \<Longrightarrow> az_approval_scheme r = S_POLICY_AUTO
    \<Longrightarrow> auth_step cfg r (r\<lparr>az_status := A_ACTIVE\<rparr>)"
| approve: "az_status r = A_PENDING \<Longrightarrow> az_approval_scheme r = S_USER_ED25519
    \<Longrightarrow> verify_user_ed25519_signature cfg (az_authorization_id r) (az_mission_id r)
          (az_binding_version r) (az_transaction_digest r) key_id signature = Inr ()
    \<Longrightarrow> auth_step cfg r (r\<lparr>az_status := A_ACTIVE, az_signing_key_id := Some key_id,
          az_approval_signature := Some signature\<rparr>)"
| consume: "az_status r = A_ACTIVE
    \<Longrightarrow> auth_step cfg r (r\<lparr>az_status := A_CONSUMED, az_consumed_at := Some t\<rparr>)"

inductive_cases auth_stepE: "auth_step cfg r r'"

definition auth_next :: "authorization_status \<Rightarrow> authorization_status set" where
  "auth_next s = (case s of A_PENDING \<Rightarrow> {A_ACTIVE, A_EXPIRED, A_REVOKED}
     | A_ACTIVE \<Rightarrow> {A_CONSUMED, A_EXPIRED, A_REVOKED} | _ \<Rightarrow> {})"

interpretation lifecycle: transition_table auth_next "\<lambda>s. s \<in> TERMINAL_STATUSES"
  by unfold_locales (auto simp: auth_next_def TERMINAL_STATUSES_def)

text \<open>What a row was issued for: everything but its status, proof and time of consumption.\<close>

definition issued_for :: "authorization_row \<Rightarrow> authorization_row" where
  "issued_for r = r\<lparr>az_status := A_PENDING, az_signing_key_id := None,
     az_approval_signature := None, az_consumed_at := None\<rparr>"

lemma auth_step_facts:
  assumes "auth_step cfg r r'"
  shows "az_status r' \<in> auth_next (az_status r)" and "issued_for r' = issued_for r"
    and "az_authorization_id r' = az_authorization_id r" and "az_nonce r' = az_nonce r"
  using assms by (auto elim!: auth_stepE simp: auth_next_def issued_for_def)

text \<open>A user's approval is in force only with a proof that verifies for this very row.\<close>

definition proof_ok :: "approver \<Rightarrow> authorization_row \<Rightarrow> bool" where
  "proof_ok cfg r \<longleftrightarrow>
     (az_approval_scheme r = S_USER_ED25519 \<and> az_status r \<in> {A_ACTIVE, A_CONSUMED} \<longrightarrow>
       (case (az_signing_key_id r, az_approval_signature r) of
          (Some key_id, Some signature) \<Rightarrow>
            verify_user_ed25519_signature cfg (az_authorization_id r) (az_mission_id r)
              (az_binding_version r) (az_transaction_digest r) key_id signature = Inr ()
        | _ \<Rightarrow> False))"

lemma auth_step_proof_ok: "auth_step cfg r r' \<Longrightarrow> proof_ok cfg r \<Longrightarrow> proof_ok cfg r'"
  by (auto elim!: auth_stepE simp: proof_ok_def split: option.splits)

interpretation evolution: row_order "(auth_step cfg)\<^sup>*\<^sup>*" for cfg
  by unfold_locales (auto intro: rtranclp_trans)

lemma evolves_facts:
  assumes "(auth_step cfg)\<^sup>*\<^sup>* r r'"
  shows "(az_status r, az_status r') \<in> moves auth_next" and "issued_for r' = issued_for r"
    and "az_authorization_id r' = az_authorization_id r" and "proof_ok cfg r \<Longrightarrow> proof_ok cfg r'"
proof -
  show "(az_status r, az_status r') \<in> moves auth_next"
    using assms
    by induction (auto intro: lifecycle.moves_trans [OF _ lifecycle.moves_step] auth_step_facts(1))
  show "issued_for r' = issued_for r" "az_authorization_id r' = az_authorization_id r"
    "proof_ok cfg r \<Longrightarrow> proof_ok cfg r'"
    using assms by (induction, auto simp: auth_step_facts(2,3) intro: auth_step_proof_ok)
qed

lemma evolves_terminal:
  assumes "(auth_step cfg)\<^sup>*\<^sup>* r r'" and "az_status r \<in> TERMINAL_STATUSES" shows "r' = r"
  using assms
proof (induction rule: rtranclp_induct)
  case (step s t)
  with auth_step_facts(1) [OF step.hyps(2)] show ?case by (simp add: lifecycle.terminal_stuck)
qed simp

section \<open>What every operation of the kernel keeps\<close>

text \<open>
  The interface between the lifecycle operations and the statements they execute: a relation
  on states that survives the clock, the entropy source, an audit append, the INSERT of a
  freshly issued row, and every UPDATE whose rows take steps of the lifecycle.
\<close>

locale kernel_order = session_order P for P :: "world \<Rightarrow> world \<Rightarrow> bool" +
  fixes cfg :: approver
  assumes clock: "keeps P utcnow"
    and ids: "keeps P uuid4"
    and audit_append: "keeps P (append_event m t KERNEL_ACTOR body)"
    and issue: "scheme \<noteq> S_LEGACY_SERVER \<Longrightarrow> keeps P (insert_authorization (issued_row i m d txn scheme now))"
    and update: "(\<And>r. p r \<Longrightarrow> auth_step cfg r (f r)) \<Longrightarrow> keeps P (update_authorizations p f)"
begin

lemma keeps_moment_of: "keeps P (moment_of now)"
  by (simp add: moment_of_def clock keeps_ret split: option.split)

lemma keeps_reload: "keeps P (reload i)"
  by (simp add: reload_def keeps_gets)

lemma keeps_kernel_audit: "keeps P (kernel_audit m t p)"
  by (simp add: kernel_audit_def audit_append keeps_andthen keeps_ret)

lemmas kernel_intros = keeps_intros keeps_moment_of keeps_reload keeps_kernel_audit

lemma keeps_issue_authorization: "keeps P (issue_authorization caps m txn scheme at')"
  unfolding issue_authorization_def Let_def
  by (intro kernel_intros ids keeps_andthen_ok [OF keeps_lift] issue)
    (auto simp: lift_def require_def split: if_splits)

lemma keeps_expire_if_stale: "keeps P (expire_if_stale i now)"
  unfolding expire_if_stale_def by (intro kernel_intros update) (auto intro: auth_step.intros)

lemma keeps_classify: "keeps P (classify_and_raise i txn now)"
  unfolding classify_and_raise_def by (intro kernel_intros keeps_expire_if_stale)

lemma keeps_activate: "keeps P (activate_authorization i now)"
  unfolding activate_authorization_def
  by (intro kernel_intros keeps_classify update) (auto intro: auth_step.intros)

lemma keeps_audit_proof_failure: "keeps P (audit_proof_failure row reason k)"
  unfolding audit_proof_failure_def by (rule keeps_kernel_audit)

lemma keeps_require_policy_scheme: "keeps P (require_policy_scheme row)"
  unfolding require_policy_scheme_def Let_def by (intro kernel_intros)

text \<open>The approval: the row the UPDATE changes is the one whose proof was verified before it.\<close>

lemma keeps_check_proof:
  "keeps P (catch (andthen (require_policy_scheme row) (lift (verify_supplied_user_proof cfg row k sig)))
     (\<lambda>e. case e of AuthorizationProofFailure reason \<Rightarrow> andthen (audit_proof_failure row reason (Some k)) (raise e)
        | _ \<Rightarrow> raise e))"
  by (intro keeps_catch keeps_andthen keeps_lift keeps_require_policy_scheme)
    (auto intro!: keeps_intros keeps_audit_proof_failure split: exn.split)

lemma keeps_approve: "keeps P (approve_authorization_with_signature cfg m i k sig now)"
  unfolding approve_authorization_with_signature_def
proof (rule keeps_bind [OF keeps_moment_of], rule keeps_bind_ok [OF keeps_reload], rule keeps_option [OF keeps_raise],
    rule keeps_andthen_ok [OF keeps_guardE],
    rule keeps_andthen [OF keeps_whenS [OF keeps_classify]],
    rule keeps_andthen [OF keeps_whenS [OF keeps_andthen [OF keeps_audit_proof_failure keeps_raise]]],
    rule keeps_andthen [OF keeps_lift], rule keeps_andthen_ok [OF keeps_guardE],
    rule keeps_andthen_ok [OF keeps_check_proof], goal_cases)
  case (1 moment s found t row s1 u1 t1 s2 u2 t2 s3 u3 t3)
  from 1(1,2) have "az_authorization_id row = i"
    by (auto simp: reload_def gets_def find_authorization_def dest: find_row_SomeD)
  moreover from 1(3,4) have "az_mission_id row = m" "az_binding_version row = BINDING_VERSION"
    by (simp_all add: guardE_eq_Inr_iff)
  moreover from 1(5) have "verify_supplied_user_proof cfg row k sig = Inr ()"
    by (auto simp: catch_def andthen_def bind_def lift_def raise_def
        split: prod.splits sum.splits exn.splits)
  ultimately have "auth_step cfg r (r\<lparr>az_status := A_ACTIVE, az_signing_key_id := Some k,
      az_approval_signature := Some sig\<rparr>)"
    if "az_authorization_id r = i \<and> az_mission_id r = m \<and> az_approval_scheme r = S_USER_ED25519
      \<and> az_status r = A_PENDING \<and> moment < az_expires_at r \<and> az_binding_version r = BINDING_VERSION
      \<and> az_transaction_digest r = az_transaction_digest row \<and> az_signing_key_id r = None
      \<and> az_approval_signature r = None" for r
    using that by (auto simp: verify_supplied_user_proof_def split: sum.splits exn.splits intro!: auth_step.approve)
  then show ?case by (intro kernel_intros keeps_classify update)
qed

lemma keeps_verify_for_payment: "keeps P (verify_authorization_for_payment cfg' row st now)"
  unfolding verify_authorization_for_payment_def
  by (intro kernel_intros keeps_classify keeps_expire_if_stale keeps_require_policy_scheme)
    (auto intro!: kernel_intros split: prod.split option.split)

lemma keeps_consume: "keeps P (consume_authorization i txn now)"
  unfolding consume_authorization_def
  by (intro kernel_intros keeps_classify update) (auto intro: auth_step.intros)

lemma keeps_revoke: "keeps P (revoke_authorization i reason now)"
  unfolding revoke_authorization_def
  by (intro kernel_intros keeps_classify update) (auto intro: auth_step.intros)

end

subsection \<open>The interface holds of the session\<close>

lemma insert_authorization_eq:
  "insert_authorization r w =
    (if find_mission (az_mission_id r) w = None then (Inl (IntegrityError ''authorizations.mission_id''), w)
     else if \<not> (keyed az_authorization_id (w_authorizations w @ [r]) \<and> keyed az_nonce (w_authorizations w @ [r]))
     then (Inl (IntegrityError ''uq_authorizations_nonce''), w)
     else if \<not> authorization_checks r then (Inl (IntegrityError ''ck_authorizations''), w)
     else (Inr (), w\<lparr>w_authorizations := w_authorizations w @ [r]\<rparr>))"
  by (simp add: insert_authorization_def db_require_def session_defs)

lemma update_authorizations_eq:
  "update_authorizations p f w =
    (if list_all authorization_checks (map f (filter p (w_authorizations w)))
     then (Inr (rows_matching p (w_authorizations w)),
       w\<lparr>w_authorizations := update_where p f (w_authorizations w)\<rparr>)
     else (Inl (IntegrityError ''ck_authorizations''), w))"
  by (simp add: update_authorizations_def db_require_def session_defs)

lemmas statement_eqs = insert_authorization_eq update_authorizations_eq utcnow_def uuid4_def

text \<open>The well-formed authorization table.\<close>

definition authorizations_ok :: "approver \<Rightarrow> world \<Rightarrow> bool" where
  "authorizations_ok cfg w \<longleftrightarrow> keyed az_authorization_id (w_authorizations w)
     \<and> keyed az_nonce (w_authorizations w)
     \<and> (\<forall>r \<in> set (w_authorizations w). authorization_checks r \<and> proof_ok cfg r)"

lemma KERNEL_ACTOR_nonempty [simp]: "KERNEL_ACTOR \<noteq> []"
  by (simp add: KERNEL_ACTOR_def)

lemma ledger_ok_cong: "w_audit_events w' = w_audit_events w \<Longrightarrow> ledger_ok w' = ledger_ok w"
  by (simp add: ledger_ok_def list_events_def)

interpretation kernel_ledger: kernel_order "\<lambda>w w'. ledger_ok w \<longrightarrow> ledger_ok w'" cfg for cfg
proof unfold_locales
  show "keeps (\<lambda>w w'. ledger_ok w \<longrightarrow> ledger_ok w') (append_event m t KERNEL_ACTOR body)" for m t body
    by (rule append_event_ledger) simp
qed (auto simp: keeps_def statement_eqs intro: ledger_ok_cong [THEN iffD1, rotated])

text \<open>The tables no lifecycle operation writes.\<close>

definition outside_kernel :: "world \<Rightarrow> mission_row list \<times> offer_row list \<times> policy_decision_row list
    \<times> payment_intent_row list \<times> outbox_event_row list \<times> webhook_event_row list" where
  "outside_kernel w = (w_missions w, w_offers w, w_policy_decisions w, w_payment_intents w,
     w_outbox_events w, w_webhook_events w)"

interpretation kernel_frame: kernel_order "\<lambda>w w'. outside_kernel w' = outside_kernel w" cfg for cfg
  by unfold_locales
    (simp_all add: keeps_def statement_eqs outside_kernel_def append_event_eq Let_def draw_def)

interpretation kernel_evolves: kernel_order
  "\<lambda>w w'. grows (auth_step cfg)\<^sup>*\<^sup>* (w_authorizations w) (w_authorizations w')" cfg for cfg
proof unfold_locales
  fix p f assume "\<And>r. p r \<Longrightarrow> auth_step cfg r (f r)"
  then show "keeps (\<lambda>w w'. grows (auth_step cfg)\<^sup>*\<^sup>* (w_authorizations w) (w_authorizations w'))
      (update_authorizations p f)"
    by (auto simp: keeps_def update_authorizations_eq evolution.grows_refl intro!: evolution.grows_update)
qed (simp_all add: keeps_def statement_eqs append_event_eq Let_def draw_def evolution.grows_refl
    evolution.grows_append)

lemma update_keeps_authorizations_ok:
  assumes legal: "\<And>r. p r \<Longrightarrow> auth_step cfg r (f r)" and ok: "authorizations_ok cfg w"
  shows "authorizations_ok cfg (snd (update_authorizations p f w))"
proof (cases "list_all authorization_checks (map f (filter p (w_authorizations w)))")
  case True
  define g where "g r = (if p r then f r else r)" for r
  have ids: "az_authorization_id (g r) = az_authorization_id r" "az_nonce (g r) = az_nonce r" for r
    using auth_step_facts [OF legal, of r] by (simp_all add: g_def)
  have "authorization_checks (g r) \<and> proof_ok cfg (g r)" if "r \<in> set (w_authorizations w)" for r
    using that ok True auth_step_proof_ok [OF legal, of r]
    by (auto simp: g_def authorizations_ok_def list_all_iff)
  with ok ids True show ?thesis
    by (simp add: update_authorizations_eq authorizations_ok_def update_where_def keyed_def o_def flip: g_def)
next
  case False
  with ok show ?thesis by (simp add: update_authorizations_eq)
qed

interpretation kernel_rows: kernel_order
  "\<lambda>w w'. authorizations_ok cfg w \<longrightarrow> authorizations_ok cfg w'" cfg for cfg
proof unfold_locales
  fix scheme i m d txn now
  show "keeps (\<lambda>w w'. authorizations_ok cfg w \<longrightarrow> authorizations_ok cfg w')
      (insert_authorization (issued_row i m d txn scheme now))"
    by (auto simp: keeps_def insert_authorization_eq authorizations_ok_def proof_ok_def issued_row_def)
next
  fix p f assume "\<And>r. p r \<Longrightarrow> auth_step cfg r (f r)"
  then show "keeps (\<lambda>w w'. authorizations_ok cfg w \<longrightarrow> authorizations_ok cfg w') (update_authorizations p f)"
    using update_keeps_authorizations_ok by (auto simp: keeps_def)
qed (simp_all add: keeps_def statement_eqs append_event_eq Let_def draw_def authorizations_ok_def)

section \<open>Histories of operations\<close>

text \<open>
  A history: operations in any order and with any arguments, each in a transaction of its own
  that is committed, whether the operation returned or raised, or rolled back. The list
  records the committed operations that returned.
\<close>

datatype auth_op =
    Issue capability_set uuid bound_transaction approval_scheme "instant option"
  | Expire uuid "instant option"
  | Activate uuid "instant option"
  | Approve uuid uuid string string "instant option"
  | Verify uuid authorization_status instant
  | Consume uuid bound_transaction "instant option"
  | Revoke uuid string "instant option"

definition run_auth_op :: "approver \<Rightarrow> auth_op \<Rightarrow> unit db" where
  "run_auth_op cfg op = (case op of
     Issue caps m txn scheme t \<Rightarrow> andthen (issue_authorization caps m txn scheme t) (ret ())
   | Expire i t \<Rightarrow> andthen (expire_if_stale i t) (ret ())
   | Activate i t \<Rightarrow> andthen (activate_authorization i t) (ret ())
   | Approve m i k sig t \<Rightarrow> andthen (approve_authorization_with_signature cfg m i k sig t) (ret ())
   | Verify i st t \<Rightarrow> bind (reload i) (\<lambda>found. case found of None \<Rightarrow> raise AuthorizationNotFound
       | Some row \<Rightarrow> andthen (verify_authorization_for_payment cfg row st t) (ret ()))
   | Consume i txn t \<Rightarrow> andthen (consume_authorization i txn t) (ret ())
   | Revoke i reason t \<Rightarrow> andthen (revoke_authorization i reason t) (ret ()))"

inductive auth_history :: "approver \<Rightarrow> world \<Rightarrow> auth_op list \<Rightarrow> world \<Rightarrow> bool" for cfg w where
  start: "auth_history cfg w [] w"
| committed: "auth_history cfg w ops v \<Longrightarrow> run_auth_op cfg op v = (Inr (), v')
    \<Longrightarrow> auth_history cfg w (ops @ [op]) v'"
| raised: "auth_history cfg w ops v \<Longrightarrow> run_auth_op cfg op v = (Inl e, v') \<Longrightarrow> auth_history cfg w ops v'"
| rolled_back: "auth_history cfg w ops v \<Longrightarrow> run_auth_op cfg op v = (res, v')
    \<Longrightarrow> auth_history cfg w ops (restore_tables v v')"

context kernel_order
begin

lemma keeps_run_auth_op: "keeps P (run_auth_op cfg op)"
  unfolding run_auth_op_def
  by (cases op) (simp_all, (intro kernel_intros keeps_issue_authorization keeps_expire_if_stale keeps_activate
      keeps_approve keeps_verify_for_payment keeps_consume keeps_revoke)+)

lemma history_keeps:
  assumes rollback: "\<And>v v'. P v v' \<Longrightarrow> P v (restore_tables v v')"
    and "auth_history cfg w ops w'"
  shows "P w w'"
  using assms(2)
proof induction
  case start
  show ?case by (rule refl)
next
  case (committed ops v op v')
  then show ?case by (blast intro: trans keepsD [OF keeps_run_auth_op])
next
  case (raised ops v op e v')
  then show ?case by (blast intro: trans keepsD [OF keeps_run_auth_op])
next
  case (rolled_back ops v op res v')
  then show ?case by (blast intro: trans rollback keepsD [OF keeps_run_auth_op])
qed

end

section \<open>The outcome of each transition\<close>

text \<open>The audit table can take the next event of a mission.\<close>

definition audit_ready :: "uuid \<Rightarrow> world \<Rightarrow> bool" where
  "audit_ready m w \<longleftrightarrow> find_mission m w \<noteq> None \<and> keyed ae_event_id (w_audit_events w)
     \<and> keyed (\<lambda>e. (ae_mission_id e, ae_sequence e)) (w_audit_events w)
     \<and> w_uuids w (w_uuid_idx w) \<notin> ae_event_id ` set (w_audit_events w)"

definition audited :: "uuid \<Rightarrow> event_type \<Rightarrow> string \<Rightarrow> payload \<Rightarrow> world \<Rightarrow> world" where
  "audited m t a p w = (draw w)\<lparr>w_audit_events := w_audit_events w @ [next_row m t a p w]\<rparr>"

lemma kernel_audit_ready:
  "audit_ready m w \<Longrightarrow> kernel_audit m t p w = (Inr (), audited m t KERNEL_ACTOR p w)"
  by (simp add: kernel_audit_def audit_ready_def append_event_success appendable_fresh audited_def session_defs)

lemma andthen_audit:
  "audit_ready m w \<Longrightarrow> andthen (kernel_audit m t p) k w = k (audited m t KERNEL_ACTOR p w)"
  by (simp add: kernel_audit_ready andthen_def bind_def)

lemma audit_ready_authorizations [simp]:
  "audit_ready m (w\<lparr>w_authorizations := rows\<rparr>) = audit_ready m w"
  by (simp add: audit_ready_def find_mission_def)

lemma audited_authorizations [simp]: "w_authorizations (audited m t a p w) = w_authorizations w"
  by (simp add: audited_def draw_def)

text \<open>A conditional UPDATE addressed by primary key: it changes the row or nothing.\<close>

lemma update_one:
  assumes "keyed az_authorization_id (w_authorizations w)" and "find_authorization i w = Some r"
    and addr: "\<And>r. p r \<Longrightarrow> az_authorization_id r = i" and "p r \<Longrightarrow> authorization_checks (f r)"
  shows "update_authorizations p f w = (Inr (if p r then 1 else 0),
    if p r then w\<lparr>w_authorizations := update_where p f (w_authorizations w)\<rparr> else w)"
proof -
  have only: "x = r" if "x \<in> set (w_authorizations w)" "p x" for x
    using that addr assms(1,2) unfolding find_authorization_def
    by (metis (mono_tags, lifting) find_row_SomeD keyed_unique)
  have "rows_matching p (w_authorizations w) = (if p r then 1 else 0)"
    using rows_matching_key [OF assms(1) addr] assms(2) by (simp add: find_authorization_def)
  moreover have "list_all authorization_checks (map f (filter p (w_authorizations w)))"
    using only assms(4) by (auto simp: list_all_iff)
  moreover have "update_where p f (w_authorizations w) = w_authorizations w" if "\<not> p r"
    using only that by (auto simp: update_where_def intro!: map_idI)
  ultimately show ?thesis by (simp add: update_authorizations_eq)
qed

lemma find_authorization_update:
  assumes "\<And>r. az_authorization_id (f r) = az_authorization_id r"
  shows "find_authorization i (w\<lparr>w_authorizations := update_where p f (w_authorizations w)\<rparr>)
    = map_option (\<lambda>r. if p r then f r else r) (find_authorization i w)"
  using find_row_update_cond [of az_authorization_id f i p, OF assms] by (simp add: find_authorization_def)

lemma find_authorization_id: "find_authorization i w = Some r \<Longrightarrow> az_authorization_id r = i"
  by (auto simp: find_authorization_def dest: find_row_SomeD)

lemma find_authorization_audited [simp]: "find_authorization i (audited m t a p w) = find_authorization i w"
  by (simp add: find_authorization_def)

lemma ok_find:
  "authorizations_ok cfg w \<Longrightarrow> find_authorization i w = Some r \<Longrightarrow> authorization_checks r \<and> proof_ok cfg r"
  by (auto simp: authorizations_ok_def find_authorization_def dest: find_row_SomeD)

lemma checks_after_move:
  assumes "authorization_checks r"
  shows "az_status r \<in> {A_PENDING, A_ACTIVE} \<Longrightarrow> authorization_checks (r\<lparr>az_status := A_EXPIRED\<rparr>)"
    and "az_status r \<in> {A_PENDING, A_ACTIVE} \<Longrightarrow> authorization_checks (r\<lparr>az_status := A_REVOKED\<rparr>)"
    and "az_status r = A_ACTIVE \<Longrightarrow> authorization_checks (r\<lparr>az_status := A_CONSUMED, az_consumed_at := Some t\<rparr>)"
    and "az_status r = A_PENDING \<Longrightarrow> az_approval_scheme r = S_POLICY_AUTO
      \<Longrightarrow> authorization_checks (r\<lparr>az_status := A_ACTIVE\<rparr>)"
  using assms
  by (auto simp: authorization_checks_def ck_consumed_at_matches_status_def ck_proof_pair_complete_def
      ck_signature_shape_def ck_scheme_proof_state_def)

text \<open>What \<open>expire_if_stale\<close> leaves of the row it is asked about.\<close>

definition staled :: "instant \<Rightarrow> authorization_row \<Rightarrow> authorization_row" where
  "staled now r = (if az_status r \<in> {A_PENDING, A_ACTIVE} \<and> az_expires_at r \<le> now
     then r\<lparr>az_status := A_EXPIRED\<rparr> else r)"

lemma expire_if_stale_outcome:
  assumes ok: "authorizations_ok cfg w" and found: "find_authorization i w = Some r"
    and ready: "audit_ready (az_mission_id r) w"
  shows "fst (expire_if_stale i (Some now) w)
      = Inr (az_status r \<in> {A_PENDING, A_ACTIVE} \<and> az_expires_at r \<le> now)"
    and "find_authorization i (snd (expire_if_stale i (Some now) w)) = Some (staled now r)"
proof -
  let ?p = "\<lambda>r. az_authorization_id r = i \<and> az_status r \<in> {A_PENDING, A_ACTIVE} \<and> az_expires_at r \<le> now"
  let ?f = "\<lambda>r. r\<lparr>az_status := A_EXPIRED\<rparr>"
  have k: "keyed az_authorization_id (w_authorizations w)" using ok by (simp add: authorizations_ok_def)
  have u: "update_authorizations ?p ?f w = (Inr (if ?p r then 1 else 0),
      if ?p r then w\<lparr>w_authorizations := update_where ?p ?f (w_authorizations w)\<rparr> else w)"
    using ok_find [OF ok found] by (intro update_one [OF k found]) (auto simp: checks_after_move)
  have upd: "find_authorization i (w\<lparr>w_authorizations := update_where ?p ?f (w_authorizations w)\<rparr>)
      = Some (if ?p r then ?f r else r)"
    using found by (subst find_authorization_update) simp_all
  have "fst (expire_if_stale i (Some now) w) = Inr (?p r)
      \<and> find_authorization i (snd (expire_if_stale i (Some now) w)) = Some (staled now r)"
  proof (cases "?p r")
    case True
    with u upd ready show ?thesis
      by (simp add: expire_if_stale_def moment_of_def reload_def session_defs kernel_audit_ready staled_def)
  next
    case False
    then show ?thesis
      by (simp only: expire_if_stale_def moment_of_def reload_def session_defs u option.case prod.case sum.case
          if_False simp_thms zero_neq_one not_True_eq_False) (auto simp: found staled_def find_authorization_id [OF found])
  qed
  then show "fst (expire_if_stale i (Some now) w)
      = Inr (az_status r \<in> {A_PENDING, A_ACTIVE} \<and> az_expires_at r \<le> now)"
    and "find_authorization i (snd (expire_if_stale i (Some now) w)) = Some (staled now r)"
    using find_authorization_id [OF found] by auto
qed

text \<open>Why a transition is refused: replay before mutation before expiry before the rest.\<close>

definition refusal :: "string option \<Rightarrow> instant \<Rightarrow> authorization_row \<Rightarrow> exn" where
  "refusal presented now r =
     (if az_status r = A_CONSUMED then AuthorizationReplayDetected
      else if presented \<noteq> None \<and> presented \<noteq> Some (az_transaction_digest r) then TransactionBindingFailure
      else if az_expires_at r \<le> now then AuthorizationExpired
      else AuthorizationNotActive)"

definition after_refusal :: "string option \<Rightarrow> instant \<Rightarrow> authorization_row \<Rightarrow> authorization_row" where
  "after_refusal presented now r =
     (if refusal presented now r = AuthorizationExpired then staled now r else r)"

lemma raised_simps: "fst (raise e v) = Inl e" "snd (raise e v) = v"
  by (simp_all add: raise_def)

lemma andthen_raise:
  assumes "fst (m w) = Inr x"
  shows "andthen m (raise e) w = (Inl e, snd (m w))"
  using assms by (cases "m w") (simp add: session_defs)

lemma classify_outcome:
  assumes ok: "authorizations_ok cfg w" and found: "find_authorization i w = Some r"
    and ready: "audit_ready (az_mission_id r) w"
    and digest: "\<And>t. txn = Some t \<Longrightarrow> txn_digest t = Inr d"
  shows "fst (classify_and_raise i txn now w) = Inl (refusal (map_option (\<lambda>_. d) txn) now r)"
    and "find_authorization i (snd (classify_and_raise i txn now w))
      = Some (after_refusal (map_option (\<lambda>_. d) txn) now r)"
proof -
  note stale = expire_if_stale_outcome [OF ok found ready, of now]
  note exp = andthen_raise [of "expire_if_stale i (Some now)" w, OF stale(1)]
  have "fst (classify_and_raise i txn now w) = Inl (refusal (map_option (\<lambda>_. d) txn) now r)
    \<and> find_authorization i (snd (classify_and_raise i txn now w))
      = Some (after_refusal (map_option (\<lambda>_. d) txn) now r)"
  proof (cases txn)
    case None
    then show ?thesis
      using found ready stale(2)
      by (simp add: classify_and_raise_def reload_def refusal_def after_refusal_def
          bind_def gets_def andthen_audit exp raised_simps ret_def)
  next
    case (Some t)
    with digest have "txn_digest t = Inr d" by simp
    then show ?thesis
      using found ready stale(2) Some
      by (simp add: classify_and_raise_def reload_def refusal_def after_refusal_def
          bind_def gets_def andthen_audit exp raised_simps ret_def lift_def digests_match_def)
  qed
  then show "fst (classify_and_raise i txn now w) = Inl (refusal (map_option (\<lambda>_. d) txn) now r)"
    and "find_authorization i (snd (classify_and_raise i txn now w))
      = Some (after_refusal (map_option (\<lambda>_. d) txn) now r)" by auto
qed

definition consumable :: "string \<Rightarrow> instant \<Rightarrow> authorization_row \<Rightarrow> bool" where
  "consumable d now r \<longleftrightarrow> az_status r = A_ACTIVE \<and> az_transaction_digest r = d \<and> now < az_expires_at r"

definition consumed :: "instant \<Rightarrow> authorization_row \<Rightarrow> authorization_row" where
  "consumed now r = r\<lparr>az_status := A_CONSUMED, az_consumed_at := Some now\<rparr>"

lemma consume_outcome:
  assumes ok: "authorizations_ok cfg w" and found: "find_authorization i w = Some r"
    and ready: "audit_ready (az_mission_id r) w" and digest: "txn_digest txn = Inr d"
  shows "fst (consume_authorization i txn (Some now) w)
      = (if consumable d now r then Inr (consumed now r) else Inl (refusal (Some d) now r))"
    and "find_authorization i (snd (consume_authorization i txn (Some now) w))
      = Some (if consumable d now r then consumed now r else after_refusal (Some d) now r)"
proof -
  let ?p = "\<lambda>r. az_authorization_id r = i \<and> az_status r = A_ACTIVE \<and> az_transaction_digest r = d
      \<and> now < az_expires_at r"
  have k: "keyed az_authorization_id (w_authorizations w)" using ok by (simp add: authorizations_ok_def)
  have p: "?p r \<longleftrightarrow> consumable d now r" using find_authorization_id [OF found] by (simp add: consumable_def)
  have u: "update_authorizations ?p (consumed now) w = (Inr (if ?p r then 1 else 0),
      if ?p r then w\<lparr>w_authorizations := update_where ?p (consumed now) (w_authorizations w)\<rparr> else w)"
    using ok_find [OF ok found] by (intro update_one [OF k found]) (auto simp: checks_after_move consumed_def)
  have upd: "find_authorization i (w\<lparr>w_authorizations := update_where ?p (consumed now) (w_authorizations w)\<rparr>)
      = Some (if ?p r then consumed now r else r)"
    using found by (subst find_authorization_update) (simp_all add: consumed_def)
  note cls = classify_outcome [OF ok found ready, of "Some txn" d now, simplified, OF digest]
  have "fst (consume_authorization i txn (Some now) w)
        = (if consumable d now r then Inr (consumed now r) else Inl (refusal (Some d) now r))
    \<and> find_authorization i (snd (consume_authorization i txn (Some now) w))
        = Some (if consumable d now r then consumed now r else after_refusal (Some d) now r)"
  proof (cases "?p r")
    case True
    with u upd ready p show ?thesis
      by (simp add: consume_authorization_def moment_of_def reload_def session_defs digest kernel_audit_ready
          flip: consumed_def) (simp add: consumed_def kernel_audit_ready)
  next
    case False
    then have "update_authorizations ?p (consumed now) w = (Inr 0, w)" using u by simp
    with False p cls show ?thesis
      by (auto simp: consume_authorization_def moment_of_def session_defs digest simp flip: consumed_def
          split: prod.splits sum.splits)
  qed
  then show "fst (consume_authorization i txn (Some now) w)
      = (if consumable d now r then Inr (consumed now r) else Inl (refusal (Some d) now r))"
    and "find_authorization i (snd (consume_authorization i txn (Some now) w))
      = Some (if consumable d now r then consumed now r else after_refusal (Some d) now r)" by auto
qed

lemma classify_never_returns: "classify_and_raise i txn now w \<noteq> (Inr x, w')"
  by (auto simp: classify_and_raise_def session_Inr_iffs split: option.splits if_splits)

lemma whenS_eq_Inr_iff: "whenS b m s = (Inr u, t) \<longleftrightarrow> (if b then m s = (Inr u, t) else t = s)"
  by (auto simp: whenS_def ret_def)

lemma moment_of_frame: "moment_of now w = (r, w1) \<Longrightarrow> w_authorizations w1 = w_authorizations w"
  by (auto simp: moment_of_def utcnow_def ret_def split: option.splits)

lemma kernel_audit_frame: "kernel_audit m t p w = (r, w1) \<Longrightarrow> w_authorizations w1 = w_authorizations w"
  using append_event_frame(1) [of m t KERNEL_ACTOR p]
  by (auto simp: kernel_audit_def andthen_def bind_def ret_def keeps_def split: prod.splits sum.splits) (metis snd_conv)+

text \<open>The two halves every transition has: the guarded UPDATE, then the reload and the audit event.\<close>

lemma guarded_update:
  assumes "bind (update_authorizations p f) (\<lambda>n. andthen (whenS (n \<noteq> 1) (classify_and_raise i txn t)) k) w = (Inr x, w')"
  shows "\<exists>w2. update_authorizations p f w = (Inr 1, w2) \<and> k w2 = (Inr x, w')"
  using assms by (auto simp: bind_eq_Inr_iff andthen_eq_Inr_iff whenS_eq_Inr_iff classify_never_returns split: if_splits)

lemma reload_and_audit:
  assumes "bind (reload i) (\<lambda>found. case found of None \<Rightarrow> raise e
      | Some row \<Rightarrow> andthen (kernel_audit (az_mission_id row) ty (b row)) (ret row)) w = (Inr row, w')"
  shows "find_authorization i w = Some row \<and> find_authorization i w' = Some row"
  using assms kernel_audit_frame
  by (fastforce simp: bind_eq_Inr_iff andthen_eq_Inr_iff ret_eq_iff reload_def gets_eq_Inr_iff raise_eq_Inr_iff
      find_authorization_def split: option.splits)

text \<open>Whatever happened around it, a consumption that returned moved the row from ACTIVE.\<close>

lemma consume_success:
  assumes run: "consume_authorization i txn now w = (Inr row, w')"
    and k: "keyed az_authorization_id (w_authorizations w)"
  shows "\<exists>r t. find_authorization i w = Some r \<and> az_status r = A_ACTIVE \<and> t < az_expires_at r
    \<and> txn_digest txn = Inr (az_transaction_digest r) \<and> row = consumed t r
    \<and> find_authorization i w' = Some (consumed t r) \<and> (\<forall>t0. now = Some t0 \<longrightarrow> t = t0)"
proof -
  from run obtain t w1 d w2 where mom: "moment_of now w = (Inr t, w1)" and d: "txn_digest txn = Inr d"
    and u: "update_authorizations (\<lambda>r. az_authorization_id r = i \<and> az_status r = A_ACTIVE
        \<and> az_transaction_digest r = d \<and> t < az_expires_at r) (consumed t) w1 = (Inr 1, w2)"
    and row: "find_authorization i w2 = Some row" "find_authorization i w' = Some row"
    unfolding consume_authorization_def consumed_def [abs_def]
    by (auto simp: bind_eq_Inr_iff [of "moment_of now"] bind_eq_Inr_iff [of "lift r" for r] lift_eq_Inr_iff
        simp del: One_nat_def dest!: guarded_update reload_and_audit)
  let ?p = "\<lambda>r. az_authorization_id r = i \<and> az_status r = A_ACTIVE \<and> az_transaction_digest r = d
      \<and> t < az_expires_at r"
  from u have w2: "w2 = w1\<lparr>w_authorizations := update_where ?p (consumed t) (w_authorizations w1)\<rparr>"
    and "rows_matching ?p (w_authorizations w1) = 1"
    by (auto simp: update_authorizations_eq split: if_splits)
  moreover have "keyed az_authorization_id (w_authorizations w1)" using k moment_of_frame [OF mom] by simp
  ultimately have "(case find_authorization i w1 of None \<Rightarrow> 0 | Some r \<Rightarrow> if ?p r then 1 else 0) = (1 :: nat)"
    using rows_matching_key [of az_authorization_id "w_authorizations w1" ?p i] by (simp add: find_authorization_def)
  then obtain r where r: "find_authorization i w1 = Some r" "?p r"
    by (cases "find_authorization i w1") (simp_all split: if_splits)
  with w2 have "find_authorization i w2 = Some (consumed t r)"
    by (simp add: find_authorization_update consumed_def)
  moreover have "now = Some t0 \<longrightarrow> t = t0" for t0 using mom by (auto simp: moment_of_def ret_def)
  ultimately show ?thesis using row r d moment_of_frame [OF mom]
    by (intro exI [of _ r] exI [of _ t]) (auto simp: find_authorization_def)
qed

lemma find_evolves:
  assumes "grows (auth_step cfg)\<^sup>*\<^sup>* (w_authorizations w) (w_authorizations w')"
    and "keyed az_authorization_id (w_authorizations w')" and "find_authorization i w = Some r"
  shows "\<exists>r'. find_authorization i w' = Some r' \<and> (auth_step cfg)\<^sup>*\<^sup>* r r'"
proof -
  from assms(3) have r: "r \<in> set (w_authorizations w)" "az_authorization_id r = i"
    by (auto simp: find_authorization_def dest: find_row_SomeD)
  from growsD [OF assms(1) r(1)] obtain r' where r': "r' \<in> set (w_authorizations w')" "(auth_step cfg)\<^sup>*\<^sup>* r r'"
    by blast
  with evolves_facts(3) [OF r'(2)] r find_row_key [OF assms(2) r'(1)] show ?thesis
    by (auto simp: find_authorization_def)
qed

lemma restored_simps [simp]:
  "w_authorizations (restore_tables v v') = w_authorizations v"
  "outside_kernel (restore_tables v v') = outside_kernel v"
  "list_events m (restore_tables v v') = list_events m v"
  by (simp_all add: restore_tables_def outside_kernel_def list_events_def)

lemma restored_inv [simp]:
  "authorizations_ok cfg (restore_tables v v') = authorizations_ok cfg v"
  "ledger_ok (restore_tables v v') = ledger_ok v"
  "find_authorization i (restore_tables v v') = find_authorization i v"
  by (simp_all add: authorizations_ok_def ledger_ok_def find_authorization_def)

lemmas history_facts =
  kernel_rows.history_keeps [simplified, rule_format]
  kernel_ledger.history_keeps [simplified, rule_format]
  kernel_frame.history_keeps [simplified]
  kernel_evolves.history_keeps [simplified, OF evolution.grows_refl]

definition consumes :: "uuid \<Rightarrow> auth_op \<Rightarrow> bool" where
  "consumes i op = (case op of Consume j txn t \<Rightarrow> j = i | _ \<Rightarrow> False)"

text \<open>After a recorded consumption the row is CONSUMED, and stays so.\<close>

lemma consumed_once:
  assumes "auth_history cfg w ops w'" and "authorizations_ok cfg w"
  shows "length (filter (consumes i) ops) \<le> 1
    \<and> (filter (consumes i) ops \<noteq> [] \<longrightarrow>
        (\<exists>r. find_authorization i w' = Some r \<and> az_status r = A_CONSUMED))"
  using assms(1)
proof induction
  case start
  show ?case by simp
next
  case (committed ops v op v')
  have okv: "authorizations_ok cfg v" using history_facts(1) committed.hyps(1) assms(2) by blast
  have okv': "authorizations_ok cfg v'"
    using stable.keepsD [OF kernel_rows.keeps_run_auth_op committed.hyps(2)] okv by blast
  note ev = find_evolves [OF evolution.keepsD [OF kernel_evolves.keeps_run_auth_op committed.hyps(2)]]
  have stays: "\<exists>r'. find_authorization i v' = Some r' \<and> az_status r' = A_CONSUMED"
    if "find_authorization i v = Some r" "az_status r = A_CONSUMED" for r
    using ev [OF _ that(1)] okv' evolves_terminal that(2)
    by (fastforce simp: authorizations_ok_def TERMINAL_STATUSES_def)
  show ?case
  proof (cases "consumes i op")
    case True
    then obtain txn t row where "consume_authorization i txn t v = (Inr row, v')"
      using committed.hyps(2) by (auto simp: consumes_def run_auth_op_def session_Inr_iffs split: auth_op.splits)
    from consume_success [OF this] okv obtain r t where "find_authorization i v = Some r" "az_status r = A_ACTIVE"
      "find_authorization i v' = Some (consumed t r)" by (auto simp: authorizations_ok_def)
    with committed.IH True show ?thesis by (auto simp: consumed_def)
  next
    case False
    with committed.IH stays show ?thesis by auto
  qed
next
  case (raised ops v op e v')
  have okv': "authorizations_ok cfg v'"
    using history_facts(1) auth_history.raised [OF raised.hyps] assms(2) by blast
  note ev = find_evolves [OF evolution.keepsD [OF kernel_evolves.keeps_run_auth_op raised.hyps(2)]]
  have "\<exists>r'. find_authorization i v' = Some r' \<and> az_status r' = A_CONSUMED"
    if "find_authorization i v = Some r" "az_status r = A_CONSUMED" for r
    using ev [OF _ that(1)] okv' evolves_terminal that(2)
    by (fastforce simp: authorizations_ok_def TERMINAL_STATUSES_def)
  with raised.IH show ?case by blast
next
  case (rolled_back ops v op res v')
  then show ?case by simp
qed

section \<open>Properties of the authorization lifecycle\<close>

text \<open>
  C25. An authorization is consumed at most once: over any history of kernel operations, in any
  order, committed or rolled back, whatever they returned or raised, at most one committed
  consumption of one authorization returned, and after it the row is CONSUMED for good.
\<close>

theorem authorization_consumed_at_most_once:
  assumes "auth_history cfg w ops w'" and "authorizations_ok cfg w"
  shows "length (filter (consumes i) ops) \<le> 1
    \<and> (filter (consumes i) ops \<noteq> [] \<longrightarrow>
        (\<exists>r. find_authorization i w' = Some r \<and> az_status r = A_CONSUMED))"
  using consumed_once [OF assms] .

text \<open>A world with one active, policy-approved authorization of the sample transaction.\<close>

definition sample_approver :: approver where
  "sample_approver = \<lparr>ap_signing_key_id = ''demo'', ap_public_key_hex = Some (replicate 64 (CHR ''0'')),
     ap_key_valid = (\<lambda>k. length k = 32), ap_verify = (\<lambda>k s m. s = replicate 64 (CHR 0xAA))\<rparr>"

definition sample_digest :: string where
  "sample_digest = sum.projr (txn_digest (sample_transaction 0))"

definition sample_row :: "approval_scheme \<Rightarrow> authorization_row" where
  "sample_row scheme = issued_row 5 1 sample_digest (sample_transaction 0) scheme 62000000000000000"

definition auth_world :: "authorization_row \<Rightarrow> world" where
  "auth_world r = sample_world\<lparr>w_authorizations := [r]\<rparr>"

lemma sample_digest: "txn_digest (sample_transaction 0) = Inr sample_digest"
proof -
  have "bt_expires_at (sample_transaction 0) = Aware 63000000000000000 0" by (simp add: sample_transaction_def)
  from txn_digest_total [OF this] show ?thesis by (auto simp: max_instant_def sample_digest_def)
qed

lemma auth_world_simps [simp]:
  "w_authorizations (auth_world r) = [r]" "find_authorization i (auth_world r) = (if az_authorization_id r = i then Some r else None)"
  "ledger_ok (auth_world r)" "audit_ready 1 (auth_world r)"
  using sample_world_ledger
  by (simp_all add: auth_world_def find_authorization_def find_row_def ledger_ok_def list_events_def)
    (simp add: audit_ready_def find_mission_def find_row_def sample_world_def sample_mission_def empty_world_def keyed_def)

lemma auth_world_ok:
  "authorization_checks r \<Longrightarrow> proof_ok cfg r \<Longrightarrow> authorizations_ok cfg (auth_world r)"
  by (simp add: authorizations_ok_def keyed_def)

definition sample_active :: authorization_row where
  "sample_active = (sample_row S_POLICY_AUTO)\<lparr>az_status := A_ACTIVE\<rparr>"

lemma sample_active_ok: "authorizations_ok cfg (auth_world sample_active)"
  by (rule auth_world_ok)
    (simp_all add: sample_active_def sample_row_def issued_row_def authorization_checks_def
      ck_consumed_at_matches_status_def ck_proof_pair_complete_def ck_signature_shape_def
      ck_scheme_proof_state_def proof_ok_def)

lemma sample_active_fields [simp]:
  "az_authorization_id sample_active = 5" "az_mission_id sample_active = 1" "az_status sample_active = A_ACTIVE"
  "az_transaction_digest sample_active = sample_digest" "az_expires_at sample_active = 63000000000000000"
  by (simp_all add: sample_active_def sample_row_def issued_row_def sample_transaction_def instant_of_def)

lemmas consume_sample = consume_outcome [OF sample_active_ok, of 5 sample_active "sample_transaction 0"
    sample_digest, simplified, OF sample_digest]

theorem authorization_consumed_at_most_once_witness:
  "\<exists>w'. auth_history sample_approver (auth_world sample_active)
        [Consume 5 (sample_transaction 0) (Some 62500000000000000)] w'
     \<and> (\<exists>r. find_authorization 5 w' = Some r \<and> az_status r = A_CONSUMED)"
proof -
  let ?op = "Consume 5 (sample_transaction 0) (Some 62500000000000000)"
  obtain w' where "run_auth_op sample_approver ?op (auth_world sample_active) = (Inr (), w')"
    using consume_sample(1) [of 62500000000000000]
    by (cases "consume_authorization 5 (sample_transaction 0) (Some 62500000000000000) (auth_world sample_active)")
      (simp add: run_auth_op_def session_defs consumable_def)
  with auth_history.start have h: "auth_history sample_approver (auth_world sample_active) ([] @ [?op]) w'"
    by (rule auth_history.committed)
  with authorization_consumed_at_most_once [OF h sample_active_ok, of 5] show ?thesis
    by (auto simp: consumes_def)
qed

text \<open>
  C27. Refinement of the lifecycle: along any history of kernel operations every row only takes
  steps of the abstract lifecycle. Its issued fields (transaction digest, nonce, bound amount,
  merchant, product, quantity, currency, expiry, versions, scheme, mission) never change, its
  status moves only along the table, and a row in a terminal status never changes again.
\<close>

theorem lifecycle_refines_its_specification:
  assumes "auth_history cfg w ops w'" and "authorizations_ok cfg w" and "find_authorization i w = Some r"
  shows "\<exists>r'. find_authorization i w' = Some r' \<and> (auth_step cfg)\<^sup>*\<^sup>* r r' \<and> issued_for r' = issued_for r
    \<and> (az_status r, az_status r') \<in> moves auth_next \<and> (az_status r \<in> TERMINAL_STATUSES \<longrightarrow> r' = r)"
proof -
  have "authorizations_ok cfg w'" using history_facts(1) [OF assms(1,2)] .
  then obtain r' where "find_authorization i w' = Some r'" "(auth_step cfg)\<^sup>*\<^sup>* r r'"
    using find_evolves [OF history_facts(4) [OF assms(1)] _ assms(3)] by (auto simp: authorizations_ok_def)
  then show ?thesis using evolves_facts evolves_terminal by blast
qed

theorem lifecycle_refines_its_specification_witness:
  "\<exists>w' r'. auth_history sample_approver (auth_world sample_active)
        [Consume 5 (sample_transaction 0) (Some 62500000000000000)] w'
     \<and> find_authorization 5 w' = Some r' \<and> az_status r' = A_CONSUMED
     \<and> issued_for r' = issued_for sample_active \<and> (A_ACTIVE, az_status r') \<in> moves auth_next"
proof -
  let ?op = "Consume 5 (sample_transaction 0) (Some 62500000000000000)"
  obtain w' where w': "run_auth_op sample_approver ?op (auth_world sample_active) = (Inr (), w')"
    and f: "find_authorization 5 w' = Some (consumed 62500000000000000 sample_active)"
    using consume_sample [of 62500000000000000]
    by (cases "consume_authorization 5 (sample_transaction 0) (Some 62500000000000000) (auth_world sample_active)")
      (simp add: run_auth_op_def session_defs consumable_def)
  from auth_history.committed [OF auth_history.start w']
  have h: "auth_history sample_approver (auth_world sample_active) [?op] w'" by simp
  let ?r = "consumed 62500000000000000 sample_active"
  from lifecycle_refines_its_specification [OF h sample_active_ok, of 5 sample_active] f
  have "issued_for ?r = issued_for sample_active" "(A_ACTIVE, az_status ?r) \<in> moves auth_next" by simp_all
  moreover have "az_status ?r = A_CONSUMED" by (simp add: consumed_def)
  ultimately show ?thesis using h f by blast
qed

text \<open>
  C26. No approval without a signature: along any history that starts from a well-formed table,
  an authorization under the user-approval scheme that is ACTIVE or CONSUMED carries a key id
  and a signature, the key id is the enrolled one, and Ed25519 accepts the decoded signature
  for exactly the approval message of this authorization, mission, binding version and digest.
\<close>

theorem user_approval_needs_a_verified_signature:
  assumes "auth_history cfg w ops w'" and "authorizations_ok cfg w" and "r \<in> set (w_authorizations w')"
    and "az_approval_scheme r = S_USER_ED25519" and "az_status r \<in> {A_ACTIVE, A_CONSUMED}"
  shows "\<exists>key_id signature public_key sig_bytes message.
    az_signing_key_id r = Some key_id \<and> az_approval_signature r = Some signature
    \<and> key_id = ap_signing_key_id cfg \<and> trusted_demo_public_key cfg key_id = Inr public_key
    \<and> decode_lowercase_hex signature SIGNATURE_HEX_LENGTH = Inr sig_bytes
    \<and> approval_message (az_authorization_id r) (az_mission_id r) (az_binding_version r)
        (az_transaction_digest r) key_id = Inr message
    \<and> ap_verify cfg public_key sig_bytes message"
proof -
  have "proof_ok cfg r" using history_facts(1) [OF assms(1,2)] assms(3) by (simp add: authorizations_ok_def)
  with assms(4,5) obtain k s where ks: "az_signing_key_id r = Some k" "az_approval_signature r = Some s"
    and v: "verify_user_ed25519_signature cfg (az_authorization_id r) (az_mission_id r)
      (az_binding_version r) (az_transaction_digest r) k s = Inr ()"
    by (auto simp: proof_ok_def split: option.splits)
  from v have "k = ap_signing_key_id cfg"
    by (auto simp: verify_user_ed25519_signature_def trusted_demo_public_key_def compare_digest_def
        split: if_splits)
  with ks v show ?thesis by (auto simp: verify_user_ed25519_signature_def split: if_splits)
qed



subsection \<open>Approval\<close>

definition approved :: "string \<Rightarrow> string \<Rightarrow> authorization_row \<Rightarrow> authorization_row" where
  "approved k sig r = r\<lparr>az_status := A_ACTIVE, az_signing_key_id := Some k, az_approval_signature := Some sig\<rparr>"

lemma py_is_lower_is_lower: "py_is_lower s \<Longrightarrow> is_lower s"
  by (auto simp: py_is_lower_def is_lower_def Let_def)

lemma verified_signature_shape:
  "verify_user_ed25519_signature cfg a m b d k sig = Inr () \<Longrightarrow> length sig = 128 \<and> is_lower sig"
  by (auto simp: verify_user_ed25519_signature_def decode_lowercase_hex_def SIGNATURE_HEX_LENGTH_def
      intro: py_is_lower_is_lower split: if_splits)

lemma checks_approved:
  assumes "authorization_checks r" "az_status r = A_PENDING" "az_approval_scheme r = S_USER_ED25519"
    and "verify_user_ed25519_signature cfg a m b d k sig = Inr ()"
  shows "authorization_checks (approved k sig r)"
  using assms(1-3) verified_signature_shape [OF assms(4)]
  by (simp add: authorization_checks_def ck_consumed_at_matches_status_def ck_proof_pair_complete_def
      ck_signature_shape_def ck_scheme_proof_state_def approved_def)

text \<open>When the approval of a pending row goes through.\<close>

definition approvable :: "approver \<Rightarrow> uuid \<Rightarrow> string \<Rightarrow> string \<Rightarrow> instant \<Rightarrow> authorization_row \<Rightarrow> world \<Rightarrow> bool" where
  "approvable cfg m k sig now r w \<longleftrightarrow> az_mission_id r = m \<and> az_status r = A_PENDING \<and> now < az_expires_at r
     \<and> az_approval_scheme r = S_USER_ED25519 \<and> az_binding_version r = BINDING_VERSION
     \<and> latest_decision r w = Some D_REQUIRE_APPROVAL
     \<and> verify_user_ed25519_signature cfg (az_authorization_id r) m BINDING_VERSION (az_transaction_digest r) k sig
         = Inr ()"

lemma approve_success:
  assumes ok: "authorizations_ok cfg w" and found: "find_authorization i w = Some r"
    and ready: "audit_ready (az_mission_id r) w" and "rebuild_bound_transaction r = Inr txn"
    and app: "approvable cfg m k sig now r w"
  shows "fst (approve_authorization_with_signature cfg m i k sig (Some now) w) = Inr (approved k sig r)
    \<and> find_authorization i (snd (approve_authorization_with_signature cfg m i k sig (Some now) w))
      = Some (approved k sig r)"
proof -
  define p where "p = (\<lambda>x :: authorization_row. az_authorization_id x = i \<and> az_mission_id x = m \<and> az_approval_scheme x = S_USER_ED25519
      \<and> az_status x = A_PENDING \<and> now < az_expires_at x \<and> az_binding_version x = BINDING_VERSION
      \<and> az_transaction_digest x = az_transaction_digest r \<and> az_signing_key_id x = None
      \<and> az_approval_signature x = None)"
  have fields: "az_mission_id r = m" "az_status r = A_PENDING" "\<not> az_expires_at r \<le> now"
    "az_approval_scheme r = S_USER_ED25519" "az_binding_version r = BINDING_VERSION"
    "az_authorization_id r = i" "latest_decision r w = Some D_REQUIRE_APPROVAL"
    and v: "verify_supplied_user_proof cfg r k sig = Inr ()"
    and v': "verify_user_ed25519_signature cfg (az_authorization_id r) m BINDING_VERSION (az_transaction_digest r) k sig = Inr ()"
    using app find_authorization_id [OF found] by (simp_all add: approvable_def verify_supplied_user_proof_def)
  have unsigned: "az_signing_key_id r = None" "az_approval_signature r = None"
    using ok_find [OF ok found] fields(2,4)
    by (auto simp: authorization_checks_def ck_proof_pair_complete_def ck_scheme_proof_state_def)
  have pr: "p r" using fields unsigned by (simp add: p_def)
  have k: "keyed az_authorization_id (w_authorizations w)" using ok by (simp add: authorizations_ok_def)
  have "update_authorizations p (approved k sig) w = (Inr (if p r then 1 else 0),
      if p r then w\<lparr>w_authorizations := update_where p (approved k sig) (w_authorizations w)\<rparr> else w)"
    using ok_find [OF ok found] checks_approved [OF _ fields(2,4) v']
    by (intro update_one [OF k found]) (auto simp: p_def)
  then have u: "update_authorizations p (approved k sig) w
      = (Inr 1, w\<lparr>w_authorizations := update_where p (approved k sig) (w_authorizations w)\<rparr>)"
    using pr by simp
  have upd: "find_authorization i (w\<lparr>w_authorizations := update_where p (approved k sig) (w_authorizations w)\<rparr>)
      = Some (approved k sig r)"
    using found pr by (subst find_authorization_update) (simp_all add: approved_def)
  have pol: "require_policy_scheme r w = (Inr (), w)"
    using fields by (simp add: require_policy_scheme_def session_defs schemes_by_decision_def)
  have mid: "az_mission_id (approved k sig r) = az_mission_id r" by (simp add: approved_def)
  show ?thesis
    using fields v u [unfolded p_def] upd [unfolded p_def] ready found assms(4)
    by (simp add: approve_authorization_with_signature_def moment_of_def reload_def bind_def gets_def ret_def
        guardE_def whenS_def andthen_def lift_def catch_def pol mid kernel_audit_ready flip: approved_def)
qed

subsection \<open>Issuing and rebuilding\<close>

lemma issue_success:
  assumes "issue_authorization caps m txn scheme at' w = (Inr row, w')"
  shows "enforce_registered caps C_AUTHORIZATION_ISSUE = Inr () \<and> scheme \<noteq> S_LEGACY_SERVER
    \<and> (\<exists>i d now. txn_digest txn = Inr d \<and> now < instant_of (bt_expires_at txn)
        \<and> row = issued_row i m d txn scheme now)
    \<and> w_authorizations w' = w_authorizations w @ [row]"
proof -
  from assms obtain now w1 d i w2 w3 b where e: "enforce_registered caps C_AUTHORIZATION_ISSUE = Inr ()"
    and s: "scheme \<noteq> S_LEGACY_SERVER" and mom: "moment_of at' w = (Inr now, w1)"
    and t: "now < instant_of (bt_expires_at txn)" and d: "txn_digest txn = Inr d"
    and i: "uuid4 w1 = (Inr i, w2)" and row: "row = issued_row i m d txn scheme now"
    and ins: "insert_authorization row w2 = (Inr (), w3)"
    and aud: "kernel_audit m E_AUTHORIZATION_CREATED b w3 = (Inr (), w')"
    unfolding issue_authorization_def Let_def
    by (auto simp: session_Inr_iffs require_def split: if_splits)
  have "w_authorizations w2 = w_authorizations w"
    using i moment_of_frame [OF mom] by (auto simp: uuid4_def)
  moreover have "w_authorizations w3 = w_authorizations w2 @ [row]"
    using ins by (auto simp: insert_authorization_eq split: if_splits)
  ultimately show ?thesis using e s t d row kernel_audit_frame [OF aud] by auto
qed

text \<open>The rebuilt transaction depends on the issued fields only.\<close>

lemma rebuild_issued_for: "rebuild_bound_transaction (issued_for r) = rebuild_bound_transaction r"
  by (simp add: rebuild_bound_transaction_def issued_for_def)

lemma rebuild_evolves: "(auth_step cfg)\<^sup>*\<^sup>* r r' \<Longrightarrow> rebuild_bound_transaction r' = rebuild_bound_transaction r"
  by (metis evolves_facts(2) rebuild_issued_for)

lemma txn_digest_utc:
  "bt_expires_at t = Aware i off \<Longrightarrow> txn_digest (t\<lparr>bt_expires_at := Aware i 0\<rparr>) = txn_digest t"
  by (simp add: txn_digest_def canonical_digest_def canonical_message_def canonical_bytes_def
      canonical_fields_def BOUND_FIELDS_def encode_field_def encode_value_def encode_timestamp_def)

lemma upper_char_ascii:
  assumes "of_char c < (128::int)" shows "\<exists>d. upper_char c = [d] \<and> upper_char d = [d]"
proof (cases "97 \<le> (of_char c :: int) \<and> of_char c \<le> (122 :: int)")
  case True
  then have "(of_char (char_of (of_char c - 32 :: int) :: char) :: int) = of_char c - 32" by simp
  with True show ?thesis by (simp add: upper_char_def Let_def)
next
  case False
  with assms show ?thesis by (auto simp: upper_char_def Let_def)
qed

lemma py_upper_ascii:
  assumes "is_ascii s" shows "py_upper (py_upper s) = py_upper s \<and> length (py_upper s) = length s"
  using assms
proof (induction s)
  case (Cons c s)
  from Cons.prems have c: "of_char c < (128::int)" "is_ascii s" by (simp_all add: is_ascii_def)
  with upper_char_ascii obtain d where "upper_char c = [d]" "upper_char d = [d]" by blast
  with Cons.IH [OF c(2)] show ?case by (simp add: py_upper_def)
qed (simp add: py_upper_def)

lemma rebuild_issued:
  assumes "BoundTransaction t = Inr txn" and "is_ascii (bt_currency t)" and "txn_digest txn = Inr d"
  shows "rebuild_bound_transaction (issued_row i m d txn scheme now)
    = Inr (txn\<lparr>bt_expires_at := Aware (instant_of (bt_expires_at txn)) 0\<rparr>)"
proof -
  from assms(1) obtain j off where e: "bt_expires_at t = Aware j off"
    and txn: "txn = t\<lparr>bt_currency := py_upper (bt_currency t)\<rparr>"
    by (auto simp: BoundTransaction_def split: if_splits datetime.splits)
  define u where "u = txn\<lparr>bt_expires_at := Aware j 0\<rparr>"
  have u1: "BoundTransaction u = Inr u"
    using assms(1) py_upper_ascii [OF assms(2)]
    by (auto simp: u_def txn BoundTransaction_def sized_def split: if_splits)
  have u2: "txn_digest u = Inr d" using txn_digest_utc [of txn j off] assms(3) e by (simp add: u_def txn)
  have eu: "bt_expires_at u = Aware j 0" by (simp add: u_def)
  have "\<lparr>bt_merchant_id = bt_merchant_id u, bt_product_id = bt_product_id u, bt_quantity = bt_quantity u,
      bt_amount_inr = bt_amount_inr u, bt_currency = bt_currency u, bt_policy_version = bt_policy_version u,
      bt_offer_version = bt_offer_version u, bt_expires_at = bt_expires_at u, bt_nonce = bt_nonce u\<rparr> = u" by simp
  note rec = this [unfolded eu]
  from u1 u2 have "rebuild_bound_transaction (issued_row i m d u scheme now) = Inr u"
    using eu by (simp add: rebuild_bound_transaction_def issued_row_def digests_match_def require_def instant_of_def
        rec del: bindE_eq_Inr_iff)
  with e show ?thesis
    by (simp add: rebuild_bound_transaction_def issued_row_def instant_of_def u_def txn del: bindE_eq_Inr_iff)
qed

subsection \<open>More properties\<close>

text \<open>
  Issuance. Without the registered capability nothing happens at all: the call raises the
  denial and the state is what it was. A call that returns was made with the security kernel's
  own registered set, before the expiry and under a current scheme; it adds exactly one row at
  the end of the table, PENDING and without a proof, bound to the digest of the transaction.
\<close>

theorem issuance_is_gated_and_exact:
  shows "(enforce_registered caps C_AUTHORIZATION_ISSUE = Inl e \<longrightarrow>
      issue_authorization caps m txn scheme issued_at w = (Inl e, w))
    \<and> (issue_authorization caps m txn scheme issued_at w = (Inr row, w') \<longrightarrow>
      cs_principal caps = ''security-kernel'' \<and> capset_eq caps (capabilities_for ''security-kernel'')
      \<and> scheme \<noteq> S_LEGACY_SERVER \<and> w_authorizations w' = w_authorizations w @ [row]
      \<and> az_status row = A_PENDING \<and> az_issued_at row < az_expires_at row
      \<and> az_signing_key_id row = None \<and> az_approval_signature row = None
      \<and> txn_digest txn = Inr (az_transaction_digest row) \<and> az_nonce row = bt_nonce txn
      \<and> az_bound_amount_inr row = bt_amount_inr txn \<and> az_bound_merchant_id row = bt_merchant_id txn)"
proof (intro conjI impI)
  assume "enforce_registered caps C_AUTHORIZATION_ISSUE = Inl e"
  then show "issue_authorization caps m txn scheme issued_at w = (Inl e, w)"
    by (simp add: issue_authorization_def session_defs)
next
  assume "issue_authorization caps m txn scheme issued_at w = (Inr row, w')"
  note s = issue_success [OF this]
  from s have "capset_eq caps (capabilities_for (cs_principal caps)) \<and> permits (capabilities_for (cs_principal caps)) C_AUTHORIZATION_ISSUE"
    by (auto simp: enforce_registered_def enforce_def split: if_splits)
  then have "cs_principal caps = ''security-kernel''" "capset_eq caps (capabilities_for ''security-kernel'')"
    by (auto simp: permits_registered)
  with s show "cs_principal caps = ''security-kernel''" "capset_eq caps (capabilities_for ''security-kernel'')"
    "scheme \<noteq> S_LEGACY_SERVER" "w_authorizations w' = w_authorizations w @ [row]"
    "az_status row = A_PENDING" "az_issued_at row < az_expires_at row"
    "az_signing_key_id row = None" "az_approval_signature row = None"
    "txn_digest txn = Inr (az_transaction_digest row)" "az_nonce row = bt_nonce txn"
    "az_bound_amount_inr row = bt_amount_inr txn" "az_bound_merchant_id row = bt_merchant_id txn"
    by (auto simp: issued_row_def)
qed


lemma sample_transaction_valid: "BoundTransaction (sample_transaction off) = Inr (sample_transaction off)"
proof -
  have "is_hex (replicate 64 (CHR ''a''))" by (simp add: is_hex_def)
  moreover have "py_upper ''INR'' = ''INR''" by (simp add: py_upper_def upper_char_def)
  ultimately show ?thesis
    by (simp add: BoundTransaction_def sample_transaction_def sized_def NONCE_HEX_LENGTH_def)
qed


lemma is_hex_is_lower: "is_hex s \<Longrightarrow> is_lower s"
proof -
  have "list_all (\<lambda>c. \<not> (65 \<le> (of_char c :: int) \<and> of_char c \<le> (90 :: int))) ''0123456789abcdef''" by simp
  then have "\<forall>c \<in> set ''0123456789abcdef''. \<not> (65 \<le> (of_char c :: int) \<and> of_char c \<le> (90 :: int))"
    by (simp only: list_all_iff)
  then show "is_hex s \<Longrightarrow> is_lower s" unfolding is_hex_def is_lower_def by blast
qed



text \<open>A pending user approval, and its approval with the enrolled key.\<close>

definition user_world :: world where
  "user_world = (auth_world (sample_row S_USER_ED25519))\<lparr>w_policy_decisions :=
     [\<lparr>pdr_id = 9, pdr_mission_id = 1, pdr_decision = D_REQUIRE_APPROVAL, pdr_policy_version = ''policy-v1'',
       pdr_reason_codes = [], pdr_requested_amount = Some 7598, pdr_soft_budget = 5000, pdr_hard_limit = 9000,
       pdr_selected_offer_id = None, pdr_created_at = 61000000000000000\<rparr>]\<rparr>"

definition sample_signature :: string where
  "sample_signature = replicate 128 (CHR ''a'')"

lemma decode_sample: "decode_lowercase_hex sample_signature SIGNATURE_HEX_LENGTH = Inr (replicate 64 (CHR 0xAA))"
  by code_simp

lemma trusted_sample: "trusted_demo_public_key sample_approver ''demo'' = Inr (replicate 32 (CHR 0x00))"
  by code_simp

lemma sample_digest_shape: "length sample_digest = 64 \<and> is_hex sample_digest"
proof -
  have "bt_expires_at (sample_transaction 0) = Aware 63000000000000000 0" by (simp add: sample_transaction_def)
  from txn_digest_total [OF this] obtain msg where "txn_digest (sample_transaction 0) = Inr (sha256_hex msg)"
    by (auto simp: max_instant_def)
  with sample_digest have eq: "sample_digest = sha256_hex msg" by simp
  have "sha256_hex msg \<noteq> []" using length_sha256_hex [of msg] by (metis length_0_conv zero_neq_numeral)
  then show ?thesis
    using set_sha256_hex [of msg] length_sha256_hex [of msg] unfolding eq is_hex_def hex_digits_def by blast
qed

lemma approval_message_total:
  assumes "length d = 64" "is_hex d" "b \<noteq> []" "k \<noteq> []"
  shows "\<exists>msg. approval_message a m b d k = Inr msg"
  using assms
  by (simp add: approval_message_def Let_def require_def APPROVAL_MESSAGE_FIELDS_def canonical_message_def
      APPROVAL_DOMAIN_def is_ascii_def canonical_bytes_def encode_field_def encode_value_def)

lemma verify_sample:
  "verify_user_ed25519_signature sample_approver 5 1 BINDING_VERSION sample_digest ''demo'' sample_signature = Inr ()"
proof -
  obtain msg where "approval_message 5 1 BINDING_VERSION sample_digest ''demo'' = Inr msg"
    using approval_message_total [of sample_digest BINDING_VERSION "''demo''"] sample_digest_shape
    by (auto simp: BINDING_VERSION_def)
  then show ?thesis
    by (simp add: verify_user_ed25519_signature_def decode_sample trusted_sample) (simp add: sample_approver_def)
qed

lemma user_world_simps [simp]:
  "w_authorizations user_world = [sample_row S_USER_ED25519]"
  "find_authorization 5 user_world = Some (sample_row S_USER_ED25519)"
  "audit_ready 1 user_world"
  by (simp_all add: user_world_def find_authorization_def find_row_def sample_row_def issued_row_def)
    (simp add: audit_ready_def find_mission_def auth_world_def find_row_def sample_world_def sample_mission_def
      empty_world_def keyed_def)

lemma user_world_ok: "authorizations_ok cfg user_world"
  by (simp add: authorizations_ok_def keyed_def sample_row_def issued_row_def authorization_checks_def
      ck_consumed_at_matches_status_def ck_proof_pair_complete_def ck_signature_shape_def
      ck_scheme_proof_state_def proof_ok_def)

lemma user_world_approvable:
  "approvable sample_approver 1 ''demo'' sample_signature 62500000000000000 (sample_row S_USER_ED25519) user_world"
proof -
  have "latest_decision (sample_row S_USER_ED25519) user_world = Some D_REQUIRE_APPROVAL"
    by (simp add: latest_decision_def latest_by_def user_world_def sample_row_def issued_row_def sample_transaction_def)
  then show ?thesis
    using verify_sample
    by (simp add: approvable_def sample_row_def issued_row_def sample_transaction_def instant_of_def)
qed

theorem user_approval_needs_a_verified_signature_witness:
  "\<exists>w'. auth_history sample_approver user_world [Approve 1 5 ''demo'' sample_signature (Some 62500000000000000)] w'
     \<and> find_authorization 5 w' = Some (approved ''demo'' sample_signature (sample_row S_USER_ED25519))
     \<and> (\<exists>key bytes message. decode_lowercase_hex sample_signature SIGNATURE_HEX_LENGTH = Inr bytes
         \<and> approval_message 5 1 BINDING_VERSION sample_digest ''demo'' = Inr message
         \<and> ap_verify sample_approver key bytes message)"
proof -
  have key_id: "ap_signing_key_id sample_approver = ''demo''" by (simp add: sample_approver_def)
  let ?r = "sample_row S_USER_ED25519"
  let ?op = "Approve 1 5 ''demo'' sample_signature (Some 62500000000000000)"
  have reb: "rebuild_bound_transaction ?r = Inr ((sample_transaction 0)\<lparr>bt_expires_at :=
      Aware (instant_of (bt_expires_at (sample_transaction 0))) 0\<rparr>)"
    unfolding sample_row_def
    by (rule rebuild_issued [OF sample_transaction_valid _ sample_digest]) (simp add: is_ascii_def sample_transaction_def)
  have m: "az_mission_id ?r = 1" by (simp add: sample_row_def issued_row_def)
  obtain w' where run: "run_auth_op sample_approver ?op user_world = (Inr (), w')"
    and f: "find_authorization 5 w' = Some (approved ''demo'' sample_signature ?r)"
    using approve_success [OF user_world_ok _ _ reb user_world_approvable, of 5] m
    by (cases "approve_authorization_with_signature sample_approver 1 5 ''demo'' sample_signature
          (Some 62500000000000000) user_world")
      (simp add: run_auth_op_def session_defs)
  from auth_history.committed [OF auth_history.start run]
  have h: "auth_history sample_approver user_world [?op] w'" by simp
  from f have "approved ''demo'' sample_signature ?r \<in> set (w_authorizations w')"
    by (auto simp: find_authorization_def dest: find_row_SomeD)
  from user_approval_needs_a_verified_signature [OF h user_world_ok this]
  have "\<exists>key bytes message. decode_lowercase_hex sample_signature SIGNATURE_HEX_LENGTH = Inr bytes
      \<and> approval_message 5 1 BINDING_VERSION sample_digest ''demo'' = Inr message
      \<and> ap_verify sample_approver key bytes message"
    by (simp add: approved_def sample_row_def issued_row_def key_id) blast
  with h f show ?thesis by blast
qed

lemma binding_success:
  assumes "build_bound_transaction_from_selected_offer m o' v decision q nonce expires w = (Inr t, w')"
  shows "w' = w \<and> (\<exists>row \<in> set (w_offers w). of_id row = o' \<and> of_mission_id row = m \<and> of_valid row
    \<and> of_offer_version row = v
    \<and> compute_offer_version (of_merchant_id row) (of_product_id row) (of_amount_inr row) (of_currency row)
        (of_rating row) (of_in_stock row) (Aware (of_offered_at row) 0) = Inr v
    \<and> pd_decision decision \<in> AUTHORIZABLE_OUTCOMES \<and> pd_selected_offer_id decision = Some o'
    \<and> pd_requested_amount decision = Some (bt_amount_inr t)
    \<and> bt_amount_inr t = of_amount_inr row * q \<and> 1 \<le> bt_amount_inr t \<and> bt_quantity t = q \<and> 1 \<le> q \<and> q \<le> 100
    \<and> bt_merchant_id t = of_merchant_id row \<and> bt_product_id t = of_product_id row
    \<and> bt_currency t = py_upper (of_currency row) \<and> bt_offer_version t = v \<and> bt_nonce t = nonce
    \<and> bt_expires_at t = expires \<and> bt_policy_version t = pd_policy_version decision)"
proof -
  let ?p = "\<lambda>r. of_id r = o' \<and> of_mission_id r = m"
  from assms obtain row where row: "find_row ?p (w_offers w) = Some row"
    by (auto simp: build_bound_transaction_from_selected_offer_def bind_def gets_def raise_def split: option.splits)
  with assms obtain cur where cur: "compute_offer_version (of_merchant_id row) (of_product_id row) (of_amount_inr row)
      (of_currency row) (of_rating row) (of_in_stock row) (Aware (of_offered_at row) 0) = Inr cur"
    by (auto simp: build_bound_transaction_from_selected_offer_def bind_def gets_def lift_def split: sum.splits)
  from assms row cur have facts: "of_offer_version row = cur" "cur = v" "of_valid row" "w' = w"
    and b: "build_bound_transaction_from_values (of_id row) (of_valid row) (of_merchant_id row) (of_product_id row)
        (of_amount_inr row) (of_currency row) v decision q nonce expires = Inr t"
    by (simp_all add: build_bound_transaction_from_selected_offer_def bind_def gets_def lift_def raise_def split: if_splits)
  from b facts have "pd_decision decision \<in> AUTHORIZABLE_OUTCOMES" "pd_selected_offer_id decision = Some (of_id row)"
    and bt: "pd_requested_amount decision = Some (of_amount_inr row * q)"
    "BoundTransaction \<lparr>bt_merchant_id = of_merchant_id row, bt_product_id = of_product_id row, bt_quantity = q,
       bt_amount_inr = of_amount_inr row * q, bt_currency = of_currency row,
       bt_policy_version = pd_policy_version decision, bt_offer_version = v, bt_expires_at = expires,
       bt_nonce = nonce\<rparr> = Inr t"
    by (auto simp: build_bound_transaction_from_values_def require_def split: if_splits option.splits)
  moreover from bt(2) have "t = \<lparr>bt_merchant_id = of_merchant_id row, bt_product_id = of_product_id row, bt_quantity = q,
       bt_amount_inr = of_amount_inr row * q, bt_currency = py_upper (of_currency row),
       bt_policy_version = pd_policy_version decision, bt_offer_version = v, bt_expires_at = expires,
       bt_nonce = nonce\<rparr>" "1 \<le> of_amount_inr row * q" "1 \<le> q" "q \<le> 100"
    by (auto simp: BoundTransaction_def split: if_splits datetime.splits)
  ultimately show ?thesis using facts cur find_row_SomeD [OF row] by auto
qed

text \<open>
  Binding reads the authoritative offer and nothing else. When the binding of a selected
  offer returns, the session is unchanged, and the transaction takes its merchant, product,
  amount, currency and version from a valid stored offer of this mission whose recomputed
  version is the stored one and the selected one; the policy decision allows or asks for
  approval, selected this very offer, and its amount is the unit amount times the quantity.
\<close>

theorem binding_uses_the_authoritative_offer:
  assumes "build_bound_transaction_from_selected_offer m o' v decision q nonce expires w = (Inr t, w')"
  shows "w' = w \<and> (\<exists>row \<in> set (w_offers w). of_id row = o' \<and> of_mission_id row = m \<and> of_valid row
    \<and> of_offer_version row = v
    \<and> compute_offer_version (of_merchant_id row) (of_product_id row) (of_amount_inr row) (of_currency row)
        (of_rating row) (of_in_stock row) (Aware (of_offered_at row) 0) = Inr v
    \<and> pd_decision decision \<in> AUTHORIZABLE_OUTCOMES \<and> pd_selected_offer_id decision = Some o'
    \<and> pd_requested_amount decision = Some (bt_amount_inr t)
    \<and> bt_amount_inr t = of_amount_inr row * q \<and> 1 \<le> bt_amount_inr t \<and> bt_quantity t = q \<and> 1 \<le> q \<and> q \<le> 100
    \<and> bt_merchant_id t = of_merchant_id row \<and> bt_product_id t = of_product_id row
    \<and> bt_currency t = py_upper (of_currency row) \<and> bt_offer_version t = v \<and> bt_nonce t = nonce
    \<and> bt_expires_at t = expires \<and> bt_policy_version t = pd_policy_version decision)"
  using assms by (rule binding_success)

text \<open>An offer of the sample mission, stored under its own version, and the decision on it.\<close>

definition sample_version :: string where
  "sample_version = sum.projr (compute_offer_version ''merchant_a'' ''p1'' 3799 ''INR'' 0 True (Aware 61000000000000000 0))"

definition sample_offer_row :: offer_row where
  "sample_offer_row = \<lparr>of_id = 7, of_mission_id = 1, of_offer_version = sample_version,
     of_merchant_id = ''merchant_a'', of_merchant_name = ''A'', of_merchant_trust = 0, of_product_id = ''p1'',
     of_title = ''t'', of_amount_inr = 3799, of_currency = ''INR'', of_rating = 0, of_in_stock = True,
     of_offered_at = 61000000000000000, of_valid = True, of_rejection_reasons = [], of_rank = Some 1, of_raw = []\<rparr>"

definition sample_decision :: policy_decision where
  "sample_decision = \<lparr>pd_decision = D_ALLOW, pd_policy_version = ''policy-v1'', pd_reason_codes = [],
     pd_requested_amount = Some 7598, pd_soft_budget = 9000, pd_hard_limit = 9500,
     pd_selected_offer_id = Some 7\<rparr>"

lemma sample_version: "compute_offer_version ''merchant_a'' ''p1'' 3799 ''INR'' 0 True (Aware 61000000000000000 0)
    = Inr sample_version \<and> length sample_version = 32"
proof -
  have "\<exists>h. compute_offer_version ''merchant_a'' ''p1'' 3799 ''INR'' 0 True (Aware 61000000000000000 0)
      = Inr (take 32 (sha256_hex h))"
    by (simp add: compute_offer_version_def canonical_digest_def canonical_message_def require_def
        OFFER_VERSION_DOMAIN_def canonical_bytes_def encode_field_def encode_value_def encode_timestamp_def
        max_instant_def is_ascii_def) blast
  then show ?thesis by (auto simp: sample_version_def)
qed

theorem binding_uses_the_authoritative_offer_witness:
  "\<exists>t. build_bound_transaction_from_selected_offer 1 7 sample_version sample_decision 2
      (replicate 64 (CHR ''a'')) (Aware 63000000000000000 0) (sample_world\<lparr>w_offers := [sample_offer_row]\<rparr>)
      = (Inr t, sample_world\<lparr>w_offers := [sample_offer_row]\<rparr>)
    \<and> bt_amount_inr t = 7598 \<and> bt_quantity t = 2"
proof -
  let ?w = "sample_world\<lparr>w_offers := [sample_offer_row]\<rparr>"
  have hex: "is_hex (replicate 64 (CHR ''a''))" by (simp add: is_hex_def)
  obtain t where t: "build_bound_transaction_from_selected_offer 1 7 sample_version sample_decision 2
      (replicate 64 (CHR ''a'')) (Aware 63000000000000000 0) ?w = (Inr t, ?w)"
    using sample_version hex
    by (simp add: build_bound_transaction_from_selected_offer_def bind_def gets_def lift_def find_row_def
        sample_offer_row_def build_bound_transaction_from_values_def sample_decision_def require_def
        AUTHORIZABLE_OUTCOMES_def BoundTransaction_def sized_def NONCE_HEX_LENGTH_def)
  from binding_uses_the_authoritative_offer [OF this] t show ?thesis
    by (auto simp: sample_offer_row_def)
qed

lemma issue_sample:
  "\<exists>row w'. issue_authorization (capabilities_for ''security-kernel'') 1 (sample_transaction 0) S_POLICY_AUTO
      (Some 62000000000000000) sample_world = (Inr row, w')"
proof -
  have e: "enforce_registered (capabilities_for ''security-kernel'') C_AUTHORIZATION_ISSUE = Inr ()"
    by (simp add: enforce_registered_def capset_eq_def enforce_def permits_registered)
  define i where "i = w_uuids sample_world (w_uuid_idx sample_world)"
  define v where "v = sample_world\<lparr>w_uuid_idx := Suc (w_uuid_idx sample_world),
      w_authorizations := [issued_row i 1 sample_digest (sample_transaction 0) S_POLICY_AUTO 62000000000000000]\<rparr>"
  have ready: "audit_ready 1 v"
    by (simp add: v_def audit_ready_def find_mission_def find_row_def sample_world_def sample_mission_def
        empty_world_def keyed_def)
  have ins: "insert_authorization (issued_row i 1 sample_digest (sample_transaction 0) S_POLICY_AUTO 62000000000000000)
      (sample_world\<lparr>w_uuid_idx := Suc (w_uuid_idx sample_world)\<rparr>) = (Inr (), v)"
    by (simp add: insert_authorization_eq v_def find_mission_def find_row_def sample_world_def sample_mission_def
        empty_world_def keyed_def issued_row_def authorization_checks_def ck_consumed_at_matches_status_def
        ck_proof_pair_complete_def ck_signature_shape_def ck_scheme_proof_state_def)
  have exp: "instant_of (bt_expires_at (sample_transaction 0)) = 63000000000000000"
    by (simp add: sample_transaction_def instant_of_def)
  show ?thesis
    by (simp add: issue_authorization_def e exp require_def moment_of_def uuid4_def sample_digest
        andthen_audit [OF ready] bind_def lift_def ret_def andthen_def Let_def ins flip: i_def)
      (simp add: kernel_audit_ready [OF ready])
qed

theorem issuance_is_gated_and_exact_witness:
  "issue_authorization (capabilities_for ''buyer-agent'') 1 (sample_transaction 0) S_POLICY_AUTO None sample_world
      = (Inl (CapabilityDenied ''buyer-agent'' C_AUTHORIZATION_ISSUE), sample_world)
   \<and> (\<exists>row w'. issue_authorization (capabilities_for ''security-kernel'') 1 (sample_transaction 0) S_POLICY_AUTO
        (Some 62000000000000000) sample_world = (Inr row, w') \<and> az_status row = A_PENDING
        \<and> w_authorizations w' = [row])"
proof -
  have d: "enforce_registered (capabilities_for ''buyer-agent'') C_AUTHORIZATION_ISSUE
      = Inl (CapabilityDenied ''buyer-agent'' C_AUTHORIZATION_ISSUE)"
    by (simp add: enforce_registered_def capset_eq_def enforce_def permits_registered)
  have e: "w_authorizations sample_world = []" by (simp add: sample_world_def empty_world_def)
  from issue_sample obtain row w' where run: "issue_authorization (capabilities_for ''security-kernel'') 1
      (sample_transaction 0) S_POLICY_AUTO (Some 62000000000000000) sample_world = (Inr row, w')" by blast
  from issuance_is_gated_and_exact [of "capabilities_for ''security-kernel''" _ 1 "sample_transaction 0"
      S_POLICY_AUTO "Some 62000000000000000" sample_world row w'] run e
  have "az_status row = A_PENDING" "w_authorizations w' = [row]" by simp_all
  with run issuance_is_gated_and_exact [of "capabilities_for ''buyer-agent''" "CapabilityDenied ''buyer-agent''
      C_AUTHORIZATION_ISSUE" 1 "sample_transaction 0" S_POLICY_AUTO None sample_world] d show ?thesis by blast
qed

end
