(* ===== verification/PaymentState.thy ===== *)
theory PaymentState
  imports Authorization
begin

text \<open>
  The vocabulary of the payment path: the mission and the payment state machines
  (\<^verbatim>\<open>services/agent_orchestrator/state_machine.py\<close>,
  \<^verbatim>\<open>services/payment_executor/state_machine.py\<close>), the payment types of
  \<^verbatim>\<open>packages/schemas/payment.py\<close>, the provider errors of
  \<^verbatim>\<open>services/payment_executor/providers/base.py\<close>, and how an ORM session writes a payment
  intent: attributes are assigned first, and the constraints are checked when the session
  flushes.
\<close>

section \<open>The mission state machine\<close>

definition ALLOWED_TRANSITIONS :: "mission_state \<Rightarrow> mission_state set" where
  "ALLOWED_TRANSITIONS s = (case s of
     M_CREATED \<Rightarrow> {M_INTENT_PARSED, M_CANCELLED}
   | M_INTENT_PARSED \<Rightarrow> {M_DISCOVERING, M_CANCELLED}
   | M_DISCOVERING \<Rightarrow> {M_OFFERS_RECEIVED, M_CANCELLED}
   | M_OFFERS_RECEIVED \<Rightarrow> {M_OFFERS_NORMALIZED, M_CANCELLED}
   | M_OFFERS_NORMALIZED \<Rightarrow> {M_RANKED, M_CANCELLED}
   | M_RANKED \<Rightarrow> {M_POLICY_CHECKED, M_CANCELLED}
   | M_POLICY_CHECKED \<Rightarrow> {M_AWAITING_APPROVAL, M_AUTHORIZED, M_CANCELLED}
   | M_AWAITING_APPROVAL \<Rightarrow> {M_AUTHORIZED, M_CANCELLED}
   | M_AUTHORIZED \<Rightarrow> {M_PAYMENT_PENDING, M_CANCELLED}
   | M_PAYMENT_PENDING \<Rightarrow> {M_PAYMENT_SUCCEEDED, M_PAYMENT_FAILED}
   | M_PAYMENT_SUCCEEDED \<Rightarrow> {M_COMPLETED}
   | M_PAYMENT_FAILED \<Rightarrow> {M_CANCELLED, M_PAYMENT_PENDING}
   | M_COMPLETED \<Rightarrow> {}
   | M_CANCELLED \<Rightarrow> {})"

definition mission_can_transition :: "mission_state \<Rightarrow> mission_state \<Rightarrow> bool" where
  "mission_can_transition current target \<longleftrightarrow> target \<in> ALLOWED_TRANSITIONS current"

definition assert_transition :: "mission_state \<Rightarrow> mission_state \<Rightarrow> exn + unit" where
  "assert_transition current target = (if mission_can_transition current target then Inr ()
     else Inl (IllegalTransition current target))"

section \<open>The payment state machine\<close>

definition TERMINAL_PAYMENT_STATES :: "payment_state set" where
  "TERMINAL_PAYMENT_STATES = {P_SUCCEEDED, P_FAILED_TERMINAL, P_CANCELLED}"

definition ALLOWED_PAYMENT_TRANSITIONS :: "payment_state \<Rightarrow> payment_state set" where
  "ALLOWED_PAYMENT_TRANSITIONS s = (case s of
     P_CREATED \<Rightarrow> {P_QUEUED, P_CANCELLED}
   | P_QUEUED \<Rightarrow> {P_PROCESSING, P_PROVIDER_PENDING, P_CANCELLED}
   | P_PROCESSING \<Rightarrow> {P_SUCCEEDED, P_PROVIDER_PENDING, P_FAILED_RETRYABLE, P_FAILED_TERMINAL}
   | P_PROVIDER_PENDING \<Rightarrow> {P_SUCCEEDED, P_FAILED_TERMINAL, P_FAILED_RETRYABLE}
   | P_FAILED_RETRYABLE \<Rightarrow> {P_QUEUED, P_PROVIDER_PENDING, P_FAILED_TERMINAL, P_CANCELLED}
   | P_SUCCEEDED \<Rightarrow> {} | P_FAILED_TERMINAL \<Rightarrow> {} | P_CANCELLED \<Rightarrow> {})"

definition can_transition :: "payment_state \<Rightarrow> payment_state \<Rightarrow> bool" where
  "can_transition current target \<longleftrightarrow> target \<in> ALLOWED_PAYMENT_TRANSITIONS current"

definition assert_payment_transition :: "payment_state \<Rightarrow> payment_state \<Rightarrow> exn + unit" where
  "assert_payment_transition current target = (if can_transition current target then Inr ()
     else Inl (IllegalPaymentTransition current target))"

definition is_terminal :: "payment_state \<Rightarrow> bool" where
  "is_terminal s \<longleftrightarrow> s \<in> TERMINAL_PAYMENT_STATES"

interpretation mission_table: transition_table ALLOWED_TRANSITIONS "\<lambda>s. s \<in> {M_COMPLETED, M_CANCELLED}"
  by unfold_locales (auto simp: ALLOWED_TRANSITIONS_def)

interpretation payment_table: transition_table ALLOWED_PAYMENT_TRANSITIONS is_terminal
  by unfold_locales (auto simp: is_terminal_def TERMINAL_PAYMENT_STATES_def ALLOWED_PAYMENT_TRANSITIONS_def)

section \<open>Provider vocabulary\<close>

definition provider_status_to_state :: "provider_status \<Rightarrow> payment_state" where
  "provider_status_to_state s = (case s of PP_CREATED \<Rightarrow> P_PROVIDER_PENDING
     | PP_PENDING \<Rightarrow> P_PROVIDER_PENDING | PP_SUCCEEDED \<Rightarrow> P_SUCCEEDED | PP_FAILED \<Rightarrow> P_FAILED_TERMINAL)"

definition webhook_type_to_state :: "webhook_type \<Rightarrow> payment_state" where
  "webhook_type_to_state t = (case t of W_PAYMENT_SUCCEEDED \<Rightarrow> P_SUCCEEDED
     | W_PAYMENT_FAILED \<Rightarrow> P_FAILED_TERMINAL | W_PAYMENT_PENDING \<Rightarrow> P_PROVIDER_PENDING
     | W_PAYMENT_ATTEMPT_FAILED \<Rightarrow> P_PROVIDER_PENDING)"

record payment_request =
  rq_idempotency_key :: string
  rq_amount_inr :: int
  rq_currency :: string
  rq_merchant_id :: string
  rq_transaction_digest_prefix :: string

definition PaymentRequest :: "payment_request \<Rightarrow> exn + payment_request" where
  "PaymentRequest q =
    (if sized 1 200 (rq_idempotency_key q) \<and> 1 \<le> rq_amount_inr q \<and> sized 3 3 (rq_currency q)
        \<and> sized 1 120 (rq_merchant_id q) \<and> sized 1 32 (rq_transaction_digest_prefix q)
     then Inr q else Inl (ValidationError ''PaymentRequest''))"

record provider_payment =
  pp_provider :: string
  pp_provider_payment_id :: string
  pp_status :: provider_status
  pp_amount_inr :: int
  pp_currency :: string
  pp_idempotency_key :: "string option"
  pp_provider_order_id :: "string option"
  pp_provider_transaction_id :: "string option"
  pp_provider_receipt :: "string option"
  pp_provider_status :: "string option"
  pp_provider_attempts :: "int option"
  pp_idempotent_replay :: bool

record verified_webhook_event =
  we_provider :: string
  we_provider_event_id :: string
  we_event_type :: webhook_type
  we_provider_payment_id :: string
  we_provider_order_id :: "string option"
  we_provider_transaction_id :: "string option"
  we_amount_inr :: "int option"
  we_currency :: "string option"
  we_provider_status :: "string option"
  we_provider_attempts :: "int option"
  we_sequence :: "int option"
  we_occurred_at :: "instant option"

text \<open>The subclasses of \<open>ProviderError\<close>, their reason codes and details.\<close>

definition provider_error :: "exn \<Rightarrow> (string \<times> string) option" where
  "provider_error e = (case e of
     ProviderTimeout d \<Rightarrow> Some (''PAYMENT_PROVIDER_TIMEOUT'', d)
   | ProviderTransientError d \<Rightarrow> Some (''PROVIDER_TRANSIENT_FAILURE'', d)
   | ProviderAmbiguity d \<Rightarrow> Some (''PROVIDER_AMBIGUITY'', d)
   | ProviderTerminalError d \<Rightarrow> Some (''PROVIDER_TERMINAL_FAILURE'', d)
   | ProviderPaymentMismatch d \<Rightarrow> Some (''PROVIDER_RESPONSE_MISMATCH'', d)
   | _ \<Rightarrow> None)"

section \<open>Text of diagnostics\<close>

text \<open>\<open>repr\<close> of a string.\<close>

definition repr_char :: "char \<Rightarrow> char \<Rightarrow> string" where
  "repr_char quote c = (let n = of_char c :: int in
     if c = quote \<or> c = CHR 0x5C then [CHR 0x5C, c]
     else if n = 9 then [CHR 0x5C, CHR ''t''] else if n = 10 then [CHR 0x5C, CHR ''n'']
     else if n = 13 then [CHR 0x5C, CHR ''r'']
     else if n < 32 \<or> 127 \<le> n \<and> n < 161 \<or> n = 173 then CHR 0x5C # CHR ''x'' # hex_fixed 2 n
     else [c])"

definition py_repr :: "string \<Rightarrow> string" where
  "py_repr s = (let quote = (if CHR 0x27 \<in> set s \<and> CHR 0x22 \<notin> set s then CHR 0x22 else CHR 0x27)
     in quote # concat (map (repr_char quote) s) @ [quote])"

fun str_join :: "string \<Rightarrow> string list \<Rightarrow> string" where
  "str_join sep [] = []"
| "str_join sep [s] = s"
| "str_join sep (s # t # ts) = s @ sep @ str_join sep (t # ts)"

text \<open>\<open>{**d, k: v}\<close>: a key keeps its place and takes the new value.\<close>

fun dict_put :: "payload \<Rightarrow> string \<Rightarrow> json \<Rightarrow> payload" where
  "dict_put [] k v = [(k, v)]"
| "dict_put ((k', v') # d) k v = (if k' = k then (k, v) # d else (k', v') # dict_put d k v)"

definition dict_merge :: "payload \<Rightarrow> payload \<Rightarrow> payload" where
  "dict_merge d e = fold (\<lambda>(k, v) d. dict_put d k v) e d"

definition jint :: "int option \<Rightarrow> json" where
  "jint v = (case v of None \<Rightarrow> JNull | Some i \<Rightarrow> JInt i)"

text \<open>Microseconds in a second.\<close>

definition usec :: int where
  "usec = 1000000"

text \<open>\<open>datetime + timedelta\<close> overflows past the year 9999.\<close>

definition plus_delta :: "instant \<Rightarrow> int \<Rightarrow> exn + instant" where
  "plus_delta t d = (if 0 \<le> t + d \<and> t + d \<le> max_instant then Inr (t + d) else Inl OverflowError)"

section \<open>Writing a payment intent\<close>

text \<open>Attribute assignment on the loaded row, and the flush that lets the database decide.\<close>

definition set_intent :: "uuid \<Rightarrow> (payment_intent_row \<Rightarrow> payment_intent_row) \<Rightarrow> unit db" where
  "set_intent i f = modify (\<lambda>w. w\<lparr>w_payment_intents :=
     update_where (\<lambda>r. pi_id r = i) f (w_payment_intents w)\<rparr>)"

definition flush_intents :: "unit db" where
  "flush_intents =
     bind (gets w_payment_intents) (\<lambda>rows.
     andthen (db_require (payment_intents_unique rows) ''uq_payment_intents'')
     (db_require (list_all payment_intent_checks rows) ''ck_payment_intents''))"

text \<open>\<open>lock_payment_intent\<close>: the row as the database holds it.\<close>

definition lock_payment_intent :: "uuid \<Rightarrow> payment_intent_row db" where
  "lock_payment_intent i = bind (gets (find_intent i)) (\<lambda>found. case found of
     None \<Rightarrow> raise (ValueError ''payment intent does not exist'') | Some r \<Rightarrow> ret r)"

text \<open>Attributes computed from the loaded row: what the computation raises, nothing writes.\<close>

definition modify_intent :: "uuid \<Rightarrow> (payment_intent_row \<Rightarrow> exn + payment_intent_row) \<Rightarrow> payment_intent_row db" where
  "modify_intent i f =
     bind (lock_payment_intent i) (\<lambda>r.
     bind (lift (f r)) (\<lambda>r'.
     andthen (set_intent i (\<lambda>_. r')) (ret r')))"

definition set_outbox :: "uuid \<Rightarrow> (outbox_event_row \<Rightarrow> outbox_event_row) \<Rightarrow> unit db" where
  "set_outbox i f = andthen (update_outbox (\<lambda>r. ob_id r = i) f) (ret ())"

definition delivery_key :: "webhook_event_row \<Rightarrow> string \<times> string" where
  "delivery_key r = (wh_provider r, wh_provider_event_id r)"

text \<open>The webhook table: a delivery is stored once per provider event.\<close>

definition insert_webhook_event :: "webhook_event_row \<Rightarrow> unit db" where
  "insert_webhook_event r =
     bind (gets (\<lambda>w. case wh_payment_intent_id r of None \<Rightarrow> True | Some i \<Rightarrow> find_intent i w \<noteq> None)) (\<lambda>fk.
     bind (gets (\<lambda>w. keyed wh_id (w_webhook_events w @ [r])
        \<and> keyed delivery_key (w_webhook_events w @ [r]))) (\<lambda>unique.
     andthen (db_require fk ''webhook_events.payment_intent_id'')
    (andthen (db_require unique ''uq_webhook_events_provider_event'')
    (modify (\<lambda>w. w\<lparr>w_webhook_events := w_webhook_events w @ [r]\<rparr>)))))"

definition set_webhook :: "uuid \<Rightarrow> (webhook_event_row \<Rightarrow> webhook_event_row) \<Rightarrow> unit db" where
  "set_webhook i f = modify (\<lambda>w. w\<lparr>w_webhook_events := update_where (\<lambda>r. wh_id r = i) f (w_webhook_events w)\<rparr>)"

section \<open>How an intent evolves\<close>

text \<open>A column that is written at most once.\<close>

definition once :: "'a option \<Rightarrow> 'a option \<Rightarrow> bool" where
  "once a b \<longleftrightarrow> a = None \<or> b = a"

lemma once_simps [simp]: "once a a" "once None b" "once (Some x) b \<longleftrightarrow> b = Some x"
  by (auto simp: once_def)

lemma once_trans: "once a b \<Longrightarrow> once b c \<Longrightarrow> once a c"
  by (auto simp: once_def)

text \<open>
  The specification of one payment intent: what it was created for never changes, its state
  moves along the table, the provider's references, the create fence and the observed
  ambiguity are set at most once, and the attempts never decrease.
\<close>

definition created_for :: "payment_intent_row \<Rightarrow> uuid \<times> uuid \<times> uuid \<times> string \<times> string \<times> string \<times> int \<times> string
    \<times> string \<times> string \<times> instant" where
  "created_for r = (pi_id r, pi_mission_id r, pi_authorization_id r, pi_transaction_digest r,
     pi_idempotency_key r, pi_request_fingerprint r, pi_amount_inr r, pi_currency r, pi_merchant_id r,
     pi_provider r, pi_created_at r)"

definition intent_evolves :: "payment_intent_row \<Rightarrow> payment_intent_row \<Rightarrow> bool" where
  "intent_evolves r r' \<longleftrightarrow> created_for r' = created_for r
     \<and> (pi_state r, pi_state r') \<in> moves ALLOWED_PAYMENT_TRANSITIONS
     \<and> once (pi_provider_payment_id r) (pi_provider_payment_id r')
     \<and> once (pi_provider_order_id r) (pi_provider_order_id r')
     \<and> once (pi_provider_transaction_id r) (pi_provider_transaction_id r')
     \<and> once (pi_provider_receipt r) (pi_provider_receipt r')
     \<and> once (pi_provider_create_fenced_at r) (pi_provider_create_fenced_at r')
     \<and> once (pi_provider_ambiguity_observed_at r) (pi_provider_ambiguity_observed_at r')
     \<and> pi_attempts r \<le> pi_attempts r'"

interpretation intents: row_order intent_evolves
proof unfold_locales
  show "intent_evolves r r" for r by (simp add: intent_evolves_def)
  fix r s t assume "intent_evolves r s" "intent_evolves s t"
  then show "intent_evolves r t"
    unfolding intent_evolves_def by (auto intro: payment_table.moves_trans once_trans)
qed

lemma intent_evolves_id: "intent_evolves r r' \<Longrightarrow> pi_id r' = pi_id r"
  by (simp add: intent_evolves_def created_for_def)

lemma intent_evolves_terminal: "intent_evolves r r' \<Longrightarrow> is_terminal (pi_state r) \<Longrightarrow> pi_state r' = pi_state r"
  unfolding intent_evolves_def using payment_table.terminal_absorbing by blast

section \<open>Shared steps of the payment services\<close>

definition EXECUTOR_ACTOR :: string where
  "EXECUTOR_ACTOR = ''payment-executor''"

definition payment_audit :: "uuid \<Rightarrow> event_type \<Rightarrow> payload \<Rightarrow> unit db" where
  "payment_audit mission_id event_type payload =
     andthen (append_event mission_id event_type EXECUTOR_ACTOR payload) (ret ())"

text \<open>Move the mission alongside the payment when the move is legal; otherwise skip it.\<close>

definition apply_mission_state :: "uuid \<Rightarrow> mission_state \<Rightarrow> unit db" where
  "apply_mission_state mission_id target =
     bind (gets (find_mission mission_id)) (\<lambda>found. case found of
       None \<Rightarrow> ret ()
     | Some mission \<Rightarrow> whenS (mission_can_transition (ms_state mission) target) (set_mission_state mission_id target))"

definition apply_payment_transition ::
  "uuid \<Rightarrow> payment_state \<Rightarrow> event_type \<Rightarrow> payload \<Rightarrow> string option \<Rightarrow> unit db" where
  "apply_payment_transition intent target event_type payload reason_code =
     bind (modify_intent intent (\<lambda>r. bindE (assert_payment_transition (pi_state r) target) (\<lambda>_.
       Inr (r\<lparr>pi_state := target, pi_last_reason_code := reason_code\<rparr>)))) (\<lambda>r.
     andthen flush_intents
     (payment_audit (pi_mission_id r) event_type
       (dict_put (dict_merge [(''payment_intent_id'', JStr (uuid_str (pi_id r))),
            (''state'', JStr (payment_text target))] payload)
          ''reason_code'' (jopt reason_code))))"

section \<open>What every payment step keeps\<close>

lemma transition_step:
  assumes "bindE (assert_payment_transition (pi_state r) st) (\<lambda>_. Inr (r\<lparr>pi_state := st\<rparr>)) = Inr r'"
  shows "intent_evolves r r'"
  using assms
  by (auto simp: intent_evolves_def created_for_def assert_payment_transition_def can_transition_def
      split: if_splits intro: payment_table.moves_step)

definition mission_evolves :: "mission_row \<Rightarrow> mission_row \<Rightarrow> bool" where
  "mission_evolves r r' \<longleftrightarrow> (ms_state r, ms_state r') \<in> moves ALLOWED_TRANSITIONS \<and> r' = r\<lparr>ms_state := ms_state r'\<rparr>"

definition outbox_evolves :: "outbox_event_row \<Rightarrow> outbox_event_row \<Rightarrow> bool" where
  "outbox_evolves r r' \<longleftrightarrow> ob_id r' = ob_id r \<and> ob_payment_intent_id r' = ob_payment_intent_id r
     \<and> ob_event_type r' = ob_event_type r \<and> ob_payload r' = ob_payload r
     \<and> ob_max_attempts r' = ob_max_attempts r \<and> ob_created_at r' = ob_created_at r
     \<and> ob_attempts r \<le> ob_attempts r'"

interpretation missions: row_order mission_evolves
proof unfold_locales
  show "mission_evolves r r" for r by (simp add: mission_evolves_def)
  fix r s t assume *: "mission_evolves r s" "mission_evolves s t"
  then have "t = (r\<lparr>ms_state := ms_state s\<rparr>)\<lparr>ms_state := ms_state t\<rparr>" by (metis mission_evolves_def)
  then have "t = r\<lparr>ms_state := ms_state t\<rparr>" by simp
  moreover have "(ms_state r, ms_state t) \<in> moves ALLOWED_TRANSITIONS"
    using * by (meson mission_evolves_def mission_table.moves_trans)
  ultimately show "mission_evolves r t" by (simp add: mission_evolves_def)
qed

interpretation outbox_rows: row_order outbox_evolves
  by unfold_locales (auto simp: outbox_evolves_def)

text \<open>
  The interface between the payment services and the statements they execute, on top of the
  one of the kernel: the executor's audit events, attribute writes that let the
  intent evolve, outbox rows, legal mission moves and savepoints.
\<close>

locale settlement_order = kernel_order P cfg for P :: "world \<Rightarrow> world \<Rightarrow> bool" and cfg :: approver +
  assumes executor_append: "keeps P (append_event m t EXECUTOR_ACTOR body)"
    and write_intent_at: "(\<And>r r'. find_intent i s = Some r \<Longrightarrow> g r = Inr r' \<Longrightarrow> intent_evolves r r')
      \<Longrightarrow> P s (snd (modify_intent i g s))"
    and write_intents: "(\<And>r. wh r \<Longrightarrow> intent_evolves r (st' r)) \<Longrightarrow> keeps P (update_payment_intents wh st')"
    and new_outbox: "keeps P (insert_outbox_event event)"
    and write_outbox: "(\<And>r. q r \<Longrightarrow> outbox_evolves r (h r)) \<Longrightarrow> keeps P (update_outbox q h)"
    and mission_move: "keeps P (apply_mission_state m st)"
    and new_webhook: "keeps P (insert_webhook_event wh_row)"
    and write_webhook: "(\<And>r. delivery_key (whf r) = delivery_key r) \<Longrightarrow> keeps P (set_webhook wi whf)"
    and savepoint: "P s s' \<Longrightarrow> P s (restore_tables s s')"
begin

lemma write_intent: "(\<And>r r'. pi_id r = i \<Longrightarrow> g r = Inr r' \<Longrightarrow> intent_evolves r r') \<Longrightarrow> keeps P (modify_intent i g)"
  unfolding keeps_def by (intro allI write_intent_at) (auto simp: find_intent_def dest: find_row_SomeD)

lemma keeps_payment_audit: "keeps P (payment_audit m t body)"
  by (simp add: payment_audit_def executor_append keeps_andthen keeps_ret)

lemma keeps_db_require: "keeps P (db_require b c)"
  by (simp add: db_require_def keeps_guardE)

lemma keeps_flush_intents: "keeps P flush_intents"
  unfolding flush_intents_def by (intro keeps_intros keeps_db_require)

lemma keeps_lock_payment_intent: "keeps P (lock_payment_intent i)"
  unfolding lock_payment_intent_def by (intro keeps_intros)

lemmas payment_intros = kernel_intros keeps_payment_audit keeps_flush_intents keeps_lock_payment_intent
  mission_move new_outbox new_webhook

lemma keeps_set_outbox: "(\<And>r. ob_id r = i \<Longrightarrow> outbox_evolves r (h r)) \<Longrightarrow> keeps P (set_outbox i h)"
  unfolding set_outbox_def by (intro keeps_andthen keeps_ret write_outbox)

lemma keeps_apply_payment_transition: "keeps P (apply_payment_transition i target t body reason)"
  unfolding apply_payment_transition_def
proof (intro keeps_bind keeps_andthen keeps_flush_intents keeps_payment_audit write_intent)
  fix r r' :: payment_intent_row assume "bindE (assert_payment_transition (pi_state r) target) (\<lambda>_.
      Inr (r\<lparr>pi_state := target, pi_last_reason_code := reason\<rparr>)) = Inr r'"
  then have "target \<in> ALLOWED_PAYMENT_TRANSITIONS (pi_state r)"
    and "r' = r\<lparr>pi_state := target, pi_last_reason_code := reason\<rparr>"
    by (auto simp: assert_payment_transition_def can_transition_def split: if_splits)
  then show "intent_evolves r r'"
    by (auto simp: intent_evolves_def created_for_def intro: payment_table.moves_step)
qed

lemma keeps_begin_nested: "keeps P m \<Longrightarrow> keeps P (begin_nested m)"
  unfolding keeps_def begin_nested_def by (auto split: prod.splits sum.splits) (metis savepoint snd_conv)+

end

text \<open>With the creation of intents.\<close>

locale payment_order = settlement_order P cfg for P :: "world \<Rightarrow> world \<Rightarrow> bool" and cfg :: approver +
  assumes new_intent: "pi_state row = P_CREATED \<Longrightarrow> keeps P (insert_payment_intent row)"

subsection \<open>The interface holds of the session\<close>

lemma update_outbox_eq:
  "update_outbox p f w =
    (if list_all outbox_checks (map f (filter p (w_outbox_events w)))
     then (Inr (rows_matching p (w_outbox_events w)), w\<lparr>w_outbox_events := update_where p f (w_outbox_events w)\<rparr>)
     else (Inl (IntegrityError ''ck_outbox''), w))"
  by (simp add: update_outbox_def db_require_def session_defs)

lemma insert_outbox_event_eq:
  "insert_outbox_event r w =
    (if find_intent (ob_payment_intent_id r) w = None then (Inl (IntegrityError ''outbox_events.payment_intent_id''), w)
     else if \<not> keyed ob_id (w_outbox_events w @ [r]) then (Inl (IntegrityError ''outbox_events.id''), w)
     else if \<not> outbox_checks r then (Inl (IntegrityError ''ck_outbox''), w)
     else (Inr (), w\<lparr>w_outbox_events := w_outbox_events w @ [r]\<rparr>))"
  by (simp add: insert_outbox_event_def db_require_def session_defs)

lemma insert_payment_intent_eq:
  "insert_payment_intent r w =
    (if find_mission (pi_mission_id r) w = None \<or> find_authorization (pi_authorization_id r) w = None
     then (Inl (IntegrityError ''payment_intents.fk''), w)
     else if \<not> payment_intents_unique (w_payment_intents w @ [r]) then (Inl (IntegrityError ''uq_payment_intents''), w)
     else if \<not> payment_intent_checks r then (Inl (IntegrityError ''ck_payment_intents''), w)
     else (Inr (), w\<lparr>w_payment_intents := w_payment_intents w @ [r]\<rparr>))"
  by (simp add: insert_payment_intent_def db_require_def session_defs)

lemma update_payment_intents_eq:
  "update_payment_intents p f w = (let rows = update_where p f (w_payment_intents w) in
     if \<not> payment_intents_unique rows then (Inl (IntegrityError ''uq_payment_intents''), w)
     else if \<not> list_all payment_intent_checks rows then (Inl (IntegrityError ''ck_payment_intents''), w)
     else (Inr (rows_matching p (w_payment_intents w)), w\<lparr>w_payment_intents := rows\<rparr>))"
  by (simp add: update_payment_intents_def db_require_def session_defs Let_def)

lemma modify_intent_eq:
  "modify_intent i f w = (case find_intent i w of
     None \<Rightarrow> (Inl (ValueError ''payment intent does not exist''), w)
   | Some r \<Rightarrow> (case f r of Inl e \<Rightarrow> (Inl e, w)
     | Inr r' \<Rightarrow> (Inr r', w\<lparr>w_payment_intents := update_where (\<lambda>r. pi_id r = i) (\<lambda>_. r') (w_payment_intents w)\<rparr>)))"
  by (simp add: modify_intent_def lock_payment_intent_def set_intent_def session_defs split: option.split sum.split)

lemma apply_mission_state_eq:
  "apply_mission_state i st w = (Inr (), case find_mission i w of
     None \<Rightarrow> w
   | Some r \<Rightarrow> if mission_can_transition (ms_state r) st
       then w\<lparr>w_missions := update_where (\<lambda>r. ms_id r = i) (\<lambda>r. r\<lparr>ms_state := st\<rparr>) (w_missions w)\<rparr> else w)"
  by (simp add: apply_mission_state_def set_mission_state_def session_defs split: option.split)

lemma insert_webhook_event_eq:
  "insert_webhook_event r w =
    (if (case wh_payment_intent_id r of None \<Rightarrow> False | Some i \<Rightarrow> find_intent i w = None)
     then (Inl (IntegrityError ''webhook_events.payment_intent_id''), w)
     else if \<not> (keyed wh_id (w_webhook_events w @ [r])
        \<and> keyed delivery_key (w_webhook_events w @ [r]))
     then (Inl (IntegrityError ''uq_webhook_events_provider_event''), w)
     else (Inr (), w\<lparr>w_webhook_events := w_webhook_events w @ [r]\<rparr>))"
  by (auto simp: insert_webhook_event_def db_require_def session_defs split: option.split)

lemma set_webhook_eq:
  "set_webhook i f w = (Inr (), w\<lparr>w_webhook_events := update_where (\<lambda>r. wh_id r = i) f (w_webhook_events w)\<rparr>)"
  by (simp add: set_webhook_def modify_def)

lemmas payment_eqs = insert_webhook_event_eq set_webhook_eq insert_payment_intent_eq update_payment_intents_eq modify_intent_eq insert_outbox_event_eq update_outbox_eq
  apply_mission_state_eq statement_eqs append_event_eq Let_def draw_def

lemma find_intent_SomeD: "find_intent i w = Some r \<Longrightarrow> r \<in> set (w_payment_intents w) \<and> pi_id r = i"
  by (auto simp: find_intent_def dest: find_row_SomeD)

lemma find_mission_SomeD: "find_mission i w = Some r \<Longrightarrow> r \<in> set (w_missions w) \<and> ms_id r = i"
  by (auto simp: find_mission_def dest: find_row_SomeD)

lemma EXECUTOR_ACTOR_nonempty [simp]: "EXECUTOR_ACTOR \<noteq> []"
  by (simp add: EXECUTOR_ACTOR_def)

interpretation payment_ledger: payment_order "\<lambda>w w'. ledger_ok w \<longrightarrow> ledger_ok w'" cfg for cfg
proof unfold_locales
  show "keeps (\<lambda>w w'. ledger_ok w \<longrightarrow> ledger_ok w') (append_event m t EXECUTOR_ACTOR body)" for m t body
    by (rule append_event_ledger) simp
qed (auto simp: keeps_def payment_eqs intro: ledger_ok_cong [THEN iffD1, rotated] split: option.split sum.split)

interpretation payment_auths: payment_order
  "\<lambda>w w'. grows (auth_step cfg)\<^sup>*\<^sup>* (w_authorizations w) (w_authorizations w')" cfg for cfg
  by unfold_locales
    (auto simp: keeps_def payment_eqs evolution.grows_refl split: option.split sum.split)

lemma authorizations_ok_cong:
  "w_authorizations w' = w_authorizations w \<Longrightarrow> authorizations_ok cfg w' = authorizations_ok cfg w"
  by (simp add: authorizations_ok_def)

interpretation payment_auth_rows: payment_order
  "\<lambda>w w'. authorizations_ok cfg w \<longrightarrow> authorizations_ok cfg w'" cfg for cfg
  by unfold_locales
    (auto simp: keeps_def payment_eqs intro: authorizations_ok_cong [THEN iffD1, rotated]
      split: option.split sum.split)

text \<open>The rows of the payment tables, the missions and the outbox.\<close>

lemma modify_intent_update:
  assumes "keyed pi_id rows" "find_row (\<lambda>r. pi_id r = i) rows = Some r"
  shows "update_where (\<lambda>r. pi_id r = i) (\<lambda>_. r') rows
    = update_where (\<lambda>x. x = r) (\<lambda>_. r') rows"
proof -
  have "(pi_id x = i) = (x = r)" if "x \<in> set rows" for x
    using find_row_SomeD [OF assms(2)] keyed_unique [OF assms(1) that] by auto
  then show ?thesis by (simp add: update_where_def cong: map_cong)
qed

definition intents_keyed :: "world \<Rightarrow> bool" where
  "intents_keyed w \<longleftrightarrow> keyed pi_id (w_payment_intents w) \<and> keyed pi_idempotency_key (w_payment_intents w)
     \<and> keyed pi_authorization_id (w_payment_intents w)"

lemma modify_intent_keyed:
  assumes ev: "\<And>r r'. find_intent i w = Some r \<Longrightarrow> g r = Inr r' \<Longrightarrow> intent_evolves r r'" and k: "intents_keyed w"
  shows "intents_keyed (snd (modify_intent i g w))"
    and "grows intent_evolves (w_payment_intents w) (w_payment_intents (snd (modify_intent i g w)))"
proof -
  have "intents_keyed (snd (modify_intent i g w))
    \<and> grows intent_evolves (w_payment_intents w) (w_payment_intents (snd (modify_intent i g w)))"
  proof (cases "find_intent i w")
    case None
    with k show ?thesis by (simp add: modify_intent_eq intents.grows_refl)
  next
    case (Some r)
    show ?thesis
    proof (cases "g r")
      case (Inl e)
      with Some k show ?thesis by (simp add: modify_intent_eq intents.grows_refl)
    next
      case (Inr r')
      with Some ev have e: "intent_evolves r r'" by blast
      let ?u = "update_where (\<lambda>x. x = r) (\<lambda>_. r') (w_payment_intents w)"
      have "modify_intent i g w = (Inr r', w\<lparr>w_payment_intents := ?u\<rparr>)"
        using Some Inr k modify_intent_update [of "w_payment_intents w" i r r']
        by (simp add: modify_intent_eq intents_keyed_def find_intent_def)
      moreover have "map pi_id ?u = map pi_id (w_payment_intents w)"
        "map pi_idempotency_key ?u = map pi_idempotency_key (w_payment_intents w)"
        "map pi_authorization_id ?u = map pi_authorization_id (w_payment_intents w)"
        using e by (auto simp: update_where_def intent_evolves_def created_for_def)
      moreover have "grows intent_evolves (w_payment_intents w) ?u"
        by (rule intents.grows_update) (simp add: e)
      ultimately show ?thesis using k by (simp add: intents_keyed_def keyed_def)
    qed
  qed
  then show "intents_keyed (snd (modify_intent i g w))"
    "grows intent_evolves (w_payment_intents w) (w_payment_intents (snd (modify_intent i g w)))" by auto
qed

text \<open>Intents and their keys evolve together: a key never gets a second row.\<close>

definition intents_kept :: "world \<Rightarrow> world \<Rightarrow> bool" where
  "intents_kept w w' \<longleftrightarrow> (intents_keyed w \<longrightarrow>
     intents_keyed w' \<and> grows intent_evolves (w_payment_intents w) (w_payment_intents w'))"

lemma intents_kept_frame: "w_payment_intents w' = w_payment_intents w \<Longrightarrow> intents_kept w w'"
  by (simp add: intents_kept_def intents_keyed_def intents.grows_refl)

lemma insert_intent_kept: "intents_kept w (snd (insert_payment_intent row w))"
  by (auto simp: insert_payment_intent_eq intents_kept_def intents_keyed_def payment_intents_unique_def
      intents.grows_refl intents.grows_append)

interpretation payment_rows: payment_order intents_kept cfg for cfg
proof unfold_locales
  show "intents_kept s s" for s by (simp add: intents_kept_frame)
  show "intents_kept s t \<Longrightarrow> intents_kept t u \<Longrightarrow> intents_kept s u" for s t u
    unfolding intents_kept_def using intents.grows_trans by blast
  show "keeps intents_kept (update_payment_intents q f)" if "\<And>r. q r \<Longrightarrow> intent_evolves r (f r)" for q f
    using that by (auto simp: keeps_def update_payment_intents_eq Let_def intents_kept_def intents_keyed_def
        payment_intents_unique_def intents.grows_refl intro: intents.grows_update)
  show "keeps intents_kept (insert_payment_intent row)" for row by (simp add: keeps_def insert_intent_kept)
  show "intents_kept s (snd (modify_intent i g s))"
    if "\<And>r r'. find_intent i s = Some r \<Longrightarrow> g r = Inr r' \<Longrightarrow> intent_evolves r r'" for i g s
    using modify_intent_keyed [of i s g] that by (simp add: intents_kept_def)
  show "intents_kept s (restore_tables s s')" for s s' by (simp add: intents_kept_frame restore_tables_def)
qed (auto simp: keeps_def payment_eqs intro!: intents_kept_frame split: option.split)

definition missions_kept :: "world \<Rightarrow> world \<Rightarrow> bool" where
  "missions_kept w w' \<longleftrightarrow> (keyed ms_id (w_missions w) \<longrightarrow>
     keyed ms_id (w_missions w') \<and> grows mission_evolves (w_missions w) (w_missions w'))"

lemma missions_kept_frame: "w_missions w' = w_missions w \<Longrightarrow> missions_kept w w'"
  by (simp add: missions_kept_def missions.grows_refl)

lemma apply_mission_kept: "missions_kept w (snd (apply_mission_state i st w))"
proof (cases "find_mission i w")
  case None
  then show ?thesis by (simp add: apply_mission_state_eq missions_kept_frame)
next
  case (Some r)
  show ?thesis
  proof (cases "mission_can_transition (ms_state r) st")
    case False
    with Some show ?thesis by (simp add: apply_mission_state_eq missions_kept_frame)
  next
    case True
    then have step: "mission_evolves r (r\<lparr>ms_state := st\<rparr>)"
      by (simp add: mission_evolves_def mission_can_transition_def mission_table.moves_step)
    let ?u = "update_where (\<lambda>r. ms_id r = i) (\<lambda>r. r\<lparr>ms_state := st\<rparr>) (w_missions w)"
    have "grows mission_evolves (w_missions w) ?u" if k: "keyed ms_id (w_missions w)"
    proof -
      have "ms_id x = i \<longleftrightarrow> x = r" if "x \<in> set (w_missions w)" for x
        using find_mission_SomeD [OF Some] keyed_unique [OF k that] by auto
      then have "?u = update_where (\<lambda>x. x = r) (\<lambda>r. r\<lparr>ms_state := st\<rparr>) (w_missions w)"
        by (simp add: update_where_def cong: map_cong)
      then show ?thesis using missions.grows_update [of "\<lambda>x. x = r"] step by simp
    qed
    then show ?thesis using Some True by (simp add: apply_mission_state_eq missions_kept_def keyed_update_where)
  qed
qed

interpretation payment_missions: payment_order missions_kept cfg for cfg
proof unfold_locales
  show "missions_kept s s" for s by (simp add: missions_kept_frame)
  show "missions_kept s t \<Longrightarrow> missions_kept t u \<Longrightarrow> missions_kept s u" for s t u
    unfolding missions_kept_def using missions.grows_trans by blast
  show "keeps missions_kept (apply_mission_state m st)" for m st by (simp add: keeps_def apply_mission_kept)
  show "missions_kept s (restore_tables s s')" for s s' by (simp add: missions_kept_frame restore_tables_def)
qed (auto simp: keeps_def payment_eqs intro!: missions_kept_frame split: option.split sum.split)

end
