(* ===== verification/Replay.thy ===== *)
theory Replay
  imports PaymentState
begin

text \<open>
  Mission replay, \<^verbatim>\<open>services/audit_ledger/replay.py\<close> with the result types of
  \<^verbatim>\<open>packages/schemas/audit.py\<close>: a pure reducer over the audit trail, the decision trace, the
  comparison with the persisted rows and the entry point that verifies the chain first. A handler
  is a function from the accumulator and one event to a refusal or the next accumulator; a refusal
  ends the replay, so what the handler had already assigned is of no consequence.
\<close>

section \<open>Projections\<close>

record replayed_authorization =
  ra_authorization_id :: "string option"
  ra_status :: "string option"
  ra_transaction_digest_prefix :: "string option"
  ra_policy_version :: "string option"
  ra_offer_version :: "string option"
  ra_binding_version :: "string option"
  ra_approval_scheme :: "approval_scheme option"
  ra_expires_at :: "string option"
  ra_consumed_at :: "string option"
  ra_bound_merchant_id :: "string option"
  ra_bound_product_id :: "string option"
  ra_bound_quantity :: "int option"
  ra_bound_amount_inr :: "int option"
  ra_bound_currency :: "string option"
  ra_replay_detected :: bool
  ra_binding_failures :: int

definition ReplayedAuthorization :: replayed_authorization where
  "ReplayedAuthorization = \<lparr>ra_authorization_id = None, ra_status = None, ra_transaction_digest_prefix = None,
     ra_policy_version = None, ra_offer_version = None, ra_binding_version = None, ra_approval_scheme = None,
     ra_expires_at = None, ra_consumed_at = None, ra_bound_merchant_id = None, ra_bound_product_id = None,
     ra_bound_quantity = None, ra_bound_amount_inr = None, ra_bound_currency = None, ra_replay_detected = False,
     ra_binding_failures = 0\<rparr>"

record replayed_payment =
  rp_payment_intent_id :: "string option"
  rp_state :: "string option"
  rp_provider :: "string option"
  rp_provider_payment_id :: "string option"
  rp_idempotency_key :: "string option"
  rp_amount_inr :: "int option"
  rp_currency :: "string option"
  rp_merchant_id :: "string option"
  rp_last_reason_code :: "string option"
  rp_attempts :: int
  rp_intent_reused :: bool
  rp_uncertain_episodes :: int
  rp_provider_timeouts :: int
  rp_retries_scheduled :: int
  rp_reconciliations :: int
  rp_dead_lettered :: bool
  rp_webhooks_verified :: int
  rp_duplicate_webhooks_ignored :: int
  rp_out_of_order_webhooks_ignored :: int

definition ReplayedPayment :: replayed_payment where
  "ReplayedPayment = \<lparr>rp_payment_intent_id = None, rp_state = None, rp_provider = None, rp_provider_payment_id = None,
     rp_idempotency_key = None, rp_amount_inr = None, rp_currency = None, rp_merchant_id = None,
     rp_last_reason_code = None, rp_attempts = 0, rp_intent_reused = False, rp_uncertain_episodes = 0,
     rp_provider_timeouts = 0, rp_retries_scheduled = 0, rp_reconciliations = 0, rp_dead_lettered = False,
     rp_webhooks_verified = 0, rp_duplicate_webhooks_ignored = 0, rp_out_of_order_webhooks_ignored = 0\<rparr>"

record replayed_security_event =
  rs_sequence :: int
  rs_event_type :: string
  rs_actor :: string
  rs_reason_code :: "string option"
  rs_detail :: payload

text \<open>The score is the JSON number \<open>float\<close> was applied to.\<close>

record replayed_risk_assessment =
  rk_sequence :: int
  rk_assessment_id :: "string option"
  rk_score :: "json option"
  rk_band :: "string option"
  rk_recommendation :: "string option"
  rk_engine_version :: "string option"
  rk_model_version :: "string option"
  rk_factor_codes :: "string list"

record skipped_transition =
  sk_sequence :: int
  sk_event_type :: string
  sk_from_state :: string
  sk_to_state :: string

record replay_state =
  st_mission_id :: uuid
  st_mission_state :: "mission_state option"
  st_events_replayed :: nat
  st_raw_query :: "string option"
  st_quantity :: "int option"
  st_policy_decision :: "string option"
  st_policy_version :: "string option"
  st_policy_reason_codes :: "string list"
  st_requested_amount :: "int option"
  st_soft_budget :: "int option"
  st_hard_limit :: "int option"
  st_selected_offer_id :: "string option"
  st_approval_required :: bool
  st_approval_granted :: bool
  st_raw_offer_count :: "int option"
  st_valid_offer_count :: "int option"
  st_invalid_offer_count :: "int option"
  st_tainted_merchant_fields :: "string list"
  st_authorization :: replayed_authorization
  st_payment :: replayed_payment
  st_security_events :: "replayed_security_event list"
  st_skipped_transitions :: "skipped_transition list"
  st_risk_assessments :: "replayed_risk_assessment list"

definition ReplayState :: "uuid \<Rightarrow> replay_state" where
  "ReplayState mission_id = \<lparr>st_mission_id = mission_id, st_mission_state = None, st_events_replayed = 0,
     st_raw_query = None, st_quantity = None, st_policy_decision = None, st_policy_version = None,
     st_policy_reason_codes = [], st_requested_amount = None, st_soft_budget = None, st_hard_limit = None,
     st_selected_offer_id = None, st_approval_required = False, st_approval_granted = False,
     st_raw_offer_count = None, st_valid_offer_count = None, st_invalid_offer_count = None,
     st_tainted_merchant_fields = [], st_authorization = ReplayedAuthorization, st_payment = ReplayedPayment,
     st_security_events = [], st_skipped_transitions = [], st_risk_assessments = []\<rparr>"

record mission_projection =
  mp_mission_id :: uuid
  mp_mission_state :: "string option"
  mp_events_replayed :: nat
  mp_raw_query :: "string option"
  mp_quantity :: "int option"
  mp_policy_decision :: "string option"
  mp_policy_version :: "string option"
  mp_policy_reason_codes :: "string list"
  mp_requested_amount :: "int option"
  mp_soft_budget :: "int option"
  mp_hard_limit :: "int option"
  mp_selected_offer_id :: "string option"
  mp_approval_required :: bool
  mp_approval_granted :: bool
  mp_raw_offer_count :: "int option"
  mp_valid_offer_count :: "int option"
  mp_invalid_offer_count :: "int option"
  mp_tainted_merchant_fields :: "string list"
  mp_authorization :: replayed_authorization
  mp_payment :: replayed_payment
  mp_security_events :: "replayed_security_event list"
  mp_skipped_transitions :: "skipped_transition list"
  mp_risk_assessments :: "replayed_risk_assessment list"

section \<open>Refusals and payload readers\<close>

text \<open>
  What can end a replay: a \<open>ReplayRefused\<close>, or the \<open>OverflowError\<close> of \<open>float\<close> on an integer score
  beyond the range of a double.
\<close>

datatype replay_error =
    ReplayRefused (rf_reason_code: replay_reason) (rf_sequence: int) (rf_event_type: string) (rf_detail: string)
  | ReplayOverflow

type_synonym 'a reading = "replay_error + 'a"

definition payload_of :: "audit_event_row \<Rightarrow> payload" where
  "payload_of event = (case ae_payload event of JObj ms \<Rightarrow> ms | _ \<Rightarrow> [])"

definition refuse :: "audit_event_row \<Rightarrow> string \<Rightarrow> replay_error" where
  "refuse event detail = ReplayRefused RR_REPLAY_MALFORMED_EVENT (ae_sequence event) (ae_event_type event) detail"

text \<open>\<open>payload.get(key)\<close>: an absent key and a null are both \<open>None\<close>.\<close>

definition payload_get :: "audit_event_row \<Rightarrow> string \<Rightarrow> json option" where
  "payload_get event key = (case jget key (payload_of event) of Some JNull \<Rightarrow> None | v \<Rightarrow> v)"

definition opt_str :: "audit_event_row \<Rightarrow> string \<Rightarrow> string option reading" where
  "opt_str event key = (case payload_get event key of
     None \<Rightarrow> Inr None
   | Some (JStr s) \<Rightarrow> Inr (Some s)
   | Some _ \<Rightarrow> Inl (refuse event (''payload field '' @ py_repr key @ '' is not a string'')))"

definition opt_int :: "audit_event_row \<Rightarrow> string \<Rightarrow> int option reading" where
  "opt_int event key = (case payload_get event key of
     None \<Rightarrow> Inr None
   | Some (JInt i) \<Rightarrow> Inr (Some i)
   | Some _ \<Rightarrow> Inl (refuse event (''payload field '' @ py_repr key @ '' is not an integer'')))"

fun str_items :: "json list \<Rightarrow> string list option" where
  "str_items [] = Some []"
| "str_items (JStr s # js) = map_option ((#) s) (str_items js)"
| "str_items (_ # js) = None"

definition opt_str_list :: "audit_event_row \<Rightarrow> string \<Rightarrow> string list option reading" where
  "opt_str_list event key = (case payload_get event key of
     None \<Rightarrow> Inr None
   | Some (JList js) \<Rightarrow> (case str_items js of
       Some ss \<Rightarrow> Inr (Some ss)
     | None \<Rightarrow> Inl (refuse event (''payload field '' @ py_repr key @ '' is not a list of strings'')))
   | Some _ \<Rightarrow> Inl (refuse event (''payload field '' @ py_repr key @ '' is not a list of strings'')))"

definition opt_approval_scheme :: "audit_event_row \<Rightarrow> approval_scheme option reading" where
  "opt_approval_scheme event = bindE (opt_str event ''approval_scheme'') (\<lambda>v. case v of
     None \<Rightarrow> Inr None
   | Some s \<Rightarrow> (case scheme_of_text s of
       Some scheme \<Rightarrow> Inr (Some scheme)
     | None \<Rightarrow> Inl (refuse event (''approval scheme '' @ py_repr s @ '' is not known to this build''))))"

text \<open>\<open>x or y\<close> on an optional string or integer: an empty string and a zero are false.\<close>

definition or_str :: "string option \<Rightarrow> string option \<Rightarrow> string option" where
  "or_str x y = (case x of None \<Rightarrow> y | Some s \<Rightarrow> if s = [] then y else x)"

definition or_int :: "int option \<Rightarrow> int option \<Rightarrow> int option" where
  "or_int x y = (case x of None \<Rightarrow> y | Some i \<Rightarrow> if i = 0 then y else x)"

definition or_list :: "string list option \<Rightarrow> string list \<Rightarrow> string list" where
  "or_list x y = (case x of None \<Rightarrow> y | Some ss \<Rightarrow> if ss = [] then y else ss)"

definition SECURITY_DETAIL_KEYS :: "string list" where
  "SECURITY_DETAIL_KEYS = [''field'', ''attempted_value'', ''source_authority'', ''target_authority'', ''merchant_id'',
     ''claimed_merchant_id'', ''authenticated_merchant_id'', ''offer_id'', ''rejected'', ''status'', ''current_state'',
     ''requested_state'', ''provider_event_id'', ''idempotency_key'', ''bound_digest_prefix'',
     ''presented_digest_prefix'', ''reason_codes'', ''terminal'', ''invariant_id'', ''bind_refused'']"

definition security_detail :: "audit_event_row \<Rightarrow> payload" where
  "security_detail event = concat (map (\<lambda>key. case jget key (payload_of event) of
     None \<Rightarrow> [] | Some v \<Rightarrow> [(key, v)]) SECURITY_DETAIL_KEYS)"

section \<open>Folding one event\<close>

definition advance :: "audit_event_row \<Rightarrow> mission_state \<Rightarrow> replay_state \<Rightarrow> replay_state" where
  "advance event target state = (case st_mission_state state of
     None \<Rightarrow> state\<lparr>st_mission_state := Some target\<rparr>
   | Some current \<Rightarrow>
       if current = target then state
       else if mission_can_transition current target then state\<lparr>st_mission_state := Some target\<rparr>
       else state\<lparr>st_skipped_transitions := st_skipped_transitions state @
         [\<lparr>sk_sequence = ae_sequence event, sk_event_type = ae_event_type event,
           sk_from_state = mission_text current, sk_to_state = mission_text target\<rparr>]\<rparr>)"

definition payment_state_from_payload :: "audit_event_row \<Rightarrow> replay_state \<Rightarrow> replay_state reading" where
  "payment_state_from_payload event state = (case payload_get event ''state'' of
     None \<Rightarrow> Inr state
   | Some (JStr raw) \<Rightarrow> (case payment_of_text raw of
       Some st \<Rightarrow> Inr (state\<lparr>st_payment := (st_payment state)\<lparr>rp_state := Some (payment_text st)\<rparr>\<rparr>)
     | None \<Rightarrow> Inl (refuse event (''payment state '' @ py_repr raw @ '' is not a state this build knows'')))
   | Some _ \<Rightarrow> Inl (refuse event (''payload field '' @ py_repr ''state'' @ '' is not a string'')))"

definition common_payment_fields :: "audit_event_row \<Rightarrow> replay_state \<Rightarrow> replay_state reading" where
  "common_payment_fields event state =
     bindE (opt_str event ''payment_intent_id'') (\<lambda>payment_intent_id.
     bindE (opt_str event ''provider'') (\<lambda>provider.
     bindE (opt_str event ''provider_payment_id'') (\<lambda>provider_payment_id.
     bindE (opt_str event ''idempotency_key'') (\<lambda>idempotency_key.
     bindE (opt_int event ''amount_inr'') (\<lambda>amount_inr.
     bindE (opt_str event ''currency'') (\<lambda>currency.
     bindE (opt_str event ''merchant_id'') (\<lambda>merchant_id.
     bindE (if jget ''reason_code'' (payload_of event) \<noteq> None then opt_str event ''reason_code''
       else Inr (rp_last_reason_code (st_payment state))) (\<lambda>last_reason_code.
     let p = st_payment state in
     Inr (state\<lparr>st_payment := p\<lparr>
       rp_payment_intent_id := or_str payment_intent_id (rp_payment_intent_id p),
       rp_provider := or_str provider (rp_provider p),
       rp_provider_payment_id := or_str provider_payment_id (rp_provider_payment_id p),
       rp_idempotency_key := or_str idempotency_key (rp_idempotency_key p),
       rp_amount_inr := or_int amount_inr (rp_amount_inr p),
       rp_currency := or_str currency (rp_currency p),
       rp_merchant_id := or_str merchant_id (rp_merchant_id p),
       rp_last_reason_code := last_reason_code\<rparr>\<rparr>)))))))))"

definition record_security :: "audit_event_row \<Rightarrow> replay_state \<Rightarrow> replay_state reading" where
  "record_security event state =
     bindE (opt_str event ''reason_code'') (\<lambda>reason_code.
     Inr (state\<lparr>st_security_events := st_security_events state @
       [\<lparr>rs_sequence = ae_sequence event, rs_event_type = ae_event_type event, rs_actor = ae_actor event,
         rs_reason_code = reason_code, rs_detail = security_detail event\<rparr>]\<rparr>))"

definition on_mission_created :: "audit_event_row \<Rightarrow> replay_state \<Rightarrow> replay_state reading" where
  "on_mission_created event state =
     bindE (opt_str event ''raw_query'') (\<lambda>raw_query.
     bindE (opt_int event ''quantity'') (\<lambda>quantity.
     Inr (advance event M_CREATED (state\<lparr>st_raw_query := raw_query, st_quantity := quantity\<rparr>))))"

text \<open>A budget of the constraints is adopted when it is an integer.\<close>

definition budget_of :: "string \<Rightarrow> payload \<Rightarrow> int option \<Rightarrow> int option" where
  "budget_of key constraints old = (case jget key constraints of Some (JInt i) \<Rightarrow> Some i | _ \<Rightarrow> old)"

definition on_intent_parsed :: "audit_event_row \<Rightarrow> replay_state \<Rightarrow> replay_state reading" where
  "on_intent_parsed event state = (case payload_get event ''constraints'' of
     None \<Rightarrow> Inr (advance event M_INTENT_PARSED state)
   | Some (JObj constraints) \<Rightarrow> Inr (advance event M_INTENT_PARSED (state\<lparr>
       st_soft_budget := budget_of ''soft_budget_inr'' constraints (st_soft_budget state),
       st_hard_limit := budget_of ''hard_limit_inr'' constraints (st_hard_limit state)\<rparr>))
   | Some _ \<Rightarrow> Inl (refuse event (''payload field '' @ py_repr ''constraints'' @ '' is not an object'')))"

definition on_discovery_started :: "audit_event_row \<Rightarrow> replay_state \<Rightarrow> replay_state reading" where
  "on_discovery_started event state = Inr (advance event M_DISCOVERING state)"

definition on_offers_received :: "audit_event_row \<Rightarrow> replay_state \<Rightarrow> replay_state reading" where
  "on_offers_received event state =
     bindE (opt_int event ''raw_offer_count'') (\<lambda>n.
     Inr (advance event M_OFFERS_RECEIVED (state\<lparr>st_raw_offer_count := n\<rparr>)))"

definition on_offers_normalized :: "audit_event_row \<Rightarrow> replay_state \<Rightarrow> replay_state reading" where
  "on_offers_normalized event state =
     bindE (opt_int event ''valid'') (\<lambda>valid.
     bindE (opt_int event ''invalid'') (\<lambda>invalid.
     bindE (opt_str_list event ''tainted_merchant_fields'') (\<lambda>tainted.
     Inr (advance event M_OFFERS_NORMALIZED (state\<lparr>st_valid_offer_count := valid, st_invalid_offer_count := invalid,
       st_tainted_merchant_fields := or_list tainted []\<rparr>)))))"

definition on_offers_ranked :: "audit_event_row \<Rightarrow> replay_state \<Rightarrow> replay_state reading" where
  "on_offers_ranked event state = Inr (advance event M_RANKED state)"

definition on_policy_decision :: "audit_event_row \<Rightarrow> replay_state \<Rightarrow> replay_state reading" where
  "on_policy_decision event state =
     bindE (opt_str event ''decision'') (\<lambda>decision.
     bindE (case decision of
         None \<Rightarrow> Inr (st_policy_decision state)
       | Some d \<Rightarrow> (case outcome_of_text d of
           Some out \<Rightarrow> Inr (Some (outcome_text out))
         | None \<Rightarrow> Inl (refuse event (''policy decision '' @ py_repr d @ '' is not an outcome this build knows''))))
       (\<lambda>policy_decision.
     bindE (opt_str event ''policy_version'') (\<lambda>policy_version.
     bindE (opt_str_list event ''reason_codes'') (\<lambda>reason_codes.
     bindE (opt_int event ''requested_amount'') (\<lambda>requested_amount.
     bindE (opt_int event ''soft_budget'') (\<lambda>soft_budget.
     bindE (opt_int event ''hard_limit'') (\<lambda>hard_limit.
     bindE (opt_str event ''selected_offer_id'') (\<lambda>selected_offer_id.
     Inr (advance event M_POLICY_CHECKED (state\<lparr>st_policy_decision := policy_decision,
       st_policy_version := policy_version, st_policy_reason_codes := or_list reason_codes [],
       st_requested_amount := requested_amount,
       st_soft_budget := or_int soft_budget (st_soft_budget state),
       st_hard_limit := or_int hard_limit (st_hard_limit state),
       st_selected_offer_id := selected_offer_id\<rparr>))))))))))"

definition set_authorization_id :: "string option \<Rightarrow> replay_state \<Rightarrow> replay_state" where
  "set_authorization_id i state = state\<lparr>st_authorization := (st_authorization state)\<lparr>
     ra_authorization_id := or_str i (ra_authorization_id (st_authorization state))\<rparr>\<rparr>"

definition on_approval_requested :: "audit_event_row \<Rightarrow> replay_state \<Rightarrow> replay_state reading" where
  "on_approval_requested event state =
     bindE (opt_int event ''requested_amount'') (\<lambda>requested_amount.
     bindE (opt_str event ''authorization_id'') (\<lambda>authorization_id.
     Inr (advance event M_AWAITING_APPROVAL (set_authorization_id authorization_id (state\<lparr>
       st_approval_required := True,
       st_requested_amount := or_int requested_amount (st_requested_amount state)\<rparr>)))))"

definition on_mission_denied :: "audit_event_row \<Rightarrow> replay_state \<Rightarrow> replay_state reading" where
  "on_mission_denied event state =
     bindE (opt_str_list event ''reason_codes'') (\<lambda>reason_codes.
     bindE (record_security event
       (state\<lparr>st_policy_reason_codes := or_list reason_codes (st_policy_reason_codes state)\<rparr>)) (\<lambda>state.
     Inr (advance event M_CANCELLED state)))"

definition on_security_violation :: "audit_event_row \<Rightarrow> replay_state \<Rightarrow> replay_state reading" where
  "on_security_violation event state = record_security event state"

definition on_authorization_created :: "audit_event_row \<Rightarrow> replay_state \<Rightarrow> replay_state reading" where
  "on_authorization_created event state =
     bindE (opt_str event ''authorization_id'') (\<lambda>authorization_id.
     bindE (opt_str event ''status'') (\<lambda>status.
     bindE (opt_str event ''transaction_digest_prefix'') (\<lambda>transaction_digest_prefix.
     bindE (opt_str event ''policy_version'') (\<lambda>policy_version.
     bindE (opt_str event ''offer_version'') (\<lambda>offer_version.
     bindE (opt_str event ''binding_version'') (\<lambda>binding_version.
     bindE (opt_approval_scheme event) (\<lambda>approval_scheme.
     bindE (opt_str event ''expires_at'') (\<lambda>expires_at.
     bindE (opt_str event ''bound_merchant_id'') (\<lambda>bound_merchant_id.
     bindE (opt_str event ''bound_product_id'') (\<lambda>bound_product_id.
     bindE (opt_int event ''bound_quantity'') (\<lambda>bound_quantity.
     bindE (opt_int event ''bound_amount_inr'') (\<lambda>bound_amount_inr.
     bindE (opt_str event ''bound_currency'') (\<lambda>bound_currency.
     let a = st_authorization state in
     Inr (state\<lparr>st_authorization := a\<lparr>
       ra_authorization_id := or_str authorization_id (ra_authorization_id a),
       ra_status := or_str status (Some (auth_text A_PENDING)),
       ra_transaction_digest_prefix := transaction_digest_prefix,
       ra_policy_version := policy_version, ra_offer_version := offer_version, ra_binding_version := binding_version,
       ra_approval_scheme := approval_scheme, ra_expires_at := expires_at,
       ra_bound_merchant_id := bound_merchant_id, ra_bound_product_id := bound_product_id,
       ra_bound_quantity := bound_quantity, ra_bound_amount_inr := bound_amount_inr,
       ra_bound_currency := bound_currency\<rparr>\<rparr>))))))))))))))"

definition on_authorization_activated :: "audit_event_row \<Rightarrow> replay_state \<Rightarrow> replay_state reading" where
  "on_authorization_activated event state =
     bindE (opt_str event ''authorization_id'') (\<lambda>authorization_id.
     bindE (opt_str event ''status'') (\<lambda>status.
     bindE (opt_str event ''transaction_digest_prefix'') (\<lambda>transaction_digest_prefix.
     bindE (opt_approval_scheme event) (\<lambda>scheme.
     let a = st_authorization state in
     Inr (advance event M_AUTHORIZED (state\<lparr>st_authorization := a\<lparr>
         ra_authorization_id := or_str authorization_id (ra_authorization_id a),
         ra_status := or_str status (Some (auth_text A_ACTIVE)),
         ra_transaction_digest_prefix := or_str transaction_digest_prefix (ra_transaction_digest_prefix a),
         ra_approval_scheme := (case scheme of None \<Rightarrow> ra_approval_scheme a | Some s \<Rightarrow> Some s)\<rparr>,
       st_approval_granted := (st_approval_required state \<or> st_approval_granted state)\<rparr>))))))"

definition on_authorization_consumed :: "audit_event_row \<Rightarrow> replay_state \<Rightarrow> replay_state reading" where
  "on_authorization_consumed event state =
     bindE (opt_str event ''status'') (\<lambda>status.
     bindE (opt_str event ''consumed_at'') (\<lambda>consumed_at.
     Inr (state\<lparr>st_authorization := (st_authorization state)\<lparr>
       ra_status := or_str status (Some (auth_text A_CONSUMED)), ra_consumed_at := consumed_at\<rparr>\<rparr>)))"

definition on_authorization_expired :: "audit_event_row \<Rightarrow> replay_state \<Rightarrow> replay_state reading" where
  "on_authorization_expired event state =
     bindE (opt_str event ''status'') (\<lambda>status.
     bindE (opt_str event ''expires_at'') (\<lambda>expires_at.
     let a = st_authorization state in
     Inr (state\<lparr>st_authorization := a\<lparr>
       ra_status := or_str status (Some (auth_text A_EXPIRED)),
       ra_expires_at := or_str expires_at (ra_expires_at a)\<rparr>\<rparr>)))"

definition on_authorization_revoked :: "audit_event_row \<Rightarrow> replay_state \<Rightarrow> replay_state reading" where
  "on_authorization_revoked event state =
     bindE (opt_str event ''status'') (\<lambda>status.
     Inr (state\<lparr>st_authorization := (st_authorization state)\<lparr>
       ra_status := or_str status (Some (auth_text A_REVOKED))\<rparr>\<rparr>))"

definition on_authorization_replay_detected :: "audit_event_row \<Rightarrow> replay_state \<Rightarrow> replay_state reading" where
  "on_authorization_replay_detected event state =
     bindE (opt_str event ''status'') (\<lambda>status.
     bindE (opt_str event ''consumed_at'') (\<lambda>consumed_at.
     let a = st_authorization state in
     record_security event (state\<lparr>st_authorization := a\<lparr>
       ra_replay_detected := True,
       ra_status := or_str status (ra_status a),
       ra_consumed_at := or_str consumed_at (ra_consumed_at a)\<rparr>\<rparr>)))"

definition on_transaction_binding_failure :: "audit_event_row \<Rightarrow> replay_state \<Rightarrow> replay_state reading" where
  "on_transaction_binding_failure event state =
     record_security event (state\<lparr>st_authorization := (st_authorization state)\<lparr>
       ra_binding_failures := ra_binding_failures (st_authorization state) + 1\<rparr>\<rparr>)"

definition on_payment_intent_created :: "audit_event_row \<Rightarrow> replay_state \<Rightarrow> replay_state reading" where
  "on_payment_intent_created event state =
     bindE (common_payment_fields event state) (\<lambda>state.
     bindE (opt_str event ''authorization_id'') (\<lambda>authorization_id.
     Inr (set_authorization_id authorization_id state)))"

definition on_payment_queued :: "audit_event_row \<Rightarrow> replay_state \<Rightarrow> replay_state reading" where
  "on_payment_queued event state =
     bindE (common_payment_fields event state) (\<lambda>state.
     bindE (payment_state_from_payload event state) (\<lambda>state.
     Inr (advance event M_PAYMENT_PENDING state)))"

text \<open>A counter or a flag of the payment.\<close>

definition on_payment :: "(replayed_payment \<Rightarrow> replayed_payment) \<Rightarrow> replay_state \<Rightarrow> replay_state" where
  "on_payment f state = state\<lparr>st_payment := f (st_payment state)\<rparr>"

definition on_payment_attempted :: "audit_event_row \<Rightarrow> replay_state \<Rightarrow> replay_state reading" where
  "on_payment_attempted event state =
     bindE (common_payment_fields event state) (\<lambda>state.
     bindE (payment_state_from_payload event state) (\<lambda>state.
     Inr (on_payment (\<lambda>p. p\<lparr>rp_attempts := rp_attempts p + 1\<rparr>) state)))"

definition on_payment_provider_timeout :: "audit_event_row \<Rightarrow> replay_state \<Rightarrow> replay_state reading" where
  "on_payment_provider_timeout event state =
     bindE (common_payment_fields event state) (\<lambda>state.
     Inr (on_payment (\<lambda>p. p\<lparr>rp_provider_timeouts := rp_provider_timeouts p + 1\<rparr>) state))"

definition on_payment_provider_uncertain :: "audit_event_row \<Rightarrow> replay_state \<Rightarrow> replay_state reading" where
  "on_payment_provider_uncertain event state =
     bindE (common_payment_fields event state) (\<lambda>state.
     bindE (payment_state_from_payload event state) (\<lambda>state.
     Inr (on_payment (\<lambda>p. p\<lparr>rp_uncertain_episodes := rp_uncertain_episodes p + 1\<rparr>) state)))"

definition on_payment_retry_scheduled :: "audit_event_row \<Rightarrow> replay_state \<Rightarrow> replay_state reading" where
  "on_payment_retry_scheduled event state =
     bindE (common_payment_fields event state) (\<lambda>state.
     bindE (payment_state_from_payload event state) (\<lambda>state.
     Inr (on_payment (\<lambda>p. p\<lparr>rp_retries_scheduled := rp_retries_scheduled p + 1\<rparr>) state)))"

definition on_payment_reconciled :: "audit_event_row \<Rightarrow> replay_state \<Rightarrow> replay_state reading" where
  "on_payment_reconciled event state =
     bindE (common_payment_fields event state) (\<lambda>state.
     Inr (on_payment (\<lambda>p. p\<lparr>rp_reconciliations := rp_reconciliations p + 1\<rparr>) state))"

definition on_payment_succeeded :: "audit_event_row \<Rightarrow> replay_state \<Rightarrow> replay_state reading" where
  "on_payment_succeeded event state =
     bindE (common_payment_fields event state) (\<lambda>state.
     bindE (payment_state_from_payload event state) (\<lambda>state.
     Inr (advance event M_PAYMENT_SUCCEEDED state)))"

definition on_payment_failed :: "audit_event_row \<Rightarrow> replay_state \<Rightarrow> replay_state reading" where
  "on_payment_failed event state =
     bindE (common_payment_fields event state) (\<lambda>state.
     bindE (payment_state_from_payload event state) (\<lambda>state.
     Inr (if rp_state (st_payment state) = Some (payment_text P_FAILED_TERMINAL)
       then advance event M_PAYMENT_FAILED state else state)))"

definition on_payment_intent_reused :: "audit_event_row \<Rightarrow> replay_state \<Rightarrow> replay_state reading" where
  "on_payment_intent_reused event state =
     bindE (common_payment_fields event state) (\<lambda>state.
     bindE (payment_state_from_payload event state) (\<lambda>state.
     Inr (on_payment (\<lambda>p. p\<lparr>rp_intent_reused := True\<rparr>) state)))"

definition on_idempotency_conflict :: "audit_event_row \<Rightarrow> replay_state \<Rightarrow> replay_state reading" where
  "on_idempotency_conflict event state = record_security event state"

definition on_outbox_dead_lettered :: "audit_event_row \<Rightarrow> replay_state \<Rightarrow> replay_state reading" where
  "on_outbox_dead_lettered event state =
     bindE (common_payment_fields event state) (\<lambda>state.
     Inr (on_payment (\<lambda>p. p\<lparr>rp_dead_lettered := True\<rparr>) state))"

definition on_webhook_verified :: "audit_event_row \<Rightarrow> replay_state \<Rightarrow> replay_state reading" where
  "on_webhook_verified event state =
     bindE (common_payment_fields event state) (\<lambda>state.
     Inr (on_payment (\<lambda>p. p\<lparr>rp_webhooks_verified := rp_webhooks_verified p + 1\<rparr>) state))"

definition on_webhook_rejected :: "audit_event_row \<Rightarrow> replay_state \<Rightarrow> replay_state reading" where
  "on_webhook_rejected event state = record_security event state"

definition on_duplicate_webhook_ignored :: "audit_event_row \<Rightarrow> replay_state \<Rightarrow> replay_state reading" where
  "on_duplicate_webhook_ignored event state =
     bindE (common_payment_fields event state) (\<lambda>state.
     record_security event
       (on_payment (\<lambda>p. p\<lparr>rp_duplicate_webhooks_ignored := rp_duplicate_webhooks_ignored p + 1\<rparr>) state))"

definition on_webhook_out_of_order_ignored :: "audit_event_row \<Rightarrow> replay_state \<Rightarrow> replay_state reading" where
  "on_webhook_out_of_order_ignored event state =
     bindE (common_payment_fields event state) (\<lambda>state.
     record_security event
       (on_payment (\<lambda>p. p\<lparr>rp_out_of_order_webhooks_ignored := rp_out_of_order_webhooks_ignored p + 1\<rparr>) state))"

section \<open>Advisory events\<close>

definition advisory_str :: "json option \<Rightarrow> string option" where
  "advisory_str v = (case v of Some (JStr s) \<Rightarrow> Some s | _ \<Rightarrow> None)"

text \<open>\<open>repr\<close> and \<open>str\<close> of a value that JSON text was parsed to.\<close>

definition float_repr_text :: "string \<Rightarrow> string" where
  "float_repr_text s = (if s = ''NaN'' then ''nan'' else if s = ''Infinity'' then ''inf''
     else if s = ''-Infinity'' then ''-inf'' else s)"

fun json_repr :: "json \<Rightarrow> string" where
  "json_repr JNull = ''None''"
| "json_repr (JBool b) = (if b then ''True'' else ''False'')"
| "json_repr (JInt i) = dec_int i"
| "json_repr (JFloat s) = float_repr_text s"
| "json_repr (JStr s) = py_repr s"
| "json_repr (JList js) = ''['' @ str_join '', '' (map json_repr js) @ '']''"
| "json_repr (JObj ms) = ''{'' @ str_join '', '' (map (\<lambda>(k, v). py_repr k @ '': '' @ json_repr v) ms) @ ''}''"

definition json_str :: "json \<Rightarrow> string" where
  "json_str v = (case v of JStr s \<Rightarrow> s | _ \<Rightarrow> json_repr v)"

text \<open>
  \<open>float(score)\<close> of an integer: it overflows from \<open>2 ^ 1024 - 2 ^ 970\<close> on, the first integer that
  rounds beyond the largest double.
\<close>

definition risk_score :: "json option \<Rightarrow> json option reading" where
  "risk_score v = (case v of
     Some (JInt i) \<Rightarrow> if 2 ^ 1024 - 2 ^ 970 \<le> \<bar>i\<bar> then Inl ReplayOverflow else Inr v
   | Some (JBool b) \<Rightarrow> Inr v
   | Some (JFloat s) \<Rightarrow> Inr v
   | _ \<Rightarrow> Inr None)"

definition on_risk_assessed :: "audit_event_row \<Rightarrow> replay_state \<Rightarrow> replay_state reading" where
  "on_risk_assessed event state =
     (let get = (\<lambda>key. payload_get event key) in
      bindE (risk_score (get ''score'')) (\<lambda>score.
      Inr (state\<lparr>st_risk_assessments := st_risk_assessments state @
        [\<lparr>rk_sequence = ae_sequence event, rk_assessment_id = advisory_str (get ''assessment_id''),
          rk_score = score, rk_band = advisory_str (get ''band''),
          rk_recommendation = advisory_str (get ''recommendation''),
          rk_engine_version = advisory_str (get ''engine_version''),
          rk_model_version = advisory_str (get ''model_version''),
          rk_factor_codes = (case get ''factor_codes'' of Some (JList codes) \<Rightarrow> map json_str codes | _ \<Rightarrow> [])\<rparr>]\<rparr>)))"

section \<open>The reducer\<close>

fun HANDLERS :: "event_type \<Rightarrow> audit_event_row \<Rightarrow> replay_state \<Rightarrow> replay_state reading" where
  "HANDLERS E_MISSION_CREATED = on_mission_created"
| "HANDLERS E_INTENT_PARSED = on_intent_parsed"
| "HANDLERS E_DISCOVERY_STARTED = on_discovery_started"
| "HANDLERS E_OFFERS_RECEIVED = on_offers_received"
| "HANDLERS E_OFFERS_NORMALIZED = on_offers_normalized"
| "HANDLERS E_OFFERS_RANKED = on_offers_ranked"
| "HANDLERS E_POLICY_DECISION = on_policy_decision"
| "HANDLERS E_APPROVAL_REQUESTED = on_approval_requested"
| "HANDLERS E_MISSION_DENIED = on_mission_denied"
| "HANDLERS E_SECURITY_VIOLATION = on_security_violation"
| "HANDLERS E_AUTHORIZATION_CREATED = on_authorization_created"
| "HANDLERS E_AUTHORIZATION_ACTIVATED = on_authorization_activated"
| "HANDLERS E_AUTHORIZATION_CONSUMED = on_authorization_consumed"
| "HANDLERS E_AUTHORIZATION_EXPIRED = on_authorization_expired"
| "HANDLERS E_AUTHORIZATION_REVOKED = on_authorization_revoked"
| "HANDLERS E_AUTHORIZATION_REPLAY_DETECTED = on_authorization_replay_detected"
| "HANDLERS E_TRANSACTION_BINDING_FAILURE = on_transaction_binding_failure"
| "HANDLERS E_PAYMENT_INTENT_CREATED = on_payment_intent_created"
| "HANDLERS E_PAYMENT_QUEUED = on_payment_queued"
| "HANDLERS E_PAYMENT_ATTEMPTED = on_payment_attempted"
| "HANDLERS E_PAYMENT_PROVIDER_TIMEOUT = on_payment_provider_timeout"
| "HANDLERS E_PAYMENT_PROVIDER_UNCERTAIN = on_payment_provider_uncertain"
| "HANDLERS E_PAYMENT_RETRY_SCHEDULED = on_payment_retry_scheduled"
| "HANDLERS E_PAYMENT_RECONCILED = on_payment_reconciled"
| "HANDLERS E_PAYMENT_SUCCEEDED = on_payment_succeeded"
| "HANDLERS E_PAYMENT_FAILED = on_payment_failed"
| "HANDLERS E_PAYMENT_INTENT_REUSED = on_payment_intent_reused"
| "HANDLERS E_IDEMPOTENCY_CONFLICT = on_idempotency_conflict"
| "HANDLERS E_OUTBOX_EVENT_DEAD_LETTERED = on_outbox_dead_lettered"
| "HANDLERS E_WEBHOOK_VERIFIED = on_webhook_verified"
| "HANDLERS E_WEBHOOK_REJECTED = on_webhook_rejected"
| "HANDLERS E_DUPLICATE_WEBHOOK_IGNORED = on_duplicate_webhook_ignored"
| "HANDLERS E_WEBHOOK_OUT_OF_ORDER_IGNORED = on_webhook_out_of_order_ignored"
| "HANDLERS E_RISK_ASSESSED = on_risk_assessed"

definition apply_event :: "audit_event_row \<Rightarrow> replay_state \<Rightarrow> replay_state reading" where
  "apply_event event state = (case event_of_text (ae_event_type event) of
     None \<Rightarrow> Inl (ReplayRefused RR_REPLAY_UNSUPPORTED_EVENT_TYPE (ae_sequence event) (ae_event_type event)
       (''event type '' @ py_repr (ae_event_type event) @ '' is not known to this build; refusing to ''
        @ ''reconstruct a state that would silently omit it''))
   | Some event_type \<Rightarrow>
     if (case ae_payload event of JObj _ \<Rightarrow> False | _ \<Rightarrow> True)
     then Inl (refuse event ''payload is not a JSON object'')
     else bindE (HANDLERS event_type event state) (\<lambda>state.
       Inr (state\<lparr>st_events_replayed := st_events_replayed state + 1\<rparr>)))"

fun fold_events :: "audit_event_row list \<Rightarrow> replay_state \<Rightarrow> replay_state reading" where
  "fold_events [] state = Inr state"
| "fold_events (event # events) state = bindE (apply_event event state) (fold_events events)"

definition projection_of :: "replay_state \<Rightarrow> mission_projection" where
  "projection_of s = \<lparr>mp_mission_id = st_mission_id s, mp_mission_state = map_option mission_text (st_mission_state s),
     mp_events_replayed = st_events_replayed s, mp_raw_query = st_raw_query s, mp_quantity = st_quantity s,
     mp_policy_decision = st_policy_decision s, mp_policy_version = st_policy_version s,
     mp_policy_reason_codes = st_policy_reason_codes s, mp_requested_amount = st_requested_amount s,
     mp_soft_budget = st_soft_budget s, mp_hard_limit = st_hard_limit s, mp_selected_offer_id = st_selected_offer_id s,
     mp_approval_required = st_approval_required s, mp_approval_granted = st_approval_granted s,
     mp_raw_offer_count = st_raw_offer_count s, mp_valid_offer_count = st_valid_offer_count s,
     mp_invalid_offer_count = st_invalid_offer_count s, mp_tainted_merchant_fields = st_tainted_merchant_fields s,
     mp_authorization = st_authorization s, mp_payment = st_payment s, mp_security_events = st_security_events s,
     mp_skipped_transitions = st_skipped_transitions s, mp_risk_assessments = st_risk_assessments s\<rparr>"

text \<open>\<open>sorted(events, key=lambda row: (row.sequence, str(row.event_id)))\<close>.\<close>

definition in_sequence :: "audit_event_row list \<Rightarrow> audit_event_row list" where
  "in_sequence events = sort_key (\<lambda>e. (ae_sequence e, uuid_str (ae_event_id e))) events"

definition reduce_events :: "uuid \<Rightarrow> audit_event_row list \<Rightarrow> mission_projection reading" where
  "reduce_events mission_id events =
     bindE (fold_events (in_sequence events) (ReplayState mission_id)) (\<lambda>state. Inr (projection_of state))"

section \<open>The decision trace\<close>

record decision_trace_evidence_ref =
  ev_event_id :: uuid
  ev_sequence :: int
  ev_actor :: string

record decision_trace_entry =
  dt_stage :: decision_stage
  dt_event_type :: event_type
  dt_verdict :: trace_verdict
  dt_reason_codes :: "string list"
  dt_invariant_id :: "string option"
  dt_approval_scheme :: "approval_scheme option"
  dt_policy_outcome :: "policy_outcome option"
  dt_payment_state :: "payment_state option"
  dt_advisory :: bool
  dt_next_action :: next_action
  dt_evidence :: decision_trace_evidence_ref
  dt_recorded_at :: instant

fun TRACE_STAGE_BY_EVENT :: "event_type \<Rightarrow> decision_stage" where
  "TRACE_STAGE_BY_EVENT E_MISSION_CREATED = DS_ADMIT"
| "TRACE_STAGE_BY_EVENT E_INTENT_PARSED = DS_ADMIT"
| "TRACE_STAGE_BY_EVENT E_DISCOVERY_STARTED = DS_ADMIT"
| "TRACE_STAGE_BY_EVENT E_OFFERS_RECEIVED = DS_ADMIT"
| "TRACE_STAGE_BY_EVENT E_OFFERS_NORMALIZED = DS_ADMIT"
| "TRACE_STAGE_BY_EVENT E_OFFERS_RANKED = DS_ADMIT"
| "TRACE_STAGE_BY_EVENT E_POLICY_DECISION = DS_ADMIT"
| "TRACE_STAGE_BY_EVENT E_APPROVAL_REQUESTED = DS_BIND"
| "TRACE_STAGE_BY_EVENT E_MISSION_DENIED = DS_ADMIT"
| "TRACE_STAGE_BY_EVENT E_SECURITY_VIOLATION = DS_ADMIT"
| "TRACE_STAGE_BY_EVENT E_AUTHORIZATION_CREATED = DS_BIND"
| "TRACE_STAGE_BY_EVENT E_AUTHORIZATION_ACTIVATED = DS_BIND"
| "TRACE_STAGE_BY_EVENT E_AUTHORIZATION_CONSUMED = DS_BIND"
| "TRACE_STAGE_BY_EVENT E_AUTHORIZATION_EXPIRED = DS_BIND"
| "TRACE_STAGE_BY_EVENT E_AUTHORIZATION_REVOKED = DS_BIND"
| "TRACE_STAGE_BY_EVENT E_AUTHORIZATION_REPLAY_DETECTED = DS_BIND"
| "TRACE_STAGE_BY_EVENT E_TRANSACTION_BINDING_FAILURE = DS_BIND"
| "TRACE_STAGE_BY_EVENT E_RISK_ASSESSED = DS_ADMIT"
| "TRACE_STAGE_BY_EVENT _ = DS_EXECUTE"

definition TRACE_REFUSALS :: "event_type list" where
  "TRACE_REFUSALS = [E_MISSION_DENIED, E_SECURITY_VIOLATION, E_AUTHORIZATION_EXPIRED, E_AUTHORIZATION_REVOKED,
     E_AUTHORIZATION_REPLAY_DETECTED, E_TRANSACTION_BINDING_FAILURE, E_IDEMPOTENCY_CONFLICT, E_WEBHOOK_REJECTED]"

definition TRACE_PENDING :: "event_type list" where
  "TRACE_PENDING = [E_APPROVAL_REQUESTED, E_AUTHORIZATION_CREATED, E_PAYMENT_QUEUED, E_PAYMENT_ATTEMPTED,
     E_PAYMENT_PROVIDER_TIMEOUT, E_PAYMENT_PROVIDER_UNCERTAIN, E_PAYMENT_RETRY_SCHEDULED, E_PAYMENT_RECONCILED]"

definition TRACE_IGNORED :: "event_type list" where
  "TRACE_IGNORED = [E_DUPLICATE_WEBHOOK_IGNORED, E_WEBHOOK_OUT_OF_ORDER_IGNORED]"

text \<open>\<open>list(dict.fromkeys(codes))\<close>: the first of several equal codes stays.\<close>

definition first_occurrences :: "string list \<Rightarrow> string list" where
  "first_occurrences codes = rev (remdups (rev codes))"

definition trace_reason_codes :: "audit_event_row \<Rightarrow> string list" where
  "trace_reason_codes event = first_occurrences
     ((case payload_get event ''reason_code'' of Some (JStr s) \<Rightarrow> [s] | _ \<Rightarrow> [])
    @ (case payload_get event ''reason_codes'' of
         Some (JList js) \<Rightarrow> concat (map (\<lambda>j. case j of JStr s \<Rightarrow> [s] | _ \<Rightarrow> []) js) | _ \<Rightarrow> []))"

definition trace_approval_scheme :: "audit_event_row \<Rightarrow> approval_scheme option" where
  "trace_approval_scheme event = (case payload_get event ''approval_scheme'' of
     Some (JStr raw) \<Rightarrow> scheme_of_text raw | _ \<Rightarrow> None)"

definition trace_policy_outcome :: "audit_event_row \<Rightarrow> policy_outcome option" where
  "trace_policy_outcome event = (if ae_event_type event \<noteq> event_text E_POLICY_DECISION then None
     else case payload_get event ''decision'' of Some (JStr raw) \<Rightarrow> outcome_of_text raw | _ \<Rightarrow> None)"

definition trace_payment_state :: "audit_event_row \<Rightarrow> payment_state option" where
  "trace_payment_state event = (case payload_get event ''state'' of
     Some (JStr raw) \<Rightarrow> payment_of_text raw | _ \<Rightarrow> None)"

definition trace_stage :: "event_type \<Rightarrow> audit_event_row \<Rightarrow> decision_stage" where
  "trace_stage event_type event =
     (if event_type = E_SECURITY_VIOLATION \<and> payload_get event ''bind_refused'' = Some (JBool True) then DS_BIND
      else TRACE_STAGE_BY_EVENT event_type)"

definition verdict_of :: "event_type \<Rightarrow> audit_event_row \<Rightarrow> trace_verdict" where
  "verdict_of event_type event =
     (if event_type = E_RISK_ASSESSED then DV_ADVISORY
      else if event_type = E_POLICY_DECISION \<and> trace_policy_outcome event = Some D_DENY then DV_REFUSED
      else if event_type = E_POLICY_DECISION \<and> trace_policy_outcome event = Some D_REQUIRE_APPROVAL then DV_PENDING
      else if event_type \<in> set TRACE_REFUSALS then DV_REFUSED
      else if event_type \<in> set TRACE_IGNORED then DV_IGNORED
      else if event_type = E_PAYMENT_SUCCEEDED then DV_SUCCEEDED
      else if event_type \<in> {E_PAYMENT_FAILED, E_OUTBOX_EVENT_DEAD_LETTERED} then DV_FAILED
      else if event_type \<in> set TRACE_PENDING then DV_PENDING
      else DV_ACCEPTED)"

definition trace_next_action :: "event_type \<Rightarrow> audit_event_row \<Rightarrow> decision_stage \<Rightarrow> next_action" where
  "trace_next_action event_type event stage =
     (if event_type = E_RISK_ASSESSED then NA_NONE
      else if event_type = E_SECURITY_VIOLATION then (if stage = DS_BIND then NA_NONE else NA_CONTINUE_ADMIT)
      else if event_type = E_POLICY_DECISION then
        (if trace_policy_outcome event = Some D_DENY then NA_NONE else NA_CONTINUE_BIND)
      else if event_type \<in> {E_MISSION_DENIED, E_AUTHORIZATION_EXPIRED, E_AUTHORIZATION_REVOKED,
          E_AUTHORIZATION_REPLAY_DETECTED, E_TRANSACTION_BINDING_FAILURE, E_IDEMPOTENCY_CONFLICT, E_WEBHOOK_REJECTED,
          E_PAYMENT_SUCCEEDED, E_OUTBOX_EVENT_DEAD_LETTERED} then NA_NONE
      else if event_type = E_APPROVAL_REQUESTED then NA_AWAIT_USER_SIGNATURE
      else if event_type = E_AUTHORIZATION_CREATED then
        (if trace_approval_scheme event = Some S_USER_ED25519 then NA_AWAIT_USER_SIGNATURE else NA_CONTINUE_BIND)
      else if event_type = E_AUTHORIZATION_ACTIVATED then NA_CREATE_PAYMENT_INTENT
      else if event_type = E_AUTHORIZATION_CONSUMED then NA_DISPATCH_PAYMENT
      else if event_type \<in> {E_PAYMENT_INTENT_CREATED, E_PAYMENT_QUEUED} then NA_DISPATCH_PAYMENT
      else if event_type \<in> {E_PAYMENT_PROVIDER_TIMEOUT, E_PAYMENT_PROVIDER_UNCERTAIN} then NA_RECONCILE_PAYMENT
      else if event_type = E_PAYMENT_RETRY_SCHEDULED then NA_RETRY_PAYMENT
      else if event_type = E_PAYMENT_FAILED then
        (if trace_payment_state event = Some P_FAILED_RETRYABLE then NA_RETRY_PAYMENT else NA_NONE)
      else if event_type = E_PAYMENT_INTENT_REUSED then
        (case trace_payment_state event of
           Some P_QUEUED \<Rightarrow> NA_DISPATCH_PAYMENT
         | Some P_PROCESSING \<Rightarrow> NA_AWAIT_PROVIDER
         | Some P_PROVIDER_PENDING \<Rightarrow> NA_AWAIT_PROVIDER
         | _ \<Rightarrow> NA_NONE)
      else if stage = DS_ADMIT then NA_CONTINUE_ADMIT
      else if stage = DS_BIND then NA_CONTINUE_BIND
      else NA_AWAIT_PROVIDER)"

text \<open>
  One entry per event. \<open>EventType(...)\<close> raises on an unknown type and the evidence reference on a
  negative sequence.
\<close>

definition trace_entry :: "audit_event_row \<Rightarrow> exn + decision_trace_entry" where
  "trace_entry event = (case event_of_text (ae_event_type event) of
     None \<Rightarrow> Inl (ValueError (py_repr (ae_event_type event) @ '' is not a valid EventType''))
   | Some event_type \<Rightarrow>
     let stage = trace_stage event_type event in
     if ae_sequence event < 0 then Inl (ValidationError ''DecisionTraceEvidenceRef'')
     else Inr \<lparr>dt_stage = stage, dt_event_type = event_type, dt_verdict = verdict_of event_type event,
       dt_reason_codes = trace_reason_codes event,
       dt_invariant_id = (case payload_get event ''invariant_id'' of Some (JStr s) \<Rightarrow> Some s | _ \<Rightarrow> None),
       dt_approval_scheme = trace_approval_scheme event, dt_policy_outcome = trace_policy_outcome event,
       dt_payment_state = trace_payment_state event, dt_advisory = (event_type = E_RISK_ASSESSED),
       dt_next_action = trace_next_action event_type event stage,
       dt_evidence = \<lparr>ev_event_id = ae_event_id event, ev_sequence = ae_sequence event, ev_actor = ae_actor event\<rparr>,
       dt_recorded_at = ae_created_at event\<rparr>)"

definition decision_trace_from_events :: "audit_event_row list \<Rightarrow> exn + decision_trace_entry list" where
  "decision_trace_from_events events = mapE trace_entry (in_sequence events)"

section \<open>Comparison and entry point\<close>

record state_comparison =
  sc_replay_state :: "string option"
  sc_persisted_state :: "string option"
  sc_matches :: bool
  sc_replay_authorization_status :: "string option"
  sc_persisted_authorization_status :: "string option"
  sc_authorization_matches :: "bool option"
  sc_replay_payment_state :: "string option"
  sc_persisted_payment_state :: "string option"
  sc_payment_matches :: "bool option"

definition compared :: "string option \<Rightarrow> string option \<Rightarrow> bool option" where
  "compared replayed persisted = (if replayed = None \<and> persisted = None then None else Some (replayed = persisted))"

definition compare_with_persisted :: "mission_projection \<Rightarrow> world \<Rightarrow> state_comparison" where
  "compare_with_persisted projection w =
     (let persisted_state = map_option (\<lambda>m. mission_text (ms_state m)) (find_mission (mp_mission_id projection) w);
          persisted_auth = map_option (\<lambda>r. auth_text (az_status r))
            (latest_by az_issued_at (filter (\<lambda>r. az_mission_id r = mp_mission_id projection) (w_authorizations w)));
          persisted_payment = map_option (\<lambda>r. payment_text (pi_state r))
            (latest_by pi_created_at (filter (\<lambda>r. pi_mission_id r = mp_mission_id projection) (w_payment_intents w)));
          replay_auth = ra_status (mp_authorization projection);
          replay_payment = rp_state (mp_payment projection)
      in \<lparr>sc_replay_state = mp_mission_state projection, sc_persisted_state = persisted_state,
          sc_matches = (mp_mission_state projection = persisted_state),
          sc_replay_authorization_status = replay_auth, sc_persisted_authorization_status = persisted_auth,
          sc_authorization_matches = compared replay_auth persisted_auth,
          sc_replay_payment_state = replay_payment, sc_persisted_payment_state = persisted_payment,
          sc_payment_matches = compared replay_payment persisted_payment\<rparr>)"

record mission_replay_result =
  mr_replay_mission_id :: uuid
  mr_audit_valid :: bool
  mr_trusted :: bool
  mr_reason_code :: replay_reason
  mr_events_replayed :: nat
  mr_verification :: verification_result
  mr_state :: "mission_projection option"
  mr_comparison :: "state_comparison option"
  mr_decision_trace :: "decision_trace_entry list"
  mr_unsupported_events :: "(int \<times> string) list"
  mr_detail :: "string option"

definition untrusted_replay :: "uuid \<Rightarrow> bool \<Rightarrow> replay_reason \<Rightarrow> verification_result \<Rightarrow> (int \<times> string) list
    \<Rightarrow> string \<Rightarrow> mission_replay_result" where
  "untrusted_replay mission_id valid reason verification unsupported detail =
     \<lparr>mr_replay_mission_id = mission_id, mr_audit_valid = valid, mr_trusted = False, mr_reason_code = reason,
      mr_events_replayed = 0, mr_verification = verification, mr_state = None, mr_comparison = None,
      mr_decision_trace = [], mr_unsupported_events = unsupported, mr_detail = Some detail\<rparr>"

definition replay_mission :: "uuid \<Rightarrow> bool \<Rightarrow> mission_replay_result db" where
  "replay_mission mission_id compare_rows =
     bind (verify_mission_chain mission_id) (\<lambda>verification.
     if \<not> vr_valid verification then
       ret (untrusted_replay mission_id False RR_REPLAY_AUDIT_INVALID verification []
         (''the audit chain did not verify; replaying it would present a ''
          @ ''reconstruction built on evidence already known to be altered''))
     else
       bind (gets (list_events mission_id)) (\<lambda>events.
       case reduce_events mission_id events of
         Inl ReplayOverflow \<Rightarrow> raise OverflowError
       | Inl (ReplayRefused reason sequence event_type detail) \<Rightarrow>
           ret (untrusted_replay mission_id True reason verification [(sequence, event_type)] detail)
       | Inr projection \<Rightarrow>
         bind (gets (compare_with_persisted projection)) (\<lambda>comparison.
         bind (lift (decision_trace_from_events events)) (\<lambda>trace.
         ret \<lparr>mr_replay_mission_id = mission_id, mr_audit_valid = True, mr_trusted = True,
           mr_reason_code = RR_REPLAY_OK, mr_events_replayed = mp_events_replayed projection,
           mr_verification = verification, mr_state = Some projection,
           mr_comparison = (if compare_rows then Some comparison else None),
           mr_decision_trace = trace, mr_unsupported_events = [], mr_detail = None\<rparr>))))"

section \<open>Advice is inert\<close>

text \<open>
  A handler that neither reads nor writes the risk assessments and the event counter. Readers of
  the payload and the parts every handler is made of are such; the collection holds the rules.
\<close>

definition blind :: "(audit_event_row \<Rightarrow> replay_state \<Rightarrow> replay_state reading) \<Rightarrow> bool" where
  "blind h \<longleftrightarrow> (\<forall>event state r n. h event (state\<lparr>st_risk_assessments := r, st_events_replayed := n\<rparr>)
     = map_sum id (\<lambda>s. s\<lparr>st_risk_assessments := r, st_events_replayed := n\<rparr>) (h event state))"

lemma map_sum_bindE: "map_sum id f (bindE m g) = bindE m (\<lambda>x. map_sum id f (g x))"
  by (cases m) simp_all

lemma blindI:
  assumes "\<And>event state r n. h event (state\<lparr>st_risk_assessments := r, st_events_replayed := n\<rparr>)
     = map_sum id (\<lambda>s. s\<lparr>st_risk_assessments := r, st_events_replayed := n\<rparr>) (h event state)"
  shows "blind h"
  using assms by (simp add: blind_def)

lemma blind_at:
  assumes "blind h"
  shows "h event (state\<lparr>st_risk_assessments := r, st_events_replayed := n\<rparr>)
     = map_sum id (\<lambda>s. s\<lparr>st_risk_assessments := r, st_events_replayed := n\<rparr>) (h event state)"
  using assms by (simp add: blind_def)

lemma blind_reading:
  assumes "\<And>x. blind (h x)"
  shows "blind (\<lambda>event state. bindE (m event) (\<lambda>x. h x event state))"
  by (rule blindI) (simp add: blind_at [OF assms] map_sum_bindE)

lemma blind_then:
  assumes "blind f" and "blind g"
  shows "blind (\<lambda>event state. bindE (f event state) (g event))"
proof (rule blindI)
  fix event state r n
  show "bindE (f event (state\<lparr>st_risk_assessments := r, st_events_replayed := n\<rparr>)) (g event)
    = map_sum id (\<lambda>s. s\<lparr>st_risk_assessments := r, st_events_replayed := n\<rparr>) (bindE (f event state) (g event))"
    by (cases "f event state") (simp_all add: blind_at [OF assms(1)] blind_at [OF assms(2)])
qed

lemma advance_blind:
  "advance event target (state\<lparr>st_risk_assessments := r, st_events_replayed := n\<rparr>)
    = (advance event target state)\<lparr>st_risk_assessments := r, st_events_replayed := n\<rparr>"
  by (cases state) (simp add: advance_def split: option.splits)

lemma blind_parts:
  "blind record_security" "blind common_payment_fields" "blind payment_state_from_payload"
  by (rule blindI; rename_tac event state r n; case_tac state; simp add: record_security_def common_payment_fields_def payment_state_from_payload_def Let_def
      map_sum_bindE split: option.splits json.splits)+

lemma blind_admission:
  "blind on_mission_created" "blind on_intent_parsed" "blind on_discovery_started" "blind on_offers_received"
  "blind on_offers_normalized" "blind on_offers_ranked" "blind on_policy_decision" "blind on_approval_requested"
  by (rule blindI; rename_tac event state r n; case_tac state; simp add: on_mission_created_def on_intent_parsed_def
      on_discovery_started_def on_offers_received_def on_offers_normalized_def on_offers_ranked_def on_policy_decision_def
      on_approval_requested_def set_authorization_id_def advance_blind [where r = r and n = n for r n, symmetric]
      map_sum_bindE cong: option.case_cong split: option.splits json.splits)+

lemma blind_authorization:
  "blind on_authorization_created" "blind on_authorization_activated" "blind on_authorization_consumed"
  "blind on_authorization_expired" "blind on_authorization_revoked"
  by (rule blindI; rename_tac event state r n; case_tac state; simp add: on_authorization_created_def
      on_authorization_activated_def on_authorization_consumed_def on_authorization_expired_def
      on_authorization_revoked_def Let_def advance_blind [where r = r and n = n for r n, symmetric]
      map_sum_bindE)+

lemma blind_pure:
  assumes "\<And>event state r n. f event (state\<lparr>st_risk_assessments := r, st_events_replayed := n\<rparr>)
     = (f event state)\<lparr>st_risk_assessments := r, st_events_replayed := n\<rparr>"
  shows "blind (\<lambda>event state. Inr (f event state))"
  by (rule blindI) (simp add: assms)

lemma blind_updates:
  "blind (\<lambda>event state. Inr (advance event target state))"
  "blind (\<lambda>event state. Inr (on_payment f state))"
  "blind (\<lambda>event state. Inr (set_authorization_id i state))"
  "blind (\<lambda>event state. Inr (if rp_state (st_payment state) = v then advance event target state else state))"
  "blind (\<lambda>event state. Inr (state\<lparr>st_policy_reason_codes := g (st_policy_reason_codes state)\<rparr>))"
  "blind (\<lambda>event state. Inr (state\<lparr>st_authorization := a (st_authorization state)\<rparr>))"
  by (rule blind_pure; rename_tac event state r n; case_tac state; simp add: advance_def on_payment_def
      set_authorization_id_def split: option.splits)+

lemmas blind_rules = blind_reading blind_then blind_parts blind_updates

lemma blind_payments:
  "blind on_payment_intent_created" "blind on_payment_queued" "blind on_payment_attempted"
  "blind on_payment_provider_timeout" "blind on_payment_provider_uncertain" "blind on_payment_retry_scheduled"
  "blind on_payment_reconciled" "blind on_payment_succeeded" "blind on_payment_failed" "blind on_payment_intent_reused"
  "blind on_idempotency_conflict" "blind on_outbox_dead_lettered" "blind on_webhook_verified" "blind on_webhook_rejected"
  "blind on_security_violation"
  unfolding on_payment_intent_created_def on_payment_queued_def on_payment_attempted_def on_payment_provider_timeout_def
    on_payment_provider_uncertain_def on_payment_retry_scheduled_def on_payment_reconciled_def on_payment_succeeded_def
    on_payment_failed_def on_payment_intent_reused_def on_idempotency_conflict_def on_outbox_dead_lettered_def
    on_webhook_verified_def on_webhook_rejected_def on_security_violation_def
  by (intro blind_rules)+

lemma blind_refusals:
  "blind on_mission_denied" "blind on_authorization_replay_detected" "blind on_transaction_binding_failure"
  "blind on_duplicate_webhook_ignored" "blind on_webhook_out_of_order_ignored"
proof -
  show "blind on_authorization_replay_detected" "blind on_transaction_binding_failure"
    by (rule blindI; rename_tac event state r n; case_tac state; simp add: on_authorization_replay_detected_def
        on_transaction_binding_failure_def record_security_def Let_def map_sum_bindE)+
  have sec: "blind (\<lambda>event state. record_security event (on_payment f state))" for f
    using blind_then [OF blind_updates(2) [of f] blind_parts(1)] by simp
  show "blind on_duplicate_webhook_ignored" "blind on_webhook_out_of_order_ignored"
    unfolding on_duplicate_webhook_ignored_def on_webhook_out_of_order_ignored_def
    by (intro blind_then blind_parts sec)+
  have "blind (\<lambda>event state. bindE (record_security event
      (state\<lparr>st_policy_reason_codes := or_list codes (st_policy_reason_codes state)\<rparr>)) (\<lambda>state. Inr (advance event M_CANCELLED state)))"
    for codes
    using blind_then [OF blind_updates(5) [of "or_list codes"] blind_then [OF blind_parts(1) blind_updates(1) [of M_CANCELLED]]]
    by simp
  then show "blind on_mission_denied"
    unfolding on_mission_denied_def by (rule blind_reading)
qed

lemma handlers_blind: "t \<noteq> E_RISK_ASSESSED \<Longrightarrow> blind (HANDLERS t)"
  by (cases t) (simp_all add: blind_admission blind_authorization blind_payments blind_refusals)

definition is_risk :: "audit_event_row \<Rightarrow> bool" where
  "is_risk event \<longleftrightarrow> ae_event_type event = event_text E_RISK_ASSESSED"

text \<open>A projection without what advice contributes to it.\<close>

definition without_advice :: "mission_projection \<Rightarrow> mission_projection" where
  "without_advice p = p\<lparr>mp_risk_assessments := [], mp_events_replayed := 0\<rparr>"

definition unadvised :: "replay_state \<Rightarrow> replay_state" where
  "unadvised s = s\<lparr>st_risk_assessments := [], st_events_replayed := 0\<rparr>"

lemma projection_unadvised: "without_advice (projection_of s) = projection_of (unadvised s)"
  by (cases s) (simp add: without_advice_def projection_of_def unadvised_def)

lemma apply_event_unadvised:
  assumes "\<not> is_risk event"
  shows "map_sum id unadvised (apply_event event state) = map_sum id unadvised (apply_event event (unadvised state))"
proof (cases "event_of_text (ae_event_type event)")
  case None
  then show ?thesis by (simp add: apply_event_def)
next
  case (Some t)
  with assms have "t \<noteq> E_RISK_ASSESSED" by (auto simp: is_risk_def event_enum.of_text_Some)
  from blind_at [OF handlers_blind [OF this]] Some show ?thesis
    by (cases "HANDLERS t event state") (auto simp: apply_event_def unadvised_def)
qed

text \<open>An advisory payload the lenient reader can take: an object, and no integer score beyond a double.\<close>

definition readable_advice :: "audit_event_row \<Rightarrow> bool" where
  "readable_advice event \<longleftrightarrow> (\<exists>ms. ae_payload event = JObj ms)
     \<and> (\<forall>i. payload_get event ''score'' = Some (JInt i) \<longrightarrow> \<bar>i\<bar> < 2 ^ 1024 - 2 ^ 970)"

lemma risk_score_Inr: "(\<exists>x. risk_score v = Inr x) \<longleftrightarrow> (\<forall>i. v = Some (JInt i) \<longrightarrow> \<bar>i\<bar> < 2 ^ 1024 - 2 ^ 970)"
  by (auto simp: risk_score_def not_le split: option.splits json.splits)

lemma apply_event_risk:
  assumes "is_risk event"
  shows "(\<exists>s. apply_event event state = Inr s) \<longleftrightarrow> readable_advice event"
    and "apply_event event state = Inr s \<Longrightarrow> unadvised s = unadvised state"
proof -
  have t: "event_of_text (ae_event_type event) = Some E_RISK_ASSESSED"
    using assms by (simp add: is_risk_def event_enum.of_text_Some)
  have obj: "(case ae_payload event of JObj _ \<Rightarrow> False | _ \<Rightarrow> True) \<longleftrightarrow> \<not> (\<exists>ms. ae_payload event = JObj ms)"
    by (simp split: json.splits)
  have run: "(\<exists>s. on_risk_assessed event state = Inr s) \<longleftrightarrow> (\<exists>x. risk_score (payload_get event ''score'') = Inr x)"
    by (simp add: on_risk_assessed_def Let_def)
  show "(\<exists>s. apply_event event state = Inr s) \<longleftrightarrow> readable_advice event"
    using run by (auto simp add: apply_event_def t obj readable_advice_def risk_score_Inr)
  show "unadvised s = unadvised state" if "apply_event event state = Inr s"
    using that by (cases state) (auto simp: apply_event_def t on_risk_assessed_def unadvised_def Let_def split: if_splits)
qed

lemma apply_event_alike:
  assumes "\<not> is_risk event" "unadvised s = unadvised t" "apply_event event s = Inr s'"
  shows "\<exists>t'. apply_event event t = Inr t' \<and> unadvised s' = unadvised t'"
proof -
  have "map_sum id unadvised (apply_event event t) = Inr (unadvised s')"
    using apply_event_unadvised [OF assms(1), of s] apply_event_unadvised [OF assms(1), of t] assms(2,3) by simp
  then show ?thesis by (cases "apply_event event t") auto
qed

lemma fold_without_advice:
  "fold_events events s = Inr s' \<Longrightarrow> unadvised s = unadvised t \<Longrightarrow>
    \<exists>t'. fold_events (filter (\<lambda>e. \<not> is_risk e) events) t = Inr t' \<and> unadvised s' = unadvised t'"
proof (induction events arbitrary: s t)
  case (Cons e es)
  from Cons.prems(1) obtain u where u: "apply_event e s = Inr u" "fold_events es u = Inr s'" by auto
  show ?case
  proof (cases "is_risk e")
    case True
    with u(1) Cons.prems(2) have "unadvised u = unadvised t" using apply_event_risk(2) by metis
    from Cons.IH [OF u(2) this] True show ?thesis by simp
  next
    case False
    from apply_event_alike [OF False Cons.prems(2) u(1)] obtain v where
      "apply_event e t = Inr v" "unadvised u = unadvised v" by blast
    with Cons.IH [OF u(2)] False show ?thesis by simp
  qed
qed simp

lemma fold_with_advice:
  "fold_events (filter (\<lambda>e. \<not> is_risk e) events) t = Inr t' \<Longrightarrow> unadvised s = unadvised t
    \<Longrightarrow> \<forall>e \<in> set events. is_risk e \<longrightarrow> readable_advice e
    \<Longrightarrow> \<exists>s'. fold_events events s = Inr s' \<and> unadvised s' = unadvised t'"
proof (induction events arbitrary: s t)
  case (Cons e es)
  show ?case
  proof (cases "is_risk e")
    case True
    with Cons.prems(3) obtain u where u: "apply_event e s = Inr u" using apply_event_risk(1) [OF True] by auto
    then have "unadvised u = unadvised t" using apply_event_risk(2) [OF True u] Cons.prems(2) by simp
    with Cons.IH [of t u] Cons.prems True u show ?thesis by simp
  next
    case False
    with Cons.prems(1) obtain v where v: "apply_event e t = Inr v" "fold_events (filter (\<lambda>e. \<not> is_risk e) es) v = Inr t'"
      by auto
    from apply_event_alike [OF False Cons.prems(2) [symmetric] v(1)] obtain u where
      "apply_event e s = Inr u" "unadvised v = unadvised u" by blast
    with Cons.IH [OF v(2)] Cons.prems(3) show ?thesis by simp
  qed
qed simp

lemma in_sequence_filter: "in_sequence (filter P events) = filter P (in_sequence events)"
  by (simp add: in_sequence_def filter_sort)

text \<open>
  C35. Advice is inert: removing every RISK_ASSESSED event from a history changes nothing in its
  projection but the list of assessments and the count of events, and adding them never makes a
  replay fail, except for an integer score beyond the range of a double or a payload that is no object.
\<close>

theorem advice_never_moves_a_reconstruction:
  "(\<forall>p. reduce_events m events = Inr p \<longrightarrow>
       (\<exists>q. reduce_events m (filter (\<lambda>e. \<not> is_risk e) events) = Inr q \<and> without_advice q = without_advice p))
    \<and> (\<forall>q. reduce_events m (filter (\<lambda>e. \<not> is_risk e) events) = Inr q \<and> (\<forall>e \<in> set events. is_risk e \<longrightarrow> readable_advice e) \<longrightarrow>
       (\<exists>p. reduce_events m events = Inr p \<and> without_advice q = without_advice p))"
proof (intro conjI allI impI)
  fix p assume "reduce_events m events = Inr p"
  then obtain s where s: "fold_events (in_sequence events) (ReplayState m) = Inr s" "p = projection_of s"
    by (auto simp: reduce_events_def)
  from fold_without_advice [OF s(1) refl] s(2)
  show "\<exists>q. reduce_events m (filter (\<lambda>e. \<not> is_risk e) events) = Inr q \<and> without_advice q = without_advice p"
    by (auto simp: reduce_events_def in_sequence_filter projection_unadvised)
next
  fix q assume q: "reduce_events m (filter (\<lambda>e. \<not> is_risk e) events) = Inr q \<and> (\<forall>e \<in> set events. is_risk e \<longrightarrow> readable_advice e)"
  then obtain t where t: "fold_events (filter (\<lambda>e. \<not> is_risk e) (in_sequence events)) (ReplayState m) = Inr t"
    "q = projection_of t"
    by (auto simp: reduce_events_def in_sequence_filter)
  from fold_with_advice [OF t(1) refl] q t(2)
  show "\<exists>p. reduce_events m events = Inr p \<and> without_advice q = without_advice p"
    by (auto simp: reduce_events_def projection_unadvised in_sequence_def)
qed

definition history_event :: "int \<Rightarrow> event_type \<Rightarrow> payload \<Rightarrow> audit_event_row" where
  "history_event n t p = \<lparr>ae_event_id = of_int n, ae_mission_id = 1, ae_sequence = n, ae_event_type = event_text t,
     ae_actor = ''orchestrator'', ae_payload = JObj p, ae_previous_hash = GENESIS_HASH, ae_event_hash = GENESIS_HASH,
     ae_created_at = 0\<rparr>"

definition sample_history :: "audit_event_row list" where
  "sample_history = [history_event 1 E_RISK_ASSESSED [(''score'', JFloat ''0.4''), (''band'', JStr ''LOW'')],
     history_event 0 E_MISSION_CREATED [(''raw_query'', JStr ''earbuds''), (''quantity'', JInt 2)]]"

lemma sample_history_reduces:
  "\<exists>p. reduce_events 1 sample_history = Inr p \<and> mp_mission_state p = Some ''CREATED'' \<and> mp_quantity p = Some 2
     \<and> length (mp_risk_assessments p) = 1"
  by (simp add: reduce_events_def in_sequence_def sample_history_def history_event_def apply_event_def
      event_of_text_def event_all_def on_mission_created_def on_risk_assessed_def risk_score_def opt_str_def opt_int_def
      payload_get_def payload_of_def jget_def Let_def ReplayState_def advance_def projection_of_def)

theorem advice_never_moves_a_reconstruction_witness:
  "\<exists>p. reduce_events 1 sample_history = Inr p \<and> mp_mission_state p = Some ''CREATED'' \<and> mp_quantity p = Some 2
     \<and> length (mp_risk_assessments p) = 1
     \<and> (\<exists>q. reduce_events 1 (filter (\<lambda>e. \<not> is_risk e) sample_history) = Inr q \<and> without_advice q = without_advice p)"
proof -
  obtain p where p: "reduce_events 1 sample_history = Inr p" "mp_mission_state p = Some ''CREATED''" "mp_quantity p = Some 2"
    "length (mp_risk_assessments p) = 1"
    using sample_history_reduces by blast
  with advice_never_moves_a_reconstruction [of 1 sample_history] show ?thesis by blast
qed

section \<open>The replayed mission follows the state machine\<close>

text \<open>The abstract reducer: the state an event of a type asks for, and a guarded move to it.\<close>

fun target_of :: "event_type \<Rightarrow> mission_state option" where
  "target_of E_MISSION_CREATED = Some M_CREATED"
| "target_of E_INTENT_PARSED = Some M_INTENT_PARSED"
| "target_of E_DISCOVERY_STARTED = Some M_DISCOVERING"
| "target_of E_OFFERS_RECEIVED = Some M_OFFERS_RECEIVED"
| "target_of E_OFFERS_NORMALIZED = Some M_OFFERS_NORMALIZED"
| "target_of E_OFFERS_RANKED = Some M_RANKED"
| "target_of E_POLICY_DECISION = Some M_POLICY_CHECKED"
| "target_of E_APPROVAL_REQUESTED = Some M_AWAITING_APPROVAL"
| "target_of E_MISSION_DENIED = Some M_CANCELLED"
| "target_of E_AUTHORIZATION_ACTIVATED = Some M_AUTHORIZED"
| "target_of E_PAYMENT_QUEUED = Some M_PAYMENT_PENDING"
| "target_of E_PAYMENT_SUCCEEDED = Some M_PAYMENT_SUCCEEDED"
| "target_of E_PAYMENT_FAILED = Some M_PAYMENT_FAILED"
| "target_of _ = None"

definition moved :: "mission_state option \<Rightarrow> mission_state option \<Rightarrow> mission_state option" where
  "moved target current = (case target of None \<Rightarrow> current | Some t \<Rightarrow>
     (case current of None \<Rightarrow> Some t | Some c \<Rightarrow> if mission_can_transition c t then Some t else Some c))"

lemma advance_moves: "st_mission_state (advance e t s) = moved (Some t) (st_mission_state s)"
  by (simp add: advance_def moved_def split: option.splits)

lemma parts_keep_mission:
  "common_payment_fields e s = Inr s' \<Longrightarrow> st_mission_state s' = st_mission_state s"
  "payment_state_from_payload e s = Inr s' \<Longrightarrow> st_mission_state s' = st_mission_state s"
  "record_security e s = Inr s' \<Longrightarrow> st_mission_state s' = st_mission_state s"
  "st_mission_state (on_payment f s) = st_mission_state s"
  "st_mission_state (set_authorization_id i s) = st_mission_state s"
  by (auto simp: common_payment_fields_def payment_state_from_payload_def record_security_def Let_def on_payment_def
      set_authorization_id_def split: option.splits json.splits)

lemma moved_None [simp]: "moved None c = c"
  by (simp add: moved_def)

lemma admission_moves:
  "on_mission_created e s = Inr s' \<Longrightarrow> st_mission_state s' = moved (Some M_CREATED) (st_mission_state s)"
  "on_intent_parsed e s = Inr s' \<Longrightarrow> st_mission_state s' = moved (Some M_INTENT_PARSED) (st_mission_state s)"
  "on_discovery_started e s = Inr s' \<Longrightarrow> st_mission_state s' = moved (Some M_DISCOVERING) (st_mission_state s)"
  "on_offers_received e s = Inr s' \<Longrightarrow> st_mission_state s' = moved (Some M_OFFERS_RECEIVED) (st_mission_state s)"
  "on_offers_normalized e s = Inr s' \<Longrightarrow> st_mission_state s' = moved (Some M_OFFERS_NORMALIZED) (st_mission_state s)"
  "on_offers_ranked e s = Inr s' \<Longrightarrow> st_mission_state s' = moved (Some M_RANKED) (st_mission_state s)"
  "on_approval_requested e s = Inr s' \<Longrightarrow> st_mission_state s' = moved (Some M_AWAITING_APPROVAL) (st_mission_state s)"
  "on_mission_denied e s = Inr s' \<Longrightarrow> st_mission_state s' = moved (Some M_CANCELLED) (st_mission_state s)"
  "on_security_violation e s = Inr s' \<Longrightarrow> st_mission_state s' = st_mission_state s"
  by (auto simp: on_mission_created_def on_intent_parsed_def on_discovery_started_def on_offers_received_def
      on_offers_normalized_def on_offers_ranked_def on_approval_requested_def on_mission_denied_def
      on_security_violation_def advance_moves parts_keep_mission split: option.splits json.splits
      dest!: parts_keep_mission(3))

lemma decision_moves:
  "on_policy_decision e s = Inr s' \<Longrightarrow> st_mission_state s' = moved (Some M_POLICY_CHECKED) (st_mission_state s)"
  by (auto simp: on_policy_decision_def advance_moves)

lemma authorization_moves:
  "on_authorization_created e s = Inr s' \<Longrightarrow> st_mission_state s' = st_mission_state s"
  "on_authorization_activated e s = Inr s' \<Longrightarrow> st_mission_state s' = moved (Some M_AUTHORIZED) (st_mission_state s)"
  "on_authorization_consumed e s = Inr s' \<Longrightarrow> st_mission_state s' = st_mission_state s"
  "on_authorization_expired e s = Inr s' \<Longrightarrow> st_mission_state s' = st_mission_state s"
  "on_authorization_revoked e s = Inr s' \<Longrightarrow> st_mission_state s' = st_mission_state s"
  "on_authorization_replay_detected e s = Inr s' \<Longrightarrow> st_mission_state s' = st_mission_state s"
  "on_transaction_binding_failure e s = Inr s' \<Longrightarrow> st_mission_state s' = st_mission_state s"
  by (auto simp: on_authorization_created_def on_authorization_activated_def on_authorization_consumed_def
      on_authorization_expired_def on_authorization_revoked_def on_authorization_replay_detected_def
      on_transaction_binding_failure_def Let_def advance_moves dest!: parts_keep_mission(3))

lemma payment_moves:
  "on_payment_intent_created e s = Inr s' \<Longrightarrow> st_mission_state s' = st_mission_state s"
  "on_payment_queued e s = Inr s' \<Longrightarrow> st_mission_state s' = moved (Some M_PAYMENT_PENDING) (st_mission_state s)"
  "on_payment_attempted e s = Inr s' \<Longrightarrow> st_mission_state s' = st_mission_state s"
  "on_payment_provider_timeout e s = Inr s' \<Longrightarrow> st_mission_state s' = st_mission_state s"
  "on_payment_provider_uncertain e s = Inr s' \<Longrightarrow> st_mission_state s' = st_mission_state s"
  "on_payment_retry_scheduled e s = Inr s' \<Longrightarrow> st_mission_state s' = st_mission_state s"
  "on_payment_reconciled e s = Inr s' \<Longrightarrow> st_mission_state s' = st_mission_state s"
  "on_payment_succeeded e s = Inr s' \<Longrightarrow> st_mission_state s' = moved (Some M_PAYMENT_SUCCEEDED) (st_mission_state s)"
  "on_payment_intent_reused e s = Inr s' \<Longrightarrow> st_mission_state s' = st_mission_state s"
  "on_idempotency_conflict e s = Inr s' \<Longrightarrow> st_mission_state s' = st_mission_state s"
  "on_outbox_dead_lettered e s = Inr s' \<Longrightarrow> st_mission_state s' = st_mission_state s"
  "on_webhook_verified e s = Inr s' \<Longrightarrow> st_mission_state s' = st_mission_state s"
  "on_webhook_rejected e s = Inr s' \<Longrightarrow> st_mission_state s' = st_mission_state s"
  "on_duplicate_webhook_ignored e s = Inr s' \<Longrightarrow> st_mission_state s' = st_mission_state s"
  "on_webhook_out_of_order_ignored e s = Inr s' \<Longrightarrow> st_mission_state s' = st_mission_state s"
  "on_risk_assessed e s = Inr s' \<Longrightarrow> st_mission_state s' = st_mission_state s"
  by (auto simp: on_payment_intent_created_def on_payment_queued_def on_payment_attempted_def
      on_payment_provider_timeout_def on_payment_provider_uncertain_def on_payment_retry_scheduled_def
      on_payment_reconciled_def on_payment_succeeded_def on_payment_intent_reused_def on_idempotency_conflict_def
      on_outbox_dead_lettered_def on_webhook_verified_def on_webhook_rejected_def on_duplicate_webhook_ignored_def
      on_webhook_out_of_order_ignored_def on_risk_assessed_def Let_def advance_moves parts_keep_mission(4,5)
      dest!: parts_keep_mission(1-3))

lemma advance_payment [simp]: "st_payment (advance e t s) = st_payment s"
  by (simp add: advance_def split: option.splits)

lemma failed_moves:
  assumes "on_payment_failed e s = Inr s'"
  shows "st_mission_state s' = moved
     (if rp_state (st_payment s') = Some (payment_text P_FAILED_TERMINAL) then Some M_PAYMENT_FAILED else None) (st_mission_state s)"
proof -
  from assms obtain u where u: "st_mission_state u = st_mission_state s"
    "s' = (if rp_state (st_payment u) = Some (payment_text P_FAILED_TERMINAL) then advance e M_PAYMENT_FAILED u else u)"
    by (auto simp: on_payment_failed_def dest!: parts_keep_mission(1,2))
  then show ?thesis by (simp add: advance_moves)
qed

lemma handlers_move:
  assumes "HANDLERS t e s = Inr s'"
  shows "st_mission_state s' = moved (if t = E_PAYMENT_FAILED
      \<and> rp_state (st_payment s') \<noteq> Some (payment_text P_FAILED_TERMINAL) then None else target_of t) (st_mission_state s)"
proof (cases "t = E_PAYMENT_FAILED")
  case True
  with assms failed_moves show ?thesis by fastforce
next
  case False
  with assms show ?thesis
    by (cases t) (simp_all only: HANDLERS.simps target_of.simps admission_moves decision_moves authorization_moves
        payment_moves moved_None event_type.distinct simp_thms if_False)
qed

lemma apply_event_moves:
  assumes "apply_event e s = Inr s'"
  obtains t where "event_of_text (ae_event_type e) = Some t"
    and "st_mission_state s' = moved (if t = E_PAYMENT_FAILED
      \<and> rp_state (st_payment s') \<noteq> Some (payment_text P_FAILED_TERMINAL) then None else target_of t) (st_mission_state s)"
  using assms by (force simp: apply_event_def dest: handlers_move split: option.splits if_splits)

lemma moved_legal: "moved (Some t) (Some c) = Some d \<Longrightarrow> d = c \<or> mission_can_transition c d"
  by (auto simp: moved_def split: if_splits)

inductive mission_path :: "mission_state \<Rightarrow> mission_state \<Rightarrow> bool" where
  path_here: "mission_path s s"
| path_step: "mission_path s t \<Longrightarrow> mission_can_transition t u \<Longrightarrow> mission_path s u"

lemma moved_path: "mission_path a c \<Longrightarrow> moved target (Some c) = Some d \<Longrightarrow> mission_path a d"
  by (cases target) (auto dest!: moved_legal intro: mission_path.intros)

lemma moved_Some: "\<exists>d. moved target (Some c) = Some d"
  by (simp add: moved_def split: option.splits)

lemma fold_path:
  "fold_events events s = Inr s' \<Longrightarrow> st_mission_state s = Some c \<Longrightarrow> mission_path a c
    \<Longrightarrow> \<exists>d. st_mission_state s' = Some d \<and> mission_path a d"
proof (induction events arbitrary: s c)
  case (Cons e es)
  from Cons.prems(1) obtain u where u: "apply_event e s = Inr u" "fold_events es u = Inr s'" by auto
  from u(1) obtain target where "st_mission_state u = moved target (st_mission_state s)" by (blast elim: apply_event_moves)
  with Cons.prems(2,3) obtain d where "st_mission_state u = Some d" "mission_path a d"
    using moved_Some [of target c] moved_path [of a c target] by fastforce
  from Cons.IH [OF u(2) this] show ?case .
qed simp

lemma handlers_count:
  assumes "HANDLERS t e s = Inr s'"
  shows "st_events_replayed s' = st_events_replayed s"
proof (cases "t = E_RISK_ASSESSED")
  case True
  with assms show ?thesis by (auto simp: on_risk_assessed_def Let_def)
next
  case False
  have "s\<lparr>st_risk_assessments := st_risk_assessments s, st_events_replayed := st_events_replayed s\<rparr> = s" by simp
  with blind_at [OF handlers_blind [OF False], where event = e and state = s and r = "st_risk_assessments s" and n = "st_events_replayed s"] assms
  have "s' = s'\<lparr>st_risk_assessments := st_risk_assessments s, st_events_replayed := st_events_replayed s\<rparr>" by simp
  then have "st_events_replayed s' = st_events_replayed (s'\<lparr>st_risk_assessments := st_risk_assessments s,
      st_events_replayed := st_events_replayed s\<rparr>)" by simp
  then show ?thesis by simp
qed

lemma fold_count:
  "fold_events events s = Inr s' \<Longrightarrow> st_events_replayed s' = st_events_replayed s + length events
    \<and> (\<forall>e \<in> set events. event_of_text (ae_event_type e) \<noteq> None)"
proof (induction events arbitrary: s)
  case (Cons e es)
  then obtain u where u: "apply_event e s = Inr u" "fold_events es u = Inr s'" by auto
  have "st_events_replayed u = Suc (st_events_replayed s)" "event_of_text (ae_event_type e) \<noteq> None"
    using u(1) by (auto simp: apply_event_def dest: handlers_count split: option.splits if_splits)
  with Cons.IH [OF u(2)] show ?case by simp
qed simp

text \<open>No reader but the one of the risk score raises anything but a refusal.\<close>

definition refusing :: "'a reading \<Rightarrow> bool" where
  "refusing m \<longleftrightarrow> m \<noteq> Inl ReplayOverflow"

lemma refusing_bind: "refusing m \<Longrightarrow> (\<And>x. refusing (f x)) \<Longrightarrow> refusing (bindE m f)"
  by (cases m) (simp_all add: refusing_def)

lemma refusing_readers:
  "refusing (Inr x)" "refusing (Inl (refuse e d))" "refusing (opt_str e k)" "refusing (opt_int e k)"
  "refusing (opt_str_list e k)" "refusing (payment_state_from_payload e s)"
  by (simp_all add: refusing_def opt_str_def opt_int_def opt_str_list_def refuse_def payment_state_from_payload_def
      split: option.splits json.splits)

lemma refusing_parts: "refusing (opt_approval_scheme e)" "refusing (record_security e s)" "refusing (common_payment_fields e s)"
  unfolding opt_approval_scheme_def record_security_def common_payment_fields_def Let_def
  by (intro refusing_bind refusing_readers; simp add: refusing_readers split: option.splits if_splits)+

lemmas refusing_rules = refusing_bind refusing_readers refusing_parts

lemma refusing_decision:
  "refusing (case d of None \<Rightarrow> Inr x | Some d \<Rightarrow> (case outcome_of_text d of Some out \<Rightarrow> Inr (g out) | None \<Rightarrow> Inl (refuse e (h d))))"
  by (simp add: refusing_readers split: option.splits)

lemma handlers_refuse: "t \<noteq> E_RISK_ASSESSED \<Longrightarrow> refusing (HANDLERS t e s)"
  by (cases t; simp only: HANDLERS.simps on_mission_created_def on_discovery_started_def
      on_offers_received_def on_offers_normalized_def on_offers_ranked_def on_policy_decision_def on_approval_requested_def
      on_mission_denied_def on_security_violation_def on_authorization_created_def on_authorization_activated_def
      on_authorization_consumed_def on_authorization_expired_def on_authorization_revoked_def
      on_authorization_replay_detected_def on_transaction_binding_failure_def on_payment_intent_created_def
      on_payment_queued_def on_payment_attempted_def on_payment_provider_timeout_def on_payment_provider_uncertain_def
      on_payment_retry_scheduled_def on_payment_reconciled_def on_payment_succeeded_def on_payment_failed_def
      on_payment_intent_reused_def on_idempotency_conflict_def on_outbox_dead_lettered_def on_webhook_verified_def
      on_webhook_rejected_def on_duplicate_webhook_ignored_def on_webhook_out_of_order_ignored_def Let_def;
      (intro refusing_rules refusing_decision | simp add: on_intent_parsed_def refusing_readers split: option.splits json.splits)?)

lemma fold_overflow:
  "fold_events events s = Inl ReplayOverflow \<Longrightarrow> \<exists>e \<in> set events. is_risk e \<and> \<not> readable_advice e"
proof (induction events arbitrary: s)
  case (Cons e es)
  show ?case
  proof (cases "apply_event e s")
    case (Inr u)
    with Cons show ?thesis by auto
  next
    case (Inl x)
    with Cons.prems have x: "apply_event e s = Inl ReplayOverflow" by simp
    then obtain t where t: "event_of_text (ae_event_type e) = Some t" "HANDLERS t e s = Inl ReplayOverflow"
      by (auto simp: apply_event_def refuse_def bindE_def split: option.splits if_splits sum.splits)
    then have "t = E_RISK_ASSESSED" using handlers_refuse [of t e s] by (auto simp: refusing_def)
    with t(1) have "is_risk e" by (simp add: is_risk_def event_enum.of_text_Some)
    moreover from this x have "\<not> readable_advice e" using apply_event_risk(1) [of e s] by auto
    ultimately show ?thesis by auto
  qed
qed simp

lemma trace_entry_known:
  "event_of_text (ae_event_type e) = Some t \<Longrightarrow> 0 \<le> ae_sequence e \<Longrightarrow>
    \<exists>d. trace_entry e = Inr d \<and> ev_sequence (dt_evidence d) = ae_sequence e \<and> event_text (dt_event_type d) = ae_event_type e"
  by (simp add: trace_entry_def Let_def) (simp add: event_enum.of_text_Some)

lemma decision_trace_of_intact:
  assumes i: "intact events" and known: "\<forall>e \<in> set events. event_of_text (ae_event_type e) \<noteq> None"
  shows "\<exists>trace. mapE trace_entry events = Inr trace \<and> map (\<lambda>d. ev_sequence (dt_evidence d)) trace = map ae_sequence events
    \<and> map (\<lambda>d. event_text (dt_event_type d)) trace = map ae_event_type events"
proof -
  have "\<forall>e \<in> set events. 0 \<le> ae_sequence e" using i by (simp add: intact_def well_shaped_def)
  with known show ?thesis
  proof (induction events)
    case (Cons e es)
    from Cons.prems obtain t where "event_of_text (ae_event_type e) = Some t" by auto
    with Cons.prems trace_entry_known obtain d where "trace_entry e = Inr d" "ev_sequence (dt_evidence d) = ae_sequence e"
      "event_text (dt_event_type d) = ae_event_type e" by (metis list.set_intros(1))
    moreover from Cons obtain trace where "mapE trace_entry es = Inr trace"
      "map (\<lambda>d. ev_sequence (dt_evidence d)) trace = map ae_sequence es"
      "map (\<lambda>d. event_text (dt_event_type d)) trace = map ae_event_type es" by auto
    ultimately show ?case by simp
  qed simp
qed

lemma in_sequence_verify_key: "in_sequence events = sort_key verify_key events"
  by (simp add: in_sequence_def verify_key_def [abs_def])

lemma replay_runs:
  "replay_mission m c w = (let v = verify_events m (list_events m w); events = list_events m w in
     if \<not> intact (in_sequence events) then (Inr (untrusted_replay m False RR_REPLAY_AUDIT_INVALID v []
         (''the audit chain did not verify; replaying it would present a ''
          @ ''reconstruction built on evidence already known to be altered'')), w)
     else case reduce_events m events of
       Inl ReplayOverflow \<Rightarrow> (Inl OverflowError, w)
     | Inl (ReplayRefused reason n t d) \<Rightarrow> (Inr (untrusted_replay m True reason v [(n, t)] d), w)
     | Inr p \<Rightarrow> (case decision_trace_from_events events of Inl e \<Rightarrow> (Inl e, w)
       | Inr trace \<Rightarrow> (Inr \<lparr>mr_replay_mission_id = m, mr_audit_valid = True, mr_trusted = True,
           mr_reason_code = RR_REPLAY_OK, mr_events_replayed = mp_events_replayed p,
           mr_verification = v, mr_state = Some p,
           mr_comparison = (if c then Some (compare_with_persisted p w) else None),
           mr_decision_trace = trace, mr_unsupported_events = [], mr_detail = None\<rparr>, w)))"
  by (simp add: replay_mission_def verify_mission_chain_def session_defs Let_def verify_events_valid_iff in_sequence_verify_key
      split: sum.splits replay_error.splits)

lemma in_sequence_length [simp]: "length (in_sequence events) = length events" "set (in_sequence events) = set events"
  by (simp_all add: in_sequence_def)

text \<open>The audit trail of a mission, in the order of the chain.\<close>

definition history :: "uuid \<Rightarrow> world \<Rightarrow> audit_event_row list" where
  "history m w = in_sequence (list_events m w)"

text \<open>
  C34. Replay is gated and complete. It writes nothing. It returns a projection and a trace exactly
  when the chain verifies and every event can be interpreted; then the projection has folded every
  event of the mission, and the trace has one entry per event, in the order of the chain. In every
  other case there is no projection, no comparison and no trace. It raises only on an advisory score
  that no double can hold.
\<close>

theorem trusted_replay_accounts_for_every_event:
  assumes run: "replay_mission m c w = (res, w')"
  shows "w' = w
    \<and> (\<forall>r. res = Inr r \<longrightarrow> (mr_trusted r \<longleftrightarrow> intact (history m w) \<and> (\<exists>p. reduce_events m (list_events m w) = Inr p))
        \<and> (if mr_trusted r then \<exists>p. mr_state r = Some p \<and> reduce_events m (list_events m w) = Inr p
             \<and> mp_events_replayed p = length (history m w)
             \<and> map (\<lambda>d. ev_sequence (dt_evidence d)) (mr_decision_trace r) = map int [0..<length (history m w)]
             \<and> map (\<lambda>d. event_text (dt_event_type d)) (mr_decision_trace r) = map ae_event_type (history m w)
           else mr_state r = None \<and> mr_comparison r = None \<and> mr_decision_trace r = []))
    \<and> (\<forall>x. res = Inl x \<longrightarrow> x = OverflowError \<and> (\<exists>e \<in> set (history m w). is_risk e \<and> \<not> readable_advice e))"
proof -
  let ?es = "list_events m w"
  define events where "events = history m w"
  then have eq: "in_sequence ?es = events" "history m w = events" by (simp_all add: history_def)
  have w': "w' = w" using run by (auto simp: replay_runs Let_def split: if_splits sum.splits replay_error.splits)
  have run: "replay_mission m c w = (res, w)" using run w' by simp
  show ?thesis
  proof (cases "intact events")
    case False
    with run w' show ?thesis by (auto simp: replay_runs Let_def untrusted_replay_def eq)
  next
    case True
    then have seq: "map ae_sequence events = map int [0..<length events]" by (simp add: intact_def)
    show ?thesis
    proof (cases "reduce_events m ?es")
      case (Inl x)
      show ?thesis
      proof (cases x)
        case ReplayOverflow
        with Inl have "fold_events events (ReplayState m) = Inl ReplayOverflow"
          by (auto simp: reduce_events_def eq bindE_def split: sum.splits)
        from fold_overflow [OF this] run w' True Inl ReplayOverflow show ?thesis
          by (auto simp: replay_runs Let_def eq)
      next
        case (ReplayRefused reason n t d)
        with run w' True Inl show ?thesis by (auto simp: replay_runs Let_def untrusted_replay_def eq)
      qed
    next
      case (Inr p)
      then obtain s where s: "fold_events events (ReplayState m) = Inr s" "p = projection_of s"
        by (auto simp: reduce_events_def eq)
      from fold_count [OF s(1)] have n: "mp_events_replayed p = length events"
        and known: "\<forall>e \<in> set events. event_of_text (ae_event_type e) \<noteq> None"
        by (simp_all add: s(2) projection_of_def ReplayState_def)
      from decision_trace_of_intact [OF True known] obtain trace where "decision_trace_from_events ?es = Inr trace"
        "map (\<lambda>d. ev_sequence (dt_evidence d)) trace = map int [0..<length events]"
        "map (\<lambda>d. event_text (dt_event_type d)) trace = map ae_event_type events"
        by (auto simp: decision_trace_from_events_def eq seq)
      with run w' True Inr n show ?thesis by (auto simp: replay_runs Let_def eq)
    qed
  qed
qed

definition recorded_world :: world where
  "recorded_world = empty_world\<lparr>w_audit_events := [sample_event [(''quantity'', JInt 2)]]\<rparr>"

lemma recorded_history: "list_events 1 recorded_world = [sample_event [(''quantity'', JInt 2)]]"
  "history 1 recorded_world = [sample_event [(''quantity'', JInt 2)]]"
  by (simp_all add: recorded_world_def list_events_def history_def in_sequence_def sample_event_def next_row_simps)

lemma recorded_reduces:
  "\<exists>p. reduce_events 1 (list_events 1 recorded_world) = Inr p \<and> mp_mission_state p = Some ''CREATED''"
  by (simp add: recorded_history reduce_events_def in_sequence_def sample_event_def next_row_def apply_event_def
      event_of_text_def event_all_def on_mission_created_def opt_str_def opt_int_def payload_get_def payload_of_def jget_def
      Let_def ReplayState_def advance_def projection_of_def)

theorem trusted_replay_accounts_for_every_event_witness:
  "\<exists>r. replay_mission 1 True recorded_world = (Inr r, recorded_world) \<and> mr_trusted r \<and> length (mr_decision_trace r) = 1"
proof -
  obtain res w' where run: "replay_mission 1 True recorded_world = (res, w')" by fastforce
  note gate = trusted_replay_accounts_for_every_event [OF run]
  have "\<not> is_risk (sample_event p)" for p by (simp add: is_risk_def sample_event_def next_row_def Let_def)
  with gate obtain r where r: "res = Inr r" by (cases res) (auto simp: recorded_history)
  with gate recorded_reduces sample_event_intact have t: "mr_trusted r" by (auto simp: recorded_history)
  with gate r have "map (\<lambda>d. ev_sequence (dt_evidence d)) (mr_decision_trace r) = map int [0..<1]"
    by (auto simp: recorded_history)
  then have "length (mr_decision_trace r) = 1" using map_eq_imp_length_eq by fastforce
  with run gate r t show ?thesis by simp
qed

lemma reduce_events_perm:
  assumes "mset events = mset events'" and "keyed ae_event_id events"
  shows "reduce_events m events = reduce_events m events'"
  using sort_key_perm [OF assms(1) keyed_verify_key [OF assms(2)]]
  by (simp add: reduce_events_def in_sequence_verify_key)




lemma parts_keep_id [simp]:
  "st_mission_id (advance e t s) = st_mission_id s"
  "st_mission_id (on_payment f s) = st_mission_id s"
  "st_mission_id (set_authorization_id i s) = st_mission_id s"
  by (simp_all add: advance_def on_payment_def set_authorization_id_def split: option.splits)

lemma readers_keep_id:
  "common_payment_fields e s = Inr s' \<Longrightarrow> st_mission_id s' = st_mission_id s"
  "payment_state_from_payload e s = Inr s' \<Longrightarrow> st_mission_id s' = st_mission_id s"
  "record_security e s = Inr s' \<Longrightarrow> st_mission_id s' = st_mission_id s"
  by (auto simp: common_payment_fields_def payment_state_from_payload_def record_security_def Let_def
      split: option.splits json.splits)

lemma decision_keeps_id: "on_policy_decision e s = Inr s' \<Longrightarrow> st_mission_id s' = st_mission_id s"
  by (auto simp: on_policy_decision_def)

lemma handlers_mission_id: "HANDLERS t e s = Inr s' \<Longrightarrow> st_mission_id s' = st_mission_id s"
  by (cases t; simp only: HANDLERS.simps on_mission_created_def on_discovery_started_def on_intent_parsed_def
      on_offers_received_def on_offers_normalized_def on_offers_ranked_def on_approval_requested_def
      on_mission_denied_def on_security_violation_def on_authorization_created_def on_authorization_activated_def
      on_authorization_consumed_def on_authorization_expired_def on_authorization_revoked_def
      on_authorization_replay_detected_def on_transaction_binding_failure_def on_payment_intent_created_def
      on_payment_queued_def on_payment_attempted_def on_payment_provider_timeout_def on_payment_provider_uncertain_def
      on_payment_retry_scheduled_def on_payment_reconciled_def on_payment_succeeded_def on_payment_failed_def
      on_payment_intent_reused_def on_idempotency_conflict_def on_outbox_dead_lettered_def on_webhook_verified_def
      on_webhook_rejected_def on_duplicate_webhook_ignored_def on_webhook_out_of_order_ignored_def on_risk_assessed_def
      Let_def; auto dest!: readers_keep_id decision_keeps_id split: option.splits json.splits if_splits)

lemma fold_mission_id: "fold_events events s = Inr s' \<Longrightarrow> st_mission_id s' = st_mission_id s"
proof (induction events arbitrary: s)
  case (Cons e es)
  then obtain u where u: "apply_event e s = Inr u" "fold_events es u = Inr s'" by auto
  then have "st_mission_id u = st_mission_id s"
    by (auto simp: apply_event_def dest: handlers_mission_id split: option.splits if_splits)
  with Cons.IH [OF u(2)] show ?case by simp
qed simp

lemma intact_in_sequence: "intact es \<Longrightarrow> in_sequence es = es"
  by (simp add: in_sequence_verify_key sorted_by_verify_key intact_def)

end
