(* ===== verification/FloatText.thy ===== *)
theory FloatText
  imports Prelude Floats
begin

text \<open>
  \<open>float.__repr__\<close>: the shortest decimal that rounds to the double, the nearest of several, in
  positional notation when its decimal point lies between the places -3 and 16.
\<close>

text \<open>The exponent \<open>e\<close> with \<open>10 ^ e \<le> x < 10 ^ (e + 1)\<close>, for positive \<open>x\<close>.\<close>

definition decimal_exponent :: "rat \<Rightarrow> int" where
  "decimal_exponent x = (let (p, q) = quotient_of x; e = int (length (dec_nat p)) - int (length (dec_nat q)) in
     if x < 10 powi e then e - 1 else e)"

text \<open>The integer \<open>m\<close> with \<open>n\<close> digits that names \<open>x\<close> as \<open>m * s\<close>, if one rounds to \<open>x\<close>.\<close>

definition decimal_candidate :: "rat \<Rightarrow> rat \<Rightarrow> int option" where
  "decimal_candidate x s =
     (let lo = \<lfloor>x / s\<rfloor>; hi = lo + 1; d = x / s - of_int lo;
          lo_ok = (fl (of_int lo * s) = x); hi_ok = (fl (of_int hi * s) = x) in
      if lo_ok \<and> (\<not> hi_ok \<or> d < 1 / 2 \<or> (d = 1 / 2 \<and> even lo)) then Some lo
      else if hi_ok then Some hi else None)"

fun shortest_decimal :: "nat \<Rightarrow> rat \<Rightarrow> int \<Rightarrow> int \<Rightarrow> int \<times> int" where
  "shortest_decimal 0 x e n = (\<lfloor>x / (10 powi (e - n + 1))\<rfloor>, e - n + 1)"
| "shortest_decimal (Suc fuel) x e n = (case decimal_candidate x (10 powi (e - n + 1)) of
     Some m \<Rightarrow> (m, e - n + 1) | None \<Rightarrow> shortest_decimal fuel x e (n + 1))"

text \<open>The digits without trailing zeros, and the place of the decimal point.\<close>

definition strip_zeros :: "string \<Rightarrow> string" where
  "strip_zeros s = rev (dropWhile (\<lambda>c. c = CHR ''0'') (rev s))"

definition float_digits :: "rat \<Rightarrow> string \<times> int" where
  "float_digits x = (let (m, k) = shortest_decimal 16 x (decimal_exponent x) 1; ds = dec_nat m in
     (strip_zeros ds, int (length ds) + k))"

definition exponent_text :: "int \<Rightarrow> string" where
  "exponent_text n = ''e'' @ (if n < 0 then ''-'' else ''+'') @ (if \<bar>n\<bar> < 10 then ''0'' else []) @ dec_nat \<bar>n\<bar>"

definition positive_repr :: "rat \<Rightarrow> string" where
  "positive_repr x = (let (ds, point) = float_digits x in
     if point \<le> - 4 \<or> 16 < point then
       take 1 ds @ (if length ds = 1 then [] else ''.'' @ drop 1 ds) @ exponent_text (point - 1)
     else if point \<le> 0 then ''0.'' @ replicate (nat (- point)) (CHR ''0'') @ ds
     else if int (length ds) \<le> point then ds @ replicate (nat point - length ds) (CHR ''0'') @ ''.0''
     else take (nat point) ds @ ''.'' @ drop (nat point) ds)"

definition float_repr :: "rat \<Rightarrow> string" where
  "float_repr x = (if x = 0 then ''0.0'' else if x < 0 then ''-'' @ positive_repr (- x) else positive_repr x)"

end
