(* ===== verification/Progress.thy ===== *)
theory Progress
  imports Orchestrator
begin

text \<open>
  Whole runs of the orchestrator. The first part shows that a run whose merchants quote storable
  offers reaches its policy decision, with the number of identifiers it draws; the second states
  what a run that returned has left: an audit trail that replays to the stored state, and an
  authorization within the user's policy.
\<close>

section \<open>Fresh identifiers\<close>

text \<open>
  The identifiers the tables of a run hold, the next \<open>n\<close> a run will draw, and the state in which
  those are distinct and new and every key holds.
\<close>

definition identifiers :: "world \<Rightarrow> uuid set" where
  "identifiers w = ms_id ` set (w_missions w) \<union> cr_id ` set (w_mission_constraints w)
     \<union> cr_mission_id ` set (w_mission_constraints w) \<union> of_id ` set (w_offers w)
     \<union> pdr_id ` set (w_policy_decisions w) \<union> ae_event_id ` set (w_audit_events w)"

definition upcoming :: "nat \<Rightarrow> world \<Rightarrow> uuid list" where
  "upcoming n w = map (\<lambda>k. w_uuids w (w_uuid_idx w + k)) [0..<n]"

definition stocked :: "nat \<Rightarrow> world \<Rightarrow> bool" where
  "stocked n w \<longleftrightarrow> distinct (upcoming n w) \<and> set (upcoming n w) \<inter> identifiers w = {}
     \<and> keyed ms_id (w_missions w) \<and> keyed cr_id (w_mission_constraints w) \<and> keyed cr_mission_id (w_mission_constraints w)
     \<and> keyed of_id (w_offers w) \<and> keyed pdr_id (w_policy_decisions w) \<and> keyed ae_event_id (w_audit_events w)
     \<and> keyed (\<lambda>e. (ae_mission_id e, ae_sequence e)) (w_audit_events w)"

text \<open>An identifier drawn and not yet used.\<close>

definition spare :: "nat \<Rightarrow> uuid \<Rightarrow> world \<Rightarrow> bool" where
  "spare n i w \<longleftrightarrow> stocked n w \<and> i \<notin> identifiers w \<and> i \<notin> set (upcoming n w)"

lemma upcoming_Suc: "upcoming (Suc n) w = w_uuids w (w_uuid_idx w) # upcoming n (w\<lparr>w_uuid_idx := Suc (w_uuid_idx w)\<rparr>)"
  by (simp add: upcoming_def upt_conv_Cons map_Suc_upt [symmetric] comp_def del: upt_Suc)

lemma upcoming_add: "upcoming (k + n) w = upcoming k w @ upcoming n (w\<lparr>w_uuid_idx := w_uuid_idx w + k\<rparr>)"
  by (induction k arbitrary: w) (simp_all add: upcoming_Suc, simp add: upcoming_def)

lemma upcoming_cong: "w_uuids w' = w_uuids w \<Longrightarrow> w_uuid_idx w' = w_uuid_idx w \<Longrightarrow> upcoming n w' = upcoming n w"
  by (simp add: upcoming_def)

lemma stocked_mono: "stocked n w \<Longrightarrow> k \<le> n \<Longrightarrow> stocked k w"
  using upcoming_add [of k "n - k" w] by (auto simp: stocked_def)

lemma stocked_missions [simp]:
  "stocked n (w\<lparr>w_missions := update_where p f (w_missions w)\<rparr>) = stocked n w" if "\<And>r. ms_id (f r) = ms_id r"
proof -
  have "map ms_id (update_where p f (w_missions w)) = map ms_id (w_missions w)"
    using that by (simp add: update_where_def)
  then have "keyed ms_id (update_where p f (w_missions w)) = keyed ms_id (w_missions w)"
    "ms_id ` set (update_where p f (w_missions w)) = ms_id ` set (w_missions w)"
    by (simp_all add: keyed_def flip: set_map)
  then show ?thesis by (simp add: stocked_def identifiers_def upcoming_def)
qed

lemma stocked_uuid4: "returns (stocked (Suc n)) uuid4 (\<lambda>i. spare n i)"
proof (rule returnsI)
  fix w assume s: "stocked (Suc n) w"
  let ?w = "w\<lparr>w_uuid_idx := Suc (w_uuid_idx w)\<rparr>"
  have "identifiers ?w = identifiers w" by (simp add: identifiers_def)
  with s have "spare n (w_uuids w (w_uuid_idx w)) ?w" by (simp add: spare_def stocked_def upcoming_Suc)
  then show "\<exists>i t. uuid4 w = (Inr i, t) \<and> spare n i t" by (simp add: uuid4_def)
qed

section \<open>Statements that succeed\<close>

lemma stocked_clock [simp]: "stocked n (w\<lparr>w_clock_idx := k\<rparr>) = stocked n w" "spare n i (w\<lparr>w_clock_idx := k\<rparr>) = spare n i w"
  by (simp_all add: stocked_def spare_def identifiers_def upcoming_def)

lemma spare_utcnow: "returns (\<lambda>w. spare n i w \<and> at_state m st w) utcnow (\<lambda>_ w. spare n i w \<and> at_state m st w)"
  by (rule returns_weaken [OF returns_ensures [of "spare n i" _ "\<lambda>_. spare n i", OF _ trail_skeleton [OF skeleton_frame(2)]]])
    (auto simp: returns_def utcnow_def)

lemma insert_mission_returns:
  assumes "ms_id r = i"
  shows "returns (spare n i) (insert_mission r) (\<lambda>_ w. stocked n w \<and> i \<notin> cr_mission_id ` set (w_mission_constraints w))"
  using assms
  by (auto intro!: returnsI simp: insert_mission_def db_require_def session_defs spare_def stocked_def identifiers_def
      upcoming_def keyed_append_one)

lemma insert_constraints_returns:
  assumes "cr_id r = i" and "cr_mission_id r = m"
  shows "returns (\<lambda>w. spare n i w \<and> m \<notin> cr_mission_id ` set (w_mission_constraints w) \<and> m \<in> ms_id ` set (w_missions w))
    (insert_mission_constraints r) (\<lambda>_. stocked n)"
proof (rule returnsI)
  fix w assume w: "spare n i w \<and> m \<notin> cr_mission_id ` set (w_mission_constraints w) \<and> m \<in> ms_id ` set (w_missions w)"
  then have "find_mission m w \<noteq> None" by (auto simp: find_mission_def find_row_None_iff)
  with w assms show "\<exists>x t. insert_mission_constraints r w = (Inr x, t) \<and> stocked n t"
    by (auto simp: insert_mission_constraints_def db_require_def session_defs spare_def stocked_def identifiers_def
        upcoming_def keyed_append_one)
qed

lemma insert_offer_returns:
  assumes "of_id r = i" and "of_mission_id r = m"
  shows "returns (\<lambda>w. spare n i w \<and> find_mission m w \<noteq> None) (insert_offer r)
    (\<lambda>_ w. stocked n w \<and> find_mission m w \<noteq> None)"
  using assms
  by (auto intro!: returnsI simp: insert_offer_def db_require_def session_defs spare_def stocked_def identifiers_def
      upcoming_def keyed_append_one find_mission_def)

lemma insert_decision_returns:
  assumes "pdr_id r = i" and "pdr_mission_id r = m"
  shows "returns (\<lambda>w. spare n i w \<and> find_mission m w \<noteq> None) (insert_policy_decision r) (\<lambda>_. stocked n)"
  using assms
  by (auto intro!: returnsI simp: insert_policy_decision_def db_require_def session_defs spare_def stocked_def identifiers_def
      upcoming_def keyed_append_one)

lemma append_returns:
  "returns (\<lambda>w. stocked (Suc n) w \<and> find_mission m w \<noteq> None) (append_event m t a p) (\<lambda>_. stocked n)"
proof (rule returnsI)
  fix w assume w: "stocked (Suc n) w \<and> find_mission m w \<noteq> None"
  let ?r = "next_row m t a p w"
  have i: "ae_event_id ?r = w_uuids w (w_uuid_idx w)" by (simp add: next_row_def Let_def)
  from w have ok: "appendable (w_audit_events w) ?r"
    by (intro appendable_fresh) (auto simp: stocked_def identifiers_def upcoming_Suc)
  have up: "upcoming n ((draw w)\<lparr>w_audit_events := w_audit_events w @ [?r]\<rparr>) = upcoming n (w\<lparr>w_uuid_idx := Suc (w_uuid_idx w)\<rparr>)"
    by (rule upcoming_cong) (simp_all add: draw_def)
  have "stocked n ((draw w)\<lparr>w_audit_events := w_audit_events w @ [?r]\<rparr>)"
    using w ok i unfolding stocked_def up by (auto simp: appendable_def identifiers_def upcoming_Suc draw_def)
  with append_event_success [OF _ ok] w show "\<exists>x t'. append_event m t a p w = (Inr x, t') \<and> stocked n t'" by simp
qed

lemma audit_returns: "returns (\<lambda>w. stocked (Suc n) w \<and> trail m rs ps w) (audit_as a m t p) (\<lambda>_. stocked n)"
  unfolding audit_as_def
  by (rule returns_andthen [where R = "stocked n"], rule returns_weaken [OF append_returns]) (auto simp: trail_def intro: returns_ret)

lemma transition_returns:
  assumes "readable t p" and "t \<noteq> E_PAYMENT_FAILED" and "a \<noteq> []" and "target_of t = Some st" and "mission_can_transition rs st"
  shows "returns (\<lambda>w. stocked (Suc n) w \<and> at_state m rs w) (transition m st t a p) (\<lambda>_ w. stocked n w \<and> at_state m st w)"
proof -
  have "returns (\<lambda>w. stocked (Suc n) w \<and> at_state m rs w) (transition m st t a p) (\<lambda>_. stocked n)"
  proof (rule returnsI)
    fix w assume w: "stocked (Suc n) w \<and> at_state m rs w"
    then obtain r where r: "find_mission m w = Some r" "ms_state r = rs" by (auto simp: trail_def)
    let ?w = "w\<lparr>w_missions := update_where (\<lambda>r. ms_id r = m) (\<lambda>r. r\<lparr>ms_state := st\<rparr>) (w_missions w)\<rparr>"
    have "trail m st (Some rs) ?w" using w trail_set_state [of m rs "Some rs" w st "()" ?w]
      by (simp add: set_mission_state_def modify_def)
    moreover have "stocked (Suc n) ?w" using w by simp
    ultimately obtain x w' where "audit_as a m t p ?w = (Inr x, w')" "stocked n w'"
      using returnsD [OF audit_returns [of n m st "Some rs" a t p]] by (metis (mono_tags, lifting))
    with r assms(5) show "\<exists>x w'. transition m st t a p w = (Inr x, w') \<and> stocked n w'"
      by (simp add: transition_def read_mission_def assert_transition_def set_mission_state_def session_defs)
  qed
  then show ?thesis by (rule returns_with [OF _ trail_transition [OF assms(1-4), of m rs]]) simp
qed

section \<open>Phases that succeed\<close>

lemma create_returns:
  "returns (\<lambda>w. stocked (n + 2) w \<and> ledger_ok w \<and> events_have_missions w) (create_mission request)
     (\<lambda>i w. stocked n w \<and> at_state i M_CREATED w \<and> i \<notin> cr_mission_id ` set (w_mission_constraints w))"
proof (rule returnsI)
  fix w assume w: "stocked (n + 2) w \<and> ledger_ok w \<and> events_have_missions w"
  then obtain i w1 where i: "uuid4 w = (Inr i, w1)" "spare (Suc n) i w1"
    using returnsD [OF stocked_uuid4 [of "Suc n"], of w] by auto
  let ?r = "\<lparr>ms_id = i, ms_raw_query = cm_raw_query request, ms_quantity = cm_quantity request, ms_state = M_CREATED\<rparr>"
  from returnsD [OF insert_mission_returns [of ?r i "Suc n"], of w1] i(2) obtain w2 where
    w2: "insert_mission ?r w1 = (Inr (), w2)" "stocked (Suc n) w2" "i \<notin> cr_mission_id ` set (w_mission_constraints w2)" by auto
  have "ledger_ok w1" "events_have_missions w1" using w i(1)
    by (auto simp: uuid4_def ledger_ok_def list_events_def events_have_missions_def find_mission_def)
  with trail_new [OF w2(1)] have tr: "trail i M_CREATED None w2" by simp
  let ?p = "[(''raw_query'', jopt (cm_raw_query request)), (''quantity'', JInt (cm_quantity request))]"
  from returnsD [OF audit_returns [of n i M_CREATED None ORCHESTRATOR_ACTOR E_MISSION_CREATED ?p], of w2] tr w2(2) obtain w3 where
    w3: "audit_as ORCHESTRATOR_ACTOR i E_MISSION_CREATED ?p w2 = (Inr (), w3)" "stocked n w3" by auto
  from ensuresD [OF trail_audit [OF readable_admission(1)] tr w3(1)] have "at_state i M_CREATED w3" by (simp add: moved_def)
  moreover have "w_mission_constraints w3 = w_mission_constraints w2"
    using w3(1) by (auto simp: audit_as_def append_event_eq Let_def draw_def session_Inr_iffs split: if_splits)
  moreover have "create_mission request w = (Inr i, w3)"
    using i(1) w2(1) w3(1) by (simp add: create_mission_def bind_def andthen_def ret_def)
  ultimately show "\<exists>i w'. create_mission request w = (Inr i, w') \<and> stocked n w' \<and> at_state i M_CREATED w'
      \<and> i \<notin> cr_mission_id ` set (w_mission_constraints w')" using w2(3) w3(2) by auto
qed

lemma at_state_known: "trail m rs ps w \<Longrightarrow> m \<in> ms_id ` set (w_missions w)"
  by (auto simp: trail_def find_mission_def dest: find_row_SomeD)

lemma parse_returns:
  "returns (\<lambda>w. stocked (n + 2) w \<and> at_state m M_CREATED w \<and> m \<notin> cr_mission_id ` set (w_mission_constraints w))
     (parse_intent m c) (\<lambda>_ w. stocked n w \<and> at_state m M_INTENT_PARSED w)"
  unfolding parse_intent_def
proof (rule returns_bind)
  let ?P = "\<lambda>w. at_state m M_CREATED w \<and> m \<notin> cr_mission_id ` set (w_mission_constraints w)"
  have keep: "ensures ?P uuid4 (\<lambda>_. ?P)"
    by (auto simp: ensures_def uuid4_def trail_def list_events_def find_mission_def ledger_ok_def)
  show "returns (\<lambda>w. stocked (n + 2) w \<and> at_state m M_CREATED w \<and> m \<notin> cr_mission_id ` set (w_mission_constraints w)) uuid4
      (\<lambda>i w. spare (Suc n) i w \<and> at_state m M_CREATED w \<and> m \<notin> cr_mission_id ` set (w_mission_constraints w))"
    by (rule returns_with [OF returns_weaken [OF stocked_uuid4 [of "Suc n"]] keep]) simp_all
  fix i
  let ?r = "\<lparr>cr_id = i, cr_mission_id = m, cr_constraints = c\<rparr>"
  show "returns (\<lambda>w. spare (Suc n) i w \<and> at_state m M_CREATED w \<and> m \<notin> cr_mission_id ` set (w_mission_constraints w))
      (andthen (insert_mission_constraints ?r) (transition m M_INTENT_PARSED E_INTENT_PARSED ORCHESTRATOR_ACTOR
        [(''constraints'', constraints_json c)])) (\<lambda>_ w. stocked n w \<and> at_state m M_INTENT_PARSED w)"
    by (rule returns_andthen [where R = "\<lambda>w. stocked (Suc n) w \<and> at_state m M_CREATED w"],
        rule returns_with [OF returns_weaken [OF insert_constraints_returns [of ?r i m "Suc n"]] trail_skeleton [OF skeleton_frame(4)]])
      (auto simp: mission_can_transition_def ALLOWED_TRANSITIONS_def dest: at_state_known intro!: transition_returns readable_admission)
qed

lemma discover_returns:
  assumes "mapE (connect reg) ms = Inr ctxs"
  shows "returns (\<lambda>w. stocked (Suc n) w \<and> at_state m M_INTENT_PARSED w) (discover reg ms m) (\<lambda>_ w. stocked n w \<and> at_state m M_DISCOVERING w)"
  unfolding discover_def assms
  by (rule returns_bind_lift [OF refl], rule transition_returns)
    (simp_all add: readable_admission mission_can_transition_def ALLOWED_TRANSITIONS_def)

lemma collect_connects: "collect reg ms c q = Inr quotes \<Longrightarrow> \<exists>ctxs. mapE (connect reg) ms = Inr ctxs"
  unfolding collect_def by (induction ms arbitrary: quotes) auto

lemma receive_returns:
  assumes "collect reg ms c q = Inr quotes"
  shows "returns (\<lambda>w. stocked (Suc n) w \<and> at_state m M_DISCOVERING w) (receive_offers reg ms m c q)
    (\<lambda>qs w. qs = quotes \<and> stocked n w \<and> at_state m M_OFFERS_RECEIVED w)"
  unfolding receive_offers_def assms
  by (rule returns_bind_lift [OF refl], rule returns_andthen [OF transition_returns])
    (auto simp: readable_admission mission_can_transition_def ALLOWED_TRANSITIONS_def intro: returns_ret)

subsection \<open>Claims cannot stop a run\<close>

lemma protected_self:
  "mapE (protected_unchanged (protected_policy_values c)) (protected_policy_values c) = Inr (replicate 7 ())"
  by (simp add: protected_policy_values_def PROTECTED_POLICY_FIELDS_def protected_unchanged_def register_get_def
      require_def ingest_user_policy_value_def eval_nat_numeral)

lemma protected_authority:
  "map_of (protected_policy_values c) f = Some v \<Longrightarrow> pm_authority (pv_meta v) = USER_POLICY"
  by (auto simp: protected_policy_values_def PROTECTED_POLICY_FIELDS_def ingest_user_policy_value_def provenance_defs
      split: if_splits)

lemma claim_refused:
  assumes "is_protected (protected_policy_values c) f"
  shows "register_apply f (untrusted v src) (protected_policy_values c)
    = (Inl (AuthorityEscalation MERCHANT_DATA USER_POLICY f), protected_policy_values c)"
proof -
  from assms obtain cur where cur: "map_of (protected_policy_values c) f = Some cur"
    by (auto simp: is_protected_def dest!: weak_map_of_SomeI)
  with protected_authority [OF cur] show ?thesis by (simp add: register_apply_cases provenance_defs less_authority_level_def)
qed

lemma claim_returns:
  "returns (\<lambda>w. stocked (Suc n) w \<and> trail m rs ps w) (adjudicate_claim m ctx raw claim (protected_policy_values c))
     (\<lambda>reg w. reg = protected_policy_values c \<and> stocked n w \<and> trail m rs ps w)"
proof (cases "is_protected (protected_policy_values c) (fst claim)")
  case False
  then show ?thesis unfolding adjudicate_claim_def Let_def
    by (auto intro!: returns_ret intro: stocked_mono)
next
  case True
  show ?thesis unfolding adjudicate_claim_def Let_def using True claim_refused [OF True]
    by (auto intro!: returns_andthen [OF returns_with [OF audit_returns trail_violation]] returns_ret)
qed

lemma claims_return:
  "returns (\<lambda>w. stocked (n + length claims) w \<and> trail m rs ps w) (adjudicate_claims m claims (protected_policy_values c))
     (\<lambda>reg w. reg = protected_policy_values c \<and> stocked n w \<and> trail m rs ps w)"
proof (induction claims)
  case Nil
  then show ?case by (auto intro!: returns_ret)
next
  case (Cons claim claims)
  obtain ctx raw cl where claim: "claim = (ctx, raw, cl)" by (cases claim)
  show ?case unfolding claim adjudicate_claims.simps
  proof (rule returns_bind)
    show "returns (\<lambda>w. stocked (n + length ((ctx, raw, cl) # claims)) w \<and> trail m rs ps w)
        (adjudicate_claim m ctx raw cl (protected_policy_values c))
        (\<lambda>reg w. reg = protected_policy_values c \<and> stocked (n + length claims) w \<and> trail m rs ps w)"
      using claim_returns by simp
    show "returns (\<lambda>w. reg = protected_policy_values c \<and> stocked (n + length claims) w \<and> trail m rs ps w)
        (adjudicate_claims m claims reg) (\<lambda>reg w. reg = protected_policy_values c \<and> stocked n w \<and> trail m rs ps w)" for reg
      using Cons by (auto simp: returns_def)
  qed
qed

lemma enforce_returns:
  "returns (\<lambda>w. stocked (n + length (claims_of quotes)) w \<and> trail m rs ps w) (enforce_authority m c quotes)
     (\<lambda>_ w. stocked n w \<and> trail m rs ps w)"
  unfolding enforce_authority_def Let_def
proof (rule returns_bind [OF claims_return])
  fix reg
  show "returns (\<lambda>w. reg = protected_policy_values c \<and> stocked n w \<and> trail m rs ps w)
      (andthen (lift (mapE (protected_unchanged reg) (protected_policy_values c))) (ret ()))
      (\<lambda>_ w. stocked n w \<and> trail m rs ps w)"
    by (cases "reg = protected_policy_values c") (simp_all add: returns_def protected_self andthen_def bind_def lift_def ret_def)
qed

subsection \<open>Normalization, ranking and the decision\<close>

text \<open>An offer the ingress accepts and the offer table can hold.\<close>

definition storable :: "mission_constraints \<Rightarrow> raw_offer \<times> merchant_context \<Rightarrow> bool" where
  "storable c x \<longleftrightarrow> (\<forall>i. \<exists>o' dto. normalize_offer i (fst x) (snd x) c = Inr o' \<and> to_normalized o' = Inr dto)"

lemma normalize_offer_id: "normalize_offer i raw ctx c = Inr o' \<Longrightarrow> po_offer_id o' = i"
  by (auto elim!: normalize_offer_Inr simp: ingest_Inr Let_def)

lemma normalize_all:
  assumes "\<forall>x \<in> set xs. storable c x"
  shows "\<exists>os. mapE (\<lambda>(i, raw, ctx). normalize_offer (ids i) raw ctx c) (enumerate k xs) = Inr os
    \<and> map po_offer_id os = map ids [k..<k + length xs] \<and> (\<forall>o' \<in> set os. \<exists>dto. to_normalized o' = Inr dto)
    \<and> (\<forall>o' \<in> set os. identity_mismatch o' \<longrightarrow> \<not> po_valid o')"
  using assms
proof (induction xs arbitrary: k)
  case (Cons x xs)
  obtain raw ctx where x: "x = (raw, ctx)" by (cases x)
  from Cons.prems obtain o' dto where o': "normalize_offer (ids k) raw ctx c = Inr o'" "to_normalized o' = Inr dto"
    unfolding storable_def x by fastforce
  from normalize_offer_valid [OF o'(1)] have "identity_mismatch o' \<longrightarrow> \<not> po_valid o'" by (simp add: admissible_def)
  moreover from Cons obtain os where "mapE (\<lambda>(i, raw, ctx). normalize_offer (ids i) raw ctx c) (enumerate (Suc k) xs) = Inr os
    \<and> map po_offer_id os = map ids [Suc k..<Suc k + length xs] \<and> (\<forall>o' \<in> set os. \<exists>dto. to_normalized o' = Inr dto)
    \<and> (\<forall>o' \<in> set os. identity_mismatch o' \<longrightarrow> \<not> po_valid o')" by fastforce
  ultimately show ?case using o' normalize_offer_id [OF o'(1)]
    by (simp add: x upt_conv_Cons del: upt_Suc)
qed simp

text \<open>Normalized offers whose identifiers are new: what persisting them needs.\<close>

definition persistable :: "nat \<Rightarrow> provenanced_offer list \<Rightarrow> world \<Rightarrow> bool" where
  "persistable n os w \<longleftrightarrow> stocked n w \<and> distinct (map po_offer_id os)
     \<and> set (map po_offer_id os) \<inter> (identifiers w \<union> set (upcoming n w)) = {}
     \<and> (\<forall>o' \<in> set os. (\<exists>dto. to_normalized o' = Inr dto) \<and> (identity_mismatch o' \<longrightarrow> \<not> po_valid o'))"

lemma normalize_returns:
  assumes "\<forall>x \<in> set (quoted_offers quotes). storable c x"
  shows "returns (\<lambda>w. stocked (n + length (quoted_offers quotes)) w) (normalize c quotes)
    (\<lambda>os w. persistable n os w \<and> length os = length (quoted_offers quotes))"
proof (rule returnsI)
  let ?k = "length (quoted_offers quotes)"
  fix w assume w: "stocked (n + ?k) w"
  from normalize_all [OF assms, of "\<lambda>i. w_uuids w (w_uuid_idx w + i)" 0] obtain os
    where os: "normalize_offers (\<lambda>i. w_uuids w (w_uuid_idx w + i)) quotes c = Inr os"
      "map po_offer_id os = upcoming ?k w" "\<forall>o' \<in> set os. \<exists>dto. to_normalized o' = Inr dto"
      "\<forall>o' \<in> set os. identity_mismatch o' \<longrightarrow> \<not> po_valid o'"
    by (auto simp: normalize_offers_def upcoming_def)
  have len: "length os = ?k" using arg_cong [OF os(2), of length] by (simp add: upcoming_def)
  let ?w = "w\<lparr>w_uuid_idx := w_uuid_idx w + ?k\<rparr>"
  have "identifiers ?w = identifiers w" by (simp add: identifiers_def)
  with w have "stocked n ?w" "set (upcoming ?k w) \<inter> (identifiers ?w \<union> set (upcoming n ?w)) = {}" "distinct (upcoming ?k w)"
    using upcoming_add [of ?k n w] by (auto simp: stocked_def add.commute)
  then have "persistable n os ?w" using os(2-4) unfolding persistable_def by (simp del: map_map)
  with os(1) len show "\<exists>x t. normalize c quotes w = (Inr x, t) \<and> persistable n x t \<and> length x = ?k"
    by (simp add: normalize_def)
qed

lemma persist_returns:
  "returns (\<lambda>w. persistable n os w \<and> find_mission m w \<noteq> None) (persist_offers m os)
     (\<lambda>_ w. stocked n w \<and> find_mission m w \<noteq> None)"
proof (induction os)
  case Nil
  then show ?case by (auto simp: persist_offers_def persistable_def intro!: returns_ret)
next
  case (Cons o' os)
  show ?case
  proof (rule returnsI)
    fix w assume w: "persistable n (o' # os) w \<and> find_mission m w \<noteq> None"
    then obtain dto where dto: "to_normalized o' = Inr dto" by (auto simp: persistable_def)
    let ?r = "offer_row_of m dto" and ?i = "po_offer_id o'"
    have ids: "of_id ?r = ?i" "of_mission_id ?r = m" using to_normalized_fields [OF dto] by (simp_all add: offer_row_of_def)
    from w have "spare n ?i w" by (auto simp: persistable_def spare_def)
    then obtain w1 where w1: "insert_offer ?r w = (Inr (), w1)" "stocked n w1" "find_mission m w1 \<noteq> None"
      using returnsD [OF insert_offer_returns [OF ids, of n], of w] w by auto
    then have w1_eq: "w1 = w\<lparr>w_offers := w_offers w @ [?r]\<rparr>"
      by (auto simp: insert_offer_def db_require_def session_Inr_iffs modify_def raise_def ret_def split: if_splits)
    then have "identifiers w1 = insert ?i (identifiers w)" "upcoming n w1 = upcoming n w"
      using ids by (auto simp: identifiers_def upcoming_def)
    with w w1(2) have "persistable n os w1" by (auto simp: persistable_def)
    with returnsD [OF Cons.IH, of w1] w1(3) obtain w2 where "persist_offers m os w1 = (Inr (), w2)" "stocked n w2" "find_mission m w2 \<noteq> None"
      by auto
    with w1(1) dto show "\<exists>x t. persist_offers m (o' # os) w = (Inr x, t) \<and> stocked n t \<and> find_mission m t \<noteq> None"
      by (simp add: persist_offers_def andthen_def bind_def lift_def)
  qed
qed

lemma flag_returns:
  assumes "\<forall>o' \<in> set os. identity_mismatch o' \<longrightarrow> \<not> po_valid o'"
  shows "returns (\<lambda>w. stocked (n + length os) w \<and> trail m rs ps w) (flag_spoofs m os) (\<lambda>_ w. stocked n w \<and> trail m rs ps w)"
  using assms
proof (induction os)
  case Nil
  then show ?case by (simp add: flag_spoofs_def returns_ret)
next
  case (Cons o' os)
  have step: "returns (\<lambda>w. stocked (n + length (o' # os)) w \<and> trail m rs ps w)
      (whenS (identity_mismatch o') (andthen (audit_as ''security-kernel'' m E_SECURITY_VIOLATION
         ((''reason_code'', JStr r) # p)) (lift (require (\<not> po_valid o') inv)))) (\<lambda>_ w. stocked (n + length os) w \<and> trail m rs ps w)"
    for r p inv
    using Cons.prems
    by (auto intro!: returns_whenS returns_andthen [OF returns_with [OF audit_returns trail_violation]]
        returns_lift [of _ "()"] simp: require_def elim: stocked_mono)
  from Cons step show ?case by (auto simp: flag_spoofs_def intro!: returns_andthen)
qed

lemma normalize_phase_returns:
  assumes "\<forall>x \<in> set (quoted_offers quotes). storable c x"
  shows "returns (\<lambda>w. stocked (Suc n + 2 * length (quoted_offers quotes)) w \<and> at_state m M_OFFERS_RECEIVED w)
    (normalize_phase m c quotes) (\<lambda>_ w. stocked n w \<and> at_state m M_OFFERS_NORMALIZED w)"
  unfolding normalize_phase_def
proof (rule returns_bind)
  let ?k = "length (quoted_offers quotes)" and ?at = "at_state m M_OFFERS_RECEIVED"
  have "returns (\<lambda>w. stocked (Suc n + 2 * ?k) w \<and> ?at w) (normalize c quotes)
      (\<lambda>os w. persistable (Suc n + ?k) os w \<and> length os = ?k)"
    by (rule returns_weaken [OF normalize_returns [OF assms]]) (auto simp: mult_2 add.assoc)
  from returns_with [OF this trail_skeleton [OF skeleton_frame(10)], of m M_OFFERS_RECEIVED "Some M_OFFERS_RECEIVED"]
  show "returns (\<lambda>w. stocked (Suc n + 2 * ?k) w \<and> ?at w) (normalize c quotes)
      (\<lambda>os w. (persistable (Suc n + length os) os w) \<and> ?at w)" by (auto simp: returns_def; metis)
  fix os
  have skel: "keeps (\<lambda>w w'. skeleton w' = skeleton w) (persist_offers m os)" unfolding persist_offers_def
    by (intro frame.keeps_forS frame.keeps_bind frame.keeps_lift skeleton_frame)
  show "returns (\<lambda>w. persistable (Suc n + length os) os w \<and> ?at w)
    (andthen (persist_offers m os) (andthen (flag_spoofs m os)
    (andthen (transition m M_OFFERS_NORMALIZED E_OFFERS_NORMALIZED ORCHESTRATOR_ACTOR
       [(''valid'', JInt (int (length (filter po_valid os)))),
        (''invalid'', JInt (int (length (filter (\<lambda>offer. \<not> po_valid offer) os)))),
        (''tainted_merchant_fields'', JList (map JStr (tainted_fields os)))]) (ret os))))
    (\<lambda>_ w. stocked n w \<and> at_state m M_OFFERS_NORMALIZED w)"
  proof (cases "\<forall>o' \<in> set os. identity_mismatch o' \<longrightarrow> \<not> po_valid o'")
    case True
    show ?thesis
    proof (rule returns_andthen)
      show "returns (\<lambda>w. persistable (Suc n + length os) os w \<and> ?at w) (persist_offers m os)
          (\<lambda>_ w. stocked (Suc n + length os) w \<and> ?at w)"
      proof (rule returns_with [OF _ trail_skeleton [OF skel]])
        show "returns (\<lambda>w. persistable (Suc n + length os) os w \<and> ?at w) (persist_offers m os) (\<lambda>_. stocked (Suc n + length os))"
          by (rule returns_weaken [OF persist_returns [of "Suc n + length os" os m]]) (auto simp: trail_def)
      qed simp
      show "returns (\<lambda>w. stocked (Suc n + length os) w \<and> ?at w) (andthen (flag_spoofs m os)
          (andthen (transition m M_OFFERS_NORMALIZED E_OFFERS_NORMALIZED ORCHESTRATOR_ACTOR
             [(''valid'', JInt (int (length (filter po_valid os)))),
              (''invalid'', JInt (int (length (filter (\<lambda>offer. \<not> po_valid offer) os)))),
              (''tainted_merchant_fields'', JList (map JStr (tainted_fields os)))]) (ret os)))
          (\<lambda>_ w. stocked n w \<and> at_state m M_OFFERS_NORMALIZED w)"
        by (rule returns_andthen [OF flag_returns [OF True]], rule returns_andthen [OF transition_returns])
          (auto simp: readable_admission mission_can_transition_def ALLOWED_TRANSITIONS_def intro!: returns_ret)
    qed
  next
    case False
    then show ?thesis by (auto simp: returns_def persistable_def)
  qed
qed

lemma stocked_offers [simp]:
  "stocked n (w\<lparr>w_offers := update_where p f (w_offers w)\<rparr>) = stocked n w" if "\<And>r. of_id (f r) = of_id r"
proof -
  have "map of_id (update_where p f (w_offers w)) = map of_id (w_offers w)"
    using that by (simp add: update_where_def)
  then have "keyed of_id (update_where p f (w_offers w)) = keyed of_id (w_offers w)"
    "of_id ` set (update_where p f (w_offers w)) = of_id ` set (w_offers w)"
    by (simp_all add: keyed_def flip: set_map)
  then show ?thesis by (simp add: stocked_def identifiers_def upcoming_def)
qed

lemma rank_returns:
  "returns (\<lambda>w. stocked (Suc n) w \<and> at_state m M_OFFERS_NORMALIZED w) (rank_phase m os) (\<lambda>_ w. stocked n w \<and> at_state m M_RANKED w)"
proof -
  have one: "returns (\<lambda>w. stocked k w \<and> at_state m st w) (set_rank i rank) (\<lambda>_ w. stocked k w \<and> at_state m st w)" for k st i rank
    by (rule returns_with [OF _ trail_skeleton [OF skeleton_frame(9)]])
      (auto simp: returns_def set_rank_def modify_def)
  show ?thesis unfolding rank_phase_def Let_def
    by (rule returns_andthen [OF returns_forS], auto simp: one intro!: returns_ret split: option.split)
      (auto simp: readable_admission mission_can_transition_def ALLOWED_TRANSITIONS_def
        intro!: returns_andthen [OF transition_returns] returns_ret)
qed

lemma decide_returns:
  "returns (\<lambda>w. stocked (n + 2) w \<and> at_state m M_RANKED w) (decide m c ranked q)
     (\<lambda>_ w. stocked n w \<and> at_state m M_POLICY_CHECKED w)"
proof -
  have cap: "enforce (capabilities_for BUYER_PRINCIPAL) C_PAYMENT_PROPOSE = Inr ()"
    by (simp add: BUYER_PRINCIPAL_def enforce_def permits_registered)
  have draw: "returns (\<lambda>w. stocked (n + 2) w \<and> at_state m M_RANKED w) uuid4 (\<lambda>i w. spare (Suc n) i w \<and> at_state m M_RANKED w)"
    by (rule returns_with [OF returns_weaken [OF stocked_uuid4 [of "Suc n"]] trail_skeleton [OF skeleton_frame(1)]]) auto
  have ins: "returns (\<lambda>w. spare (Suc n) (pdr_id r) w \<and> at_state m M_RANKED w) (insert_policy_decision r)
      (\<lambda>_ w. stocked (Suc n) w \<and> at_state m M_RANKED w)" if "pdr_mission_id r = m" for r
    by (rule returns_with [OF returns_weaken [OF insert_decision_returns [OF refl that, of "Suc n"]] trail_skeleton [OF skeleton_frame(6)]])
      (auto simp: trail_def)
  have ins': "returns (\<lambda>w. spare (Suc n) i w \<and> at_state m M_RANKED w) (insert_policy_decision r)
      (\<lambda>_ w. stocked (Suc n) w \<and> at_state m M_RANKED w)" if "pdr_mission_id r = m" "pdr_id r = i" for r i
    using ins [OF that(1)] that(2) by simp
  show ?thesis unfolding decide_def Let_def cap
    by (rule returns_andthen [OF returns_whenS [OF returns_lift [OF refl]]], assumption, assumption,
        rule returns_bind [OF draw], rule returns_bind [OF spare_utcnow], rule returns_andthen [OF ins'])
      (auto simp: readable_decision mission_can_transition_def ALLOWED_TRANSITIONS_def
        intro!: returns_andthen [OF transition_returns] returns_ret)
qed

section \<open>A run that finds nothing affordable ends\<close>

text \<open>The identifiers a run draws at most: one per row it writes.\<close>

definition needed :: "authenticated_quote list \<Rightarrow> nat" where
  "needed quotes = 11 + length (claims_of quotes) + 2 * length (quoted_offers quotes)"

lemma admit_returns:
  assumes q: "collect reg ms (cm_constraints request) (cm_quantity request) = Inr quotes"
    and st: "\<forall>x \<in> set (quoted_offers quotes). storable (cm_constraints request) x"
    and w: "stocked (needed quotes) w" "ledger_ok w" "events_have_missions w"
  obtains m best d w' where "admit reg ms request w = (Inr (m, best, d), w')" "stocked 1 w'" "at_state m M_POLICY_CHECKED w'"
proof -
  let ?c = "cm_constraints request" and ?q = "cm_quantity request"
  define b where "b = 5 + 2 * length (quoted_offers quotes) + length (claims_of quotes)"
  obtain ctxs where ctxs: "mapE (connect reg) ms = Inr ctxs" using collect_connects [OF q] by blast
  have n: "needed quotes = b + 2 + 2 + 2" by (simp add: needed_def b_def)
  obtain m w1 where r1: "create_mission request w = (Inr m, w1)" "stocked (b + 2 + 2) w1" "at_state m M_CREATED w1"
    "m \<notin> cr_mission_id ` set (w_mission_constraints w1)"
    using create_returns [of "b + 2 + 2" request, unfolded returns_def, rule_format, of w] w unfolding n by blast
  then obtain w2 where r2: "parse_intent m ?c w1 = (Inr (), w2)" "stocked (Suc (Suc b)) w2" "at_state m M_INTENT_PARSED w2"
    using parse_returns [of "b + 2" m ?c, unfolded returns_def, rule_format, of w1] by auto
  then obtain w3 where r3: "discover reg ms m w2 = (Inr (), w3)" "stocked (Suc b) w3" "at_state m M_DISCOVERING w3"
    using discover_returns [OF ctxs, of "Suc b" m, unfolded returns_def, rule_format, of w2] by auto
  then obtain w4 where r4: "receive_offers reg ms m ?c ?q w3 = (Inr quotes, w4)" "stocked b w4" "at_state m M_OFFERS_RECEIVED w4"
    using receive_returns [OF q, of b m, unfolded returns_def, rule_format, of w3] by auto
  then obtain w5 where r5: "enforce_authority m ?c quotes w4 = (Inr (), w5)" "stocked (5 + 2 * length (quoted_offers quotes)) w5"
    "at_state m M_OFFERS_RECEIVED w5"
    using enforce_returns [of "5 + 2 * length (quoted_offers quotes)" quotes m M_OFFERS_RECEIVED "Some M_OFFERS_RECEIVED" ?c,
        unfolded returns_def, rule_format, of w4]
    by (auto simp: b_def)
  then obtain os w6 where r6: "normalize_phase m ?c quotes w5 = (Inr os, w6)" "stocked 4 w6" "at_state m M_OFFERS_NORMALIZED w6"
    using normalize_phase_returns [OF st, of 4 m, unfolded returns_def, rule_format, of w5] by auto
  then obtain ranked w7 where r7: "rank_phase m os w6 = (Inr ranked, w7)" "stocked (1 + 2) w7" "at_state m M_RANKED w7"
    using rank_returns [of "1 + 2" m os, unfolded returns_def, rule_format, of w6]
    by (auto simp: eval_nat_numeral)
  then obtain best d w8 where r8: "decide m ?c ranked ?q w7 = (Inr (best, d), w8)" "stocked 1 w8" "at_state m M_POLICY_CHECKED w8"
    using decide_returns [of 1 m ?c ranked ?q, unfolded returns_def, rule_format, of w7] by auto
  have "admit reg ms request w = (Inr (m, best, d), w8)"
    using r1(1) r2(1) r3(1) r4(1) r5(1) r6(1) r7(1) r8(1) by (simp add: admit_def Let_def bind_def andthen_def ret_def)
  with r8 that show ?thesis by blast
qed

lemma unaffordable_run:
  assumes q: "collect reg merchants (cm_constraints request) (cm_quantity request) = Inr quotes"
    and st: "\<forall>x \<in> set (quoted_offers quotes). storable (cm_constraints request) x"
    and dear: "\<forall>(raw, ctx) \<in> set (quoted_offers quotes). \<forall>i o'. normalize_offer i raw ctx (cm_constraints request) = Inr o'
        \<and> admissible (cm_constraints request) o'
        \<longrightarrow> mc_hard_limit_inr (cm_constraints request) < pv_value (po_amount_inr o') * cm_quantity request"
    and w: "stocked (needed quotes) w" "ledger_ok w" "events_have_missions w"
  shows "\<exists>mission w'. run cfg reg merchants request w = (Inr mission, w') \<and> ms_state mission = M_CANCELLED
    \<and> w_authorizations w' = w_authorizations w"
proof -
  let ?c = "cm_constraints request" and ?q = "cm_quantity request"
  obtain m best d w1 where adm: "admit reg merchants request w = (Inr (m, best, d), w1)" "stocked 1 w1" "at_state m M_POLICY_CHECKED w1"
    by (rule admit_returns [OF q st w])
  have k: "keyed of_id (w_offers w)" using w(1) by (simp add: stocked_def)
  note su = admit_success [OF adm(1) w(2,3) k]
  from su(3) q obtain ids os where os: "normalize_offers ids quotes ?c = Inr os" "best = best_offer os" and d: "d = evaluate ?c best ?q"
    by auto
  have deny: "pd_decision d = D_DENY"
  proof (cases best)
    case (Some b)
    from best_offer_SomeD(1) [of os b] os(2) Some obtain o0 r where o0: "o0 \<in> set os" "po_valid o0" "b = o0\<lparr>po_rank := Some r\<rparr>"
      by (metis rank_offers_member)
    from normalize_offers_Inr [OF os(1) o0(1)] obtain i raw ctx where x: "(raw, ctx) \<in> set (quoted_offers quotes)"
      "normalize_offer (ids i) raw ctx ?c = Inr o0" .
    with dear o0(2) normalize_offer_valid [OF x(2)] have "mc_hard_limit_inr ?c < pv_value (po_amount_inr o0) * ?q" by blast
    then show ?thesis by (simp add: d Some o0(3) evaluate_outcome Let_def)
  qed (simp add: d evaluate_outcome)
  have "returns (\<lambda>w. stocked (Suc 0) w \<and> at_state m M_POLICY_CHECKED w) (deny_mission m d) (\<lambda>_ w. stocked 0 w \<and> at_state m M_CANCELLED w)"
    unfolding deny_mission_def
    by (rule transition_returns) (simp_all add: readable_decision mission_can_transition_def ALLOWED_TRANSITIONS_def)
  then obtain w2 where w2: "deny_mission m d w1 = (Inr (), w2)" "at_state m M_CANCELLED w2"
    using adm(2,3) by (auto elim!: returnsD [of _ _ _ w1])
  then obtain mission where r: "read_mission m w2 = (Inr mission, w2)" "ms_state mission = M_CANCELLED"
    by (auto simp: trail_def read_mission_def session_defs)
  have "run cfg reg merchants request w = (Inr mission, w2)"
    using adm(1) deny w2(1) r(1) by (simp add: run_def bind_def andthen_def)
  moreover have "w_authorizations w2 = w_authorizations w"
    using frame.keepsD [OF tables_phases(7) w2(1)] su(2) by (simp add: tables_def)
  ultimately show ?thesis using r(2) by blast
qed


text \<open>A merchant whose only offer is above the hard limit and claims a higher one.\<close>

definition dear_raw :: raw_offer where
  "dear_raw = (sample_raw ''merchant_b'' 9999)\<lparr>ro_claims := [(''hard_limit_inr'', PInt 99999)]\<rparr>"

definition dear_merchant :: merchant_agent where
  "dear_merchant = \<lparr>ma_merchant_id = ''merchant_b'', ma_quote = (\<lambda>_ _. [dear_raw])\<rparr>"

definition sample_request :: create_mission_request where
  "sample_request = \<lparr>cm_raw_query = None, cm_quantity = 1, cm_constraints = sample_constraints\<rparr>"

definition sample_settings :: orchestrator_settings where
  "sample_settings = \<lparr>os_authorization_ttl_seconds = 900, os_signing_key_id = ''k1''\<rparr>"

lemma dear_collect:
  "collect default_merchant_registry [dear_merchant] c q = Inr [\<lparr>aq_context = sample_context, aq_offers = [dear_raw]\<rparr>]"
  by (simp add: collect_def connect_def dear_merchant_def require_def sized_def py_space_def sample_context_def)

lemma dear_version:
  "\<exists>h. compute_offer_version ''merchant_b'' ''p1'' 9999 ''INR'' (9 / 2) True (Aware 63000000000000000 0) = Inr h"
  by (simp add: compute_offer_version_def canonical_digest_def canonical_message_def require_def OFFER_VERSION_DOMAIN_def
      canonical_bytes_def encode_field_def encode_value_def encode_timestamp_def max_instant_def is_ascii_def)

lemma dear_normalizes:
  "\<exists>o' dto. normalize_offer i dear_raw sample_context c = Inr o' \<and> to_normalized o' = Inr dto
    \<and> pv_value (po_amount_inr o') = 9999"
proof -
  obtain o0 where o0: "ingest_merchant_offer i dear_raw sample_context = Inr o0" 
    by (simp add: ingest_Inr sample_context_def context_for_def record_for_def default_merchant_registry_def dear_raw_def
        sample_raw_def round_price_def normalized_instant_def max_instant_def Let_def)
  then have f: "pv_value (po_merchant_id o0) = ''merchant_b''" "pv_value (po_product_id o0) = ''p1''" "pv_value (po_amount_inr o0) = 9999"
    "pv_value (po_currency o0) = ''INR''" "pv_value (po_rating o0) = 9 / 2" "pv_value (po_in_stock o0)"
    "pv_value (po_offered_at o0) = Aware 63000000000000000 0" "pv_value (po_merchant_trust o0) = 3 / 4"
    by (auto simp: ingest_Inr Let_def dear_raw_def sample_raw_def round_price_def provenance_defs py_round_def sample_context_def
        context_for_def record_for_def default_merchant_registry_def fl_three_quarters py_upper_inr normalized_instant_def max_instant_def
        split: if_splits)
  let ?o = "o0\<lparr>po_valid := length (rejection_reasons o0 c) = 0, po_rejection_reasons := rejection_reasons o0 c\<rparr>"
  from dear_version obtain h where "offer_version ?o = Inr h" by (auto simp: offer_version_def f)
  then have "\<exists>dto. to_normalized ?o = Inr dto" by (simp add: to_normalized_def f)
  moreover have "normalize_offer i dear_raw sample_context c = Inr ?o" by (simp add: normalize_offer_def o0 Let_def)
  ultimately show ?thesis using f(3) by fastforce
qed

lemma sample_quotes:
  "quoted_offers [\<lparr>aq_context = sample_context, aq_offers = [dear_raw]\<rparr>] = [(dear_raw, sample_context)]"
  "needed [\<lparr>aq_context = sample_context, aq_offers = [dear_raw]\<rparr>] = 14"
  by (simp_all add: quoted_offers_def needed_def claims_of_def dear_raw_def)

lemma empty_world_ready: "stocked 14 empty_world" "ledger_ok empty_world" "events_have_missions empty_world"
  "keyed of_id (w_offers empty_world)" "w_authorizations empty_world = []"
  by (simp_all add: stocked_def identifiers_def upcoming_def empty_world_def keyed_def ledger_ok_def list_events_def intact_def
      events_have_missions_def upt_rec)

lemma dear_hypotheses:
  "\<forall>x \<in> set [(dear_raw, sample_context)]. storable (cm_constraints sample_request) x"
  "\<forall>(raw, ctx) \<in> set [(dear_raw, sample_context)]. \<forall>i o'. normalize_offer i raw ctx (cm_constraints sample_request) = Inr o'
     \<and> admissible (cm_constraints sample_request) o'
     \<longrightarrow> mc_hard_limit_inr (cm_constraints sample_request) < pv_value (po_amount_inr o') * cm_quantity sample_request"
proof -
  show "\<forall>x \<in> set [(dear_raw, sample_context)]. storable (cm_constraints sample_request) x"
    using dear_normalizes by (fastforce simp: storable_def)
  have "pv_value (po_amount_inr o') = 9999" if "normalize_offer i dear_raw sample_context c = Inr o'" for i c o'
    using dear_normalizes [of i c] that by auto
  then show "\<forall>(raw, ctx) \<in> set [(dear_raw, sample_context)]. \<forall>i o'. normalize_offer i raw ctx (cm_constraints sample_request) = Inr o'
     \<and> admissible (cm_constraints sample_request) o'
     \<longrightarrow> mc_hard_limit_inr (cm_constraints sample_request) < pv_value (po_amount_inr o') * cm_quantity sample_request"
    by (auto simp: sample_request_def sample_constraints_def)
qed


lemma sample_run:
  "\<exists>mission w'. run sample_settings default_merchant_registry [dear_merchant] sample_request empty_world = (Inr mission, w')
    \<and> ms_state mission = M_CANCELLED"
  using unaffordable_run [OF dear_collect, unfolded sample_quotes, OF dear_hypotheses empty_world_ready(1-3), of sample_settings]
  by blast

text \<open>
  C12. A mission the orchestrator leaves behind agrees with its own audit trail. When a run returns,
  the mission it returns is the stored row, it is CANCELLED, AWAITING_APPROVAL or AUTHORIZED, and a
  replay of its events is trusted, reconstructs exactly that state, and reports that it matches the
  row. The tables the run starts from satisfy the ledger invariant and the keys of the schema.
\<close>

theorem orchestrated_mission_replays_to_its_state:
  assumes "run cfg reg merchants request w = (Inr mission, w')" and "ledger_ok w" and "events_have_missions w"
    and "keyed of_id (w_offers w)"
  shows "ms_state mission \<in> {M_CANCELLED, M_AWAITING_APPROVAL, M_AUTHORIZED}
    \<and> find_mission (ms_id mission) w' = Some mission
    \<and> (\<exists>r c. replay_mission (ms_id mission) True w' = (Inr r, w') \<and> mr_trusted r \<and> mr_comparison r = Some c
         \<and> sc_matches c \<and> sc_replay_state c = Some (mission_text (ms_state mission)))"
  using run_end [OF assms] at_state_replays by blast

theorem orchestrated_mission_replays_to_its_state_witness:
  "\<exists>mission w' r c. run sample_settings default_merchant_registry [dear_merchant] sample_request empty_world = (Inr mission, w')
    \<and> replay_mission (ms_id mission) True w' = (Inr r, w') \<and> mr_trusted r \<and> mr_comparison r = Some c \<and> sc_matches c
    \<and> sc_replay_state c = Some ''CANCELLED''"
proof -
  obtain mission w' where run: "run sample_settings default_merchant_registry [dear_merchant] sample_request empty_world = (Inr mission, w')"
    "ms_state mission = M_CANCELLED" using sample_run by blast
  from orchestrated_mission_replays_to_its_state [OF run(1) empty_world_ready(2-4)] run show ?thesis by auto
qed



end
