(* ===== verification/Outbox.thy ===== *)
theory Outbox
  imports PaymentState
begin

text \<open>
  The transactional outbox (\<^verbatim>\<open>services/payment_executor/outbox.py\<close>): enqueue, claim under a
  lease, complete, retry with backoff, dead-letter. The claim exists twice, as in the code:
  for PostgreSQL (row locks of other sessions are skipped; the locked rows are a parameter)
  and as a portable compare-and-set.
\<close>

section \<open>Operations\<close>

definition DEFAULT_LEASE :: int where
  "DEFAULT_LEASE = 30 * usec"

definition BACKOFF_SECONDS :: "int list" where
  "BACKOFF_SECONDS = [1, 2, 5, 15, 30, 60, 120, 300]"

definition DEFAULT_MAX_ATTEMPTS :: int where
  "DEFAULT_MAX_ATTEMPTS = 8"

definition backoff_for :: "int \<Rightarrow> int" where
  "backoff_for attempts =
     (let index = min (max (attempts - 1) 0) (int (length BACKOFF_SECONDS) - 1)
      in BACKOFF_SECONDS ! nat index * usec)"

definition enqueue_outbox_event ::
  "uuid \<Rightarrow> outbox_event_type \<Rightarrow> payload \<Rightarrow> instant option \<Rightarrow> int \<Rightarrow> outbox_event_row db" where
  "enqueue_outbox_event payment_intent_id event_type payload available_at max_attempts =
     bind uuid4 (\<lambda>i.
     bind (moment_of available_at) (\<lambda>available.
     bind utcnow (\<lambda>created.
     let row = \<lparr>ob_id = i, ob_payment_intent_id = payment_intent_id, ob_event_type = event_type,
       ob_payload = payload, ob_status = O_PENDING, ob_attempts = 0, ob_max_attempts = max_attempts,
       ob_available_at = available, ob_claimed_by = None, ob_last_error = None,
       ob_created_at = created, ob_processed_at = None\<rparr> in
     andthen (insert_outbox_event row) (ret row))))"

definition due_predicate :: "instant \<Rightarrow> outbox_event_row \<Rightarrow> bool" where
  "due_predicate moment r \<longleftrightarrow> ob_status r \<in> {O_PENDING, O_IN_PROGRESS} \<and> ob_available_at r \<le> moment"

text \<open>\<open>ORDER BY available_at, created_at LIMIT 1\<close>.\<close>

definition first_due :: "instant \<Rightarrow> outbox_event_row list \<Rightarrow> outbox_event_row option" where
  "first_due moment rows =
     (case sort_key (\<lambda>r. (ob_available_at r, ob_created_at r)) (filter (due_predicate moment) rows) of
        [] \<Rightarrow> None | r # _ \<Rightarrow> Some r)"

definition claimed :: "string \<Rightarrow> instant \<Rightarrow> outbox_event_row \<Rightarrow> outbox_event_row" where
  "claimed worker_id lease_until r = r\<lparr>ob_status := O_IN_PROGRESS, ob_attempts := ob_attempts r + 1,
     ob_claimed_by := Some worker_id, ob_available_at := lease_until\<rparr>"

definition claim_postgres :: "uuid set \<Rightarrow> string \<Rightarrow> instant \<Rightarrow> instant \<Rightarrow> uuid option db" where
  "claim_postgres locked worker_id now lease_until =
     bind (gets (\<lambda>w. first_due now (filter (\<lambda>r. ob_id r \<notin> locked) (w_outbox_events w)))) (\<lambda>candidate.
     case candidate of
       None \<Rightarrow> ret None
     | Some c \<Rightarrow> bind (update_outbox (\<lambda>r. ob_id r = ob_id c) (claimed worker_id lease_until)) (\<lambda>n.
         ret (if n = 1 then Some (ob_id c) else None)))"

definition claim_candidate :: "outbox_event_row \<Rightarrow> string \<Rightarrow> instant \<Rightarrow> uuid option db" where
  "claim_candidate c worker_id lease_until =
     bind (update_outbox (\<lambda>r. ob_id r = ob_id c \<and> ob_status r = ob_status c \<and> ob_available_at r = ob_available_at c)
       (claimed worker_id lease_until)) (\<lambda>n.
     ret (if n = 1 then Some (ob_id c) else None))"

definition claim_conditional :: "string \<Rightarrow> instant \<Rightarrow> instant \<Rightarrow> uuid option db" where
  "claim_conditional worker_id now lease_until =
     bind (gets (\<lambda>w. first_due now (w_outbox_events w))) (\<lambda>candidate.
     case candidate of
       None \<Rightarrow> ret None
     | Some c \<Rightarrow> claim_candidate c worker_id lease_until)"

text \<open>The dialect of the session's engine: \<open>Some locked\<close> is PostgreSQL with the rows other
  sessions hold locks on.\<close>

type_synonym dialect = "uuid set option"

definition claim_next_event :: "dialect \<Rightarrow> string \<Rightarrow> instant option \<Rightarrow> int \<Rightarrow> outbox_event_row option db" where
  "claim_next_event dialect worker_id now lease =
     bind (moment_of now) (\<lambda>moment.
     bind (lift (plus_delta moment lease)) (\<lambda>lease_until.
     bind (case dialect of
         Some locked \<Rightarrow> claim_postgres locked worker_id moment lease_until
       | None \<Rightarrow> claim_conditional worker_id moment lease_until) (\<lambda>claimed_id.
     case claimed_id of
       None \<Rightarrow> ret None
     | Some i \<Rightarrow> gets (find_outbox i))))"

definition complete_event :: "outbox_event_row \<Rightarrow> instant option \<Rightarrow> unit db" where
  "complete_event event now =
     bind (moment_of now) (\<lambda>moment.
     set_outbox (ob_id event) (\<lambda>r. r\<lparr>ob_status := O_PROCESSED, ob_processed_at := Some moment,
       ob_last_error := None\<rparr>))"

definition reschedule_event :: "outbox_event_row \<Rightarrow> string \<Rightarrow> instant option \<Rightarrow> int option \<Rightarrow> bool db" where
  "reschedule_event event reason now delay =
     bind (moment_of now) (\<lambda>moment.
     if ob_max_attempts event \<le> ob_attempts event then
       andthen (set_outbox (ob_id event) (\<lambda>r. r\<lparr>ob_last_error := Some (take 200 reason),
         ob_status := O_FAILED, ob_processed_at := Some moment\<rparr>))
       (ret False)
     else
       bind (lift (plus_delta moment (case delay of Some d \<Rightarrow> d | None \<Rightarrow> backoff_for (ob_attempts event)))) (\<lambda>available.
       andthen (set_outbox (ob_id event) (\<lambda>r. r\<lparr>ob_last_error := Some (take 200 reason),
         ob_status := O_PENDING, ob_available_at := available\<rparr>))
       (ret True)))"

definition pending_events_for :: "uuid \<Rightarrow> outbox_event_row list db" where
  "pending_events_for payment_intent_id = gets (\<lambda>w. sort_key ob_available_at
     (filter (\<lambda>r. ob_payment_intent_id r = payment_intent_id \<and> ob_status r \<in> {O_PENDING, O_IN_PROGRESS})
       (w_outbox_events w)))"

section \<open>What a claim does\<close>

definition outbox_ok :: "world \<Rightarrow> bool" where
  "outbox_ok w \<longleftrightarrow> keyed ob_id (w_outbox_events w) \<and> list_all outbox_checks (w_outbox_events w)"

lemma checks_claimed: "outbox_checks r \<Longrightarrow> outbox_checks (claimed worker lease r)"
  by (simp add: outbox_checks_def claimed_def)

lemma claimed_simps [simp]: "ob_id (claimed worker lease r) = ob_id r"
  "ob_status (claimed worker lease r) = O_IN_PROGRESS" "ob_available_at (claimed worker lease r) = lease"
  "ob_attempts (claimed worker lease r) = ob_attempts r + 1" "ob_claimed_by (claimed worker lease r) = Some worker"
  by (simp_all add: claimed_def)

lemma first_due_SomeD:
  assumes "first_due moment rows = Some r"
  shows "r \<in> set rows" and "due_predicate moment r"
    and "\<And>x. x \<in> set rows \<Longrightarrow> due_predicate moment x
      \<Longrightarrow> (ob_available_at r, ob_created_at r) \<le> (ob_available_at x, ob_created_at x)"
proof -
  let ?k = "\<lambda>r. (ob_available_at r, ob_created_at r)"
  let ?s = "sort_key ?k (filter (due_predicate moment) rows)"
  from assms obtain rs where s: "?s = r # rs" by (auto simp: first_due_def split: list.splits)
  then have "r \<in> set ?s" by simp
  then show "r \<in> set rows" "due_predicate moment r" by simp_all
  fix x assume "x \<in> set rows" "due_predicate moment x"
  then have "x \<in> set ?s" by simp
  moreover have "sorted (map ?k ?s)" by simp
  ultimately show "?k r \<le> ?k x" unfolding s by auto
qed

lemma first_due_None: "first_due moment rows = None \<longleftrightarrow> (\<forall>r \<in> set rows. \<not> due_predicate moment r)"
proof (cases "filter (due_predicate moment) rows")
  case Nil
  then show ?thesis by (simp add: first_due_def filter_empty_conv)
next
  case (Cons r rs)
  then have "sort_key (\<lambda>r. (ob_available_at r, ob_created_at r)) (filter (due_predicate moment) rows) \<noteq> []" by simp
  then have "first_due moment rows \<noteq> None" unfolding first_due_def by (auto split: list.splits)
  moreover from Cons have "r \<in> set (filter (due_predicate moment) rows)" by simp
  then have "r \<in> set rows \<and> due_predicate moment r" by simp
  ultimately show ?thesis by blast
qed

lemma update_one_outbox:
  assumes ok: "outbox_ok w" and c: "c \<in> set (w_outbox_events w)" and pc: "p c"
    and addr: "\<And>r. p r \<Longrightarrow> ob_id r = ob_id c" and ck: "outbox_checks c \<Longrightarrow> outbox_checks (f c)"
  shows "update_outbox p f w = (Inr 1, w\<lparr>w_outbox_events := update_where p f (w_outbox_events w)\<rparr>)"
proof -
  have k: "keyed ob_id (w_outbox_events w)" using ok by (simp add: outbox_ok_def)
  have only: "x = c" if "x \<in> set (w_outbox_events w)" "p x" for x
    using keyed_unique [OF k that(1) c] addr that(2) by blast
  have "find_row (\<lambda>r. ob_id r = ob_id c) (w_outbox_events w) = Some c" using find_row_key [OF k c] .
  with rows_matching_key [OF k addr] pc have "rows_matching p (w_outbox_events w) = 1" by simp
  moreover have "list_all outbox_checks (map f (filter p (w_outbox_events w)))"
    using only ok c ck by (auto simp: list_all_iff outbox_ok_def)
  ultimately show ?thesis by (simp add: update_outbox_eq)
qed

lemma find_outbox_update:
  assumes "\<And>r. ob_id (f r) = ob_id r"
  shows "find_outbox i (w\<lparr>w_outbox_events := update_where p f (w_outbox_events w)\<rparr>)
    = map_option (\<lambda>r. if p r then f r else r) (find_outbox i w)"
  using find_row_update_cond [of ob_id f i p, OF assms] by (simp add: find_outbox_def)

lemma claim_candidate_hit:
  assumes "outbox_ok w" and "c \<in> set (w_outbox_events w)"
  shows "claim_candidate c worker lease w = (Inr (Some (ob_id c)), w\<lparr>w_outbox_events :=
    update_where (\<lambda>r. ob_id r = ob_id c) (claimed worker lease) (w_outbox_events w)\<rparr>)"
proof -
  let ?p = "\<lambda>r. ob_id r = ob_id c \<and> ob_status r = ob_status c \<and> ob_available_at r = ob_available_at c"
  have k: "keyed ob_id (w_outbox_events w)" using assms(1) by (simp add: outbox_ok_def)
  have u: "update_outbox ?p (claimed worker lease) w
      = (Inr 1, w\<lparr>w_outbox_events := update_where ?p (claimed worker lease) (w_outbox_events w)\<rparr>)"
    by (rule update_one_outbox [OF assms]) (auto intro: checks_claimed)
  have "?p r = (ob_id r = ob_id c)" if "r \<in> set (w_outbox_events w)" for r
    using keyed_unique [OF k that assms(2)] by auto
  then have "update_where ?p (claimed worker lease) (w_outbox_events w)
      = update_where (\<lambda>r. ob_id r = ob_id c) (claimed worker lease) (w_outbox_events w)"
    by (simp add: update_where_def cong: map_cong)
  with u show ?thesis by (simp add: claim_candidate_def bind_def ret_def)
qed

text \<open>One claim, in either dialect, on the rows this session may take.\<close>

definition visible :: "dialect \<Rightarrow> outbox_event_row \<Rightarrow> bool" where
  "visible dialect r = (case dialect of None \<Rightarrow> True | Some locked \<Rightarrow> ob_id r \<notin> locked)"

lemma claim_next_event_eq:
  assumes ok: "outbox_ok w" and lease: "plus_delta now lease = Inr until"
  shows "claim_next_event dialect worker (Some now) lease w =
    (case first_due now (filter (visible dialect) (w_outbox_events w)) of
       None \<Rightarrow> (Inr None, w)
     | Some c \<Rightarrow> (Inr (Some (claimed worker until c)), w\<lparr>w_outbox_events :=
         update_where (\<lambda>r. ob_id r = ob_id c) (claimed worker until) (w_outbox_events w)\<rparr>))"
proof (cases "first_due now (filter (visible dialect) (w_outbox_events w))")
  case None
  with lease show ?thesis
    by (cases dialect) (simp_all add: claim_next_event_def claim_postgres_def claim_conditional_def
        visible_def [abs_def] moment_of_def session_defs)
next
  case (Some c)
  have c: "c \<in> set (w_outbox_events w)" using first_due_SomeD(1) [OF Some] by simp
  let ?w = "w\<lparr>w_outbox_events := update_where (\<lambda>r. ob_id r = ob_id c) (claimed worker until) (w_outbox_events w)\<rparr>"
  have "find_outbox (ob_id c) w = Some c"
    using find_row_key [of ob_id "w_outbox_events w" c] c ok by (simp add: find_outbox_def outbox_ok_def)
  then have found: "find_outbox (ob_id c) ?w = Some (claimed worker until c)"
    by (simp add: find_outbox_update)
  have u: "update_outbox (\<lambda>r. ob_id r = ob_id c) (claimed worker until) w = (Inr 1, ?w)"
    by (rule update_one_outbox [OF ok c]) (auto intro: checks_claimed)
  show ?thesis
    using Some lease found u claim_candidate_hit [OF ok c]
    by (cases dialect) (simp_all add: claim_next_event_def claim_postgres_def claim_conditional_def
        visible_def [abs_def] moment_of_def session_defs)
qed

section \<open>Sequences of claims\<close>

text \<open>Workers that claim one after the other, each with its dialect, name, time and lease; the
  list holds the identifiers of the events they got, in order.\<close>

fun run_claims :: "(dialect \<times> string \<times> instant \<times> int) list \<Rightarrow> world \<Rightarrow> uuid list \<times> world" where
  "run_claims [] w = ([], w)"
| "run_claims ((dialect, worker, now, lease) # cs) w =
    (case claim_next_event dialect worker (Some now) lease w of
       (Inr (Some r), w') \<Rightarrow> (let (ids, w'') = run_claims cs w' in (ob_id r # ids, w''))
     | (_, w') \<Rightarrow> run_claims cs w')"

lemma outbox_ok_update:
  assumes "outbox_ok w" and "\<And>r. ob_id (f r) = ob_id r" and "\<And>r. outbox_checks r \<Longrightarrow> outbox_checks (f r)"
  shows "outbox_ok (w\<lparr>w_outbox_events := update_where p f (w_outbox_events w)\<rparr>)"
  using assms by (auto simp: outbox_ok_def keyed_update_where list_all_iff set_update_where)

text \<open>A claimed event is out of reach until its lease lapses.\<close>

definition leased :: "instant \<Rightarrow> uuid \<Rightarrow> world \<Rightarrow> bool" where
  "leased t i w \<longleftrightarrow> (\<forall>r \<in> set (w_outbox_events w). ob_id r = i \<longrightarrow> t \<le> ob_available_at r)"

lemma claim_keeps:
  assumes ok: "outbox_ok w" and lt: "now < t" "t \<le> now + lease"
    and run: "claim_next_event dialect worker (Some now) lease w = (res, w')"
  shows "outbox_ok w' \<and> (\<forall>i. leased t i w \<longrightarrow> leased t i w')
    \<and> (\<forall>r. res = Inr (Some r) \<longrightarrow> \<not> leased t (ob_id r) w \<and> leased t (ob_id r) w')"
proof (cases "plus_delta now lease")
  case (Inl e)
  with run have "res = Inl e" "w' = w" by (auto simp: claim_next_event_def moment_of_def session_defs)
  with ok show ?thesis by simp
next
  case (Inr until)
  then have u: "until = now + lease" by (auto simp: plus_delta_def split: if_splits)
  show ?thesis
  proof (cases "first_due now (filter (visible dialect) (w_outbox_events w))")
    case None
    with run claim_next_event_eq [OF ok Inr, of dialect worker] ok show ?thesis by auto
  next
    case (Some c)
    let ?w = "w\<lparr>w_outbox_events := update_where (\<lambda>r. ob_id r = ob_id c) (claimed worker until) (w_outbox_events w)\<rparr>"
    have "outbox_ok ?w" by (rule outbox_ok_update [OF ok]) (simp_all add: checks_claimed)
    moreover have "\<not> leased t (ob_id c) w"
      using first_due_SomeD(1,2) [OF Some] lt by (auto simp: leased_def due_predicate_def)
    moreover have "leased t i w \<longrightarrow> leased t i ?w" "leased t (ob_id c) ?w" for i
      using lt u by (auto simp: leased_def set_update_where)
    ultimately show ?thesis using run claim_next_event_eq [OF ok Inr, of dialect worker] Some by auto
  qed
qed

lemma run_claims_distinct:
  assumes "outbox_ok w" and "\<forall>(d, wk, now, lease) \<in> set cs. now < t \<and> t \<le> now + lease"
    and "\<forall>i \<in> S. leased t i w"
  shows "distinct (fst (run_claims cs w)) \<and> set (fst (run_claims cs w)) \<inter> S = {}"
  using assms
proof (induction cs arbitrary: w S)
  case Nil
  show ?case by simp
next
  case (Cons c cs)
  obtain d wk now lease where c: "c = (d, wk, now, lease)" by (metis prod_cases4)
  obtain res w' where run: "claim_next_event d wk (Some now) lease w = (res, w')" by fastforce
  from Cons.prems(2) c have lt: "now < t" "t \<le> now + lease"
    and rest: "\<forall>(d, wk, now, lease) \<in> set cs. now < t \<and> t \<le> now + lease" by auto
  note keep = claim_keeps [OF Cons.prems(1) lt run]
  show ?case
  proof (cases "\<exists>r. res = Inr (Some r)")
    case True
    then obtain r where r: "res = Inr (Some r)" by blast
    with keep Cons.prems(3) have "\<forall>i \<in> insert (ob_id r) S. leased t i w'" and "ob_id r \<notin> S" by auto
    with Cons.IH [OF _ rest this(1)] keep show ?thesis
      by (auto simp: c run r split: prod.splits)
  next
    case False
    have "\<forall>i \<in> S. leased t i w'" using keep Cons.prems(3) by blast
    with Cons.IH [OF _ rest this] keep False show ?thesis
      by (auto simp: c run split: sum.splits option.splits)
  qed
qed

section \<open>Properties of the outbox\<close>


definition sample_outbox :: "uuid \<Rightarrow> instant \<Rightarrow> outbox_event_row" where
  "sample_outbox i t = \<lparr>ob_id = i, ob_payment_intent_id = 3, ob_event_type = OE_PAYMENT_CREATE_REQUESTED,
     ob_payload = [], ob_status = O_PENDING, ob_attempts = 0, ob_max_attempts = 8, ob_available_at = t,
     ob_claimed_by = None, ob_last_error = None, ob_created_at = t, ob_processed_at = None\<rparr>"

definition queue_world :: world where
  "queue_world = sample_world\<lparr>w_outbox_events := [sample_outbox 21 200, sample_outbox 22 100]\<rparr>"

lemma queue_world_ok: "outbox_ok queue_world"
  by (simp add: outbox_ok_def queue_world_def keyed_def sample_outbox_def outbox_checks_def)


text \<open>
  A claim takes the event that has been due longest among those it may see, creation time
  breaking ties: that row alone becomes IN_PROGRESS with one more attempt, the worker's name
  and the end of the lease. When nothing is due the claim returns nothing and changes nothing.
\<close>

theorem claim_takes_the_event_due_longest:
  assumes "outbox_ok w" and "plus_delta now lease = Inr until"
    and "claim_next_event dialect worker (Some now) lease w = (res, w')"
  shows "(res = Inr None \<and> w' = w \<and> (\<forall>r \<in> set (w_outbox_events w). visible dialect r \<longrightarrow> \<not> due_predicate now r))
    \<or> (\<exists>c \<in> set (w_outbox_events w). visible dialect c \<and> due_predicate now c
        \<and> (\<forall>r \<in> set (w_outbox_events w). visible dialect r \<and> due_predicate now r \<longrightarrow>
            (ob_available_at c, ob_created_at c) \<le> (ob_available_at r, ob_created_at r))
        \<and> res = Inr (Some (claimed worker until c))
        \<and> w' = w\<lparr>w_outbox_events := update_where (\<lambda>r. ob_id r = ob_id c) (claimed worker until) (w_outbox_events w)\<rparr>)"
proof (cases "first_due now (filter (visible dialect) (w_outbox_events w))")
  case None
  with assms(3) claim_next_event_eq [OF assms(1,2), of dialect worker] show ?thesis
    by (auto simp: first_due_None)
next
  case (Some c)
  note first_due_SomeD [OF Some]
  with assms(3) claim_next_event_eq [OF assms(1,2), of dialect worker] Some show ?thesis by auto
qed

theorem claim_takes_the_event_due_longest_witness:
  "fst (claim_next_event None ''a'' (Some 300) 30 queue_world) = Inr (Some (claimed ''a'' 330 (sample_outbox 22 100)))
   \<and> fst (claim_next_event None ''a'' (Some 50) 30 queue_world) = Inr None"
proof -
  have p: "plus_delta 300 30 = Inr 330" "plus_delta 50 30 = Inr 80" by (simp_all add: plus_delta_def max_instant_def)
  obtain r w' where 1: "claim_next_event None ''a'' (Some 300) 30 queue_world = (r, w')" by fastforce
  obtain s v where 2: "claim_next_event None ''a'' (Some 50) 30 queue_world = (s, v)" by fastforce
  from claim_takes_the_event_due_longest [OF queue_world_ok p(1) 1]
    claim_takes_the_event_due_longest [OF queue_world_ok p(2) 2] 1 2
  show ?thesis by (auto simp: queue_world_def sample_outbox_def due_predicate_def visible_def)
qed

text \<open>
  The compare-and-set of the portable claim: when the candidate's row has moved since it
  was read, to another status or another time, the claim gets nothing and writes nothing;
  otherwise it gets exactly that row.
\<close>

theorem lost_claim_race_claims_nothing:
  assumes "outbox_ok w" and "find_outbox (ob_id c) w = Some r"
  shows "claim_candidate c worker until w =
    (if ob_status r = ob_status c \<and> ob_available_at r = ob_available_at c
     then (Inr (Some (ob_id c)), w\<lparr>w_outbox_events :=
        update_where (\<lambda>x. ob_id x = ob_id c) (claimed worker until) (w_outbox_events w)\<rparr>)
     else (Inr None, w))"
proof -
  have r: "r \<in> set (w_outbox_events w)" "ob_id r = ob_id c"
    using assms(2) by (auto simp: find_outbox_def dest: find_row_SomeD)
  have k: "keyed ob_id (w_outbox_events w)" using assms(1) by (simp add: outbox_ok_def)
  show ?thesis
  proof (cases "ob_status r = ob_status c \<and> ob_available_at r = ob_available_at c")
    case True
    then have "claim_candidate c worker until w = claim_candidate r worker until w"
      using r by (simp add: claim_candidate_def cong: if_cong)
    with claim_candidate_hit [OF assms(1) r(1)] r True show ?thesis by simp
  next
    case False
    let ?p = "\<lambda>x. ob_id x = ob_id c \<and> ob_status x = ob_status c \<and> ob_available_at x = ob_available_at c"
    have none: "\<not> ?p x" if "x \<in> set (w_outbox_events w)" for x
      using keyed_unique [OF k that r(1)] r(2) False by auto
    then have f: "filter ?p (w_outbox_events w) = []" by (auto simp: filter_empty_conv)
    have "update_where ?p (claimed worker until) (w_outbox_events w) = w_outbox_events w"
      using none by (auto simp: update_where_def intro!: map_idI)
    with f False show ?thesis
      by (simp add: claim_candidate_def update_outbox_eq rows_matching_def session_defs)
  qed
qed

theorem lost_claim_race_claims_nothing_witness:
  "claim_candidate (sample_outbox 22 100) ''late'' 400
      (queue_world\<lparr>w_outbox_events := [claimed ''early'' 330 (sample_outbox 22 100)]\<rparr>)
    = (Inr None, queue_world\<lparr>w_outbox_events := [claimed ''early'' 330 (sample_outbox 22 100)]\<rparr>)"
proof -
  let ?w = "queue_world\<lparr>w_outbox_events := [claimed ''early'' 330 (sample_outbox 22 100)]\<rparr>"
  have "outbox_ok ?w" by (simp add: outbox_ok_def keyed_def sample_outbox_def outbox_checks_def claimed_def)
  moreover have "find_outbox (ob_id (sample_outbox 22 100)) ?w = Some (claimed ''early'' 330 (sample_outbox 22 100))"
    by (simp add: find_outbox_def find_row_def)
  ultimately show ?thesis
    using lost_claim_race_claims_nothing [of ?w "sample_outbox 22 100" _ "''late''" 400]
    by (simp add: sample_outbox_def)
qed

lemma backoff_bounds: "usec \<le> backoff_for n \<and> backoff_for n \<le> 300 * usec"
proof -
  define i where "i = nat (min (max (n - 1) 0) (int (length BACKOFF_SECONDS) - 1))"
  have "i < length BACKOFF_SECONDS" by (simp add: i_def BACKOFF_SECONDS_def)
  then have "BACKOFF_SECONDS ! i \<in> set BACKOFF_SECONDS" by (rule nth_mem)
  then have "1 \<le> BACKOFF_SECONDS ! i \<and> BACKOFF_SECONDS ! i \<le> 300" by (auto simp: BACKOFF_SECONDS_def)
  then show ?thesis by (simp add: backoff_for_def Let_def usec_def flip: i_def)
qed

lemma backoff_mono: "m \<le> n \<Longrightarrow> backoff_for m \<le> backoff_for n"
proof -
  assume "m \<le> n"
  define ix where "ix k = nat (min (max (k - 1) 0) (int (length BACKOFF_SECONDS) - 1))" for k
  have "ix m \<le> ix n" "ix n < length BACKOFF_SECONDS"
    using \<open>m \<le> n\<close> by (auto simp: ix_def BACKOFF_SECONDS_def)
  moreover have "sorted BACKOFF_SECONDS" by (simp add: BACKOFF_SECONDS_def)
  ultimately have "BACKOFF_SECONDS ! ix m \<le> BACKOFF_SECONDS ! ix n" by (rule sorted_nth_mono [rotated])
  then show ?thesis by (simp add: backoff_for_def Let_def usec_def flip: ix_def)
qed

text \<open>
  C33. The retry schedule is bounded and never shrinks: between one second and five minutes,
  growing with the number of attempts. A rescheduled event is dead-lettered exactly when its
  attempts have reached the maximum, and is then never due again; otherwise it is PENDING, due
  after the backoff of its attempts.
\<close>

theorem retries_are_bounded:
  assumes "outbox_ok w" and "find_outbox (ob_id ev) w = Some ev"
    and "0 \<le> now" and "now + 300 * usec \<le> max_instant"
  shows "usec \<le> backoff_for n \<and> backoff_for n \<le> 300 * usec \<and> backoff_for n \<le> backoff_for (n + 1)
    \<and> fst (reschedule_event ev reason (Some now) None w) = Inr (ob_attempts ev < ob_max_attempts ev)
    \<and> (\<exists>r. find_outbox (ob_id ev) (snd (reschedule_event ev reason (Some now) None w)) = Some r
        \<and> ob_attempts r = ob_attempts ev \<and> ob_last_error r = Some (take 200 reason)
        \<and> (if ob_attempts ev < ob_max_attempts ev
           then ob_status r = O_PENDING \<and> ob_available_at r = now + backoff_for (ob_attempts ev)
           else ob_status r = O_FAILED \<and> (\<forall>t. \<not> due_predicate t r)))"
proof -
  have ev: "ev \<in> set (w_outbox_events w)" using assms(2) by (auto simp: find_outbox_def dest: find_row_SomeD)
  have upd: "set_outbox (ob_id ev) f w
      = (Inr (), w\<lparr>w_outbox_events := update_where (\<lambda>r. ob_id r = ob_id ev) f (w_outbox_events w)\<rparr>)"
    if "outbox_checks (f ev)" for f
    using update_one_outbox [OF assms(1) ev, of "\<lambda>r. ob_id r = ob_id ev" f] that
    by (simp add: set_outbox_def session_defs)
  have ck: "0 \<le> ob_attempts ev" "1 \<le> ob_max_attempts ev"
    using assms(1) ev by (simp_all add: outbox_ok_def list_all_iff outbox_checks_def)
  have d: "plus_delta now (backoff_for (ob_attempts ev)) = Inr (now + backoff_for (ob_attempts ev))"
    using assms(3,4) backoff_bounds [of "ob_attempts ev"] by (simp add: plus_delta_def usec_def)
  have "fst (reschedule_event ev reason (Some now) None w) = Inr (ob_attempts ev < ob_max_attempts ev)
    \<and> (\<exists>r. find_outbox (ob_id ev) (snd (reschedule_event ev reason (Some now) None w)) = Some r
        \<and> ob_attempts r = ob_attempts ev \<and> ob_last_error r = Some (take 200 reason)
        \<and> (if ob_attempts ev < ob_max_attempts ev
           then ob_status r = O_PENDING \<and> ob_available_at r = now + backoff_for (ob_attempts ev)
           else ob_status r = O_FAILED \<and> (\<forall>t. \<not> due_predicate t r)))"
    by (simp add: reschedule_event_def moment_of_def bind_def ret_def andthen_def lift_def d upd ck outbox_checks_def
        find_outbox_update assms(2) due_predicate_def)
  with backoff_bounds [of n] backoff_mono [of n "n + 1"] show ?thesis by simp
qed

theorem retries_are_bounded_witness:
  "fst (reschedule_event (sample_outbox 22 100) ''r'' (Some 500) None queue_world) = Inr True
   \<and> backoff_for 3 = 5 * usec \<and> usec \<le> backoff_for 3"
  using retries_are_bounded [OF queue_world_ok, of "sample_outbox 22 100" 500 3 "''r''"]
  by (simp add: queue_world_def sample_outbox_def find_outbox_def find_row_def usec_def max_instant_def
      backoff_for_def BACKOFF_SECONDS_def numeral_2_eq_2)

section \<open>The outbox operations as payment steps\<close>

context settlement_order
begin

lemma keeps_enqueue: "keeps P (enqueue_outbox_event i t body avail n)"
  unfolding enqueue_outbox_event_def Let_def by (intro payment_intros ids clock)

lemma keeps_complete: "keeps P (complete_event event now)"
  unfolding complete_event_def by (intro payment_intros keeps_set_outbox) (simp add: outbox_evolves_def)

lemma keeps_reschedule: "keeps P (reschedule_event event reason now delay)"
  unfolding reschedule_event_def by (intro payment_intros keeps_set_outbox) (simp_all add: outbox_evolves_def)

lemma keeps_claim: "keeps P (claim_next_event dialect worker now lease)"
  unfolding claim_next_event_def claim_postgres_def claim_conditional_def claim_candidate_def
  by (intro payment_intros write_outbox) (simp_all add: outbox_evolves_def claimed_def)

end

text \<open>The outbox table stays well-formed, and its rows keep what they stand for.\<close>

definition outbox_kept :: "world \<Rightarrow> world \<Rightarrow> bool" where
  "outbox_kept w w' \<longleftrightarrow> (outbox_ok w \<longrightarrow> outbox_ok w')
     \<and> grows outbox_evolves (w_outbox_events w) (w_outbox_events w')"

lemma outbox_kept_frame: "w_outbox_events w' = w_outbox_events w \<Longrightarrow> outbox_kept w w'"
  by (simp add: outbox_kept_def outbox_ok_def outbox_rows.grows_refl)

lemma update_outbox_kept:
  assumes "\<And>r. q r \<Longrightarrow> outbox_evolves r (h r)"
  shows "outbox_kept w (snd (update_outbox q h w))"
proof (cases "list_all outbox_checks (map h (filter q (w_outbox_events w)))")
  case True
  let ?u = "update_where q h (w_outbox_events w)"
  have "map ob_id ?u = map ob_id (w_outbox_events w)"
    using assms by (auto simp: update_where_def outbox_evolves_def)
  moreover have "list_all outbox_checks ?u" if "list_all outbox_checks (w_outbox_events w)"
    using that True by (auto simp: list_all_iff update_where_def)
  ultimately show ?thesis
    using True outbox_rows.grows_update [of q h, OF assms]
    by (simp add: update_outbox_eq outbox_kept_def outbox_ok_def keyed_def)
next
  case False
  then show ?thesis by (simp add: update_outbox_eq outbox_kept_frame)
qed

interpretation payment_outbox: payment_order outbox_kept cfg for cfg
proof unfold_locales
  show "outbox_kept s s" for s by (simp add: outbox_kept_frame)
  show "outbox_kept s t \<Longrightarrow> outbox_kept t u \<Longrightarrow> outbox_kept s u" for s t u
    unfolding outbox_kept_def using outbox_rows.grows_trans by blast
  show "keeps outbox_kept (insert_outbox_event event)" for event
    by (auto simp: keeps_def insert_outbox_event_eq outbox_kept_def outbox_ok_def outbox_rows.grows_refl
        outbox_rows.grows_append)
  show "keeps outbox_kept (update_outbox q h)" if "\<And>r. q r \<Longrightarrow> outbox_evolves r (h r)" for q h
    using update_outbox_kept that by (simp add: keeps_def)
  show "outbox_kept s (restore_tables s s')" for s s' by (simp add: outbox_kept_frame restore_tables_def)
qed (auto simp: keeps_def payment_eqs intro!: outbox_kept_frame split: option.split sum.split)

end
