(* ===== verification/Intents.thy ===== *)
theory Intents
  imports Outbox
begin

text \<open>
  Creation of payment intents (\<^verbatim>\<open>services/payment_executor/intents.py\<close>): one logical payment per
  idempotency key, established in a savepoint together with the consumption of its
  authorization, its audit events, its outbox instruction and the move of the mission.
\<close>

section \<open>Operations\<close>

record payment_intent_result =
  pr_intent :: payment_intent_row
  pr_created :: bool

definition find_by_idempotency_key :: "string \<Rightarrow> world \<Rightarrow> payment_intent_row option" where
  "find_by_idempotency_key key w = find_row (\<lambda>r. pi_idempotency_key r = key) (w_payment_intents w)"

definition payment_intent_for_mission :: "uuid \<Rightarrow> payment_intent_row option db" where
  "payment_intent_for_mission mission_id = gets (\<lambda>w. latest_by pi_created_at
     (filter (\<lambda>r. pi_mission_id r = mission_id) (w_payment_intents w)))"

definition resolve_existing :: "payment_intent_row \<Rightarrow> string \<Rightarrow> string \<Rightarrow> payment_intent_result db" where
  "resolve_existing existing fingerprint idempotency_key =
     (if pi_request_fingerprint existing = fingerprint then
        andthen (payment_audit (pi_mission_id existing) E_PAYMENT_INTENT_REUSED
          [(''payment_intent_id'', JStr (uuid_str (pi_id existing))),
           (''idempotency_key'', JStr idempotency_key),
           (''state'', JStr (payment_text (pi_state existing))),
           (''authorization_consumed'', JBool False)])
        (ret \<lparr>pr_intent = existing, pr_created = False\<rparr>)
      else
        andthen (payment_audit (pi_mission_id existing) E_IDEMPOTENCY_CONFLICT
          [(''reason_code'', JStr (reason_text R_IDEMPOTENCY_CONFLICT)),
           (''idempotency_key'', JStr idempotency_key),
           (''existing_payment_intent_id'', JStr (uuid_str (pi_id existing))),
           (''existing_fingerprint_prefix'', JStr (digest_prefix (pi_request_fingerprint existing))),
           (''presented_fingerprint_prefix'', JStr (digest_prefix fingerprint))])
        (raise IdempotencyConflict))"

definition new_intent_row :: "uuid \<Rightarrow> uuid \<Rightarrow> authorization_row \<Rightarrow> string \<Rightarrow> string \<Rightarrow> bound_transaction \<Rightarrow> string
    \<Rightarrow> instant \<Rightarrow> payment_intent_row" where
  "new_intent_row intent_id mission_id authorization key fingerprint transaction provider created_at =
     \<lparr>pi_id = intent_id, pi_mission_id = mission_id,
      pi_authorization_id = az_authorization_id authorization,
      pi_transaction_digest = az_transaction_digest authorization, pi_idempotency_key = key,
      pi_request_fingerprint = fingerprint, pi_amount_inr = bt_amount_inr transaction,
      pi_currency = bt_currency transaction, pi_merchant_id = bt_merchant_id transaction,
      pi_provider = provider, pi_provider_payment_id = None, pi_provider_order_id = None,
      pi_provider_transaction_id = None, pi_provider_receipt = None, pi_provider_status = None,
      pi_provider_attempts = None, pi_provider_create_fenced_at = None,
      pi_provider_ambiguity_observed_at = None, pi_state = P_CREATED, pi_attempts = 0,
      pi_last_reason_code = None, pi_created_at = created_at\<rparr>"

text \<open>The body of the savepoint. The row it queues is the one it inserted, in state CREATED.\<close>

definition establish_intent ::
  "uuid \<Rightarrow> uuid \<Rightarrow> authorization_row \<Rightarrow> string \<Rightarrow> string \<Rightarrow> bound_transaction \<Rightarrow> string \<Rightarrow> instant
    \<Rightarrow> payment_intent_result db" where
  "establish_intent intent_id mission_id authorization key fingerprint transaction provider moment =
     bind utcnow (\<lambda>created_at.
     let row = new_intent_row intent_id mission_id authorization key fingerprint transaction provider created_at in
     andthen (insert_payment_intent row)
    (andthen (consume_authorization (az_authorization_id authorization) transaction (Some moment))
    (bind (modify_intent intent_id (\<lambda>r. bindE (assert_payment_transition (pi_state r) P_QUEUED) (\<lambda>_.
       Inr (r\<lparr>pi_state := P_QUEUED\<rparr>)))) (\<lambda>intent.
     andthen flush_intents
    (andthen (payment_audit mission_id E_PAYMENT_INTENT_CREATED
       [(''payment_intent_id'', JStr (uuid_str intent_id)),
        (''authorization_id'', JStr (uuid_str (az_authorization_id authorization))),
        (''idempotency_key'', JStr key),
        (''transaction_digest_prefix'', JStr (digest_prefix (az_transaction_digest authorization))),
        (''amount_inr'', JInt (bt_amount_inr transaction)),
        (''currency'', JStr (bt_currency transaction)),
        (''merchant_id'', JStr (bt_merchant_id transaction)),
        (''provider'', JStr provider)])
    (andthen (payment_audit mission_id E_PAYMENT_QUEUED
       [(''payment_intent_id'', JStr (uuid_str intent_id)),
        (''state'', JStr (payment_text P_QUEUED))])
    (andthen (enqueue_outbox_event intent_id OE_PAYMENT_CREATE_REQUESTED
       [(''idempotency_key'', JStr key)] (Some moment) DEFAULT_MAX_ATTEMPTS)
    (andthen (apply_mission_state mission_id M_PAYMENT_PENDING)
    (ret \<lparr>pr_intent = intent, pr_created = True\<rparr>)))))))))"

text \<open>
  The savepoint and its \<open>except IntegrityError\<close>. It is a definition of its own because another
  session may have committed the key since the row was looked for: it then runs in a state in
  which the key is taken.
\<close>

definition place_intent ::
  "uuid \<Rightarrow> uuid \<Rightarrow> authorization_row \<Rightarrow> string \<Rightarrow> string \<Rightarrow> bound_transaction \<Rightarrow> string \<Rightarrow> instant
    \<Rightarrow> payment_intent_result db" where
  "place_intent intent_id mission_id authorization key fingerprint transaction provider moment =
     catch (begin_nested (establish_intent intent_id mission_id authorization key fingerprint transaction
       provider moment))
       (\<lambda>e. case e of
          IntegrityError c \<Rightarrow>
            bind (gets (find_by_idempotency_key key)) (\<lambda>winner. case winner of
              None \<Rightarrow> raise e
            | Some x \<Rightarrow> resolve_existing x fingerprint key)
        | _ \<Rightarrow> raise e)"

definition create_payment_intent ::
  "approver \<Rightarrow> capability_set \<Rightarrow> uuid \<Rightarrow> uuid \<Rightarrow> string \<Rightarrow> string \<Rightarrow> instant option \<Rightarrow> payment_intent_result db" where
  "create_payment_intent cfg capabilities mission_id authorization_id idempotency_key provider now =
     andthen (lift (enforce_registered capabilities C_PAYMENT_EXECUTE))
    (bind (moment_of now) (\<lambda>moment.
     bind (reload authorization_id) (\<lambda>found. case found of
       None \<Rightarrow> raise AuthorizationNotFound
     | Some authorization \<Rightarrow>
       andthen (guardE (az_mission_id authorization = mission_id) PaymentRequestRejected)
      (bind (gets (find_by_idempotency_key idempotency_key)) (\<lambda>existing.
       bind (gets (find_mission mission_id)) (\<lambda>found_mission. case found_mission of
         None \<Rightarrow> raise PaymentRequestRejected
       | Some mission \<Rightarrow>
         andthen (guardE (existing \<noteq> None \<or> ms_state mission = M_AUTHORIZED) MissionNotAuthorized)
        (bind (verify_authorization_for_payment cfg authorization
           (case existing of Some e \<Rightarrow> if pi_authorization_id e = authorization_id then A_CONSUMED else A_ACTIVE
            | None \<Rightarrow> A_ACTIVE) moment) (\<lambda>transaction.
         bind (lift (request_fingerprint mission_id authorization_id (az_transaction_digest authorization)
           (bt_amount_inr transaction) (bt_currency transaction) (bt_merchant_id transaction) provider)) (\<lambda>fingerprint.
         case existing of
           Some e \<Rightarrow> resolve_existing e fingerprint idempotency_key
         | None \<Rightarrow>
           bind uuid4 (\<lambda>intent_id.
           place_intent intent_id mission_id authorization idempotency_key fingerprint transaction
             provider moment))))))))))"

section \<open>Every step of it is a payment step\<close>

context payment_order
begin

lemma keeps_resolve_existing: "keeps P (resolve_existing existing fingerprint key)"
  unfolding resolve_existing_def by (intro payment_intros)

lemma keeps_establish_intent:
  "keeps P (establish_intent i m authorization key fingerprint transaction provider moment)"
  unfolding establish_intent_def Let_def
  by (intro payment_intros clock new_intent keeps_consume keeps_enqueue write_intent)
    (simp add: new_intent_row_def, erule transition_step)

lemma keeps_place_intent:
  "keeps P (place_intent i m authorization key fingerprint transaction provider moment)"
  unfolding place_intent_def
  by (intro payment_intros keeps_begin_nested keeps_establish_intent)
    (auto intro!: payment_intros keeps_resolve_existing split: exn.split)

lemma keeps_create_payment_intent:
  "keeps P (create_payment_intent cfg' caps m a key provider now)"
  unfolding create_payment_intent_def
  by (intro payment_intros ids keeps_verify_for_payment keeps_resolve_existing keeps_place_intent)

end

section \<open>Payments stand on consumed authorizations\<close>

definition covers :: "authorization_row \<Rightarrow> payment_intent_row \<Rightarrow> bool" where
  "covers a p \<longleftrightarrow> az_authorization_id a = pi_authorization_id p \<and> az_status a = A_CONSUMED
     \<and> az_mission_id a = pi_mission_id p \<and> az_transaction_digest a = pi_transaction_digest p
     \<and> az_bound_amount_inr a = pi_amount_inr p \<and> py_upper (az_bound_currency a) = pi_currency p
     \<and> az_bound_merchant_id a = pi_merchant_id p"

definition paid_for :: "world \<Rightarrow> bool" where
  "paid_for w \<longleftrightarrow> (\<forall>p \<in> set (w_payment_intents w). \<exists>a \<in> set (w_authorizations w). covers a p)"

lemma covers_evolves: "intent_evolves p p' \<Longrightarrow> covers a p' = covers a p"
  by (auto simp: covers_def intent_evolves_def created_for_def)

lemma paid_for_cong:
  "w_payment_intents w' = w_payment_intents w \<Longrightarrow> w_authorizations w' = w_authorizations w \<Longrightarrow> paid_for w' = paid_for w"
  by (simp add: paid_for_def)

lemma paid_for_more:
  assumes "paid_for w" and "w_payment_intents w' = w_payment_intents w"
    and "\<And>a. a \<in> set (w_authorizations w) \<Longrightarrow> az_status a = A_CONSUMED \<Longrightarrow> a \<in> set (w_authorizations w')"
  shows "paid_for w'"
  using assms by (fastforce simp: paid_for_def covers_def)

lemma update_keeps_consumed:
  assumes "\<And>r. p r \<Longrightarrow> auth_step cfg r (f r)" and "a \<in> set rows" and "az_status a = A_CONSUMED"
  shows "a \<in> set (update_where p f rows)"
proof -
  have "\<not> p a" using auth_step_facts(1) [OF assms(1), of a] assms(3) by (auto simp: auth_next_def)
  with assms(2) show ?thesis by (force simp: set_update_where)
qed

lemma modify_keeps_paid_for:
  assumes "\<And>r r'. find_intent i w = Some r \<Longrightarrow> g r = Inr r' \<Longrightarrow> intent_evolves r r'" and "paid_for w"
  shows "paid_for (snd (modify_intent i g w))"
proof (cases "find_intent i w")
  case None
  with assms(2) show ?thesis by (simp add: modify_intent_eq)
next
  case (Some r)
  show ?thesis
  proof (cases "g r")
    case (Inl e)
    with Some assms(2) show ?thesis by (simp add: modify_intent_eq)
  next
    case (Inr r')
    note r = find_intent_SomeD [OF Some]
    from assms(1) [OF Some Inr] have "covers a r' = covers a r" for a by (simp add: covers_evolves)
    with r assms(2) have "\<exists>a \<in> set (w_authorizations w). covers a r'" by (auto simp: paid_for_def)
    with assms(2) Some Inr show ?thesis by (auto simp: modify_intent_eq paid_for_def set_update_where)
  qed
qed

interpretation settled: settlement_order "\<lambda>w w'. paid_for w \<longrightarrow> paid_for w'" cfg for cfg
proof unfold_locales
  show "keeps (\<lambda>w w'. paid_for w \<longrightarrow> paid_for w') (update_authorizations p f)"
    if "\<And>r. p r \<Longrightarrow> auth_step cfg r (f r)" for p f
    using update_keeps_consumed [OF that] by (auto simp: keeps_def update_authorizations_eq intro: paid_for_more)
  show "keeps (\<lambda>w w'. paid_for w \<longrightarrow> paid_for w') (insert_authorization (issued_row i m d txn scheme now))"
    for i m d txn scheme now
    by (auto simp: keeps_def insert_authorization_eq intro: paid_for_more)
  show "paid_for s \<longrightarrow> paid_for (snd (modify_intent i g s))"
    if "\<And>r r'. find_intent i s = Some r \<Longrightarrow> g r = Inr r' \<Longrightarrow> intent_evolves r r'" for i g s
    using modify_keeps_paid_for [of i s g] that by blast
  show "keeps (\<lambda>w w'. paid_for w \<longrightarrow> paid_for w') (update_payment_intents q f)"
    if "\<And>r. q r \<Longrightarrow> intent_evolves r (f r)" for q f
    using covers_evolves [OF that]
    by (auto simp: keeps_def update_payment_intents_eq Let_def paid_for_def set_update_where)
  show "paid_for s \<longrightarrow> paid_for (restore_tables s s')" for s s' by (simp add: paid_for_def restore_tables_def)
qed (auto simp: keeps_def payment_eqs intro: paid_for_cong [THEN iffD1, rotated -1] split: option.split)

section \<open>What establishing an intent does\<close>

lemma rebuild_fields:
  assumes "rebuild_bound_transaction a = Inr t"
  shows "bt_merchant_id t = az_bound_merchant_id a" "bt_amount_inr t = az_bound_amount_inr a"
    "bt_currency t = py_upper (az_bound_currency a)" "bt_quantity t = az_bound_quantity a"
    "txn_digest t = Inr (az_transaction_digest a)" "1 \<le> az_bound_amount_inr a"
  using assms
  by (auto simp: rebuild_bound_transaction_def digests_match_def BoundTransaction_def require_def
      split: if_splits)

lemma require_policy_scheme_state: "require_policy_scheme row w = (res, w') \<Longrightarrow> w' = w"
  by (auto simp: require_policy_scheme_def session_defs Let_def split: if_splits)

lemma verify_for_payment_success:
  assumes "verify_authorization_for_payment cfg row st now w = (Inr t, w')"
  shows "w' = w \<and> rebuild_bound_transaction row = Inr t \<and> az_status row = st
    \<and> az_binding_version row = BINDING_VERSION \<and> (st = A_ACTIVE \<longrightarrow> now < az_expires_at row)"
proof -
  from assms obtain t' where r: "rebuild_bound_transaction row = Inr t'"
    by (auto simp: verify_authorization_for_payment_def bind_eq_Inr_iff lift_eq_Inr_iff)
  have st: "az_status row = st"
  proof (rule ccontr)
    assume "az_status row \<noteq> st"
    with assms r show False
      by (auto simp: verify_authorization_for_payment_def bind_eq_Inr_iff lift_eq_Inr_iff andthen_eq_Inr_iff
          whenS_eq_Inr_iff raise_eq_Inr_iff)
  qed
  have exp: "\<not> (st = A_ACTIVE \<and> az_expires_at row \<le> now)"
  proof
    assume "st = A_ACTIVE \<and> az_expires_at row \<le> now"
    with assms r st show False
      by (auto simp: verify_authorization_for_payment_def bind_eq_Inr_iff lift_eq_Inr_iff andthen_eq_Inr_iff
          whenS_eq_Inr_iff raise_eq_Inr_iff)
  qed
  from assms r st exp have "az_binding_version row = BINDING_VERSION" "w' = w" "t = t'"
    by (auto simp: verify_authorization_for_payment_def session_Inr_iffs whenS_eq_Inr_iff
        dest!: require_policy_scheme_state split: if_splits option.splits)
  with r st exp show ?thesis by auto
qed

lemma insert_intent_success:
  assumes "insert_payment_intent row w = (Inr u, w')"
  shows "w' = w\<lparr>w_payment_intents := w_payment_intents w @ [row]\<rparr>"
    and "pi_id row \<notin> pi_id ` set (w_payment_intents w)"
  using assms by (auto simp: insert_payment_intent_eq payment_intents_unique_def keyed_append_one split: if_splits)

lemma queue_new_row:
  assumes "pi_id row = i" "i \<notin> pi_id ` set rows" "w_payment_intents w = rows @ [row]" "pi_state row = P_CREATED"
  shows "modify_intent i (\<lambda>r. bindE (assert_payment_transition (pi_state r) P_QUEUED) (\<lambda>_. Inr (r\<lparr>pi_state := P_QUEUED\<rparr>))) w
    = (Inr (row\<lparr>pi_state := P_QUEUED\<rparr>), w\<lparr>w_payment_intents := rows @ [row\<lparr>pi_state := P_QUEUED\<rparr>]\<rparr>)"
proof -
  have "find_row (\<lambda>r. pi_id r = i) rows = None" using assms(2) by (auto simp: find_row_None_iff)
  then have "find_intent i w = Some row"
    using assms(1,3) by (simp add: find_intent_def find_row_append) (simp add: find_row_def)
  moreover have "update_where (\<lambda>r. pi_id r = i) f rows = rows" for f
    using assms(2) by (auto simp: update_where_def intro!: map_idI)
  ultimately show ?thesis
    using assms by (simp add: modify_intent_eq assert_payment_transition_def can_transition_def
        ALLOWED_PAYMENT_TRANSITIONS_def) (simp add: update_where_def)
qed

lemma keeps_result: "keeps P m \<Longrightarrow> m s = (r, t) \<Longrightarrow> P s t"
  by (metis keeps_def snd_conv)

text \<open>Audit events touch nothing but the ledger, outbox rows nothing but the outbox.\<close>

definition payment_tables :: "world \<Rightarrow> mission_row list \<times> authorization_row list \<times> payment_intent_row list
    \<times> outbox_event_row list \<times> webhook_event_row list" where
  "payment_tables w = (w_missions w, w_authorizations w, w_payment_intents w, w_outbox_events w, w_webhook_events w)"

lemma payment_audit_tables: "payment_audit m t body w = (res, w') \<Longrightarrow> payment_tables w' = payment_tables w"
  by (auto simp: payment_audit_def session_defs append_event_eq Let_def draw_def payment_tables_def
      split: if_splits option.splits sum.splits prod.splits)

lemma utcnow_tables: "utcnow w = (res, w') \<Longrightarrow> payment_tables w' = payment_tables w"
  by (auto simp: utcnow_def payment_tables_def)

lemma uuid4_tables: "uuid4 w = (res, w') \<Longrightarrow> payment_tables w' = payment_tables w"
  by (auto simp: uuid4_def payment_tables_def)

lemma moment_of_tables: "moment_of now w = (res, w') \<Longrightarrow> payment_tables w' = payment_tables w"
  by (auto simp: moment_of_def utcnow_def ret_def payment_tables_def split: option.splits)

lemma flush_intents_state: "flush_intents w = (res, w') \<Longrightarrow> w' = w"
  by (auto simp: flush_intents_def db_require_def session_defs split: if_splits)

definition instruction_for :: "uuid \<Rightarrow> string \<Rightarrow> instant \<Rightarrow> outbox_event_row \<Rightarrow> bool" where
  "instruction_for i key available ev \<longleftrightarrow> ob_payment_intent_id ev = i
     \<and> ob_event_type ev = OE_PAYMENT_CREATE_REQUESTED \<and> ob_payload ev = [(''idempotency_key'', JStr key)]
     \<and> ob_status ev = O_PENDING \<and> ob_attempts ev = 0 \<and> ob_max_attempts ev = DEFAULT_MAX_ATTEMPTS
     \<and> ob_available_at ev = available"

lemma enqueue_success:
  assumes "enqueue_outbox_event i OE_PAYMENT_CREATE_REQUESTED [(''idempotency_key'', JStr key)] (Some t)
      DEFAULT_MAX_ATTEMPTS w = (Inr ev, w')"
  shows "payment_tables w' = payment_tables (w\<lparr>w_outbox_events := w_outbox_events w @ [ev]\<rparr>)
    \<and> instruction_for i key t ev"
  using assms
  by (auto simp: enqueue_outbox_event_def session_Inr_iffs uuid4_def utcnow_def moment_of_def Let_def
      insert_outbox_event_eq payment_tables_def instruction_for_def split: if_splits)

definition established :: "payment_intent_row \<Rightarrow> instant \<Rightarrow> world \<Rightarrow> world \<Rightarrow> bool" where
  "established intent moment w w' \<longleftrightarrow>
     (\<exists>a ev. find_authorization (pi_authorization_id intent) w = Some a \<and> az_status a = A_ACTIVE
        \<and> moment < az_expires_at a
        \<and> find_authorization (pi_authorization_id intent) w' = Some (consumed moment a)
        \<and> w_payment_intents w' = w_payment_intents w @ [intent] \<and> pi_state intent = P_QUEUED
        \<and> w_outbox_events w' = w_outbox_events w @ [ev]
        \<and> instruction_for (pi_id intent) (pi_idempotency_key intent) moment ev
        \<and> w_missions w' = w_missions (snd (apply_mission_state (pi_mission_id intent) M_PAYMENT_PENDING w))
        \<and> w_webhook_events w' = w_webhook_events w)"

lemma mission_move_local:
  assumes "w_missions v = w_missions w"
  shows "apply_mission_state m st v = (Inr (), v\<lparr>w_missions := w_missions (snd (apply_mission_state m st w))\<rparr>)"
  using assms by (auto simp: apply_mission_state_eq find_mission_def split: option.splits)

lemma consume_success_at:
  assumes "consume_authorization i txn (Some t) w = (Inr row, w')" and "keyed az_authorization_id (w_authorizations w)"
  shows "\<exists>r. find_authorization i w = Some r \<and> az_status r = A_ACTIVE \<and> t < az_expires_at r
    \<and> find_authorization i w' = Some (consumed t r) \<and> outside_kernel w' = outside_kernel w"
  using consume_success [OF assms] keeps_result [OF kernel_frame.keeps_consume assms(1)] by auto

lemma establish_success:
  assumes run: "establish_intent i m authorization key fp txn provider moment w = (Inr res, w')"
    and k: "keyed az_authorization_id (w_authorizations w)"
  shows "\<exists>created_at. pr_created res
    \<and> pr_intent res = (new_intent_row i m authorization key fp txn provider created_at)\<lparr>pi_state := P_QUEUED\<rparr>
    \<and> established (pr_intent res) moment w w'"
proof -
  from run obtain t row w1 w2 w3 u3 r4 w4 u5 w5 u6 w6 u7 w7 ev w8 u9 where t: "utcnow w = (Inr t, w1)"
    and row: "row = new_intent_row i m authorization key fp txn provider t"
    and ins: "insert_payment_intent row w1 = (Inr (), w2)"
    and con: "consume_authorization (az_authorization_id authorization) txn (Some moment) w2 = (Inr u3, w3)"
    and mdi: "modify_intent i (\<lambda>r. bindE (assert_payment_transition (pi_state r) P_QUEUED) (\<lambda>_.
       Inr (r\<lparr>pi_state := P_QUEUED\<rparr>))) w3 = (Inr r4, w4)"
    and fl: "flush_intents w4 = (Inr u5, w5)"
    and au: "payment_audit m E_PAYMENT_INTENT_CREATED u6 w5 = (Inr (), w6)"
       "payment_audit m E_PAYMENT_QUEUED u7 w6 = (Inr (), w7)"
    and enq: "enqueue_outbox_event i OE_PAYMENT_CREATE_REQUESTED [(''idempotency_key'', JStr key)] (Some moment)
       DEFAULT_MAX_ATTEMPTS w7 = (Inr ev, w8)"
    and mis: "apply_mission_state m M_PAYMENT_PENDING w8 = (Inr u9, w')"
    and res: "res = \<lparr>pr_intent = r4, pr_created = True\<rparr>"
    unfolding establish_intent_def Let_def session_Inr_iffs by (fastforce simp del: One_nat_def)
  have a: "az_authorization_id authorization = pi_authorization_id row" "pi_id row = i" "pi_state row = P_CREATED"
    "pi_mission_id row = m" "pi_idempotency_key row = key" by (simp_all add: row new_intent_row_def)
  note i2 = insert_intent_success [OF ins]
  have t1: "payment_tables w1 = payment_tables w" using t by (rule utcnow_tables)
  then have "w_authorizations w2 = w_authorizations w" by (simp add: i2 payment_tables_def)
  moreover from this obtain au where auth: "find_authorization (pi_authorization_id row) w = Some au"
      "az_status au = A_ACTIVE" "moment < az_expires_at au"
      "find_authorization (pi_authorization_id row) w3 = Some (consumed moment au)"
      "outside_kernel w3 = outside_kernel w2"
    using consume_success_at [OF con] k by (auto simp: a find_authorization_def)
  from auth(5) i2(1) t1 have t3: "w_payment_intents w3 = w_payment_intents w @ [row]"
    "w_missions w3 = w_missions w" "w_outbox_events w3 = w_outbox_events w" "w_webhook_events w3 = w_webhook_events w"
    by (auto simp: outside_kernel_def payment_tables_def)
  have "i \<notin> pi_id ` set (w_payment_intents w)" using i2(2) t1 a by (simp add: payment_tables_def)
  from mdi queue_new_row [OF a(2) this t3(1) a(3)]
  have m4: "r4 = row\<lparr>pi_state := P_QUEUED\<rparr>" "w4 = w3\<lparr>w_payment_intents := w_payment_intents w @ [row\<lparr>pi_state := P_QUEUED\<rparr>]\<rparr>"
    by auto
  from flush_intents_state [OF fl] payment_audit_tables [OF au(1)] payment_audit_tables [OF au(2)]
  have t7: "payment_tables w7 = payment_tables w4" by simp
  note e = enqueue_success [OF enq]
  from t7 t3 m4 e have t8: "w_missions w8 = w_missions w" "w_payment_intents w8 = w_payment_intents w @ [r4]"
      "w_outbox_events w8 = w_outbox_events w @ [ev]" "w_authorizations w8 = w_authorizations w3"
      "w_webhook_events w8 = w_webhook_events w"
    by (auto simp: payment_tables_def)
  from mis mission_move_local [OF t8(1)] have "w' = w8\<lparr>w_missions := w_missions (snd (apply_mission_state m M_PAYMENT_PENDING w))\<rparr>"
    by simp
  then have "established r4 moment w w'"
    using t8 auth(1-4) e a unfolding established_def
    by (intro exI [of _ au] exI [of _ ev]) (simp add: m4 find_authorization_def)
  then show ?thesis by (auto simp: res m4 row)
qed

section \<open>A refused request\<close>

text \<open>What holds whenever a computation raises.\<close>

definition raises :: "('s \<Rightarrow> 's \<Rightarrow> bool) \<Rightarrow> ('s, 'e, 'a) session \<Rightarrow> bool" where
  "raises P m \<longleftrightarrow> (\<forall>s e t. m s = (Inl e, t) \<longrightarrow> P s t)"

context session_order
begin

lemma raises_keeps: "keeps P m \<Longrightarrow> raises P m"
  unfolding raises_def using keepsD by blast

lemma raises_bind:
  assumes "keeps P m" and "\<And>x. raises P (f x)" shows "raises P (bind m f)"
  unfolding raises_def
proof (intro allI impI)
  fix s e t assume run: "bind m f s = (Inl e, t)"
  obtain r u where m: "m s = (r, u)" by (cases "m s")
  with assms(1) have P: "P s u" using keepsD by blast
  show "P s t"
  proof (cases r)
    case (Inl e')
    with m run P show ?thesis by (simp add: bind_def)
  next
    case (Inr x)
    with m run have "f x u = (Inl e, t)" by (simp add: bind_def)
    with assms(2) [of x] P show ?thesis unfolding raises_def by (blast intro: trans)
  qed
qed

lemma raises_andthen: "keeps P m \<Longrightarrow> raises P k \<Longrightarrow> raises P (andthen m k)"
  unfolding andthen_def by (rule raises_bind)

lemma raises_catch:
  assumes "raises P m" and "\<And>e. keeps P (h e)" shows "raises P (catch m h)"
  unfolding raises_def
proof (intro allI impI)
  fix s e t assume "catch m h s = (Inl e, t)"
  then obtain e' u where "m s = (Inl e', u)" "h e' u = (Inl e, t)"
    by (auto simp: catch_def split: prod.splits sum.splits)
  with assms show "P s t" unfolding raises_def using keepsD trans by metis
qed

lemma raises_option: "raises P m \<Longrightarrow> (\<And>x. raises P (f x)) \<Longrightarrow> raises P (case v of None \<Rightarrow> m | Some x \<Rightarrow> f x)"
  by (simp split: option.split)

end

text \<open>
  A refused request leaves the missions, the payments, the outbox and the webhooks alone and
  spends no authorization; it may notice that one has expired.
\<close>

definition refused :: "world \<Rightarrow> world \<Rightarrow> bool" where
  "refused w w' \<longleftrightarrow> outside_kernel w' = outside_kernel w
     \<and> (\<forall>a \<in> set (w_authorizations w'). az_status a = A_CONSUMED \<longrightarrow> a \<in> set (w_authorizations w))"

interpretation refusal: session_order refused
  by unfold_locales (auto simp: refused_def)

lemma refusal_statements:
  "keeps refused utcnow" "keeps refused uuid4" "keeps refused (append_event m t actor body)"
  by (simp_all add: keeps_def refused_def statement_eqs append_event_eq outside_kernel_def Let_def draw_def)

lemma refusal_moment: "keeps refused (moment_of now)"
  by (simp add: moment_of_def refusal_statements refusal.keeps_ret split: option.split)

lemma refusal_audits: "keeps refused (kernel_audit m t p)" "keeps refused (payment_audit m t p)"
  by (simp_all add: kernel_audit_def payment_audit_def refusal_statements refusal.keeps_andthen refusal.keeps_ret)

lemma refusal_reload: "keeps refused (reload i)"
  by (simp add: reload_def refusal.keeps_gets)

lemmas refusal_intros = refusal.keeps_intros refusal_statements refusal_moment refusal_audits refusal_reload

lemma refusal_expire: "keeps refused (expire_if_stale i now)"
proof -
  have "keeps refused (update_authorizations p (\<lambda>r. r\<lparr>az_status := A_EXPIRED\<rparr>))" for p
    by (auto simp: keeps_def refused_def update_authorizations_eq outside_kernel_def set_update_where split: if_splits)
  then show ?thesis unfolding expire_if_stale_def by (intro refusal_intros)
qed

lemma refusal_verify: "keeps refused (verify_authorization_for_payment cfg row st now)"
  unfolding verify_authorization_for_payment_def classify_and_raise_def require_policy_scheme_def Let_def
  by (intro refusal_intros refusal_expire) (auto intro!: refusal_intros split: prod.split option.split)

lemma refusal_resolve: "keeps refused (resolve_existing existing fp key)"
  unfolding resolve_existing_def by (intro refusal_intros)

lemma refusal_nested: "raises refused (begin_nested m)"
  by (auto simp: raises_def begin_nested_def refused_def restore_tables_def outside_kernel_def
      split: prod.splits sum.splits)

lemma place_raises: "raises refused (place_intent i m authorization key fp txn provider moment)"
  unfolding place_intent_def
  by (intro refusal.raises_catch refusal_nested) (auto intro!: refusal_intros refusal_resolve split: exn.split)

lemma create_raises: "raises refused (create_payment_intent cfg caps m a key provider now)"
  unfolding create_payment_intent_def
  by (intro refusal.raises_bind refusal.raises_andthen refusal.raises_option place_raises refusal_intros
      refusal_verify refusal_resolve [THEN refusal.raises_keeps] refusal.raises_keeps [OF refusal.keeps_raise])

section \<open>A granted request\<close>

lemma find_by_key_cong:
  "payment_tables w' = payment_tables w \<Longrightarrow> find_by_idempotency_key key w' = find_by_idempotency_key key w"
  by (simp add: payment_tables_def find_by_idempotency_key_def)

lemma established_cong:
  assumes "payment_tables v = payment_tables w" shows "established intent t v w' = established intent t w w'"
proof -
  have "w_missions (snd (apply_mission_state m st v)) = w_missions (snd (apply_mission_state m st w))" for m st
    using assms mission_move_local [of v w m st] by (simp add: payment_tables_def)
  with assms show ?thesis by (simp add: established_def payment_tables_def find_authorization_def)
qed

lemma restore_payment_tables: "payment_tables (restore_tables w w') = payment_tables w"
  by (simp add: restore_tables_def payment_tables_def)

definition reused :: "payment_intent_result \<Rightarrow> string \<Rightarrow> string \<Rightarrow> world \<Rightarrow> world \<Rightarrow> bool" where
  "reused r key fp w w' \<longleftrightarrow> \<not> pr_created r \<and> find_by_idempotency_key key w = Some (pr_intent r)
     \<and> pi_request_fingerprint (pr_intent r) = fp \<and> payment_tables w' = payment_tables w"

lemma resolve_success:
  assumes "resolve_existing e fp key w = (Inr r, w')"
  shows "pr_intent r = e \<and> \<not> pr_created r \<and> pi_request_fingerprint e = fp \<and> payment_tables w' = payment_tables w"
  using assms
  by (auto simp: resolve_existing_def session_Inr_iffs dest!: payment_audit_tables split: if_splits)

lemma place_success:
  assumes run: "place_intent i m authorization key fp txn provider moment w = (Inr r, w')"
    and k: "keyed az_authorization_id (w_authorizations w)"
  shows "reused r key fp w w' \<or> (\<exists>created_at. pr_created r
    \<and> pr_intent r = (new_intent_row i m authorization key fp txn provider created_at)\<lparr>pi_state := P_QUEUED\<rparr>
    \<and> established (pr_intent r) moment w w')"
proof -
  obtain res v where est: "establish_intent i m authorization key fp txn provider moment w = (res, v)" by fastforce
  show ?thesis
  proof (cases res)
    case (Inr x)
    with run est have "x = r" "v = w'" by (simp_all add: place_intent_def catch_def begin_nested_def)
    with establish_success [of i m authorization key fp txn provider moment w r w'] est Inr k
    show ?thesis by blast
  next
    case (Inl e)
    with run est obtain c x where "find_by_idempotency_key key (restore_tables w v) = Some x"
      "resolve_existing x fp key (restore_tables w v) = (Inr r, w')"
      by (auto simp: place_intent_def catch_def begin_nested_def session_Inr_iffs split: exn.splits option.splits)
    with resolve_success [OF this(2)] show ?thesis
      by (simp add: reused_def restore_payment_tables find_by_key_cong [OF restore_payment_tables])
  qed
qed

lemma or_raise_eq_Inr_iff:
  "(case v of None \<Rightarrow> raise e | Some x \<Rightarrow> f x) s = (Inr y, t) \<longleftrightarrow> (\<exists>x. v = Some x \<and> f x s = (Inr y, t))"
  by (simp add: raise_eq_Inr_iff split: option.split)

definition granted :: "payment_intent_result \<Rightarrow> uuid \<Rightarrow> string \<Rightarrow> string \<Rightarrow> instant option \<Rightarrow> authorization_row
    \<Rightarrow> bound_transaction \<Rightarrow> string \<Rightarrow> world \<Rightarrow> world \<Rightarrow> bool" where
  "granted r m key provider now authorization txn fp w w' \<longleftrightarrow> reused r key fp w w'
     \<or> find_by_idempotency_key key w = None
       \<and> (\<exists>mission. find_mission m w = Some mission \<and> ms_state mission = M_AUTHORIZED)
       \<and> (\<exists>i created_at moment. pr_created r \<and> (\<forall>t. now = Some t \<longrightarrow> moment = t)
         \<and> pr_intent r = (new_intent_row i m authorization key fp txn provider created_at)\<lparr>pi_state := P_QUEUED\<rparr>
         \<and> established (pr_intent r) moment w w')"

lemma create_success:
  assumes run: "create_payment_intent cfg caps m a key provider now w = (Inr r, w')"
    and k: "keyed az_authorization_id (w_authorizations w)"
  obtains authorization txn fp where "find_authorization a w = Some authorization" "az_mission_id authorization = m"
    and "rebuild_bound_transaction authorization = Inr txn"
    and "request_fingerprint m a (az_transaction_digest authorization) (bt_amount_inr txn) (bt_currency txn)
      (bt_merchant_id txn) provider = Inr fp"
    and "granted r m key provider now authorization txn fp w w'"
proof -
  from run obtain moment w1 authorization mission txn w2 fp where
      mom: "moment_of now w = (Inr moment, w1)" and a: "find_authorization a w1 = Some authorization"
      and m: "az_mission_id authorization = m" and mission: "find_mission m w1 = Some mission"
      and st: "find_by_idempotency_key key w1 \<noteq> None \<or> ms_state mission = M_AUTHORIZED"
      and v: "verify_authorization_for_payment cfg authorization
         (case find_by_idempotency_key key w1 of Some e \<Rightarrow> if pi_authorization_id e = a then A_CONSUMED else A_ACTIVE
          | None \<Rightarrow> A_ACTIVE) moment w1 = (Inr txn, w2)"
      and fp: "request_fingerprint m a (az_transaction_digest authorization) (bt_amount_inr txn) (bt_currency txn)
        (bt_merchant_id txn) provider = Inr fp"
      and rest: "(case find_by_idempotency_key key w1 of Some e \<Rightarrow> resolve_existing e fp key
         | None \<Rightarrow> bind uuid4 (\<lambda>i. place_intent i m authorization key fp txn provider moment)) w2 = (Inr r, w')"
    unfolding create_payment_intent_def reload_def session_Inr_iffs or_raise_eq_Inr_iff by blast
  from mom have at_now: "\<forall>t. now = Some t \<longrightarrow> moment = t" by (auto simp: moment_of_def ret_def)
  from mom have t1: "payment_tables w1 = payment_tables w" by (rule moment_of_tables)
  note w2 = verify_for_payment_success [OF v]
  have fk: "find_by_idempotency_key key w1 = find_by_idempotency_key key w" using t1 by (rule find_by_key_cong)
  have out: "reused r key fp w w' \<or> find_by_idempotency_key key w = None \<and> ms_state mission = M_AUTHORIZED
      \<and> (\<exists>i created_at. pr_created r
        \<and> pr_intent r = (new_intent_row i m authorization key fp txn provider created_at)\<lparr>pi_state := P_QUEUED\<rparr>
        \<and> established (pr_intent r) moment w w')"
  proof (cases "find_by_idempotency_key key w")
    case (Some e)
    with rest fk have "resolve_existing e fp key w2 = (Inr r, w')" by simp
    from resolve_success [OF this] Some t1 w2 show ?thesis by (simp add: reused_def)
  next
    case None
    with rest fk obtain i w3 where u: "uuid4 w2 = (Inr i, w3)"
      and p: "place_intent i m authorization key fp txn provider moment w3 = (Inr r, w')"
      by (auto simp: session_Inr_iffs)
    from uuid4_tables [OF u] t1 w2 have t3: "payment_tables w3 = payment_tables w" by simp
    with k have "keyed az_authorization_id (w_authorizations w3)" by (simp add: payment_tables_def)
    from place_success [OF p this] None st fk show ?thesis
      by (auto simp: established_cong [OF t3] reused_def find_by_key_cong [OF t3])
  qed
  have "find_authorization a w = Some authorization" and mw: "find_mission m w = Some mission"
    using a mission t1 by (simp_all add: payment_tables_def find_authorization_def find_mission_def)
  from this(1) m w2 fp show ?thesis
  proof (rule that [OF _ _ conjunct1 [OF conjunct2]])
    show "granted r m key provider now authorization txn fp w w'" unfolding granted_def using out mw at_now by blast
  qed
qed

section \<open>A payable request is granted\<close>

text \<open>The entropy of \<open>uuid4\<close> is good for \<open>k\<close> draws: they differ and none has been used.\<close>

definition used_ids :: "world \<Rightarrow> uuid set" where
  "used_ids w = ae_event_id ` set (w_audit_events w) \<union> pi_id ` set (w_payment_intents w)
     \<union> ob_id ` set (w_outbox_events w)"

definition fresh_ids :: "nat \<Rightarrow> world \<Rightarrow> bool" where
  "fresh_ids k w \<longleftrightarrow> keyed ae_event_id (w_audit_events w)
     \<and> keyed (\<lambda>e. (ae_mission_id e, ae_sequence e)) (w_audit_events w) \<and> keyed ob_id (w_outbox_events w)
     \<and> inj_on (w_uuids w) {w_uuid_idx w..<w_uuid_idx w + k}
     \<and> w_uuids w ` {w_uuid_idx w..<w_uuid_idx w + k} \<inter> used_ids w = {}"

lemma fresh_next:
  assumes "fresh_ids (Suc k) w"
  shows "w_uuids w (w_uuid_idx w) \<notin> used_ids w"
    and "w_uuids w (w_uuid_idx w) \<notin> w_uuids w ` {Suc (w_uuid_idx w)..<Suc (w_uuid_idx w) + k}"
    and "inj_on (w_uuids w) {Suc (w_uuid_idx w)..<Suc (w_uuid_idx w) + k}"
    and "w_uuids w ` {Suc (w_uuid_idx w)..<Suc (w_uuid_idx w) + k} \<inter> used_ids w = {}"
proof -
  have "{w_uuid_idx w..<w_uuid_idx w + Suc k} = insert (w_uuid_idx w) {Suc (w_uuid_idx w)..<Suc (w_uuid_idx w) + k}"
    by auto
  with assms show "w_uuids w (w_uuid_idx w) \<notin> used_ids w"
    "w_uuids w (w_uuid_idx w) \<notin> w_uuids w ` {Suc (w_uuid_idx w)..<Suc (w_uuid_idx w) + k}"
    "inj_on (w_uuids w) {Suc (w_uuid_idx w)..<Suc (w_uuid_idx w) + k}"
    "w_uuids w ` {Suc (w_uuid_idx w)..<Suc (w_uuid_idx w) + k} \<inter> used_ids w = {}"
    unfolding fresh_ids_def by auto
qed

lemma fresh_audited:
  assumes "fresh_ids (Suc k) w" and m: "find_mission m w \<noteq> None"
  shows "audit_ready m w"
    and "append_event m t a p w = (Inr (next_row m t a p w), audited m t a p w)"
    and "fresh_ids k (audited m t a p w)"
proof -
  note n = fresh_next [OF assms(1)]
  have k: "keyed ae_event_id (w_audit_events w)" "keyed (\<lambda>e. (ae_mission_id e, ae_sequence e)) (w_audit_events w)"
    "keyed ob_id (w_outbox_events w)" using assms(1) by (simp_all add: fresh_ids_def)
  have id: "ae_event_id (next_row m t a p w) = w_uuids w (w_uuid_idx w)" by (simp add: next_row_def Let_def)
  show ready: "audit_ready m w" using k n(1) m by (auto simp: audit_ready_def used_ids_def)
  then have "appendable (w_audit_events w) (next_row m t a p w)" by (simp add: appendable_fresh audit_ready_def)
  with m show "append_event m t a p w = (Inr (next_row m t a p w), audited m t a p w)"
    by (simp add: append_event_success audited_def)
  have used: "used_ids (audited m t a p w) = insert (w_uuids w (w_uuid_idx w)) (used_ids w)"
    and fields: "w_uuids (audited m t a p w) = w_uuids w" "w_uuid_idx (audited m t a p w) = Suc (w_uuid_idx w)"
      "w_outbox_events (audited m t a p w) = w_outbox_events w"
      "w_audit_events (audited m t a p w) = w_audit_events w @ [next_row m t a p w]"
    by (simp_all add: used_ids_def audited_def draw_def id)
  show "fresh_ids k (audited m t a p w)"
    unfolding fresh_ids_def used fields Int_insert_right_if0 [OF n(2)]
    using n(3,4) k(3) \<open>appendable (w_audit_events w) (next_row m t a p w)\<close> by (simp add: appendable_def)
qed

lemma fresh_audit:
  assumes "fresh_ids (Suc k) w" and "find_mission m w \<noteq> None"
  shows "payment_audit m t p w = (Inr (), audited m t EXECUTOR_ACTOR p w)"
  using fresh_audited(2) [OF assms] by (simp add: payment_audit_def session_defs)

lemma fresh_ids_cong:
  assumes "w_uuids w' = w_uuids w" "w_uuid_idx w' = w_uuid_idx w" "w_audit_events w' = w_audit_events w"
    "w_outbox_events w' = w_outbox_events w" "pi_id ` set (w_payment_intents w') = pi_id ` set (w_payment_intents w)"
  shows "fresh_ids k w' = fresh_ids k w"
  using assms by (simp add: fresh_ids_def used_ids_def)

text \<open>The run of a consumption that wins.\<close>

lemma consume_run:
  assumes "authorizations_ok cfg w" and found: "find_authorization i w = Some r"
    and "audit_ready (az_mission_id r) w" and "txn_digest txn = Inr d" and "consumable d now r"
  shows "\<exists>rows p. consume_authorization i txn (Some now) w = (Inr (consumed now r),
      audited (az_mission_id r) E_AUTHORIZATION_CONSUMED KERNEL_ACTOR p (w\<lparr>w_authorizations := rows\<rparr>))"
proof -
  let ?p = "\<lambda>r. az_authorization_id r = i \<and> az_status r = A_ACTIVE \<and> az_transaction_digest r = d
      \<and> now < az_expires_at r"
  have k: "keyed az_authorization_id (w_authorizations w)" using assms(1) by (simp add: authorizations_ok_def)
  have p: "?p r" using find_authorization_id [OF found] assms(5) by (simp add: consumable_def)
  let ?rows = "update_where ?p (consumed now) (w_authorizations w)"
  have u: "update_authorizations ?p (consumed now) w = (Inr 1, w\<lparr>w_authorizations := ?rows\<rparr>)"
    using update_one [OF k found, of ?p "consumed now"] ok_find [OF assms(1) found] p
    by (auto simp: checks_after_move consumed_def)
  have "find_authorization i (w\<lparr>w_authorizations := ?rows\<rparr>) = Some (consumed now r)"
    using p found by (simp add: find_authorization_update consumed_def)
  then show ?thesis using u assms(3)
    by (simp add: consume_authorization_def moment_of_def reload_def session_defs assms(4) kernel_audit_ready
        flip: consumed_def) (auto simp: consumed_def kernel_audit_ready)
qed

lemma audited_tables [simp]: "payment_tables (audited m t a p w) = payment_tables w"
  "find_mission k (audited m t a p w) = find_mission k w" "find_intent k (audited m t a p w) = find_intent k w"
  by (simp_all add: audited_def draw_def payment_tables_def find_mission_def find_intent_def)

lemma enqueue_fresh:
  assumes "fresh_ids (Suc k) w" and "find_intent i w \<noteq> None" and "1 \<le> n"
  shows "\<exists>ev w'. enqueue_outbox_event i t body (Some avail) n w = (Inr ev, w')"
proof -
  have "w_uuids w (w_uuid_idx w) \<notin> ob_id ` set (w_outbox_events w)" "keyed ob_id (w_outbox_events w)"
    using assms(1) fresh_next(1) [OF assms(1)] by (auto simp: fresh_ids_def used_ids_def)
  with assms(2,3) show ?thesis
    by (auto simp: enqueue_outbox_event_def uuid4_def utcnow_def moment_of_def session_defs Let_def
        insert_outbox_event_eq keyed_append_one outbox_checks_def find_intent_def)
qed

lemma flush_requeued:
  assumes "payment_intents_unique (rows @ [row])" and "list_all payment_intent_checks (rows @ [row])"
    and "w_payment_intents w = rows @ [row\<lparr>pi_state := P_QUEUED\<rparr>]"
  shows "flush_intents w = (Inr (), w)"
  using assms
  by (simp add: flush_intents_def db_require_def session_defs payment_intents_unique_def keyed_def somes_def
      payment_intent_checks_def)

lemma establish_run:
  assumes ok: "authorizations_ok cfg w" and fr: "fresh_ids 4 w" "i \<notin> w_uuids w ` {w_uuid_idx w..<w_uuid_idx w + 4}"
    and a: "find_authorization (az_authorization_id r) w = Some r" "az_mission_id r = m"
    and d: "txn_digest txn = Inr (az_transaction_digest r)"
    and act: "az_status r = A_ACTIVE" "moment < az_expires_at r" and m: "find_mission m w \<noteq> None"
    and rows: "\<And>t. payment_intents_unique (w_payment_intents w @ [new_intent_row i m r key fp txn provider t])"
      "list_all payment_intent_checks (w_payment_intents w)" and amt: "1 \<le> bt_amount_inr txn"
  shows "\<exists>res w'. establish_intent i m r key fp txn provider moment w = (Inr res, w')"
proof -
  define row where "row = new_intent_row i m r key fp txn provider (w_clock w (w_clock_idx w))"
  define w1 where "w1 = w\<lparr>w_clock_idx := Suc (w_clock_idx w)\<rparr>"
  define w2 where "w2 = w1\<lparr>w_payment_intents := w_payment_intents w @ [row]\<rparr>"
  have row: "pi_id row = i" "pi_state row = P_CREATED" "payment_intent_checks row"
    "pi_mission_id row = m" "pi_authorization_id row = az_authorization_id r"
    using amt by (simp_all add: row_def new_intent_row_def payment_intent_checks_def)
  have uq: "payment_intents_unique (w_payment_intents w @ [row])" using rows(1) by (simp add: row_def)
  have ins: "insert_payment_intent row w1 = (Inr (), w2)"
    using uq row m a by (simp add: insert_payment_intent_eq w2_def w1_def find_mission_def find_authorization_def)
  have ok2: "authorizations_ok cfg w2" "find_authorization (az_authorization_id r) w2 = Some r" "find_mission m w2 \<noteq> None"
    using ok a m by (simp_all add: authorizations_ok_def w2_def w1_def find_authorization_def find_mission_def)
  have fr2: "fresh_ids (Suc 3) w2" using fr by (auto simp: fresh_ids_def used_ids_def w2_def w1_def row)
  obtain arows p where con: "consume_authorization (az_authorization_id r) txn (Some moment) w2
      = (Inr (consumed moment r), audited m E_AUTHORIZATION_CONSUMED KERNEL_ACTOR p (w2\<lparr>w_authorizations := arows\<rparr>))"
    using consume_run [OF ok2(1,2) _ d, of moment] fresh_audited(1) [OF fr2 ok2(3)] a(2) act
    by (auto simp: consumable_def)
  define w3 where "w3 = audited m E_AUTHORIZATION_CONSUMED KERNEL_ACTOR p (w2\<lparr>w_authorizations := arows\<rparr>)"
  have fr3: "fresh_ids 3 w3" unfolding w3_def
    by (rule fresh_audited(3)) (use fr2 ok2(3) in \<open>simp_all add: fresh_ids_def used_ids_def find_mission_def\<close>)
  have t3: "w_payment_intents w3 = w_payment_intents w @ [row]" "find_mission m w3 \<noteq> None"
    using ok2(3) by (simp_all add: w3_def w2_def audited_def draw_def find_mission_def)
  have "i \<notin> pi_id ` set (w_payment_intents w)" using uq row(1) by (simp add: payment_intents_unique_def keyed_append_one)
  note q = queue_new_row [OF row(1) this t3(1) row(2)]
  define w4 where "w4 = w3\<lparr>w_payment_intents := w_payment_intents w @ [row\<lparr>pi_state := P_QUEUED\<rparr>]\<rparr>"
  have fl: "flush_intents w4 = (Inr (), w4)" using flush_requeued [OF uq, of w4] rows(2) row(3) by (simp add: w4_def)
  have fr4: "fresh_ids (Suc (Suc 1)) w4" "find_mission m w4 \<noteq> None" "find_intent i w4 \<noteq> None"
    using fr3 t3 row(1)
    by (auto simp: w4_def fresh_ids_def used_ids_def find_mission_def find_intent_def find_row_None_iff numeral_3_eq_3)
  note A = fresh_audit [OF fr4(1,2)] fresh_audited(3) [OF fr4(1,2)]
  have B: "payment_audit m t2 p2 (audited m t1 a1 p1 w4) = (Inr (), audited m t2 EXECUTOR_ACTOR p2 (audited m t1 a1 p1 w4))"
    "fresh_ids (Suc 0) (audited m t2 a2 p2 (audited m t1 a1 p1 w4))" for t2 p2 t1 a1 p1 a2
    using fresh_audit [OF A(2), of m] fresh_audited(3) [OF A(2), of m] fr4(2) by simp_all
  have "\<exists>ev w'. enqueue_outbox_event i OE_PAYMENT_CREATE_REQUESTED body (Some moment) DEFAULT_MAX_ATTEMPTS
      (audited m t2 EXECUTOR_ACTOR p2 (audited m t1 EXECUTOR_ACTOR p1 w4)) = (Inr ev, w')" for body t2 p2 t1 p1
    using enqueue_fresh [OF B(2)] fr4 by (simp add: DEFAULT_MAX_ATTEMPTS_def)
  moreover have "utcnow w = (Inr (w_clock w (w_clock_idx w)), w1)" by (simp add: utcnow_def w1_def)
  ultimately show ?thesis
    unfolding establish_intent_def Let_def session_Inr_iffs
    using ins con [folded w3_def] q fl A(1) B(1)
    by (auto simp: row_def [symmetric] w4_def [symmetric] apply_mission_state_eq)
qed

section \<open>Properties of payment requests\<close>

lemma create_run:
  assumes ok: "authorizations_ok cfg w" "fresh_ids 5 w" and caps: "enforce_registered caps C_PAYMENT_EXECUTE = Inr ()"
    and a: "find_authorization a w = Some r" "az_mission_id r = m"
    and v: "verify_authorization_for_payment cfg r A_ACTIVE now w = (Inr txn, w)"
    and m: "find_mission m w = Some mission" "ms_state mission = M_AUTHORIZED"
    and unused: "find_by_idempotency_key key w = None" "a \<notin> pi_authorization_id ` set (w_payment_intents w)"
    and rows: "payment_intents_unique (w_payment_intents w)" "list_all payment_intent_checks (w_payment_intents w)"
  shows "\<exists>res w'. create_payment_intent cfg caps m a key provider (Some now) w = (Inr res, w')"
proof -
  obtain fp where fp: "request_fingerprint m a (az_transaction_digest r) (bt_amount_inr txn) (bt_currency txn)
      (bt_merchant_id txn) provider = Inr fp" using request_fingerprint_total by blast
  let ?i = "w_uuids w (w_uuid_idx w)"
  define w1 where "w1 = w\<lparr>w_uuid_idx := Suc (w_uuid_idx w)\<rparr>"
  have id: "az_authorization_id r = a" using a(1) by (rule find_authorization_id)
  note V = verify_for_payment_success [OF v]
  from V have rb: "rebuild_bound_transaction r = Inr txn" and now: "now < az_expires_at r" by simp_all
  have fr: "fresh_ids (Suc 4) w" using ok(2) by (simp add: eval_nat_numeral)
  note n = fresh_next [OF fr]
  have "\<exists>res w'. establish_intent ?i m r key fp txn provider now w1 = (Inr res, w')"
  proof (rule establish_run)
    show "authorizations_ok cfg w1" using ok(1) by (simp add: w1_def authorizations_ok_def)
    show "fresh_ids 4 w1" "?i \<notin> w_uuids w1 ` {w_uuid_idx w1..<w_uuid_idx w1 + 4}"
      using fr n by (simp_all add: fresh_ids_def used_ids_def w1_def)
    show "find_authorization (az_authorization_id r) w1 = Some r" "find_mission m w1 \<noteq> None"
      using a m by (simp_all add: w1_def id find_authorization_def find_mission_def)
    show "az_mission_id r = m" by (rule a(2))
    show "txn_digest txn = Inr (az_transaction_digest r)" "1 \<le> bt_amount_inr txn"
      using rebuild_fields [OF rb] by simp_all
    show "az_status r = A_ACTIVE" using V by simp
    show "now < az_expires_at r" by (rule now)
    show "list_all payment_intent_checks (w_payment_intents w1)" using rows(2) by (simp add: w1_def)
    have "key \<notin> pi_idempotency_key ` set (w_payment_intents w)"
      using unused(1) by (auto simp: find_by_idempotency_key_def find_row_None_iff)
    then show "payment_intents_unique (w_payment_intents w1 @ [new_intent_row ?i m r key fp txn provider t])" for t
      using rows(1) unused(2) n(1) id
      by (simp add: payment_intents_unique_def keyed_append_one new_intent_row_def w1_def used_ids_def somes_def)
  qed
  then obtain res w' where "place_intent ?i m r key fp txn provider now w1 = (Inr res, w')"
    by (auto simp: place_intent_def begin_nested_def catch_def)
  moreover have "uuid4 w = (Inr ?i, w1)" by (simp add: uuid4_def w1_def)
  ultimately have "create_payment_intent cfg caps m a key provider (Some now) w = (Inr res, w')"
    using caps a m v fp unused(1)
    by (simp add: create_payment_intent_def moment_of_def reload_def session_defs)
  then show ?thesis by blast
qed

text \<open>A world in which the sample authorization may be paid: its mission is AUTHORIZED and policy
  allowed the purchase.\<close>

definition payable_world :: world where
  "payable_world = (auth_world sample_active)\<lparr>w_missions := [sample_mission M_AUTHORIZED], w_policy_decisions :=
     [\<lparr>pdr_id = 9, pdr_mission_id = 1, pdr_decision = D_ALLOW, pdr_policy_version = ''policy-v1'',
       pdr_reason_codes = [], pdr_requested_amount = Some 7598, pdr_soft_budget = 9000, pdr_hard_limit = 9000,
       pdr_selected_offer_id = None, pdr_created_at = 61000000000000000\<rparr>]\<rparr>"

lemma executor_may_pay: "enforce_registered (capabilities_for ''payment-executor'') C_PAYMENT_EXECUTE = Inr ()"
  by (simp add: enforce_registered_def capset_eq_def enforce_def permits_def capabilities_for_cases
      payment_executor_capabilities_def)

lemma rebuild_sample: "rebuild_bound_transaction sample_active = Inr (sample_transaction 0)"
proof -
  have bt: "BoundTransaction (sample_transaction 0) = Inr (sample_transaction 0)" by code_simp
  have "is_ascii (bt_currency (sample_transaction 0))" by code_simp
  from rebuild_issued [OF bt this sample_digest] have "rebuild_bound_transaction (sample_row S_POLICY_AUTO)
      = Inr (sample_transaction 0)" by (simp add: sample_row_def sample_transaction_def instant_of_def)
  then show ?thesis by (simp add: sample_active_def rebuild_bound_transaction_def)
qed

lemma payable_world_ok:
  "authorizations_ok cfg payable_world" "fresh_ids 5 payable_world" "payment_intents_unique (w_payment_intents payable_world)"
  "find_authorization 5 payable_world = Some sample_active" "find_mission 1 payable_world = Some (sample_mission M_AUTHORIZED)"
  "w_payment_intents payable_world = []" "w_authorizations payable_world = [sample_active]"
proof -
  have "inj_on (\<lambda>n. of_nat n + 100 :: uuid) {0..<5}"
  proof (rule inj_onI)
    fix x y :: nat assume "x \<in> {0..<5}" "y \<in> {0..<5}" "of_nat x + 100 = (of_nat y + 100 :: uuid)"
    then have "unat (of_nat x :: uuid) = unat (of_nat y :: uuid)" "x < 2 ^ 128" "y < 2 ^ 128" by simp_all
    then show "x = y" by (simp add: unat_of_nat take_bit_nat_eq_self_iff)
  qed
  then show "fresh_ids 5 payable_world"
    by (simp add: fresh_ids_def used_ids_def payable_world_def auth_world_def sample_world_def empty_world_def keyed_def add.commute)
qed (use sample_active_ok [of cfg] in \<open>simp_all add: payable_world_def authorizations_ok_def payment_intents_unique_def
    auth_world_def sample_world_def empty_world_def somes_def find_authorization_def find_row_def find_mission_def
    sample_mission_def keyed_def\<close>)

lemma payable_verifies:
  "verify_authorization_for_payment cfg sample_active A_ACTIVE 62500000000000000 payable_world
    = (Inr (sample_transaction 0), payable_world)"
proof -
  have "latest_decision sample_active payable_world = Some D_ALLOW"
    by (simp add: latest_decision_def payable_world_def latest_by_def sample_active_def sample_row_def issued_row_def
        sample_transaction_def)
  then show ?thesis
    by (simp add: verify_authorization_for_payment_def rebuild_sample require_policy_scheme_def session_defs Let_def
        schemes_by_decision_def) (simp add: sample_active_def sample_row_def issued_row_def)
qed

lemma create_sample:
  "\<exists>res w'. create_payment_intent cfg (capabilities_for ''payment-executor'') 1 5 key provider
      (Some 62500000000000000) payable_world = (Inr res, w')"
  using create_run [OF payable_world_ok(1,2) executor_may_pay payable_world_ok(4) sample_active_fields(2)
    payable_verifies payable_world_ok(5)] payable_world_ok(3)
  by (simp add: payable_world_ok find_by_idempotency_key_def find_row_def sample_mission_def)

text \<open>
  C23. A payable request is paid: with \<open>payment.execute\<close>, an ACTIVE authorization that passes the
  verification for payment, an AUTHORIZED mission and an unused key, the request returns a new
  payment. With it exactly these things have happened: one intent was added, QUEUED, for the
  amount, currency and merchant the authorization binds; the authorization is CONSUMED; one
  instruction to create the payment is PENDING in the outbox; the mission is PAYMENT_PENDING.
\<close>

theorem payable_request_is_paid:
  assumes "authorizations_ok cfg w" "fresh_ids 5 w" and "enforce_registered caps C_PAYMENT_EXECUTE = Inr ()"
    and a: "find_authorization a w = Some r" "az_mission_id r = m"
    and v: "verify_authorization_for_payment cfg r A_ACTIVE now w = (Inr txn, w)"
    and m: "find_mission m w = Some mission" "ms_state mission = M_AUTHORIZED"
    and "find_by_idempotency_key key w = None" "a \<notin> pi_authorization_id ` set (w_payment_intents w)"
    and "payment_intents_unique (w_payment_intents w)" "list_all payment_intent_checks (w_payment_intents w)"
  shows "\<exists>res w' ev. create_payment_intent cfg caps m a key provider (Some now) w = (Inr res, w')
    \<and> pr_created res \<and> w_payment_intents w' = w_payment_intents w @ [pr_intent res]
    \<and> pi_state (pr_intent res) = P_QUEUED \<and> pi_idempotency_key (pr_intent res) = key
    \<and> (pi_amount_inr (pr_intent res), pi_currency (pr_intent res), pi_merchant_id (pr_intent res))
        = (bt_amount_inr txn, bt_currency txn, bt_merchant_id txn)
    \<and> find_authorization a w' = Some (consumed now r)
    \<and> w_outbox_events w' = w_outbox_events w @ [ev]
    \<and> instruction_for (pi_id (pr_intent res)) key now ev
    \<and> find_mission m w' = Some (mission\<lparr>ms_state := M_PAYMENT_PENDING\<rparr>)"
proof -
  obtain res w' where run: "create_payment_intent cfg caps m a key provider (Some now) w = (Inr res, w')"
    using create_run [OF assms] by blast
  have "keyed az_authorization_id (w_authorizations w)" using assms(1) by (simp add: authorizations_ok_def)
  from create_success [OF run this] obtain r' txn' fp where r': "find_authorization a w = Some r'"
      "rebuild_bound_transaction r' = Inr txn'" and "granted res m key provider (Some now) r' txn' fp w w'" by metis
  then obtain i t where "pr_created res"
    and new: "pr_intent res = (new_intent_row i m r' key fp txn' provider t)\<lparr>pi_state := P_QUEUED\<rparr>"
    and est: "established (pr_intent res) now w w'"
    unfolding granted_def using assms(9) by (metis option.distinct(1) reused_def)
  from r' a v have same: "r' = r" "txn' = txn" using verify_for_payment_success [OF v] by auto
  have id: "az_authorization_id r = a" using a(1) by (rule find_authorization_id)
  from est obtain ev where ev: "w_payment_intents w' = w_payment_intents w @ [pr_intent res]"
    "find_authorization a w' = Some (consumed now r)" "w_outbox_events w' = w_outbox_events w @ [ev]"
    "instruction_for (pi_id (pr_intent res)) key now ev"
    "w_missions w' = w_missions (snd (apply_mission_state m M_PAYMENT_PENDING w))"
    using a(1) by (auto simp: established_def new same new_intent_row_def id)
  have "find_mission m w' = Some (mission\<lparr>ms_state := M_PAYMENT_PENDING\<rparr>)"
    using m find_mission_SomeD [OF m(1)] ev(5) by (simp add: find_mission_def apply_mission_state_eq mission_can_transition_def
        ALLOWED_TRANSITIONS_def find_row_update_cond)
  with run ev \<open>pr_created res\<close> show ?thesis
    by (intro exI [of _ res] exI [of _ w'] exI [of _ ev]) (simp add: new same new_intent_row_def)
qed

theorem payable_request_is_paid_witness:
  "\<exists>res w'. create_payment_intent sample_approver (capabilities_for ''payment-executor'') 1 5 ''k'' ''fake''
      (Some 62500000000000000) payable_world = (Inr res, w') \<and> pr_created res
    \<and> find_mission 1 w' = Some (sample_mission M_PAYMENT_PENDING) \<and> pi_amount_inr (pr_intent res) = 7598"
  using payable_request_is_paid [where cfg = sample_approver and key = "''k''" and provider = "''fake''",
      OF payable_world_ok(1,2) executor_may_pay payable_world_ok(4) sample_active_fields(2) payable_verifies payable_world_ok(5)]
  by (auto simp: payable_world_ok find_by_idempotency_key_def find_row_def sample_mission_def payment_intents_unique_def
      keyed_def somes_def sample_transaction_def)

text \<open>
  C31. A payment request that is refused spends nothing: whatever \<open>create_payment_intent\<close> raises,
  no mission, payment intent, outbox instruction or webhook has changed and no authorization has
  become CONSUMED. A principal without \<open>payment.execute\<close> leaves the state as it was, the clock
  included.
\<close>

theorem refused_payment_spends_nothing:
  assumes "create_payment_intent cfg caps m a key provider now w = (Inl e, w')"
  shows "outside_kernel w' = outside_kernel w
    \<and> (\<forall>r \<in> set (w_authorizations w'). az_status r = A_CONSUMED \<longrightarrow> r \<in> set (w_authorizations w))
    \<and> (enforce_registered caps C_PAYMENT_EXECUTE \<noteq> Inr () \<longrightarrow> w' = w)"
proof -
  have "refused w w'" using create_raises assms unfolding raises_def by blast
  moreover have "w' = w" if "enforce_registered caps C_PAYMENT_EXECUTE \<noteq> Inr ()"
    using that assms by (cases "enforce_registered caps C_PAYMENT_EXECUTE")
      (simp_all add: create_payment_intent_def session_defs)
  ultimately show ?thesis by (simp add: refused_def)
qed

theorem refused_payment_spends_nothing_witness:
  "\<exists>e w'. create_payment_intent sample_approver (capabilities_for ''buyer-agent'') 1 5 ''k'' ''fake'' None payable_world
      = (Inl e, w') \<and> w' = payable_world"
proof -
  have no: "enforce_registered (capabilities_for ''buyer-agent'') C_PAYMENT_EXECUTE \<noteq> Inr ()"
    by (simp add: enforce_registered_def enforce_def permits_def capabilities_for_cases buyer_agent_capabilities_def)
  then obtain e w' where run: "create_payment_intent sample_approver (capabilities_for ''buyer-agent'') 1 5 ''k''
      ''fake'' None payable_world = (Inl e, w')"
    by (cases "enforce_registered (capabilities_for ''buyer-agent'') C_PAYMENT_EXECUTE")
      (auto simp: create_payment_intent_def session_defs)
  from refused_payment_spends_nothing [OF run] run no show ?thesis by blast
qed

lemma consumed_stays:
  assumes "grows (auth_step cfg)\<^sup>*\<^sup>* (w_authorizations w) (w_authorizations w')"
    and "a \<in> set (w_authorizations w)" "az_status a = A_CONSUMED"
  shows "a \<in> set (w_authorizations w')"
proof -
  from growsD [OF assms(1,2)] obtain a' where a': "a' \<in> set (w_authorizations w')" "(auth_step cfg)\<^sup>*\<^sup>* a a'" by blast
  from a'(2) assms(3) have "a' = a"
    by (induction rule: rtranclp_induct) (auto dest!: auth_step_facts(1) simp: auth_next_def)
  with a' show ?thesis by simp
qed

lemma create_keeps_paid_for:
  assumes "paid_for w" and k: "keyed az_authorization_id (w_authorizations w)"
  shows "paid_for (snd (create_payment_intent cfg caps m a key provider now w))"
proof -
  obtain res w' where run: "create_payment_intent cfg caps m a key provider now w = (res, w')" by fastforce
  have ev: "grows (auth_step cfg)\<^sup>*\<^sup>* (w_authorizations w) (w_authorizations w')"
    using keeps_result [OF payment_auths.keeps_create_payment_intent run] .
  note stays = consumed_stays [OF ev]
  have "paid_for w'"
  proof (cases res)
    case (Inl e)
    then have "refused w w'" using create_raises run unfolding raises_def by blast
    then have "w_payment_intents w' = w_payment_intents w" by (simp add: refused_def outside_kernel_def)
    from paid_for_more [OF assms(1) this] stays show ?thesis by blast
  next
    case (Inr r)
    from create_success [OF run [unfolded Inr] k] obtain au txn fp where au: "find_authorization a w = Some au"
      "az_mission_id au = m" "rebuild_bound_transaction au = Inr txn"
      and out: "granted r m key provider now au txn fp w w'" by metis
    from out consider "reused r key fp w w'" | "\<exists>i t moment.
        pr_intent r = (new_intent_row i m au key fp txn provider t)\<lparr>pi_state := P_QUEUED\<rparr>
        \<and> established (pr_intent r) moment w w'" unfolding granted_def by blast
    then show ?thesis
    proof cases
      case 1
      then show ?thesis using assms(1) by (simp add: reused_def payment_tables_def paid_for_def)
    next
      case 2
      then obtain i t moment where new: "pr_intent r = (new_intent_row i m au key fp txn provider t)\<lparr>pi_state := P_QUEUED\<rparr>"
        and est: "established (pr_intent r) moment w w'" by blast
      have id: "az_authorization_id au = a" using au(1) by (rule find_authorization_id)
      from est au(1) have c: "consumed moment au \<in> set (w_authorizations w')"
        and rows: "w_payment_intents w' = w_payment_intents w @ [pr_intent r]"
        by (auto simp: established_def new new_intent_row_def id find_authorization_def dest: find_row_SomeD)
      have "covers (consumed moment au) (pr_intent r)"
        using rebuild_fields [OF au(3)] au(2) by (simp add: covers_def consumed_def new new_intent_row_def)
      with c rows assms(1) stays show ?thesis by (fastforce simp: paid_for_def covers_def)
    qed
  qed
  with run show ?thesis by simp
qed

text \<open>
  No payment without an approved purchase: creating intents keeps the invariant that every
  payment intent stands on an authorization that was CONSUMED for it and binds its mission, its
  transaction digest, its amount, its currency and its merchant.
\<close>

theorem every_payment_is_authorized:
  assumes "paid_for w" and "keyed az_authorization_id (w_authorizations w)"
  shows "paid_for (snd (create_payment_intent cfg caps m a key provider now w))"
  using assms by (rule create_keeps_paid_for)

theorem every_payment_is_authorized_witness:
  "\<exists>w'. w_payment_intents w' \<noteq> [] \<and> paid_for w'"
proof -
  obtain res w' where run: "create_payment_intent sample_approver (capabilities_for ''payment-executor'') 1 5 ''k''
      ''fake'' (Some 62500000000000000) payable_world = (Inr res, w')"
    using create_sample by blast
  have k: "keyed az_authorization_id (w_authorizations payable_world)" by (simp add: payable_world_ok keyed_def)
  have "paid_for payable_world" by (simp add: paid_for_def payable_world_ok)
  from every_payment_is_authorized [OF this k, of sample_approver "capabilities_for ''payment-executor''" 1 5 "''k''"
      "''fake''" "Some 62500000000000000"] run
  have "paid_for w'" by simp
  moreover from create_success [OF run k] obtain r txn fp where
    "granted res 1 ''k'' ''fake'' (Some 62500000000000000) r txn fp payable_world w'" by metis
  then have "w_payment_intents w' \<noteq> []"
    by (auto simp: granted_def reused_def established_def find_by_idempotency_key_def payable_world_ok find_row_def)
  ultimately show ?thesis by blast
qed

lemma find_by_key_kept:
  assumes "find_by_idempotency_key key w = Some p" and "intents_keyed w" and "intents_kept w v"
  shows "\<exists>q. find_by_idempotency_key key v = Some q \<and> intent_evolves p q"
proof -
  from assms(1) have p: "p \<in> set (w_payment_intents w)" "pi_idempotency_key p = key"
    by (auto simp: find_by_idempotency_key_def dest: find_row_SomeD)
  from assms(2,3) have k: "intents_keyed v" "grows intent_evolves (w_payment_intents w) (w_payment_intents v)"
    by (simp_all add: intents_kept_def)
  from growsD [OF k(2) p(1)] obtain q where q: "q \<in> set (w_payment_intents v)" "intent_evolves p q" by blast
  then have "pi_idempotency_key q = key" using p(2) by (simp add: intent_evolves_def created_for_def)
  with q k(1) find_row_key [of pi_idempotency_key "w_payment_intents v" q] show ?thesis
    by (auto simp: find_by_idempotency_key_def intents_keyed_def)
qed

lemma find_by_key_member:
  "intents_keyed w \<Longrightarrow> p \<in> set (w_payment_intents w) \<Longrightarrow> find_by_idempotency_key (pi_idempotency_key p) w = Some p"
  by (simp add: find_by_idempotency_key_def intents_keyed_def find_row_key)

text \<open>The messages whose digests are the fingerprints of a stored payment and of a request.\<close>

definition intent_message :: "payment_intent_row \<Rightarrow> exn + string" where
  "intent_message p = canonical_message PAYMENT_REQUEST_FINGERPRINT_DOMAIN (fingerprint_fields (pi_mission_id p)
     (pi_authorization_id p) (pi_transaction_digest p) (pi_amount_inr p) (pi_currency p) (pi_merchant_id p) (pi_provider p))"

definition presented_message :: "uuid \<Rightarrow> uuid \<Rightarrow> string \<Rightarrow> world \<Rightarrow> exn + string" where
  "presented_message m a provider w = (case find_authorization a w of None \<Rightarrow> Inl AuthorizationNotFound
     | Some au \<Rightarrow> bindE (rebuild_bound_transaction au) (\<lambda>txn.
         canonical_message PAYMENT_REQUEST_FINGERPRINT_DOMAIN (fingerprint_fields m a (az_transaction_digest au)
           (bt_amount_inr txn) (bt_currency txn) (bt_merchant_id txn) provider)))"

lemma created_find:
  assumes run: "create_payment_intent cfg caps m a key provider now w = (Inr r, w')" and new: "pr_created r"
    and k: "keyed az_authorization_id (w_authorizations w)" "intents_keyed w"
  shows "intents_keyed w'" and "find_by_idempotency_key key w' = Some (pr_intent r)"
    and "(pi_mission_id (pr_intent r), pi_authorization_id (pr_intent r), pi_provider (pr_intent r)) = (m, a, provider)"
    and "request_fingerprint m a (pi_transaction_digest (pr_intent r)) (pi_amount_inr (pr_intent r))
      (pi_currency (pr_intent r)) (pi_merchant_id (pr_intent r)) provider = Inr (pi_request_fingerprint (pr_intent r))"
proof -
  from create_success [OF run k(1)] obtain au txn fp where au: "find_authorization a w = Some au" and
    fp: "request_fingerprint m a (az_transaction_digest au) (bt_amount_inr txn) (bt_currency txn)
      (bt_merchant_id txn) provider = Inr fp" and "granted r m key provider now au txn fp w w'" by metis
  with new obtain i t moment where row: "pr_intent r = (new_intent_row i m au key fp txn provider t)\<lparr>pi_state := P_QUEUED\<rparr>"
    and est: "established (pr_intent r) moment w w'" by (auto simp: granted_def reused_def)
  show fields: "(pi_mission_id (pr_intent r), pi_authorization_id (pr_intent r), pi_provider (pr_intent r)) = (m, a, provider)"
    using find_authorization_id [OF au] by (simp add: row new_intent_row_def)
  show "request_fingerprint m a (pi_transaction_digest (pr_intent r)) (pi_amount_inr (pr_intent r))
      (pi_currency (pr_intent r)) (pi_merchant_id (pr_intent r)) provider = Inr (pi_request_fingerprint (pr_intent r))"
    using fp by (simp add: row new_intent_row_def)
  have "intents_kept w w'" using keeps_result [OF payment_rows.keeps_create_payment_intent run] .
  with k show kw': "intents_keyed w'" by (simp add: intents_kept_def)
  have "pr_intent r \<in> set (w_payment_intents w')" "pi_idempotency_key (pr_intent r) = key"
    using est by (auto simp: established_def row new_intent_row_def)
  with find_by_key_member [OF kw'] show "find_by_idempotency_key key w' = Some (pr_intent r)" by metis
qed


text \<open>
  The loser of a race spends nothing: when the key has been committed by another request since
  it was looked for, the savepoint is rolled back, so the payments, the outbox, the missions and
  the authorizations are as they were, and the request returns the winner's payment exactly when
  the two requests have the same fingerprint; otherwise it is an idempotency conflict.
\<close>

theorem lost_key_race_spends_nothing:
  assumes taken: "find_by_idempotency_key key w = Some winner" and ready: "fresh_ids 1 w"
    and m: "find_mission (pi_mission_id winner) w \<noteq> None" "find_mission m w \<noteq> None"
    and a: "find_authorization (az_authorization_id authorization) w \<noteq> None"
  shows "payment_tables (snd (place_intent i m authorization key fp txn provider moment w)) = payment_tables w
    \<and> fst (place_intent i m authorization key fp txn provider moment w)
      = (if pi_request_fingerprint winner = fp then Inr \<lparr>pr_intent = winner, pr_created = False\<rparr>
         else Inl IdempotencyConflict)"
proof -
  from taken have "key \<in> pi_idempotency_key ` set (w_payment_intents w)"
    by (auto simp: find_by_idempotency_key_def dest!: find_row_SomeD)
  then have "\<not> payment_intents_unique (w_payment_intents w @ [new_intent_row i m authorization key fp txn provider t])" for t
    by (simp add: payment_intents_unique_def keyed_append_one new_intent_row_def)
  then have est: "\<exists>v. establish_intent i m authorization key fp txn provider moment w
      = (Inl (IntegrityError ''uq_payment_intents''), v) \<and> restore_tables w v = w\<lparr>w_clock_idx := Suc (w_clock_idx w)\<rparr>"
    using m(2) a by (auto simp: establish_intent_def utcnow_def insert_payment_intent_eq andthen_def bind_def Let_def
        find_mission_def find_authorization_def new_intent_row_def restore_tables_def)
  define u where "u = w\<lparr>w_clock_idx := Suc (w_clock_idx w)\<rparr>"
  have fr: "fresh_ids (Suc 0) u" using ready by (simp add: u_def fresh_ids_def used_ids_def)
  have "find_mission (pi_mission_id winner) u \<noteq> None" using m(1) by (simp add: u_def find_mission_def)
  note aud = fresh_audit [OF fr this]
  have "place_intent i m authorization key fp txn provider moment w = resolve_existing winner fp key u"
    using est taken by (auto simp: place_intent_def begin_nested_def catch_def session_defs u_def
        find_by_idempotency_key_def)
  moreover have "payment_tables u = payment_tables w" by (simp add: u_def payment_tables_def)
  ultimately show ?thesis by (simp add: resolve_existing_def session_defs aud)
qed
theorem lost_key_race_spends_nothing_witness:
  "\<exists>w winner. find_by_idempotency_key ''k'' w = Some winner \<and> w_authorizations w = [sample_active]
    \<and> w_authorizations (snd (place_intent 77 1 sample_active ''k'' ''g'' (sample_transaction 0) ''fake'' 62500000000000000 w))
      = [sample_active]
    \<and> fst (place_intent 77 1 sample_active ''k'' ''g'' (sample_transaction 0) ''fake'' 62500000000000000 w)
      = Inl IdempotencyConflict"
proof -
  define winner where "winner = new_intent_row 76 1 (sample_active\<lparr>az_authorization_id := 6\<rparr>) ''k'' ''f''
    (sample_transaction 0) ''fake'' 0"
  define w where "w = payable_world\<lparr>w_payment_intents := [winner]\<rparr>"
  have f: "find_by_idempotency_key ''k'' w = Some winner" "pi_request_fingerprint winner = ''f''" "pi_mission_id winner = 1"
    by (simp_all add: w_def winner_def new_intent_row_def find_by_idempotency_key_def find_row_def)
  have fr: "fresh_ids 1 w"
    by (simp add: fresh_ids_def used_ids_def w_def payable_world_def auth_world_def sample_world_def empty_world_def
        keyed_def winner_def new_intent_row_def)
  have "find_mission 1 w \<noteq> None" "find_authorization (az_authorization_id sample_active) w \<noteq> None"
    by (simp_all add: w_def payable_world_def find_mission_def find_row_def sample_mission_def find_authorization_def)
  from lost_key_race_spends_nothing [OF f(1) fr _ this, of 77 "''g''" "sample_transaction 0" "''fake''" 62500000000000000]
    f this have "payment_tables (snd (place_intent 77 1 sample_active ''k'' ''g'' (sample_transaction 0) ''fake''
        62500000000000000 w)) = payment_tables w"
    "fst (place_intent 77 1 sample_active ''k'' ''g'' (sample_transaction 0) ''fake'' 62500000000000000 w)
      = Inl IdempotencyConflict" by simp_all
  moreover have "w_authorizations w = [sample_active]" by (simp add: w_def payable_world_ok)
  ultimately show ?thesis using f(1)
    by (intro exI [of _ w] exI [of _ winner]) (simp add: payment_tables_def)
qed

lemma payment_audit_ready: "audit_ready m w \<Longrightarrow> payment_audit m t p w = (Inr (), audited m t EXECUTOR_ACTOR p w)"
  by (simp add: payment_audit_def audit_ready_def append_event_success appendable_fresh audited_def session_defs)

lemma retry_sample:
  assumes "find_row (\<lambda>p. pi_idempotency_key p = key) rows = Some p" and "pi_authorization_id p = 5" "pi_mission_id p = 1"
    and fp: "request_fingerprint 1 5 sample_digest 7598 ''INR'' ''merchant_a'' provider = Inr (pi_request_fingerprint p)"
    and v: "v = payable_world\<lparr>w_payment_intents := rows, w_authorizations := [consumed t sample_active]\<rparr>"
  shows "\<exists>v'. create_payment_intent cfg (capabilities_for ''payment-executor'') 1 5 key provider (Some t) v
    = (Inr \<lparr>pr_intent = p, pr_created = False\<rparr>, v')"
proof -
  have find: "find_authorization 5 v = Some (consumed t sample_active)" "find_by_idempotency_key key v = Some p"
    "find_mission 1 v = Some (sample_mission M_AUTHORIZED)"
    using assms(1) by (simp_all add: v find_authorization_def find_row_def find_by_idempotency_key_def find_mission_def
        consumed_def payable_world_def sample_mission_def)
  have "latest_decision (consumed t sample_active) v = Some D_ALLOW"
    by (simp add: v latest_decision_def payable_world_def latest_by_def consumed_def sample_active_def sample_row_def
        issued_row_def sample_transaction_def)
  moreover have "rebuild_bound_transaction (consumed t sample_active) = Inr (sample_transaction 0)"
    using rebuild_sample by (simp add: rebuild_bound_transaction_def consumed_def)
  ultimately have ver: "verify_authorization_for_payment cfg (consumed t sample_active) A_CONSUMED t v = (Inr (sample_transaction 0), v)"
    by (simp add: verify_authorization_for_payment_def require_policy_scheme_def session_defs Let_def schemes_by_decision_def)
      (simp add: consumed_def sample_active_def sample_row_def issued_row_def)
  have ready: "audit_ready 1 v"
    by (simp add: v audit_ready_def find_mission_def find_row_def payable_world_def sample_mission_def auth_world_def
        sample_world_def empty_world_def keyed_def)
  have "az_transaction_digest (consumed t sample_active) = sample_digest" "az_mission_id (consumed t sample_active) = 1"
    by (simp_all add: consumed_def)
  then show ?thesis using find ver ready fp assms(2,3) executor_may_pay
    by (simp add: create_payment_intent_def moment_of_def reload_def session_defs resolve_existing_def payment_audit_ready
        sample_transaction_def)
qed


end
