(* ===== verification/Settlement.thy ===== *)
theory Settlement
  imports Intents
begin

text \<open>
  Folding a provider's answer into a payment intent: the helpers of
  \<^verbatim>\<open>services/payment_executor/executor.py\<close> that dispatch, reconciliation and webhooks share.
  An intent is named by its id; its attributes are read from the session, which sees its own
  writes. \<open>assign_once\<close> may have assigned some columns when a later one raises, as in the code.
\<close>

section \<open>Operations\<close>

text \<open>The attributes of the loaded row.\<close>

definition read_intent :: "uuid \<Rightarrow> payment_intent_row db" where
  "read_intent i = lock_payment_intent i"

definition assign_once ::
  "uuid \<Rightarrow> (payment_intent_row \<Rightarrow> string option) \<Rightarrow> (string option \<Rightarrow> payment_intent_row \<Rightarrow> payment_intent_row)
    \<Rightarrow> string option \<Rightarrow> string \<Rightarrow> unit db" where
  "assign_once i get_attr set_attr value label = (case value of
     None \<Rightarrow> ret ()
   | Some v \<Rightarrow> andthen (modify_intent i (\<lambda>intent. case get_attr intent of
        None \<Rightarrow> Inr (set_attr (Some v) intent)
      | Some existing \<Rightarrow> if existing = v then Inr intent
          else Inl (ProviderPaymentMismatch (''intent already records '' @ label @ ''='' @ py_repr existing
            @ ''; refusing to relink to '' @ py_repr v)))) (ret ()))"

definition link_provider_payment :: "uuid \<Rightarrow> provider_payment \<Rightarrow> unit db" where
  "link_provider_payment i payment =
     andthen (assign_once i pi_provider_payment_id (\<lambda>v r. r\<lparr>pi_provider_payment_id := v\<rparr>)
       (Some (pp_provider_payment_id payment)) ''provider reference'')
    (andthen (assign_once i pi_provider_order_id (\<lambda>v r. r\<lparr>pi_provider_order_id := v\<rparr>)
       (pp_provider_order_id payment) ''provider order id'')
    (andthen (assign_once i pi_provider_receipt (\<lambda>v r. r\<lparr>pi_provider_receipt := v\<rparr>)
       (pp_provider_receipt payment) ''provider receipt'')
    (andthen (whenS (pp_status payment = PP_SUCCEEDED)
       (assign_once i pi_provider_transaction_id (\<lambda>v r. r\<lparr>pi_provider_transaction_id := v\<rparr>)
         (pp_provider_transaction_id payment) ''provider transaction id''))
    (andthen (modify_intent i (\<lambda>r. Inr (r\<lparr>
       pi_provider_status := (case pp_provider_status payment of None \<Rightarrow> pi_provider_status r | Some s \<Rightarrow> Some s),
       pi_provider_attempts := (case pp_provider_attempts payment of None \<Rightarrow> pi_provider_attempts r
         | Some n \<Rightarrow> Some (max (case pi_provider_attempts r of None \<Rightarrow> 0 | Some k \<Rightarrow> k) n))\<rparr>)))
     flush_intents))))"

definition provider_evidence_payload :: "provider_payment \<Rightarrow> payload" where
  "provider_evidence_payload payment = filter (\<lambda>(k, v). v \<noteq> JNull)
     [(''provider_payment_id'', JStr (pp_provider_payment_id payment)),
      (''provider_order_id'', jopt (pp_provider_order_id payment)),
      (''provider_transaction_id'', jopt (pp_provider_transaction_id payment)),
      (''provider_receipt'', jopt (pp_provider_receipt payment)),
      (''provider_status'', jopt (pp_provider_status payment)),
      (''provider_attempts'', jint (pp_provider_attempts payment))]"

definition validate_provider_payment :: "payment_intent_row \<Rightarrow> provider_payment \<Rightarrow> bool \<Rightarrow> exn + unit" where
  "validate_provider_payment intent payment require_idempotency_key =
     (let mismatches =
        (if pp_provider payment \<noteq> pi_provider intent
         then [''provider='' @ py_repr (pp_provider payment) @ '', expected '' @ py_repr (pi_provider intent)] else [])
      @ (if pp_amount_inr payment \<noteq> pi_amount_inr intent
         then [''amount_inr='' @ dec_int (pp_amount_inr payment) @ '', expected '' @ dec_int (pi_amount_inr intent)] else [])
      @ (if pp_currency payment \<noteq> pi_currency intent
         then [''currency='' @ py_repr (pp_currency payment) @ '', expected '' @ py_repr (pi_currency intent)] else [])
      @ (case pp_idempotency_key payment of
           None \<Rightarrow> if require_idempotency_key then [''idempotency_key is absent''] else []
         | Some k \<Rightarrow> if k \<noteq> pi_idempotency_key intent
             then [''idempotency_key='' @ py_repr k @ '', expected '' @ py_repr (pi_idempotency_key intent)] else [])
      in if mismatches \<noteq> [] then Inl (ProviderPaymentMismatch (str_join ''; '' mismatches)) else Inr ())"

definition verify_intent_authorization_before_provider_io ::
  "approver \<Rightarrow> uuid \<Rightarrow> outbox_event_row \<Rightarrow> instant \<Rightarrow> unit db" where
  "verify_intent_authorization_before_provider_io cfg i event now =
     bind (read_intent i) (\<lambda>intent.
     bind (reload (pi_authorization_id intent)) (\<lambda>found. case found of
       None \<Rightarrow> raise AuthorizationNotFound
     | Some authorization \<Rightarrow>
       bind (verify_authorization_for_payment cfg authorization A_CONSUMED now) (\<lambda>transaction.
       guardE (az_mission_id authorization = pi_mission_id intent
           \<and> az_authorization_id authorization = pi_authorization_id intent
           \<and> az_transaction_digest authorization = pi_transaction_digest intent
           \<and> bt_merchant_id transaction = pi_merchant_id intent
           \<and> bt_amount_inr transaction = pi_amount_inr intent
           \<and> bt_currency transaction = pi_currency intent
           \<and> ob_payment_intent_id event = pi_id intent)
         TransactionBindingFailure)))"

text \<open>The transition a provider's answer asks for, with its audit event and the mission's move.\<close>

definition record_provider_outcome :: "payment_intent_row \<Rightarrow> provider_payment \<Rightarrow> instant \<Rightarrow> unit db" where
  "record_provider_outcome intent payment moment =
     (let i = pi_id intent; target = provider_status_to_state (pp_status payment) in
      if target = P_SUCCEEDED then
        andthen (apply_payment_transition i P_SUCCEEDED E_PAYMENT_SUCCEEDED
          (dict_merge (dict_merge [(''provider'', JStr (pi_provider intent))] (provider_evidence_payload payment))
            [(''amount_inr'', JInt (pi_amount_inr intent)), (''currency'', JStr (pi_currency intent)),
             (''settled_at'', JStr (iso_utc moment))]) None)
        (apply_mission_state (pi_mission_id intent) M_PAYMENT_SUCCEEDED)
      else if target = P_FAILED_TERMINAL then
        andthen (apply_payment_transition i P_FAILED_TERMINAL E_PAYMENT_FAILED
          (dict_merge [(''provider'', JStr (pi_provider intent))] (provider_evidence_payload payment))
          (Some (reason_text R_PROVIDER_TERMINAL_FAILURE)))
        (apply_mission_state (pi_mission_id intent) M_PAYMENT_FAILED)
      else
        apply_payment_transition i P_PROVIDER_PENDING E_PAYMENT_PROVIDER_UNCERTAIN
          (dict_merge (dict_merge [(''provider'', JStr (pi_provider intent))] (provider_evidence_payload payment))
            [(''provider_state'', JStr (provider_text (pp_status payment)))]) None)"

definition apply_provider_payment :: "uuid \<Rightarrow> provider_payment \<Rightarrow> instant option \<Rightarrow> payment_state db" where
  "apply_provider_payment i payment now =
     bind (moment_of now) (\<lambda>moment.
     bind (read_intent i) (\<lambda>intent.
     andthen (lift (validate_provider_payment intent payment (pi_provider_payment_id intent = None)))
    (andthen (link_provider_payment i payment)
    (if pi_state intent = provider_status_to_state (pp_status payment) \<or> is_terminal (pi_state intent)
     then ret (pi_state intent)
     else
       andthen (record_provider_outcome intent payment moment)
       (bind (read_intent i) (\<lambda>r. ret (pi_state r)))))))"

definition remember_provider_ambiguity :: "uuid \<Rightarrow> instant \<Rightarrow> unit db" where
  "remember_provider_ambiguity i now =
     andthen (modify_intent i (\<lambda>r. Inr (r\<lparr>
       pi_provider_ambiguity_observed_at := (case pi_provider_ambiguity_observed_at r of None \<Rightarrow> Some now | Some t \<Rightarrow> Some t),
       pi_last_reason_code := Some (reason_text R_PROVIDER_AMBIGUITY)\<rparr>))) (ret ())"

definition mark_uncertain :: "uuid \<Rightarrow> string \<Rightarrow> instant \<Rightarrow> string \<Rightarrow> bool \<Rightarrow> unit db" where
  "mark_uncertain i detail now reason_code timed_out =
     bind (read_intent i) (\<lambda>before.
     let observed = reason_code;
         ambiguous = (reason_code = reason_text R_PROVIDER_AMBIGUITY \<or> pi_provider_ambiguity_observed_at before \<noteq> None);
         reason = (if ambiguous then reason_text R_PROVIDER_AMBIGUITY else reason_code) in
     andthen (whenS ambiguous (remember_provider_ambiguity i now))
    (bind (read_intent i) (\<lambda>intent.
     andthen (whenS timed_out (payment_audit (pi_mission_id intent) E_PAYMENT_PROVIDER_TIMEOUT
       [(''payment_intent_id'', JStr (uuid_str (pi_id intent))),
        (''reason_code'', JStr observed),
        (''provider'', JStr (pi_provider intent)),
        (''detail'', JStr detail),
        (''provider_ambiguity_remains'', JBool (pi_provider_ambiguity_observed_at intent \<noteq> None))]))
    (let body =
       [(''provider'', JStr (pi_provider intent)),
        (''provider_payment_may_exist'', JBool True),
        (''resolution'', JStr ''reconciliation''),
        (''provider_create_fenced'', JBool (pi_provider_create_fenced_at intent \<noteq> None)),
        (''provider_ambiguity_observed'', JBool (pi_provider_ambiguity_observed_at intent \<noteq> None)),
        (''replacement_create_permitted'',
          if pi_provider_create_fenced_at intent \<noteq> None then JBool False else JNull),
        (''detail'', JStr detail)] in
     andthen
      (if pi_state intent = P_PROVIDER_PENDING then
         andthen (modify_intent i (\<lambda>r. Inr (r\<lparr>pi_last_reason_code := Some reason\<rparr>)))
        (andthen flush_intents
        (payment_audit (pi_mission_id intent) E_PAYMENT_PROVIDER_UNCERTAIN
          (dict_merge (dict_merge [(''payment_intent_id'', JStr (uuid_str (pi_id intent))),
              (''state'', JStr (payment_text P_PROVIDER_PENDING))] body)
            [(''reason_code'', JStr reason)])))
       else apply_payment_transition i P_PROVIDER_PENDING E_PAYMENT_PROVIDER_UNCERTAIN body (Some reason))
     (andthen (enqueue_outbox_event (pi_id intent) OE_PAYMENT_RECONCILE_REQUESTED
        [(''idempotency_key'', JStr (pi_idempotency_key intent))] (Some now) DEFAULT_MAX_ATTEMPTS)
      (ret ()))))))"

definition requeue :: "payment_intent_row \<Rightarrow> exn + payment_intent_row" where
  "requeue r = (if pi_state r = P_FAILED_RETRYABLE
     then bindE (assert_payment_transition (pi_state r) P_QUEUED) (\<lambda>_. Inr (r\<lparr>pi_state := P_QUEUED\<rparr>)) else Inr r)"

definition record_payment_attempt :: "uuid \<Rightarrow> bool \<Rightarrow> bool \<Rightarrow> unit db" where
  "record_payment_attempt i provider_create_invoked recovered_existing =
     bind (modify_intent i requeue) (\<lambda>intent.
     if pi_state intent = P_PROCESSING then ret ()
     else if pi_state intent \<noteq> P_QUEUED then ret ()
     else
       andthen (apply_payment_transition i P_PROCESSING E_PAYMENT_ATTEMPTED
         [(''provider'', JStr (pi_provider intent)),
          (''attempt'', JInt (pi_attempts intent + 1)),
          (''provider_create_invoked'', JBool provider_create_invoked),
          (''recovered_existing_provider_payment'', JBool recovered_existing)] None)
      (andthen (modify_intent i (\<lambda>r. Inr (r\<lparr>pi_attempts := pi_attempts r + 1\<rparr>)))
       flush_intents))"

section \<open>Every one of them is a payment step\<close>

lemma evolves_attempts: "intent_evolves r (r\<lparr>pi_attempts := pi_attempts r + 1\<rparr>)"
  by (simp add: intent_evolves_def created_for_def)

lemma requeue_evolves: "requeue r = Inr r' \<Longrightarrow> intent_evolves r r'"
  using transition_step [of r P_QUEUED r'] by (auto simp: requeue_def intents.row_refl split: if_splits)

lemma evolves_notes:
  "intent_evolves r (r\<lparr>pi_provider_status := s, pi_provider_attempts := n\<rparr>)"
  "intent_evolves r (r\<lparr>pi_last_reason_code := c\<rparr>)"
  "intent_evolves r (r\<lparr>pi_provider_ambiguity_observed_at :=
     (case pi_provider_ambiguity_observed_at r of None \<Rightarrow> Some now | Some t \<Rightarrow> Some t), pi_last_reason_code := c\<rparr>)"
  by (auto simp: intent_evolves_def created_for_def once_def split: option.split)

context settlement_order
begin

lemma keeps_read_intent: "keeps P (read_intent i)"
  unfolding read_intent_def by (rule keeps_lock_payment_intent)

lemmas settlement_intros = payment_intros keeps_read_intent keeps_apply_payment_transition keeps_enqueue keeps_complete
  keeps_reschedule keeps_verify_for_payment

lemma keeps_assign_once:
  assumes "\<And>r v. get_attr r = None \<Longrightarrow> intent_evolves r (set_attr (Some v) r)"
  shows "keeps P (assign_once i get_attr set_attr value label)"
  unfolding assign_once_def
  by (intro settlement_intros write_intent) (auto simp: assms intents.row_refl split: option.splits if_splits)

lemma keeps_link: "keeps P (link_provider_payment i payment)"
  unfolding link_provider_payment_def
  by (intro settlement_intros keeps_assign_once write_intent)
    (auto simp: intent_evolves_def created_for_def)

lemma keeps_verify_before_io: "keeps P (verify_intent_authorization_before_provider_io cfg' i event now)"
  unfolding verify_intent_authorization_before_provider_io_def by (intro settlement_intros)

lemma keeps_apply_provider_payment: "keeps P (apply_provider_payment i payment now)"
  unfolding apply_provider_payment_def record_provider_outcome_def Let_def by (intro settlement_intros keeps_link)

lemma keeps_remember_ambiguity: "keeps P (remember_provider_ambiguity i now)"
  unfolding remember_provider_ambiguity_def
  by (intro settlement_intros write_intent) (auto intro: evolves_notes)

lemma keeps_mark_uncertain: "keeps P (mark_uncertain i detail now reason timed_out)"
  unfolding mark_uncertain_def Let_def
  by (intro settlement_intros keeps_remember_ambiguity write_intent) (auto intro: evolves_notes)

lemma keeps_record_attempt: "keeps P (record_payment_attempt i invoked recovered)"
  unfolding record_payment_attempt_def
  by (intro settlement_intros write_intent) (auto intro: requeue_evolves evolves_attempts)

end

section \<open>A provider's answer\<close>

definition answers_for :: "payment_intent_row \<Rightarrow> provider_payment \<Rightarrow> bool" where
  "answers_for r payment \<longleftrightarrow> pp_provider payment = pi_provider r \<and> pp_amount_inr payment = pi_amount_inr r
     \<and> pp_currency payment = pi_currency r
     \<and> (case pp_idempotency_key payment of None \<Rightarrow> pi_provider_payment_id r \<noteq> None | Some k \<Rightarrow> k = pi_idempotency_key r)"

lemma validate_provider_payment_iff:
  "validate_provider_payment r payment (pi_provider_payment_id r = None) = Inr () \<longleftrightarrow> answers_for r payment"
  "\<not> answers_for r payment \<Longrightarrow> \<exists>d. validate_provider_payment r payment (pi_provider_payment_id r = None) = Inl (ProviderPaymentMismatch d)"
  by (auto simp: validate_provider_payment_def answers_for_def Let_def split: option.splits if_splits)

lemma modify_intent_success:
  "modify_intent i g w = (Inr r', w') \<Longrightarrow> \<exists>r. find_intent i w = Some r \<and> g r = Inr r'"
  by (auto simp: modify_intent_eq split: option.splits sum.splits)

lemma assign_once_success:
  assumes "assign_once i get_attr set_attr (Some v) label w = (Inr u, w')"
  shows "\<exists>r. find_intent i w = Some r \<and> once (get_attr r) (Some v)"
  using assms by (auto simp: assign_once_def session_Inr_iffs once_def dest!: modify_intent_success split: option.splits if_splits)

lemma find_intent_modified:
  assumes "find_intent i w = Some r" "pi_id r' = i"
  shows "find_intent i (w\<lparr>w_payment_intents := update_where (\<lambda>r. pi_id r = i) (\<lambda>_. r') (w_payment_intents w)\<rparr>) = Some r'"
proof -
  have "find_row (\<lambda>r. pi_id r = i) rows \<noteq> None \<Longrightarrow> find_row (\<lambda>r. pi_id r = i) (update_where (\<lambda>r. pi_id r = i) (\<lambda>_. r') rows) = Some r'"
    for rows using assms(2) by (induction rows) (auto simp: find_row_def update_where_def)
  with assms(1) show ?thesis by (simp add: find_intent_def)
qed

lemma transition_success:
  assumes "apply_payment_transition i st t body reason w = (Inr u, w')"
  shows "\<exists>r. find_intent i w' = Some r \<and> pi_state r = st"
proof -
  from assms obtain r w1 w2 m p where m: "modify_intent i (\<lambda>r. bindE (assert_payment_transition (pi_state r) st) (\<lambda>_.
       Inr (r\<lparr>pi_state := st, pi_last_reason_code := reason\<rparr>))) w = (Inr r, w1)"
    and "flush_intents w1 = (Inr (), w2)" and a: "payment_audit m t p w2 = (Inr (), w')"
    unfolding apply_payment_transition_def session_Inr_iffs by auto
  then have "w2 = w1" "w_payment_intents w' = w_payment_intents w2"
    using flush_intents_state payment_audit_tables [OF a] by (auto simp: payment_tables_def)
  moreover from m obtain r0 where r0: "find_intent i w = Some r0" "r = r0\<lparr>pi_state := st, pi_last_reason_code := reason\<rparr>"
    "w1 = w\<lparr>w_payment_intents := update_where (\<lambda>r. pi_id r = i) (\<lambda>_. r) (w_payment_intents w)\<rparr>"
    by (auto simp: modify_intent_eq assert_payment_transition_def split: option.splits sum.splits if_splits)
  moreover have "pi_id r = i" using r0 find_intent_SomeD [OF r0(1)] by simp
  ultimately have "find_intent i w' = Some r" using find_intent_modified [OF r0(1), of r] by (simp add: find_intent_def)
  with r0(2) show ?thesis by simp
qed

lemma mission_keeps_intents: "apply_mission_state m st w = (res, w') \<Longrightarrow> find_intent i w' = find_intent i w"
  by (auto simp: apply_mission_state_eq find_intent_def split: option.splits if_splits)

lemma record_outcome_success:
  assumes "record_provider_outcome r payment moment w = (Inr u, w')"
  shows "\<exists>s. find_intent (pi_id r) w' = Some s \<and> pi_state s = provider_status_to_state (pp_status payment)"
proof -
  have "\<exists>s. find_intent i w' = Some s \<and> pi_state s = st"
    if "andthen (apply_payment_transition i st t b q) (apply_mission_state m ms) w = (Inr u, w')" for i st t b q m ms
    using that transition_success mission_keeps_intents by (auto simp: andthen_eq_Inr_iff)
  with assms transition_success show ?thesis
    by (cases "pp_status payment") (auto simp: record_provider_outcome_def Let_def provider_status_to_state_def)
qed

text \<open>
  C21. A provider's answer settles only the payment it answers for: it is folded in only when its
  provider, amount and currency are those of the intent and it names the intent's key (or, once a
  provider payment is linked, that payment); a settled intent keeps its state, any other takes the
  state the answer reports. Any other answer is a mismatch that changes nothing.
\<close>

theorem provider_answer_settles_only_its_payment:
  assumes run: "apply_provider_payment i payment now w = (res, w')" and row: "find_intent i w = Some r"
  shows "(\<forall>st. res = Inr st \<longrightarrow> answers_for r payment \<and> once (pi_provider_payment_id r) (Some (pp_provider_payment_id payment))
      \<and> st = (if is_terminal (pi_state r) then pi_state r else provider_status_to_state (pp_status payment)))
    \<and> (\<not> answers_for r payment \<longrightarrow> (\<exists>d. res = Inl (ProviderPaymentMismatch d)) \<and> payment_tables w' = payment_tables w)"
proof -
  obtain x w1 where mom: "moment_of now w = (x, w1)" by fastforce
  then obtain moment where x: "x = Inr moment" by (auto simp: moment_of_def ret_def utcnow_def split: option.splits)
  have t1: "payment_tables w1 = payment_tables w" using mom by (rule moment_of_tables)
  then have row1: "find_intent i w1 = Some r" using row by (simp add: payment_tables_def find_intent_def)
  let ?v = "validate_provider_payment r payment (pi_provider_payment_id r = None)"
  let ?target = "provider_status_to_state (pp_status payment)"
  show ?thesis
  proof (cases "answers_for r payment")
    case False
    with validate_provider_payment_iff(2) obtain d where "?v = Inl (ProviderPaymentMismatch d)" by blast
    then have "(res, w') = (Inl (ProviderPaymentMismatch d), w1)"
      using run mom x row1 by (simp add: apply_provider_payment_def bind_def read_intent_def lock_payment_intent_def gets_def
          ret_def andthen_def lift_def Let_def)
    with False t1 show ?thesis by simp
  next
    case True
    have rd: "read_intent i w1 = (Inr r, w1)" using row1
      by (simp add: read_intent_def lock_payment_intent_def gets_def bind_def ret_def)
    have v: "?v = Inr ()" using True validate_provider_payment_iff(1) by blast
    have "once (pi_provider_payment_id r) (Some (pp_provider_payment_id payment))
      \<and> st = (if is_terminal (pi_state r) then pi_state r else ?target)" if st: "res = Inr st" for st
    proof -
      have "andthen (link_provider_payment i payment)
          (if pi_state r = ?target \<or> is_terminal (pi_state r) then ret (pi_state r)
           else andthen (record_provider_outcome r payment moment) (bind (read_intent i) (\<lambda>r. ret (pi_state r)))) w1 = (Inr st, w')"
        using run st by (simp only: apply_provider_payment_def bind_run [where m="moment_of now" and s=w, OF mom [unfolded x]]
            bind_run [where m="read_intent i" and s=w1, OF rd] v lift_Inr andthen_run [where m="ret ()" and s=w1, OF ret_run])
      then obtain w2 where link: "link_provider_payment i payment w1 = (Inr (), w2)"
        and rest: "(if pi_state r = ?target \<or> is_terminal (pi_state r) then ret (pi_state r)
           else andthen (record_provider_outcome r payment moment) (bind (read_intent i) (\<lambda>r. ret (pi_state r)))) w2 = (Inr st, w')"
        by (auto simp: andthen_eq_Inr_iff [of "link_provider_payment i payment"])
      from link obtain u w4 where "assign_once i pi_provider_payment_id (\<lambda>v r. r\<lparr>pi_provider_payment_id := v\<rparr>)
          (Some (pp_provider_payment_id payment)) ''provider reference'' w1 = (Inr u, w4)"
        unfolding link_provider_payment_def session_Inr_iffs by blast
      from assign_once_success [OF this] row1 have "once (pi_provider_payment_id r) (Some (pp_provider_payment_id payment))" by simp
      moreover have "st = (if is_terminal (pi_state r) then pi_state r else ?target)"
        using rest record_outcome_success [of r payment moment w2] find_intent_SomeD [OF row]
        by (auto simp: session_Inr_iffs read_intent_def lock_payment_intent_def split: if_splits option.splits)
      ultimately show ?thesis ..
    qed
    with True show ?thesis by blast
  qed
qed

text \<open>A payment that the provider is still working on.\<close>

definition sample_intent :: payment_intent_row where
  "sample_intent = (new_intent_row 50 1 sample_active ''k'' ''f'' (sample_transaction 0) ''fake'' 0)
     \<lparr>pi_state := P_PROVIDER_PENDING, pi_provider_payment_id := Some ''pay_1''\<rparr>"

definition linked_world :: world where
  "linked_world = payable_world\<lparr>w_missions := [sample_mission M_PAYMENT_PENDING], w_payment_intents := [sample_intent]\<rparr>"

lemma sample_intent_simps [simp]:
  "pi_id sample_intent = 50" "pi_mission_id sample_intent = 1" "pi_state sample_intent = P_PROVIDER_PENDING"
  "pi_provider sample_intent = ''fake''" "pi_provider_payment_id sample_intent = Some ''pay_1''"
  "pi_amount_inr sample_intent = 7598" "pi_currency sample_intent = ''INR''" "pi_provider_order_id sample_intent = None"
  "pi_provider_transaction_id sample_intent = None" "pi_provider_ambiguity_observed_at sample_intent = None"
  "pi_provider_create_fenced_at sample_intent = None" "pi_attempts sample_intent = 0"
  "pi_provider_attempts sample_intent = None"
  by (simp_all add: sample_intent_def new_intent_row_def sample_transaction_def)

lemma linked_world_simps [simp]:
  "w_payment_intents linked_world = [sample_intent]" "w_missions linked_world = [sample_mission M_PAYMENT_PENDING]"
  "w_audit_events linked_world = []" "w_webhook_events linked_world = []" "w_outbox_events linked_world = []"
  "w_uuids linked_world = (\<lambda>n. of_nat (n + 100))" "w_uuid_idx linked_world = 0"
  by (simp_all add: linked_world_def payable_world_def auth_world_def sample_world_def empty_world_def)

definition sample_answer :: "int \<Rightarrow> provider_payment" where
  "sample_answer amount = \<lparr>pp_provider = ''fake'', pp_provider_payment_id = ''pay_1'', pp_status = PP_PENDING,
     pp_amount_inr = amount, pp_currency = ''INR'', pp_idempotency_key = None, pp_provider_order_id = None,
     pp_provider_transaction_id = None, pp_provider_receipt = None, pp_provider_status = None, pp_provider_attempts = None,
     pp_idempotent_replay = False\<rparr>"

lemma sample_answer_accepted: "apply_provider_payment 50 (sample_answer 7598) (Some 0) linked_world = (Inr P_PROVIDER_PENDING, linked_world)"
proof -
  have f: "find_intent 50 linked_world = Some sample_intent" by (simp add: find_intent_def find_row_def)
  have rd: "read_intent 50 linked_world = (Inr sample_intent, linked_world)"
    by (simp add: read_intent_def lock_payment_intent_def gets_def bind_def ret_def f)
  have same: "linked_world\<lparr>w_payment_intents := update_where (\<lambda>r. pi_id r = 50) (\<lambda>_. sample_intent) (w_payment_intents linked_world)\<rparr> = linked_world"
    by (simp add: update_where_def)
  have fl: "flush_intents linked_world = (Inr (), linked_world)"
    by (simp add: flush_intents_def db_require_def session_defs payment_intents_unique_def keyed_def somes_def payment_intent_checks_def)
  have "link_provider_payment 50 (sample_answer 7598) linked_world = (Inr (), linked_world)"
    unfolding link_provider_payment_def
    by (simp add: assign_once_def sample_answer_def andthen_def bind_def ret_def whenS_def modify_intent_eq f same fl del: linked_world_simps)
  then show ?thesis
    by (simp add: apply_provider_payment_def moment_of_def bind_def ret_def rd andthen_def validate_provider_payment_def lift_def
        Let_def sample_answer_def provider_status_to_state_def)
qed

theorem provider_answer_settles_only_its_payment_witness:
  "answers_for sample_intent (sample_answer 7598)
    \<and> (\<exists>d w'. apply_provider_payment 50 (sample_answer 7500) (Some 0) linked_world = (Inl (ProviderPaymentMismatch d), w')
        \<and> payment_tables w' = payment_tables linked_world)"
proof -
  have f: "find_intent 50 linked_world = Some sample_intent" by (simp add: find_intent_def find_row_def)
  obtain res w' where run: "apply_provider_payment 50 (sample_answer 7500) (Some 0) linked_world = (res, w')" by fastforce
  have "\<not> answers_for sample_intent (sample_answer 7500)" by (simp add: answers_for_def sample_answer_def)
  with provider_answer_settles_only_its_payment [OF run f] run
    provider_answer_settles_only_its_payment [OF sample_answer_accepted f] show ?thesis by blast
qed

end
