(* ===== verification/Executor.thy ===== *)
theory Executor
  imports Settlement
begin

text \<open>
  The privileged executor (\<^verbatim>\<open>services/payment_executor/executor.py\<close>): dispatch of one create
  instruction. A job runs over a session and a provider: the provider is a parameter with a
  state of its own, the calls it receives are recorded, and at every transaction boundary other
  sessions may have committed (\<open>wk_env\<close>). What was committed survives a rollback.
\<close>

section \<open>Jobs\<close>

record 'p payment_provider =
  pv_name :: string
  pv_create_retries_are_idempotent :: bool
  pv_create_payment :: "payment_request \<Rightarrow> 'p \<Rightarrow> (exn + provider_payment) \<times> 'p"
  pv_get_payment :: "string option \<Rightarrow> string option \<Rightarrow> 'p \<Rightarrow> (exn + provider_payment option) \<times> 'p"
  pv_verify_webhook :: "string \<Rightarrow> string \<Rightarrow> string option \<Rightarrow> exn + verified_webhook_event"

datatype provider_call = CreateCall payment_request | LookupCall "string option" "string option"

record 'p work =
  wk_db :: world
  wk_committed :: world
  wk_provider :: 'p
  wk_calls :: "provider_call list"
  wk_env :: "nat \<Rightarrow> world \<Rightarrow> world"
  wk_turn :: nat

type_synonym ('p, 'a) job = "('p work, exn, 'a) session"

definition in_db :: "'a db \<Rightarrow> ('p, 'a) job" where
  "in_db m = (\<lambda>k. case m (wk_db k) of (r, w) \<Rightarrow> (r, k\<lparr>wk_db := w\<rparr>))"

definition commit :: "('p, unit) job" where
  "commit = modify (\<lambda>k. let w = wk_env k (wk_turn k) (wk_db k) in
     k\<lparr>wk_db := w, wk_committed := w, wk_turn := Suc (wk_turn k)\<rparr>)"

definition rollback :: "('p, unit) job" where
  "rollback = modify (\<lambda>k. let w = wk_env k (wk_turn k) (restore_tables (wk_committed k) (wk_db k)) in
     k\<lparr>wk_db := w, wk_committed := w, wk_turn := Suc (wk_turn k)\<rparr>)"

definition create_payment :: "'p payment_provider \<Rightarrow> payment_request \<Rightarrow> ('p, provider_payment) job" where
  "create_payment prov request = (\<lambda>k. case pv_create_payment prov request (wk_provider k) of
     (r, p) \<Rightarrow> (r, k\<lparr>wk_provider := p, wk_calls := wk_calls k @ [CreateCall request]\<rparr>))"

definition get_payment :: "'p payment_provider \<Rightarrow> string option \<Rightarrow> string option \<Rightarrow> ('p, provider_payment option) job" where
  "get_payment prov provider_payment_id idempotency_key = (\<lambda>k.
     case pv_get_payment prov provider_payment_id idempotency_key (wk_provider k) of
     (r, p) \<Rightarrow> (r, k\<lparr>wk_provider := p, wk_calls := wk_calls k @ [LookupCall provider_payment_id idempotency_key]\<rparr>))"

section \<open>Dispatch\<close>

record dispatch_result =
  dr_state :: payment_state
  dr_provider_called :: bool
  dr_retry_scheduled :: bool

definition DispatchResult :: "payment_state \<Rightarrow> bool \<Rightarrow> bool \<Rightarrow> dispatch_result" where
  "DispatchResult st called retry = \<lparr>dr_state = st, dr_provider_called = called, dr_retry_scheduled = retry\<rparr>"

definition validate_provider_route :: "payment_intent_row \<Rightarrow> 'p payment_provider \<Rightarrow> exn + unit" where
  "validate_provider_route intent prov = (if pv_name prov \<noteq> pi_provider intent
     then Inl (ProviderPaymentMismatch (''adapter '' @ py_repr (pv_name prov) @ '' cannot process intent for ''
       @ py_repr (pi_provider intent)))
     else Inr ())"

text \<open>\<open>_mark_uncertain\<close>, then the event is complete and the intent is PROVIDER_PENDING.\<close>

definition finish_uncertain :: "uuid \<Rightarrow> outbox_event_row \<Rightarrow> string \<Rightarrow> instant \<Rightarrow> string \<Rightarrow> bool \<Rightarrow> dispatch_result db" where
  "finish_uncertain i event detail now reason_code timed_out =
     andthen (mark_uncertain i detail now reason_code timed_out)
    (andthen (complete_event event (Some now))
    (ret (DispatchResult P_PROVIDER_PENDING True True)))"

definition request_reconciliation :: "uuid \<Rightarrow> instant \<Rightarrow> unit db" where
  "request_reconciliation i now =
     bind (read_intent i) (\<lambda>intent.
     andthen (enqueue_outbox_event (pi_id intent) OE_PAYMENT_RECONCILE_REQUESTED
       [(''idempotency_key'', JStr (pi_idempotency_key intent))] (Some now) DEFAULT_MAX_ATTEMPTS)
     (ret ()))"

definition finish_existing_before_create ::
  "uuid \<Rightarrow> outbox_event_row \<Rightarrow> provider_payment \<Rightarrow> instant \<Rightarrow> dispatch_result db" where
  "finish_existing_before_create i event existing now =
     bind (read_intent i) (\<lambda>intent.
     if pi_provider_ambiguity_observed_at intent \<noteq> None then
       finish_uncertain i event (''one Order is currently visible, but multiple exact Orders were observed ''
         @ ''previously; automatic adoption remains prohibited'') now (reason_text R_PROVIDER_AMBIGUITY) False
     else
       bind (catch
         (bind (andthen (lift (validate_provider_payment intent existing True))
           (andthen (record_payment_attempt i False True) (apply_provider_payment i existing (Some now))))
           (\<lambda>st. ret (Inr st)))
         (\<lambda>e. case e of ProviderPaymentMismatch detail \<Rightarrow> ret (Inl detail) | _ \<Rightarrow> raise e)) (\<lambda>outcome.
       case outcome of
         Inl detail \<Rightarrow> finish_uncertain i event detail now (reason_text R_PROVIDER_RESPONSE_MISMATCH) False
       | Inr st \<Rightarrow>
         bind (read_intent i) (\<lambda>intent.
         andthen (payment_audit (pi_mission_id intent) E_PAYMENT_RECONCILED
           (dict_merge (dict_merge [(''payment_intent_id'', JStr (uuid_str (pi_id intent))),
               (''provider'', JStr (pi_provider intent))] (provider_evidence_payload existing))
             [(''state'', JStr (payment_text st)), (''recovered_before_create'', JBool True),
              (''provider_create_fenced'', JBool (pi_provider_create_fenced_at intent \<noteq> None))]))
        (andthen (whenS (st = P_PROVIDER_PENDING) (request_reconciliation i now))
        (andthen (complete_event event (Some now))
        (ret (DispatchResult st True (st = P_PROVIDER_PENDING))))))))"

definition is_timeout :: "exn \<Rightarrow> bool" where
  "is_timeout e \<longleftrightarrow> (case e of ProviderTimeout _ \<Rightarrow> True | _ \<Rightarrow> False)"

text \<open>A lookup: \<open>ProviderError\<close>s are values, anything else propagates.\<close>

definition try_get_payment :: "'p payment_provider \<Rightarrow> string option \<Rightarrow> string option
    \<Rightarrow> ('p, exn + provider_payment option) job" where
  "try_get_payment prov pid key = catch (bind (get_payment prov pid key) (\<lambda>r. ret (Inr r)))
     (\<lambda>e. if provider_error e \<noteq> None then ret (Inl e) else raise e)"

definition recover_fenced_create :: "approver \<Rightarrow> 'p payment_provider \<Rightarrow> uuid \<Rightarrow> outbox_event_row \<Rightarrow> instant
    \<Rightarrow> ('p, dispatch_result) job" where
  "recover_fenced_create cfg prov i event now =
     andthen (in_db (verify_intent_authorization_before_provider_io cfg i event now))
    (bind (in_db (read_intent i)) (\<lambda>intent.
     bind (try_get_payment prov None (Some (pi_idempotency_key intent))) (\<lambda>answer. case answer of
       Inl e \<Rightarrow> in_db (finish_uncertain i event
         (''fenced create recovery lookup failed: '' @ snd (the (provider_error e))) now (fst (the (provider_error e)))
         (is_timeout e))
     | Inr (Some existing) \<Rightarrow> in_db (finish_existing_before_create i event existing now)
     | Inr None \<Rightarrow> in_db (finish_uncertain i event
         ''create permission is fenced and receipt search found no Order'' now (reason_text R_PROVIDER_CREATE_FENCED) False))))"

definition acquire_provider_create_fence :: "uuid \<Rightarrow> instant \<Rightarrow> ('p, bool) job" where
  "acquire_provider_create_fence i now =
     bind (in_db (update_payment_intents
       (\<lambda>r. pi_id r = i \<and> pi_state r = P_QUEUED \<and> pi_provider_create_fenced_at r = None)
       (\<lambda>r. r\<lparr>pi_provider_create_fenced_at := Some now\<rparr>))) (\<lambda>n.
     andthen commit (ret (n = 1)))"

definition audit_retry :: "uuid \<Rightarrow> bool \<Rightarrow> outbox_event_row \<Rightarrow> unit db" where
  "audit_retry i retried event =
     bind (read_intent i) (\<lambda>intent.
     bind (gets (find_outbox (ob_id event))) (\<lambda>found.
     let ev = (case found of None \<Rightarrow> event | Some r \<Rightarrow> r) in
     payment_audit (pi_mission_id intent) (if retried then E_PAYMENT_RETRY_SCHEDULED else E_OUTBOX_EVENT_DEAD_LETTERED)
       [(''payment_intent_id'', JStr (uuid_str (pi_id intent))),
        (''outbox_event_id'', JStr (uuid_str (ob_id ev))),
        (''attempts'', JInt (ob_attempts ev)),
        (''max_attempts'', JInt (ob_max_attempts ev)),
        (''available_at'', JStr (iso_utc (ob_available_at ev)))]))"

text \<open>The answer of \<open>create_payment\<close>: timeouts, transient and terminal errors are values.\<close>

definition create_error :: "exn \<Rightarrow> bool" where
  "create_error e \<longleftrightarrow> (case e of ProviderTimeout _ \<Rightarrow> True | ProviderTransientError _ \<Rightarrow> True
     | ProviderAmbiguity _ \<Rightarrow> True | ProviderTerminalError _ \<Rightarrow> True | _ \<Rightarrow> False)"

definition try_create_payment :: "'p payment_provider \<Rightarrow> payment_request \<Rightarrow> ('p, exn + provider_payment) job" where
  "try_create_payment prov request = catch (bind (create_payment prov request) (\<lambda>r. ret (Inr r)))
     (\<lambda>e. if create_error e then ret (Inl e) else raise e)"

text \<open>What follows the create call, in the session.\<close>

definition settle_created :: "uuid \<Rightarrow> outbox_event_row \<Rightarrow> provider_payment \<Rightarrow> instant \<Rightarrow> dispatch_result db" where
  "settle_created i event payment now =
     bind (read_intent i) (\<lambda>intent.
     bind (catch
       (bind (andthen (lift (validate_provider_payment intent payment True))
         (apply_provider_payment i payment (Some now))) (\<lambda>st. ret (Inr st)))
       (\<lambda>e. case e of ProviderPaymentMismatch detail \<Rightarrow> ret (Inl detail) | _ \<Rightarrow> raise e)) (\<lambda>outcome.
     case outcome of
       Inl detail \<Rightarrow> finish_uncertain i event detail now (reason_text R_PROVIDER_RESPONSE_MISMATCH) False
     | Inr st \<Rightarrow>
       andthen (whenS (st = P_PROVIDER_PENDING) (request_reconciliation i now))
      (andthen (complete_event event (Some now))
      (ret (DispatchResult st True (st = P_PROVIDER_PENDING))))))"

definition after_create :: "bool \<Rightarrow> uuid \<Rightarrow> outbox_event_row \<Rightarrow> exn + provider_payment \<Rightarrow> instant \<Rightarrow> dispatch_result db" where
  "after_create idempotent i event outcome now =
     andthen (lock_payment_intent i)
    (andthen (record_payment_attempt i True False)
    (bind (read_intent i) (\<lambda>intent. case outcome of
       Inr payment \<Rightarrow> settle_created i event payment now
     | Inl (ProviderTimeout detail) \<Rightarrow>
         finish_uncertain i event detail now (reason_text R_PAYMENT_PROVIDER_TIMEOUT) True
     | Inl (ProviderTerminalError detail) \<Rightarrow>
         andthen (apply_payment_transition i P_FAILED_TERMINAL E_PAYMENT_FAILED
           [(''provider'', JStr (pi_provider intent)), (''retryable'', JBool False), (''detail'', JStr detail)]
           (Some (reason_text R_PROVIDER_TERMINAL_FAILURE)))
        (andthen (apply_mission_state (pi_mission_id intent) M_PAYMENT_FAILED)
        (andthen (complete_event event (Some now))
        (ret (DispatchResult P_FAILED_TERMINAL True False))))
     | Inl e \<Rightarrow>
         if \<not> idempotent then
           finish_uncertain i event (''provider refused the fenced create transiently; automatic create retry ''
             @ ''remains prohibited'') now (fst (the (provider_error e))) False
         else
           andthen (apply_payment_transition i P_FAILED_RETRYABLE E_PAYMENT_FAILED
             [(''provider'', JStr (pi_provider intent)), (''retryable'', JBool True)]
             (Some (reason_text R_PROVIDER_TRANSIENT_FAILURE)))
          (bind (reschedule_event event (snd (the (provider_error e))) (Some now) None) (\<lambda>retried.
           andthen (audit_retry i retried event)
           (ret (DispatchResult P_FAILED_RETRYABLE True retried)))))))"

text \<open>The preflight lookup, and the create call when the provider holds nothing for the key.\<close>

definition create_or_adopt :: "approver \<Rightarrow> 'p payment_provider \<Rightarrow> uuid \<Rightarrow> outbox_event_row \<Rightarrow> instant
    \<Rightarrow> ('p, dispatch_result) job" where
  "create_or_adopt cfg prov i event now =
     bind (in_db (read_intent i)) (\<lambda>intent.
     bind (lift (PaymentRequest \<lparr>rq_idempotency_key = pi_idempotency_key intent, rq_amount_inr = pi_amount_inr intent,
       rq_currency = pi_currency intent, rq_merchant_id = pi_merchant_id intent,
       rq_transaction_digest_prefix = digest_prefix (pi_transaction_digest intent)\<rparr>)) (\<lambda>request.
     bind (try_get_payment prov None (Some (pi_idempotency_key intent))) (\<lambda>answer. case answer of
       Inl e \<Rightarrow> in_db (finish_uncertain i event (''pre-create lookup failed: '' @ snd (the (provider_error e))) now
         (fst (the (provider_error e))) (is_timeout e))
     | Inr (Some existing) \<Rightarrow> in_db (finish_existing_before_create i event existing now)
     | Inr None \<Rightarrow>
       andthen (in_db (verify_intent_authorization_before_provider_io cfg i event now))
      (bind (try_create_payment prov request) (\<lambda>outcome.
       in_db (after_create (pv_create_retries_are_idempotent prov) i event outcome now))))))"

text \<open>
  A provider without idempotent creates: the fence is committed first, and only the invocation
  whose compare-and-set won it, with the intent still QUEUED, goes on towards a create call.
\<close>

definition create_behind_fence :: "approver \<Rightarrow> 'p payment_provider \<Rightarrow> uuid \<Rightarrow> outbox_event_row \<Rightarrow> instant
    \<Rightarrow> ('p, dispatch_result) job" where
  "create_behind_fence cfg prov i event moment =
     bind (acquire_provider_create_fence i moment) (\<lambda>fence_acquired.
     bind (in_db (lock_payment_intent i)) (\<lambda>locked.
     andthen (lift (validate_provider_route locked prov))
    (andthen (guardE (pi_provider_create_fenced_at locked \<noteq> None)
       (RuntimeError ''provider create fence was not durable''))
    (if \<not> fence_acquired \<or> pi_state locked \<noteq> P_QUEUED then recover_fenced_create cfg prov i event moment
     else
       andthen (in_db (verify_intent_authorization_before_provider_io cfg i event moment))
       (create_or_adopt cfg prov i event moment)))))"

definition dispatch_create :: "approver \<Rightarrow> capability_set \<Rightarrow> 'p payment_provider \<Rightarrow> uuid \<Rightarrow> outbox_event_row
    \<Rightarrow> instant option \<Rightarrow> ('p, dispatch_result) job" where
  "dispatch_create cfg capabilities prov i event now =
     andthen (lift (enforce_registered capabilities C_PAYMENT_EXECUTE))
    (bind (in_db (lock_payment_intent i)) (\<lambda>intent.
     bind (in_db (moment_of now)) (\<lambda>moment.
     andthen (lift (validate_provider_route intent prov))
    (if is_terminal (pi_state intent) then
       andthen (in_db (complete_event event (Some moment))) (ret (DispatchResult (pi_state intent) False False))
     else if \<not> pv_create_retries_are_idempotent prov \<and> pi_provider_create_fenced_at intent \<noteq> None then
       recover_fenced_create cfg prov i event moment
     else if pi_state intent = P_PROVIDER_PENDING then
       andthen (in_db (request_reconciliation i moment))
      (andthen (in_db (complete_event event (Some moment))) (ret (DispatchResult (pi_state intent) False True)))
     else
       bind (in_db (modify_intent i requeue)) (\<lambda>queued.
       andthen (guardE (pi_state queued = P_QUEUED) (IllegalPaymentTransition (pi_state queued) P_PROCESSING))
      (andthen (in_db (verify_intent_authorization_before_provider_io cfg i event moment))
      (if pv_create_retries_are_idempotent prov then create_or_adopt cfg prov i event moment
       else
         create_behind_fence cfg prov i event moment)))))))"

section \<open>What a job carries along\<close>

text \<open>
  A relation on database states carries over to jobs: from the last committed state to the
  current one and from one committed state to the next, provided the other sessions keep it.
\<close>

definition env_keeps :: "(world \<Rightarrow> world \<Rightarrow> bool) \<Rightarrow> 'p work \<Rightarrow> bool" where
  "env_keeps P k \<longleftrightarrow> (\<forall>n w. P w (wk_env k n w))"

definition carries :: "(world \<Rightarrow> world \<Rightarrow> bool) \<Rightarrow> 'p work \<Rightarrow> 'p work \<Rightarrow> bool" where
  "carries P k k' \<longleftrightarrow> wk_env k' = wk_env k
     \<and> (env_keeps P k \<and> P (wk_committed k) (wk_db k)
         \<longrightarrow> P (wk_committed k') (wk_db k') \<and> P (wk_committed k) (wk_committed k'))"

context settlement_order
begin

lemma carries_order: "session_order (carries P)"
proof
  show "carries P s s" for s :: "'p work" by (simp add: carries_def refl)
  show "carries P s t \<Longrightarrow> carries P t u \<Longrightarrow> carries P s u" for s t u :: "'p work"
    unfolding carries_def env_keeps_def using trans by metis
qed

lemmas job_intros = session_order.keeps_intros [OF carries_order]

lemma keeps_in_db: "keeps P m \<Longrightarrow> keeps (carries P) (in_db m)"
  unfolding keeps_def in_db_def carries_def by (auto simp: refl split: prod.splits) (metis snd_conv trans)

lemma keeps_commit: "keeps (carries P) commit"
  by (auto simp: keeps_def commit_def modify_def Let_def carries_def env_keeps_def refl intro: trans)

lemma keeps_rollback: "keeps (carries P) rollback"
  by (auto simp: keeps_def rollback_def modify_def Let_def carries_def env_keeps_def refl intro: trans savepoint)

lemma keeps_create_call: "keeps (carries P) (create_payment prov request)"
  by (auto simp: keeps_def create_payment_def carries_def refl split: prod.split)

lemma keeps_get_call: "keeps (carries P) (get_payment prov pid key)"
  by (auto simp: keeps_def get_payment_def carries_def refl split: prod.split)

lemma keeps_try_get: "keeps (carries P) (try_get_payment prov pid key)"
  unfolding try_get_payment_def by (intro job_intros keeps_get_call)

lemma keeps_try_create: "keeps (carries P) (try_create_payment prov request)"
  unfolding try_create_payment_def by (intro job_intros keeps_create_call)

lemma keeps_finish_uncertain: "keeps P (finish_uncertain i event detail now reason timed_out)"
  unfolding finish_uncertain_def by (intro settlement_intros keeps_mark_uncertain)

lemma keeps_request_reconciliation: "keeps P (request_reconciliation i now)"
  unfolding request_reconciliation_def by (intro settlement_intros)

lemma keeps_adopting:
  "keeps P m \<Longrightarrow> keeps P (catch m (\<lambda>e. case e of ProviderPaymentMismatch d \<Rightarrow> h d | _ \<Rightarrow> raise e))"
  if "\<And>d. keeps P (h d)"
  by (intro settlement_intros) (auto intro!: settlement_intros that split: exn.split)

lemma keeps_sum: "(\<And>x. keeps Q (f x)) \<Longrightarrow> (\<And>y. keeps Q (g y)) \<Longrightarrow> keeps Q (case s of Inl x \<Rightarrow> f x | Inr y \<Rightarrow> g y)"
  by (simp split: sum.split)

lemma keeps_finish_existing: "keeps P (finish_existing_before_create i event existing now)"
  unfolding finish_existing_before_create_def
  by (intro keeps_bind [OF keeps_adopting] keeps_sum settlement_intros keeps_finish_uncertain keeps_request_reconciliation
      keeps_record_attempt keeps_apply_provider_payment)

lemma keeps_recover_fenced: "keeps (carries P) (recover_fenced_create cfg' prov i event now)"
  unfolding recover_fenced_create_def
  by (intro job_intros keeps_sum keeps_in_db keeps_try_get keeps_verify_before_io keeps_read_intent
      keeps_finish_uncertain keeps_finish_existing)

lemma keeps_fence_update:
  "keeps P (update_payment_intents (\<lambda>r. pi_id r = i \<and> q r \<and> pi_provider_create_fenced_at r = None)
     (\<lambda>r. r\<lparr>pi_provider_create_fenced_at := Some now\<rparr>))"
  by (rule write_intents) (simp add: intent_evolves_def created_for_def)

lemma keeps_acquire_fence: "keeps (carries P) (acquire_provider_create_fence i now)"
  unfolding acquire_provider_create_fence_def
  by (intro job_intros keeps_in_db keeps_fence_update keeps_commit)

lemma keeps_audit_retry: "keeps P (audit_retry i retried event)"
  unfolding audit_retry_def Let_def by (intro settlement_intros)

lemma keeps_settle_created: "keeps P (settle_created i event payment now)"
  unfolding settle_created_def
  by (intro keeps_bind [OF keeps_adopting] keeps_sum settlement_intros keeps_finish_uncertain keeps_request_reconciliation
      keeps_apply_provider_payment)

lemma keeps_after_create: "keeps P (after_create idempotent i event outcome now)"
proof -
  have "keeps P (apply_payment_transition i P_FAILED_RETRYABLE t b r)" for t b r
    by (rule keeps_apply_payment_transition)
  then show ?thesis unfolding after_create_def
    by (intro settlement_intros keeps_record_attempt keeps_sum keeps_settle_created)
      (auto intro!: settlement_intros keeps_finish_uncertain keeps_audit_retry split: exn.split)
qed

lemma keeps_create_or_adopt: "keeps (carries P) (create_or_adopt cfg' prov i event now)"
  unfolding create_or_adopt_def
  by (intro job_intros keeps_sum keeps_in_db keeps_try_get keeps_try_create keeps_verify_before_io keeps_read_intent
      keeps_finish_uncertain keeps_finish_existing keeps_after_create)

lemma keeps_behind_fence: "keeps (carries P) (create_behind_fence cfg' prov i event now)"
  unfolding create_behind_fence_def
  by (intro job_intros keeps_in_db keeps_lock_payment_intent keeps_recover_fenced keeps_verify_before_io
      keeps_create_or_adopt keeps_acquire_fence)

lemma keeps_requeue: "keeps P (modify_intent i requeue)"
  by (rule write_intent) (rule requeue_evolves)

lemma keeps_dispatch_create: "keeps (carries P) (dispatch_create cfg' caps prov i event now)"
  unfolding dispatch_create_def
  by (intro job_intros keeps_in_db keeps_lock_payment_intent keeps_moment_of keeps_complete keeps_recover_fenced
      keeps_request_reconciliation keeps_requeue keeps_verify_before_io keeps_create_or_adopt keeps_behind_fence)

end

section \<open>The create fence\<close>

definition is_create :: "provider_call \<Rightarrow> bool" where
  "is_create c \<longleftrightarrow> (case c of CreateCall _ \<Rightarrow> True | LookupCall _ _ \<Rightarrow> False)"

text \<open>Steps within one transaction that make no create call.\<close>

definition quiet :: "'p work \<Rightarrow> 'p work \<Rightarrow> bool" where
  "quiet k k' \<longleftrightarrow> wk_committed k' = wk_committed k
     \<and> (\<exists>cs. wk_calls k' = wk_calls k @ cs \<and> list_all (\<lambda>c. \<not> is_create c) cs)"

lemma quietI: "wk_committed k' = wk_committed k \<Longrightarrow> wk_calls k' = wk_calls k \<Longrightarrow> quiet k k'"
  by (simp add: quiet_def)

interpretation quiet: session_order quiet
proof
  show "quiet s s" for s :: "'p work" by (simp add: quietI)
  fix s t u :: "'p work" assume st: "quiet s t" and tu: "quiet t u"
  then obtain cs ds where "wk_calls u = wk_calls s @ (cs @ ds)" "list_all (\<lambda>c. \<not> is_create c) (cs @ ds)"
    by (auto simp: quiet_def)
  with st tu show "quiet s u" unfolding quiet_def by metis
qed

lemma quiet_in_db: "keeps quiet (in_db m)"
  by (auto simp: keeps_def in_db_def intro!: quietI split: prod.split)

lemma quiet_db: "quiet k s \<Longrightarrow> quiet k (snd (in_db m s))"
  by (simp add: quiet_def in_db_def split: prod.split)

lemma quiet_lookup: "keeps quiet (try_get_payment prov pid key)"
proof -
  have "keeps quiet (get_payment prov pid key)"
    by (auto simp: keeps_def get_payment_def quiet_def is_create_def split: prod.split)
  then show ?thesis unfolding try_get_payment_def by (intro quiet.keeps_intros)
qed

lemma quiet_recover: "keeps quiet (recover_fenced_create cfg prov i event now)"
  unfolding recover_fenced_create_def
  by (intro quiet.keeps_intros quiet_in_db quiet_lookup) (auto intro!: quiet_in_db split: sum.split option.split)

text \<open>The request an intent stands for.\<close>

definition request_of :: "payment_intent_row \<Rightarrow> payment_request" where
  "request_of r = \<lparr>rq_idempotency_key = pi_idempotency_key r, rq_amount_inr = pi_amount_inr r,
     rq_currency = pi_currency r, rq_merchant_id = pi_merchant_id r,
     rq_transaction_digest_prefix = digest_prefix (pi_transaction_digest r)\<rparr>"

definition one_create :: "payment_request \<Rightarrow> 'p work \<Rightarrow> 'p work \<Rightarrow> bool" where
  "one_create q k k' \<longleftrightarrow> wk_committed k' = wk_committed k
     \<and> (\<exists>cs. wk_calls k' = wk_calls k @ cs @ [CreateCall q] \<and> list_all (\<lambda>c. \<not> is_create c) cs)"

text \<open>Walking along a job: a quiet step either ends it or goes on from a quiet state.\<close>

lemma quiet_bind:
  assumes "keeps quiet m" and "quiet k s" and "\<And>t. quiet k t \<Longrightarrow> Q t"
    and "\<And>x t. m s = (Inr x, t) \<Longrightarrow> quiet k t \<Longrightarrow> Q (snd (f x t))"
  shows "Q (snd (bind m f s))"
proof -
  obtain r t where run: "m s = (r, t)" by fastforce
  then have "quiet k t" using quiet.trans [OF assms(2)] keeps_result [OF assms(1)] by blast
  with assms(3,4) run show ?thesis by (cases r) (simp_all add: bind_def)
qed

lemma quiet_andthen:
  assumes "keeps quiet m" and "quiet k s" and "\<And>t. quiet k t \<Longrightarrow> Q t"
    and "\<And>x t. m s = (Inr x, t) \<Longrightarrow> quiet k t \<Longrightarrow> Q (snd (n t))"
  shows "Q (snd (andthen m n s))"
  unfolding andthen_def by (rule quiet_bind [OF assms(1-3)]) (use assms(4) in blast)+

lemma if_state: "Q (snd (m s)) \<Longrightarrow> Q (snd (n s)) \<Longrightarrow> Q (snd ((if c then m else n) s))"
  by simp

lemma if_state_cond: "(c \<Longrightarrow> Q (snd (m s))) \<Longrightarrow> (\<not> c \<Longrightarrow> Q (snd (n s))) \<Longrightarrow> Q (snd ((if c then m else n) s))"
  by simp

lemma quiet_last: "keeps quiet m \<Longrightarrow> quiet k s \<Longrightarrow> (\<And>t. quiet k t \<Longrightarrow> Q t) \<Longrightarrow> Q (snd (m s))"
  using quiet.trans keeps_def by metis

lemma try_create_calls:
  "wk_calls (snd (try_create_payment prov q k)) = wk_calls k @ [CreateCall q]
   \<and> wk_committed (snd (try_create_payment prov q k)) = wk_committed k"
  by (auto simp: try_create_payment_def catch_def bind_def ret_def raise_def create_payment_def
      split: prod.split sum.split)

lemma one_create_try:
  assumes "quiet k k1" and "try_create_payment prov q k1 = (r, k2)" shows "one_create q k k2"
  using assms try_create_calls [of prov q k1] by (auto simp: quiet_def one_create_def)

lemma one_create_in_db: "one_create q k (snd (in_db m k2)) = one_create q k k2"
  by (simp add: one_create_def in_db_def split: prod.split)

lemma create_or_adopt_calls:
  "quiet k (snd (create_or_adopt cfg prov i event now k))
   \<or> (\<exists>r. find_intent i (wk_db k) = Some r \<and> one_create (request_of r) k (snd (create_or_adopt cfg prov i event now k)))"
  (is "?Q (snd (create_or_adopt cfg prov i event now k))")
proof -
  have base: "?Q t" if "quiet k t" for t using that by blast
  have create: "?Q (snd (bind (try_create_payment prov (request_of r)) (\<lambda>outcome. in_db (g outcome)) s))"
    if "find_intent i (wk_db k) = Some r" "quiet k s" for r s and g :: "_ \<Rightarrow> dispatch_result db"
  proof -
    obtain outcome z where c: "try_create_payment prov (request_of r) s = (outcome, z)" by fastforce
    show ?thesis using that(1) one_create_try [OF that(2) c]
      by (cases outcome) (simp_all add: bind_def c one_create_in_db)
  qed
  show ?thesis unfolding create_or_adopt_def
  proof (rule quiet_bind [OF quiet_in_db quiet.refl base], assumption,
      rule quiet_bind [OF quiet.keeps_lift _ base], assumption+,
      rule quiet_bind [OF quiet_lookup _ base], assumption+, goal_cases)
    case (1 intent t request u answer v)
    have row: "find_intent i (wk_db k) = Some intent"
      using 1(1) by (auto simp: in_db_def read_intent_def lock_payment_intent_def session_Inr_iffs
          split: prod.splits option.splits)
    have request: "request = request_of intent"
      using 1(3) by (auto simp: lift_eq_Inr_iff PaymentRequest_def request_of_def split: if_splits)
    show ?case
    proof (cases "answer = Inr None")
      case False
      then show ?thesis by (simp add: quiet_db [OF 1(6)] split: sum.split option.split)
    next
      case True
      have "?Q (snd (andthen (in_db (verify_intent_authorization_before_provider_io cfg i event now))
          (bind (try_create_payment prov request) (\<lambda>outcome.
            in_db (after_create (pv_create_retries_are_idempotent prov) i event outcome now))) v))"
        unfolding request by (rule quiet_andthen [OF quiet_in_db 1(6) base], assumption, rule create [OF row])
      with True show ?thesis by simp
    qed
  qed
qed

text \<open>
  What a dispatch to a provider without idempotent creates does to it: nothing, or one create
  call, made after the fence of an intent that had none was committed.
\<close>

definition fenced_create :: "uuid \<Rightarrow> 'p work \<Rightarrow> 'p work \<Rightarrow> bool" where
  "fenced_create i k k' \<longleftrightarrow> (\<exists>r r' cs. find_intent i (wk_db k) = Some r \<and> pi_provider_create_fenced_at r = None
     \<and> find_intent i (wk_committed k') = Some r' \<and> pi_provider_create_fenced_at r' \<noteq> None
     \<and> wk_calls k' = wk_calls k @ cs @ [CreateCall (request_of r')] \<and> list_all (\<lambda>c. \<not> is_create c) cs)"

definition no_create :: "'p work \<Rightarrow> 'p work \<Rightarrow> bool" where
  "no_create k k' \<longleftrightarrow> (\<exists>cs. wk_calls k' = wk_calls k @ cs \<and> list_all (\<lambda>c. \<not> is_create c) cs)"

lemma quiet_no_create: "quiet k k' \<Longrightarrow> no_create k k'"
  by (simp add: quiet_def no_create_def)

lemma no_create_quiet: "no_create k s \<Longrightarrow> quiet s t \<Longrightarrow> no_create k t"
  by (auto simp: quiet_def no_create_def)

lemma fence_state:
  assumes "acquire_provider_create_fence i now s = (r, t)" and "quiet k s"
  shows "no_create k t"
  using assms by (auto simp: acquire_provider_create_fence_def in_db_def commit_def session_defs Let_def quiet_def
      no_create_def split: prod.splits sum.splits)

lemma fence_committed:
  "acquire_provider_create_fence i now s = (Inr b, t) \<Longrightarrow> wk_committed t = wk_db t"
  by (auto simp: acquire_provider_create_fence_def in_db_def commit_def session_Inr_iffs Let_def)

lemma lockedD:
  "in_db (lock_payment_intent i) s = (Inr r, t) \<Longrightarrow> t = s \<and> find_intent i (wk_db s) = Some r"
  by (auto simp: in_db_def lock_payment_intent_def session_Inr_iffs split: prod.splits option.splits)

lemma fence_then_create:
  assumes s: "no_create k s" "wk_committed s = wk_db s" and row: "find_intent i (wk_db k) = Some r0"
      "pi_provider_create_fenced_at r0 = None"
    and locked: "find_intent i (wk_db s) = Some locked" "pi_provider_create_fenced_at locked \<noteq> None"
  shows "no_create k (snd (create_or_adopt cfg prov i event now s)) \<or> fenced_create i k (snd (create_or_adopt cfg prov i event now s))"
  using create_or_adopt_calls [of s cfg prov i event now] s row locked
  by (auto simp: one_create_def fenced_create_def no_create_def quiet_def)

lemma verify_io_state:
  assumes "in_db (verify_intent_authorization_before_provider_io cfg i event now) s = (Inr u, t)" shows "t = s"
proof -
  from assms obtain w where "verify_intent_authorization_before_provider_io cfg i event now (wk_db s) = (Inr u, w)"
    "t = s\<lparr>wk_db := w\<rparr>" by (auto simp: in_db_def split: prod.splits)
  moreover from this(1) have "w = wk_db s"
    unfolding verify_intent_authorization_before_provider_io_def read_intent_def lock_payment_intent_def reload_def
      session_Inr_iffs or_raise_eq_Inr_iff
    using verify_for_payment_success by (metis ret_eq_iff)
  ultimately show ?thesis by simp
qed

lemma behind_fence_calls:
  assumes row: "find_intent i (wk_db k) = Some r0" "pi_provider_create_fenced_at r0 = None" and k0: "quiet k k0"
  shows "no_create k (snd (create_behind_fence cfg prov i event moment k0))
    \<or> fenced_create i k (snd (create_behind_fence cfg prov i event moment k0))"
    (is "?Q (snd (create_behind_fence cfg prov i event moment k0))")
proof -
  obtain r s where f: "acquire_provider_create_fence i moment k0 = (r, s)" by fastforce
  note s = fence_state [OF f k0]
  show ?thesis
  proof (cases r)
    case (Inl e)
    then show ?thesis using f s by (simp add: create_behind_fence_def bind_def)
  next
    case (Inr b)
    then have c: "wk_committed s = wk_db s" using f by (simp add: fence_committed)
    have q: "?Q t" if "quiet s t" for t using no_create_quiet [OF s that] by blast
    have "?Q (snd (bind (in_db (lock_payment_intent i)) (\<lambda>locked.
         andthen (lift (validate_provider_route locked prov))
        (andthen (guardE (pi_provider_create_fenced_at locked \<noteq> None)
           (RuntimeError ''provider create fence was not durable''))
        (if \<not> b \<or> pi_state locked \<noteq> P_QUEUED then recover_fenced_create cfg prov i event moment
         else andthen (in_db (verify_intent_authorization_before_provider_io cfg i event moment))
           (create_or_adopt cfg prov i event moment)))) s))"
    proof (rule quiet_bind [OF quiet_in_db quiet.refl q], assumption,
        rule quiet_andthen [OF quiet.keeps_lift _ q], assumption+,
        rule quiet_andthen [OF quiet.keeps_guardE _ q], assumption+, goal_cases)
      case (1 locked t u v u' x)
      then have st: "x = s" "find_intent i (wk_db s) = Some locked" "pi_provider_create_fenced_at locked \<noteq> None"
        by (auto dest!: lockedD simp: lift_eq_Inr_iff guardE_eq_Inr_iff)
      show ?case
      proof (rule if_state)
        show "?Q (snd (recover_fenced_create cfg prov i event moment x))"
          by (rule quiet_last [OF quiet_recover 1(6) q])
        show "?Q (snd (andthen (in_db (verify_intent_authorization_before_provider_io cfg i event moment))
           (create_or_adopt cfg prov i event moment) x))"
          by (rule quiet_andthen [OF quiet_in_db 1(6) q], assumption)
            (use fence_then_create [OF s c row st(2,3)] verify_io_state st(1) in blast)
      qed
    qed
    then show ?thesis by (simp add: create_behind_fence_def bind_def [of "acquire_provider_create_fence i moment"] f Inr)
  qed
qed

lemma dispatch_calls:
  assumes np: "\<not> pv_create_retries_are_idempotent prov"
  shows "no_create k (snd (dispatch_create cfg caps prov i event now k))
    \<or> fenced_create i k (snd (dispatch_create cfg caps prov i event now k))"
    (is "?Q (snd (dispatch_create cfg caps prov i event now k))")
proof -
  have base: "?Q t" if "quiet k t" for t using that quiet_no_create by blast
  show ?thesis unfolding dispatch_create_def
  proof (rule quiet_andthen [OF quiet.keeps_lift quiet.refl base], assumption,
      rule quiet_bind [OF quiet_in_db _ base], assumption+,
      rule quiet_bind [OF quiet_in_db _ base], assumption+,
      rule quiet_andthen [OF quiet.keeps_lift _ base], assumption+, goal_cases)
    case (1 u k1 intent k2 moment k3 u' k4)
    have row: "find_intent i (wk_db k) = Some intent" using 1(1,3) by (auto dest!: lockedD simp: lift_eq_Inr_iff)
    note last = quiet_last [OF _ \<open>quiet k k4\<close> base]
    show ?case
    proof (rule if_state, goal_cases)
      case 1
      show ?case by (rule last) (intro quiet.keeps_intros quiet_in_db)
    next
      case 2
      show ?case
      proof (rule if_state_cond, goal_cases)
        case 1
        show ?case by (rule last) (rule quiet_recover)
      next
        case 2
        with np have nf: "pi_provider_create_fenced_at intent = None" by simp
        show ?case
        proof (rule if_state, goal_cases)
          case 1
          show ?case by (rule last) (intro quiet.keeps_intros quiet_in_db)
        next
          case 2
          show ?case
            by (simp only: np if_False, rule quiet_bind [OF quiet_in_db \<open>quiet k k4\<close> base], assumption,
              rule quiet_andthen [OF quiet.keeps_guardE _ base], assumption+,
              rule quiet_andthen [OF quiet_in_db _ base], assumption+, rule behind_fence_calls [OF row nf])
        qed
      qed
    qed
  qed
qed

end
