(* ===== verification/JsonParse.thy ===== *)
theory JsonParse
  imports Json FloatText
begin

text \<open>
  \<open>json.loads\<close> of the Python standard library, on texts whose characters and escapes stay below
  U+0100. A number with a fraction or an exponent becomes the text of the nearest double; an
  integer of more than 4300 digits is refused with a plain \<open>ValueError\<close>, as the interpreter
  does; a key that occurs twice keeps its first place and its last value. The nesting is below
  the recursion limit of the interpreter. The parser is defined by recursion on a fuel of two
  per character, which \<open>loads\<close> shows to be enough for every text.
\<close>

datatype loads_error = JSONDecodeError | IntDigitsLimit | Unrepresentable | OutOfFuel

type_synonym 'a parsed = "loads_error + 'a \<times> string"

section \<open>Scanning\<close>

definition json_space :: "char \<Rightarrow> bool" where
  "json_space c \<longleftrightarrow> c \<in> {CHR '' '', CHR 0x09, CHR 0x0A, CHR 0x0D}"

definition skip :: "string \<Rightarrow> string" where
  "skip s = dropWhile json_space s"

definition is_digit :: "char \<Rightarrow> bool" where
  "is_digit c \<longleftrightarrow> 48 \<le> (of_char c :: int) \<and> (of_char c :: int) \<le> 57"

fun digits_value :: "int \<Rightarrow> string \<Rightarrow> int" where
  "digits_value acc [] = acc"
| "digits_value acc (c # cs) = digits_value (10 * acc + (of_char c - 48)) cs"

definition hex_digit_value :: "char \<Rightarrow> int option" where
  "hex_digit_value c = (let n = of_char c :: int in
     if 48 \<le> n \<and> n \<le> 57 then Some (n - 48)
     else if 97 \<le> n \<and> n \<le> 102 then Some (n - 87)
     else if 65 \<le> n \<and> n \<le> 70 then Some (n - 55) else None)"

fun hex_value :: "int \<Rightarrow> string \<Rightarrow> int option" where
  "hex_value acc [] = Some acc"
| "hex_value acc (c # cs) = (case hex_digit_value c of None \<Rightarrow> None | Some v \<Rightarrow> hex_value (16 * acc + v) cs)"

text \<open>The characters of a string after its opening quote; the one-letter escapes.\<close>

definition escape_of :: "char \<Rightarrow> char option" where
  "escape_of c = (if c = CHR 0x22 \<or> c = CHR 0x5C \<or> c = CHR ''/'' then Some c
     else if c = CHR ''n'' then Some (CHR 0x0A) else if c = CHR ''r'' then Some (CHR 0x0D)
     else if c = CHR ''t'' then Some (CHR 0x09) else if c = CHR ''b'' then Some (CHR 0x08)
     else if c = CHR ''f'' then Some (CHR 0x0C) else None)"

function scan_string :: "string \<Rightarrow> string parsed" where
  "scan_string s = (case s of
     [] \<Rightarrow> Inl JSONDecodeError
   | c # cs \<Rightarrow>
     if c = CHR 0x22 then Inr ([], cs)
     else if c = CHR 0x5C then
       (case cs of
          [] \<Rightarrow> Inl JSONDecodeError
        | d # ds \<Rightarrow>
          if d = CHR ''u'' then
            (case (if length ds < 4 then None else hex_value 0 (take 4 ds)) of
               None \<Rightarrow> Inl JSONDecodeError
             | Some v \<Rightarrow> if 256 \<le> v then Inl Unrepresentable
                 else map_sum id (map_prod ((#) (char_of v)) id) (scan_string (drop 4 ds)))
          else (case escape_of d of
             None \<Rightarrow> Inl JSONDecodeError
           | Some e \<Rightarrow> map_sum id (map_prod ((#) e) id) (scan_string ds)))
     else if of_char c < (32 :: int) then Inl JSONDecodeError
     else map_sum id (map_prod ((#) c) id) (scan_string cs))"
  by pat_completeness auto
termination by (relation "measure length") auto

declare scan_string.simps [simp del]

section \<open>Numbers\<close>

text \<open>The double nearest to a non-negative decimal, as the text the encoder writes for it.\<close>

definition double_text :: "rat \<Rightarrow> string" where
  "double_text x = (if 2 ^ 1024 - 2 ^ 970 \<le> x then ''Infinity'' else float_repr (fl x))"

definition INT_MAX_STR_DIGITS :: nat where
  "INT_MAX_STR_DIGITS = 4300"

definition int_of_digits :: "bool \<Rightarrow> string \<Rightarrow> loads_error + json" where
  "int_of_digits neg ds = (if INT_MAX_STR_DIGITS < length ds then Inl IntDigitsLimit
     else Inr (JInt (if neg then - digits_value 0 ds else digits_value 0 ds)))"

text \<open>A fraction, and an exponent, when they are complete; otherwise the number ends before them.\<close>

definition scan_fraction :: "string \<Rightarrow> string \<times> string" where
  "scan_fraction s = (case s of
     c # cs \<Rightarrow> if c = CHR ''.'' \<and> takeWhile is_digit cs \<noteq> [] then (takeWhile is_digit cs, dropWhile is_digit cs) else ([], s)
   | [] \<Rightarrow> ([], s))"

definition scan_exponent :: "string \<Rightarrow> int option \<times> string" where
  "scan_exponent s = (case s of
     c # cs \<Rightarrow> if c = CHR ''e'' \<or> c = CHR ''E'' then
         (let neg = (cs \<noteq> [] \<and> hd cs = CHR ''-'');
              ds = (if cs \<noteq> [] \<and> (hd cs = CHR ''-'' \<or> hd cs = CHR ''+'') then tl cs else cs);
              v = digits_value 0 (takeWhile is_digit ds) in
          if takeWhile is_digit ds = [] then (None, s)
          else (Some (if neg then - v else v), dropWhile is_digit ds))
       else (None, s)
   | [] \<Rightarrow> (None, s))"

definition scan_unsigned :: "bool \<Rightarrow> string \<Rightarrow> json parsed" where
  "scan_unsigned neg s =
     (let ds = (case s of c # cs \<Rightarrow> if c = CHR ''0'' then [c] else takeWhile is_digit s | [] \<Rightarrow> []) in
      if ds = [] then Inl JSONDecodeError
      else
        let (fraction, r) = scan_fraction (drop (length ds) s);
            (exponent, r') = scan_exponent r in
        if fraction = [] \<and> exponent = None then
          bindE (int_of_digits neg ds) (\<lambda>j. Inr (j, r'))
        else
          let x = (of_int (digits_value 0 (ds @ fraction))
              * 10 powi ((case exponent of None \<Rightarrow> 0 | Some e \<Rightarrow> e) - int (length fraction)) :: rat) in
          Inr (JFloat ((if neg then ''-'' else []) @ double_text x), r'))"

definition starts :: "string \<Rightarrow> string \<Rightarrow> bool" where
  "starts p s \<longleftrightarrow> take (length p) s = p"

definition scan_number :: "string \<Rightarrow> json parsed" where
  "scan_number s =
     (if starts ''-Infinity'' s then Inr (JFloat ''-Infinity'', drop 9 s)
      else case s of
        c # cs \<Rightarrow> if c = CHR ''-'' then scan_unsigned True cs else scan_unsigned False s
      | [] \<Rightarrow> Inl JSONDecodeError)"

section \<open>Values\<close>

text \<open>A dictionary display: a repeated key keeps its place and takes the later value.\<close>

definition put_member :: "string \<Rightarrow> json \<Rightarrow> (string \<times> json) list \<Rightarrow> (string \<times> json) list" where
  "put_member k v ms = (if k \<in> fst ` set ms then map (\<lambda>(l, w). (l, if l = k then v else w)) ms else ms @ [(k, v)])"

definition dict_of :: "(string \<times> json) list \<Rightarrow> (string \<times> json) list" where
  "dict_of ms = fold (\<lambda>(k, v) acc. put_member k v acc) ms []"

fun parse_value :: "nat \<Rightarrow> string \<Rightarrow> json parsed"
  and parse_elems :: "nat \<Rightarrow> string \<Rightarrow> json list parsed"
  and parse_members :: "nat \<Rightarrow> string \<Rightarrow> (string \<times> json) list parsed"
where
  "parse_value 0 s = Inl OutOfFuel"
| "parse_value (Suc n) s = (case s of
     [] \<Rightarrow> Inl JSONDecodeError
   | c # cs \<Rightarrow>
     if c = CHR 0x22 then map_sum id (map_prod JStr id) (scan_string cs)
     else if c = CHR 0x7B then
       (case skip cs of
          [] \<Rightarrow> Inl JSONDecodeError
        | d # ds \<Rightarrow> if d = CHR 0x7D then Inr (JObj [], ds)
            else map_sum id (map_prod (\<lambda>ms. JObj (dict_of ms)) id) (parse_members n (d # ds)))
     else if c = CHR ''['' then
       (case skip cs of
          [] \<Rightarrow> Inl JSONDecodeError
        | d # ds \<Rightarrow> if d = CHR '']'' then Inr (JList [], ds)
            else map_sum id (map_prod JList id) (parse_elems n (d # ds)))
     else if starts ''null'' s then Inr (JNull, drop 4 s)
     else if starts ''true'' s then Inr (JBool True, drop 4 s)
     else if starts ''false'' s then Inr (JBool False, drop 5 s)
     else if starts ''NaN'' s then Inr (JFloat ''NaN'', drop 3 s)
     else if starts ''Infinity'' s then Inr (JFloat ''Infinity'', drop 8 s)
     else scan_number s)"
| "parse_elems 0 s = Inl OutOfFuel"
| "parse_elems (Suc n) s = bindE (parse_value n s) (\<lambda>(x, r). case skip r of
     [] \<Rightarrow> Inl JSONDecodeError
   | c # cs \<Rightarrow> if c = CHR '']'' then Inr ([x], cs)
       else if c = CHR '','' then map_sum id (map_prod ((#) x) id) (parse_elems n (skip cs))
       else Inl JSONDecodeError)"
| "parse_members 0 s = Inl OutOfFuel"
| "parse_members (Suc n) s = (case s of
     [] \<Rightarrow> Inl JSONDecodeError
   | q # qs \<Rightarrow> if q \<noteq> CHR 0x22 then Inl JSONDecodeError else
     bindE (scan_string qs) (\<lambda>(k, r). case skip r of
       [] \<Rightarrow> Inl JSONDecodeError
     | c # cs \<Rightarrow> if c \<noteq> CHR '':'' then Inl JSONDecodeError else
       bindE (parse_value n (skip cs)) (\<lambda>(v, r). case skip r of
         [] \<Rightarrow> Inl JSONDecodeError
       | d # ds \<Rightarrow> if d = CHR 0x7D then Inr ([(k, v)], ds)
           else if d = CHR '','' then map_sum id (map_prod ((#) (k, v)) id) (parse_members n (skip ds))
           else Inl JSONDecodeError)))"

definition loads :: "string \<Rightarrow> loads_error + json" where
  "loads s = bindE (parse_value (2 * length s + 1) (skip s)) (\<lambda>(v, r).
     if skip r = [] then Inr v else Inl JSONDecodeError)"


section \<open>The fuel is enough\<close>

lemma map_sum_Inr_iff [simp]: "map_sum id f x = Inr y \<longleftrightarrow> (\<exists>z. x = Inr z \<and> y = f z)"
  by (cases x) auto

lemma map_sum_Inl_iff [simp]: "map_sum id f x = Inl e \<longleftrightarrow> x = Inl e"
  by (cases x) auto

lemma length_skip: "length (skip s) \<le> length s"
  by (simp add: skip_def length_dropWhile_le)

lemma scan_string_Nil [simp]: "scan_string [] = Inl JSONDecodeError"
  by (subst scan_string.simps) simp

text \<open>One step of the scanner: the end, an escape of one character or of four digits, a character.\<close>

lemma scan_string_cases:
  obtains (fail) e where "scan_string s = Inl e" "e \<noteq> OutOfFuel"
  | (stop) cs where "s = CHR 0x22 # cs" "scan_string s = Inr ([], cs)"
  | (step) c cs where "length cs < length s" "scan_string s = map_sum id (map_prod ((#) c) id) (scan_string cs)"
proof (cases s)
  case Nil
  then show ?thesis using fail [of JSONDecodeError] by simp
next
  case (Cons c cs)
  note step' = scan_string.simps [of s]
  show ?thesis
  proof (cases "c = CHR 0x5C")
    case True
    show ?thesis
    proof (cases cs)
      case Nil
      with True Cons step' show ?thesis by (intro fail [of JSONDecodeError]) simp_all
    next
      case (Cons d ds)
      show ?thesis
      proof (cases "d = CHR ''u''")
        case u: True
        show ?thesis
        proof (cases "if length ds < 4 then None else hex_value 0 (take 4 ds)")
          case None
          with True u Cons \<open>s = c # cs\<close> step' show ?thesis by (intro fail [of JSONDecodeError]) simp_all
        next
          case (Some v)
          then show ?thesis
          proof (cases "256 \<le> v")
            case True
            with Some \<open>c = CHR 0x5C\<close> u Cons \<open>s = c # cs\<close> step' show ?thesis by (intro fail [of Unrepresentable]) simp_all
          next
            case False
            with Some \<open>c = CHR 0x5C\<close> u Cons \<open>s = c # cs\<close> step' show ?thesis
              by (intro step [of "drop 4 ds" "char_of v"]) simp_all
          qed
        qed
      next
        case False
        show ?thesis
        proof (cases "escape_of d")
          case None
          with True False Cons \<open>s = c # cs\<close> step' show ?thesis by (intro fail [of JSONDecodeError]) simp_all
        next
          case (Some e)
          with True False Cons \<open>s = c # cs\<close> step' show ?thesis by (intro step [of ds e]) simp_all
        qed
      qed
    qed
  next
    case False
    consider "c = CHR 0x22" | "c \<noteq> CHR 0x22" "of_char c < (32 :: int)" | "c \<noteq> CHR 0x22" "\<not> of_char c < (32 :: int)" by blast
    then show ?thesis
    proof cases
      case 1
      with False Cons step' show ?thesis by (intro stop [of cs]) simp_all
    next
      case 2
      with False Cons step' show ?thesis by (intro fail [of JSONDecodeError]) simp_all
    next
      case 3
      with False Cons step' show ?thesis by (intro step [of cs c]) simp_all
    qed
  qed
qed

lemma scan_string_facts:
  "scan_string s \<noteq> Inl OutOfFuel \<and> (\<forall>t r. scan_string s = Inr (t, r) \<longrightarrow> length r < length s)"
proof (induction s rule: length_induct)
  case (1 s)
  show ?case
  proof (cases s rule: scan_string_cases)
    case (step c cs)
    with 1 have "scan_string cs \<noteq> Inl OutOfFuel" "\<And>t r. scan_string cs = Inr (t, r) \<Longrightarrow> length r < length cs" by blast+
    with step show ?thesis by (cases "scan_string cs") (auto intro: less_trans)
  qed auto
qed

lemma scan_number_facts:
  "scan_number s \<noteq> Inl OutOfFuel \<and> (\<forall>t r. scan_number s = Inr (t, r) \<longrightarrow> length r < length s)"
proof -
  have fraction: "length (snd (scan_fraction s)) \<le> length s" for s
    by (auto simp: scan_fraction_def length_dropWhile_le le_SucI split: list.split)
  have exponent: "length (snd (scan_exponent s)) \<le> length s" for s
  proof (cases s)
    case (Cons c cs)
    have "length (dropWhile is_digit (tl cs)) \<le> length cs" "length (dropWhile is_digit cs) \<le> length cs"
      using length_dropWhile_le [of is_digit "tl cs"] length_dropWhile_le [of is_digit cs] by (auto simp: le_diff_conv)
    then show ?thesis using Cons by (auto simp: scan_exponent_def Let_def)
  qed (simp add: scan_exponent_def)
  have un: "scan_unsigned neg s \<noteq> Inl OutOfFuel \<and> (\<forall>t r. scan_unsigned neg s = Inr (t, r) \<longrightarrow> length r < length s)" for neg s
  proof -
    define ds where "ds = (case s of c # cs \<Rightarrow> if c = CHR ''0'' then [c] else takeWhile is_digit s | [] \<Rightarrow> [])"
    obtain f r1 where f: "scan_fraction (drop (length ds) s) = (f, r1)" by fastforce
    obtain x r2 where x: "scan_exponent r1 = (x, r2)" by fastforce
    have "length r2 \<le> length s - length ds" using fraction [of "drop (length ds) s"] exponent [of r1] f x by simp
    moreover have "ds = [] \<or> 0 < length ds \<and> 0 < length s" by (auto simp: ds_def split: list.splits)
    ultimately have "ds = [] \<or> length r2 < length s" by (auto simp: less_eq_Suc_le)
    then show ?thesis
      by (auto simp: scan_unsigned_def Let_def f x int_of_digits_def simp flip: ds_def split: if_splits)
  qed
  show ?thesis
  proof (cases "starts ''-Infinity'' s")
    case True
    then have "length s \<ge> 9" by (auto simp: starts_def min_def dest!: arg_cong [of _ _ length] split: if_splits)
    with True show ?thesis by (auto simp: scan_number_def)
  next
    case False
    with un [of True "tl s"] un [of False s] show ?thesis
      by (auto simp: scan_number_def split: list.splits if_splits)
  qed
qed

lemma starts_length: "starts p s \<Longrightarrow> length p \<le> length s"
  by (auto simp: starts_def min_def dest!: arg_cong [of _ _ length] split: if_splits)

lemma parse_facts:
  "(2 * length s < n \<longrightarrow> parse_value n s \<noteq> Inl OutOfFuel) \<and> (\<forall>t r. parse_value n s = Inr (t, r) \<longrightarrow> length r < length s)"
  "(2 * length s + 1 < n \<longrightarrow> parse_elems n s \<noteq> Inl OutOfFuel) \<and> (\<forall>t r. parse_elems n s = Inr (t, r) \<longrightarrow> length r < length s)"
  "(2 * length s < n \<longrightarrow> parse_members n s \<noteq> Inl OutOfFuel) \<and> (\<forall>t r. parse_members n s = Inr (t, r) \<longrightarrow> length r < length s)"
proof (induction n s and n s and n s rule: parse_value_parse_elems_parse_members.induct)
  case (2 n s)
  show ?case
  proof (cases s)
    case (Cons c cs)
    show ?thesis
    proof (cases "c = CHR 0x22 \<or> c = CHR 0x7B \<or> c = CHR ''[''")
      case True
      have cs: "length (skip cs) \<le> length cs" by (rule length_skip)
      consider "c = CHR 0x22" | "c \<noteq> CHR 0x22" "skip cs = []" | d ds where "c = CHR 0x7B" "skip cs = d # ds" | d ds where "c = CHR ''[''" "skip cs = d # ds"
        using True by (cases "skip cs") auto
      then show ?thesis
      proof cases
        case 1
        with Cons show ?thesis using scan_string_facts [of cs] by (auto intro: less_SucI)
      next
        case 2
        with Cons True show ?thesis by auto
      next
        case (3 d ds)
        then have len: "length ds < length cs" using cs by simp
        show ?thesis
        proof (cases "d = CHR 0x7D")
          case False
          with 3 Cons 2(1) [of c cs d ds] len show ?thesis by (cases "parse_members n (d # ds)") fastforce+
        qed (use 3 Cons len in auto)
      next
        case (4 d ds)
        then have len: "length ds < length cs" using cs by simp
        show ?thesis
        proof (cases "d = CHR '']''")
          case False
          with 4 Cons 2(2) [of c cs d ds] len show ?thesis by (cases "parse_elems n (d # ds)") fastforce+
        qed (use 4 Cons len in auto)
      qed
    next
      case False
      then show ?thesis using Cons scan_number_facts [of s] by auto
    qed
  qed simp
next
  case (4 n s)
  show ?case
  proof (cases "parse_value n s")
    case (Inl e)
    with 4(1) show ?thesis by auto
  next
    case (Inr p)
    then obtain x r where p: "parse_value n s = Inr (x, r)" by (cases p) auto
    with 4(1) have r: "length r < length s" by blast
    show ?thesis
    proof (cases "skip r")
      case (Cons c cs)
      then have cs: "length cs < length r" using length_skip [of r] by simp
      have sk: "length (skip cs) \<le> length cs" by (rule length_skip)
      show ?thesis
      proof (cases "c = CHR '',''")
        case True
        with 4(2) [OF Cons] have
          "2 * length (skip cs) + 1 < n \<longrightarrow> parse_elems n (skip cs) \<noteq> Inl OutOfFuel"
          "\<forall>t r. parse_elems n (skip cs) = Inr (t, r) \<longrightarrow> length r < length (skip cs)" by simp_all
        then show ?thesis using p Cons True r cs sk by (cases "parse_elems n (skip cs)") fastforce+
      qed (use p Cons r cs in auto)
    qed (use p in auto)
  qed
next
  case (6 n s)
  show ?case
  proof (cases "\<exists>qs. s = CHR 0x22 # qs")
    case False
    then show ?thesis by (cases s) auto
  next
    case True
    then obtain qs where s: "s = CHR 0x22 # qs" by blast
    show ?thesis
    proof (cases "scan_string qs")
      case (Inl e)
      with s scan_string_facts [of qs] show ?thesis by auto
    next
      case (Inr p)
      then obtain k r where k: "scan_string qs = Inr (k, r)" by (cases p) auto
      have r: "length r < length qs" using scan_string_facts [of qs] k by blast
      show ?thesis
      proof (cases "\<exists>cs. skip r = CHR '':'' # cs")
        case False
        with s k show ?thesis by (cases "skip r") auto
      next
        case True
        then obtain cs where cs: "skip r = CHR '':'' # cs" by blast
        have cs': "length (skip cs) < length r" using cs length_skip [of r] length_skip [of cs] by simp
        have ih1: "(2 * length (skip cs) < n \<longrightarrow> parse_value n (skip cs) \<noteq> Inl OutOfFuel) \<and>
            (\<forall>t r. parse_value n (skip cs) = Inr (t, r) \<longrightarrow> length r < length (skip cs))"
          using 6(1) [OF s _ cs] by simp
        show ?thesis
        proof (cases "parse_value n (skip cs)")
          case (Inl e)
          with s k cs ih1 cs' r show ?thesis by auto
        next
          case (Inr p)
          then obtain v r' where v: "parse_value n (skip cs) = Inr (v, r')" by (cases p) auto
          with ih1 have r': "length r' < length (skip cs)" by blast
          show ?thesis
          proof (cases "skip r'")
            case (Cons d ds)
            then have ds: "length ds < length r'" using length_skip [of r'] by simp
            have sk: "length (skip ds) \<le> length ds" by (rule length_skip)
            show ?thesis
            proof (cases "d = CHR '',''")
              case True
              with 6(2) [OF s _ cs _ Cons] have
                "2 * length (skip ds) < n \<longrightarrow> parse_members n (skip ds) \<noteq> Inl OutOfFuel"
                "\<forall>t r. parse_members n (skip ds) = Inr (t, r) \<longrightarrow> length r < length (skip ds)" by simp_all
              then show ?thesis using s k cs v Cons True r cs' r' ds sk by (cases "parse_members n (skip ds)") fastforce+
            qed (use s k cs v Cons r cs' r' ds in auto)
          qed (use s k cs v in auto)
        qed
      qed
    qed
  qed
qed simp_all

text \<open>
  The recursion of the JSON parser always ends: the fuel \<open>loads\<close> starts with, two per
  character and one, is never used up, so on every text \<open>json.loads\<close> either returns a value or
  raises, and the model never stops for want of fuel.
\<close>

lemma loads_terminates: "(\<exists>j. loads s = Inr j) \<or> (\<exists>e. loads s = Inl e \<and> e \<noteq> OutOfFuel)"
proof -
  have "parse_value (2 * length s + 1) (skip s) \<noteq> Inl OutOfFuel"
    using parse_facts(1) [of "skip s" "2 * length s + 1"] length_skip [of s] by simp
  then show ?thesis
    by (cases "parse_value (2 * length s + 1) (skip s)") (auto simp: loads_def simp del: parse_value.simps split: if_splits)
qed

end
