(* ===== verification/JsonRoundtrip.thy ===== *)
theory JsonRoundtrip
  imports JsonParse "HOL-Library.Multiset"
begin

text \<open>
  What the encoder of \<open>Json\<close> writes, the parser of \<open>JsonParse\<close> reads back: strings with every
  escape, integers up to the digit limit, nested lists and objects.
\<close>

section \<open>Reading back what was written\<close>

lemma hex_digit_value_digit: "hex_digit_value (hex_digit n) = Some (n mod 16)"
proof -
  have "\<forall>d \<in> {0..<16}. hex_digit_value (''0123456789abcdef'' ! d) = Some (int d)"
    by code_simp
  then have "hex_digit_value (''0123456789abcdef'' ! nat (n mod 16)) = Some (int (nat (n mod 16)))"
    by (rule bspec) simp
  then show ?thesis by (simp add: hex_digit_def)
qed

lemma hex_value_append:
  "hex_value acc (s @ [c]) = (case hex_value acc s of None \<Rightarrow> None
     | Some v \<Rightarrow> map_option (\<lambda>d. 16 * v + d) (hex_digit_value c))"
  by (induction acc s rule: hex_value.induct) (auto split: option.split)

lemma hex_value_fixed: "0 \<le> n \<Longrightarrow> n < 16 ^ k \<Longrightarrow> hex_value 0 (hex_fixed k n) = Some n"
proof (induction k arbitrary: n)
  case (Suc k)
  have "16 * (n div 16) + n mod 16 = n" by simp
  with Suc show ?case by (simp add: hex_value_append hex_digit_value_digit div_less_dividend)
qed simp

lemma scan_esc_char: "scan_string (esc_char a c @ t) = map_sum id (map_prod ((#) c) id) (scan_string t)"
proof (cases "esc_char a c = [CHR 0x5C, CHR ''u''] @ hex_fixed 4 (of_char c)")
  case True
  have "hex_value 0 (hex_fixed 4 (of_char c)) = Some (of_char c)"
    using of_char_ge_0 [of c] of_char_lt_256 [of c] by (intro hex_value_fixed) simp_all
  moreover have "\<not> 256 \<le> (of_char c :: int)" using of_char_lt_256 [of c] by simp
  ultimately show ?thesis unfolding True by (subst scan_string.simps) simp
next
  case False
  then show ?thesis
    by (subst scan_string.simps) (auto simp: esc_char_def escape_of_def split: if_splits)
qed

lemma scan_enc_str: "scan_string (concat (map (esc_char a) s) @ CHR 0x22 # r) = Inr (s, r)"
proof (induction s)
  case Nil
  show ?case by (simp, subst scan_string.simps) simp
next
  case (Cons c s)
  then show ?case by (simp add: scan_esc_char)
qed

lemma dec_digit_value: "of_char (dec_digit n) - 48 = n mod (10 :: int)"
proof -
  have "\<forall>d \<in> {0..<10}. of_char (''0123456789'' ! d) - (48 :: int) = int d" by code_simp
  then have "of_char (''0123456789'' ! nat (n mod 10)) - (48 :: int) = int (nat (n mod 10))"
    by (rule bspec) simp
  then show ?thesis by (simp add: dec_digit_def)
qed

lemma dec_digit_is_digit: "c \<in> dec_digits \<Longrightarrow> is_digit c"
  by (auto simp: dec_digits_def is_digit_def)

lemma digits_value_append: "digits_value acc (s @ [c]) = 10 * digits_value acc s + (of_char c - 48)"
  by (induction acc s rule: digits_value.induct) simp_all

lemma digits_value_dec_nat: "0 \<le> n \<Longrightarrow> digits_value 0 (dec_nat n) = n"
proof (induction n rule: dec_nat.induct)
  case (1 n)
  show ?case
  proof (cases "n < 10")
    case True
    then show ?thesis using 1(2) dec_digit_value [of n] by (subst dec_nat.simps) simp
  next
    case False
    then have "digits_value 0 (dec_nat (n div 10)) = n div 10" using 1 by simp
    with False show ?thesis using dec_digit_value [of n]
      by (subst dec_nat.simps) (simp add: digits_value_append)
  qed
qed

text \<open>A number has no leading zero, so that the scanner takes all its digits.\<close>

lemma dec_nat_zero: "0 \<le> n \<Longrightarrow> hd (dec_nat n) = CHR ''0'' \<Longrightarrow> dec_nat n = ''0''"
proof (induction n rule: dec_nat.induct)
  case (1 n)
  show ?case
  proof (cases "n < 10")
    case True
    then show ?thesis using 1(3) by (subst (asm) dec_nat.simps, subst dec_nat.simps) simp
  next
    case False
    then have "hd (dec_nat (n div 10)) = CHR ''0''" using 1(3) by (subst (asm) dec_nat.simps) simp
    with 1 False have "dec_nat (n div 10) = ''0''" by simp
    then have "n div 10 = 0" using digits_value_dec_nat [of "n div 10"] 1(2) by simp
    with False 1(2) show ?thesis by linarith
  qed
qed

definition json_end :: "string \<Rightarrow> bool" where
  "json_end r \<longleftrightarrow> r = [] \<or> hd r = CHR '','' \<or> hd r = CHR '']'' \<or> hd r = CHR 0x7D"

lemma scan_unsigned_dec:
  assumes "0 \<le> n" "length (dec_nat n) \<le> INT_MAX_STR_DIGITS" "json_end r"
  shows "scan_unsigned neg (dec_nat n @ r) = Inr (JInt (if neg then - n else n), r)"
proof -
  obtain c cs where c: "dec_nat n = c # cs" by (cases "dec_nat n") auto
  have all: "\<forall>d \<in> set (dec_nat n). is_digit d" using set_dec_nat [of n] dec_digit_is_digit by blast
  have stop: "takeWhile is_digit r = []" using assms(3) by (cases r) (auto simp: json_end_def is_digit_def)
  have take: "takeWhile is_digit (dec_nat n @ r) = dec_nat n" using all stop by (simp add: takeWhile_append)
  have ds: "(case dec_nat n @ r of c # cs \<Rightarrow> if c = CHR ''0'' then [c] else takeWhile is_digit (dec_nat n @ r) | [] \<Rightarrow> []) = dec_nat n"
    using dec_nat_zero [OF assms(1)] take by (simp add: c)
  have "scan_fraction r = ([], r)" "scan_exponent r = (None, r)"
    using assms(3) by (auto simp: scan_fraction_def scan_exponent_def json_end_def split: list.split)
  then show ?thesis using assms(2)
    by (simp add: scan_unsigned_def ds int_of_digits_def digits_value_dec_nat assms(1))
qed

lemma scan_number_dec:
  assumes "length (dec_nat \<bar>i\<bar>) \<le> INT_MAX_STR_DIGITS" "json_end r"
  shows "scan_number (dec_int i @ r) = Inr (JInt i, r)"
proof -
  have digit: "hd (dec_nat n) \<in> dec_digits" for n by (rule hd_dec_nat)
  obtain c cs where c: "dec_nat \<bar>i\<bar> = c # cs" by (cases "dec_nat \<bar>i\<bar>") auto
  with digit [of "\<bar>i\<bar>"] have "c \<noteq> CHR ''-'' \<and> c \<noteq> CHR ''I''" by (auto simp: dec_digits_def)
  with c have "\<not> starts ''-Infinity'' (dec_int i @ r)" by (auto simp: starts_def dec_int_def)
  then show ?thesis using scan_unsigned_dec [of "\<bar>i\<bar>" r "i < 0", OF _ assms] c \<open>c \<noteq> CHR ''-'' \<and> c \<noteq> CHR ''I''\<close>
    by (auto simp: scan_number_def dec_int_def)
qed

text \<open>
  Values without floats, with integers below the digit limit and with distinct keys: what the
  program itself puts on the wire.
\<close>

fun plain :: "json \<Rightarrow> bool" where
  "plain (JFloat s) \<longleftrightarrow> False"
| "plain (JInt i) \<longleftrightarrow> length (dec_nat \<bar>i\<bar>) \<le> INT_MAX_STR_DIGITS"
| "plain (JList xs) \<longleftrightarrow> (\<forall>x \<in> set xs. plain x)"
| "plain (JObj ms) \<longleftrightarrow> distinct (map fst ms) \<and> (\<forall>m \<in> set ms. plain (snd m))"
| "plain j \<longleftrightarrow> True"

lemma dict_of_distinct: "distinct (map fst ms) \<Longrightarrow> dict_of ms = ms"
proof -
  have "distinct (map fst (acc @ ms)) \<Longrightarrow> fold (\<lambda>(k, v) acc. put_member k v acc) ms acc = acc @ ms" for acc
  proof (induction ms arbitrary: acc)
    case (Cons m ms)
    obtain k v where m: "m = (k, v)" by (cases m)
    with Cons.prems have "put_member k v acc = acc @ [m]" by (auto simp: put_member_def)
    with m Cons show ?case by simp
  qed simp
  from this [of "[]"] show "distinct (map fst ms) \<Longrightarrow> ?thesis" by (simp add: dict_of_def)
qed

definition opener :: "char \<Rightarrow> bool" where
  "opener c \<longleftrightarrow> \<not> json_space c \<and> c \<noteq> CHR '']'' \<and> c \<noteq> CHR 0x7D \<and> c \<noteq> CHR '',''"

lemma skip_opener [simp]: "opener c \<Longrightarrow> skip (c # s) = c # s"
  by (simp add: skip_def opener_def)

lemma skip_mark [simp]: "\<not> json_space c \<Longrightarrow> skip (c # s) = c # s"
  by (simp add: skip_def)

lemma json_marks [simp]: "\<not> json_space (CHR '']'')" "\<not> json_space (CHR 0x7D)" "\<not> json_space (CHR '','')"
  "\<not> json_space (CHR '':'')" "\<not> json_space (CHR 0x22)" "opener (CHR 0x22)"
  by (simp_all add: json_space_def opener_def)

lemma int_start: obtains c cs where "dec_int i = c # cs" "opener c" "c \<notin> set ''ntfNI[{'' \<union> {CHR 0x22}"
proof -
  obtain c cs where c: "dec_int i = c # cs" by (cases "dec_int i") auto
  with set_dec_int [of i] have "c \<in> insert (CHR ''-'') dec_digits" by auto
  then show ?thesis by (intro that [OF c]) (auto simp: dec_digits_def opener_def json_space_def)
qed

lemma enc_start: "plain j \<Longrightarrow> \<exists>c cs. enc a j = c # cs \<and> opener c"
proof (cases j)
  case (JInt i)
  then show ?thesis using int_start [of i] by (metis enc.simps(3))
qed (auto simp: enc_str_def opener_def json_space_def)

lemma parse_int:
  assumes "length (dec_nat \<bar>i\<bar>) \<le> INT_MAX_STR_DIGITS" "json_end r"
  shows "parse_value (Suc n) (dec_int i @ r) = Inr (JInt i, r)"
proof -
  obtain c cs where c: "dec_int i = c # cs" "c \<notin> set ''ntfNI[{'' \<union> {CHR 0x22}" using int_start [of i] by metis
  with scan_number_dec [OF assms] show ?thesis by (auto simp: starts_def)
qed

lemma enc_elems_rest: "enc_elems a False (x # xs) = CHR '','' # enc_elems a True (x # xs)"
  by simp

lemma enc_members_rest: "enc_members a False (m # ms) = CHR '','' # enc_members a True (m # ms)"
  by (cases m) simp

lemma parse_enc_elems:
  assumes "\<And>x n r. x \<in> set xs \<Longrightarrow> json_end r \<Longrightarrow> 2 * length (enc a x @ r) < n \<Longrightarrow> parse_value n (enc a x @ r) = Inr (x, r)"
    and "\<And>x. x \<in> set xs \<Longrightarrow> plain x" and "xs \<noteq> []" and "2 * length (enc_elems a True xs @ r) + 1 < n"
  shows "parse_elems n (enc_elems a True xs @ r) = Inr (xs, r)"
  using assms
proof (induction xs arbitrary: n)
  case (Cons x xs)
  obtain k where n: "n = Suc k" using Cons.prems(4) by (cases n) auto
  have "json_end (enc_elems a False xs @ r)" by (cases xs) (simp_all add: json_end_def)
  then have x: "parse_value k (enc a x @ enc_elems a False xs @ r) = Inr (x, enc_elems a False xs @ r)"
    using Cons.prems(4) n by (intro Cons.prems(1)) auto
  show ?case
  proof (cases xs)
    case Nil
    with x n show ?thesis by simp
  next
    case (Cons y ys)
    obtain c cs where c: "enc a y = c # cs" "opener c" using enc_start Cons Cons.prems(2) by fastforce
    have "parse_elems k (enc_elems a True xs @ r) = Inr (xs, r)"
      using Cons.prems Cons n by (intro Cons.IH) auto
    with x n Cons c show ?thesis by simp
  qed
qed simp

lemma parse_enc_members:
  assumes "\<And>m n r. m \<in> set ms \<Longrightarrow> json_end r \<Longrightarrow> 2 * length (enc a (snd m) @ r) < n
      \<Longrightarrow> parse_value n (enc a (snd m) @ r) = Inr (snd m, r)"
    and "\<And>m. m \<in> set ms \<Longrightarrow> plain (snd m)" and "ms \<noteq> []" and "2 * length (enc_members a True ms @ r) < n"
  shows "parse_members n (enc_members a True ms @ r) = Inr (ms, r)"
  using assms
proof (induction ms arbitrary: n)
  case (Cons m ms)
  obtain key v where m: "m = (key, v)" by (cases m)
  obtain k where n: "n = Suc k" using Cons.prems(4) by (cases n) auto
  obtain c cs where c: "enc a v = c # cs" "opener c" using enc_start Cons.prems(2) [of m] m by fastforce
  have "json_end (enc_members a False ms @ r)" by (cases ms) (auto simp: json_end_def)
  then have v: "parse_value k (enc a v @ enc_members a False ms @ r) = Inr (v, enc_members a False ms @ r)"
    using Cons.prems(1) [of m "enc_members a False ms @ r" k] Cons.prems(4) n m by simp
  have key: "scan_string (concat (map (esc_char a) key) @ CHR 0x22 # t) = Inr (key, t)" for t by (rule scan_enc_str)
  show ?case
  proof (cases ms)
    case Nil
    with v n m key c show ?thesis by (simp add: enc_str_def)
  next
    case (Cons p ps)
    obtain l w where p: "p = (l, w)" by (cases p)
    have "parse_members k (enc_members a True ms @ r) = Inr (ms, r)"
      using Cons.prems Cons n m p by (intro Cons.IH) auto
    with v n m key c Cons p show ?thesis by (simp add: enc_str_def)
  qed
qed simp

lemma parse_enc:
  "plain j \<Longrightarrow> json_end r \<Longrightarrow> 2 * length (enc a j @ r) < n \<Longrightarrow> parse_value n (enc a j @ r) = Inr (j, r)"
proof (induction j arbitrary: n r)
  case (JInt i)
  then show ?case by (cases n) (use parse_int [of i r] in auto)
next
  case (JStr s)
  then show ?case by (cases n) (auto simp: enc_str_def scan_enc_str)
next
  case (JList xs)
  then obtain k where n: "n = Suc k" by (cases n) auto
  show ?case
  proof (cases xs)
    case Nil
    with n show ?thesis by simp
  next
    case (Cons x ys)
    have "parse_elems k (enc_elems a True xs @ r) = Inr (xs, r)"
      using JList Cons n by (intro parse_enc_elems) auto
    moreover obtain c cs where "enc a x = c # cs" "opener c" using enc_start [of x a] JList.prems(1) Cons by auto
    ultimately show ?thesis using n Cons by (auto simp: opener_def)
  qed
next
  case (JObj ms)
  then obtain k where n: "n = Suc k" by (cases n) auto
  show ?case
  proof (cases ms)
    case Nil
    with n show ?thesis by simp
  next
    case (Cons m ps)
    obtain key v where m: "m = (key, v)" by (cases m)
    have "parse_members k (enc_members a True ms @ r) = Inr (ms, r)"
    proof (rule parse_enc_members)
      show "parse_value n (enc a (snd p) @ r) = Inr (snd p, r)"
        if "p \<in> set ms" "json_end r" "2 * length (enc a (snd p) @ r) < n" for p n r
        using JObj.IH [of p "snd p"] JObj.prems(1) that by (auto simp: snds.intros)
    qed (use JObj.prems Cons n in auto)
    moreover have "dict_of ms = ms" using JObj.prems(1) by (simp add: dict_of_distinct)
    ultimately show ?thesis using n Cons m by (auto simp: enc_str_def)
  qed
next
  case JNull
  then obtain k where "n = Suc k" by (cases n) auto
  then show ?case by (simp add: starts_def)
next
  case (JBool b)
  then obtain k where "n = Suc k" by (cases n) auto
  then show ?case by (cases b) (simp_all add: starts_def)
qed simp

text \<open>\<open>json.loads(json.dumps(v, sort_keys=True, separators=(",", ":")))\<close> is \<open>v\<close>, its keys sorted.\<close>

lemma plain_normalise: "plain j \<Longrightarrow> plain (normalise j)"
proof (induction j rule: normalise.induct)
  case (2 ms)
  let ?ns = "map (\<lambda>(k, v). (k, normalise v)) ms"
  have "mset (map fst (sort_key fst ?ns)) = mset (map fst ?ns)" by (simp only: mset_map mset_sort)
  then have "distinct (map fst (sort_key fst ?ns)) = distinct (map fst ?ns)" by (rule mset_eq_imp_distinct_iff)
  moreover have names: "map fst ?ns = map fst ms" by (simp add: case_prod_beta)
  ultimately have "distinct (map fst (sort_key fst ?ns))" unfolding names using 2(2) by simp
  with 2 show ?case by auto
qed auto

lemma loads_dumps: "plain j \<Longrightarrow> loads (dumps a j) = Inr (normalise j)"
proof -
  assume "plain j"
  then have p: "plain (normalise j)" by (rule plain_normalise)
  obtain c cs where c: "enc a (normalise j) = c # cs" "opener c" using enc_start [OF p] by blast
  have "parse_value (2 * length (enc a (normalise j)) + 1) (enc a (normalise j)) = Inr (normalise j, [])"
    using parse_enc [OF p, of "[]" a "2 * length (enc a (normalise j)) + 1"] by (simp add: json_end_def)
  with c show ?thesis by (simp add: loads_def dumps_def skip_def opener_def del: parse_value.simps)
qed

end
