(* ===== verification/ProviderWire.thy ===== *)
theory ProviderWire
  imports Executor Replay JsonRoundtrip
begin

text \<open>
  What the provider adapters of \<^verbatim>\<open>services/payment_executor/providers/\<close> share: HMAC-SHA256 and
  the decoding of a request body from the standard library, the equality of parsed JSON values,
  and the field constraints of \<open>ProviderPayment\<close> and \<open>VerifiedWebhookEvent\<close>
  (\<^verbatim>\<open>packages/schemas/payment.py\<close>). A body is a list of bytes; a decoded text is modelled when
  every character of it is below U+0100.
\<close>

unbundle bit_operations_syntax

section \<open>HMAC-SHA256\<close>

definition sha256_digest :: "string \<Rightarrow> string" where
  "sha256_digest m = concat (map (\<lambda>w. bytes_be 4 (uint w))
     (sha_state_words (sha_blocks sha_init (sha_words (sha_pad m)))))"

definition xor_byte :: "int \<Rightarrow> char \<Rightarrow> char" where
  "xor_byte k c = char_of ((of_char c :: int) XOR k)"

text \<open>The key as one block: hashed when it is longer than a block, filled with zero bytes.\<close>

definition hmac_block :: "string \<Rightarrow> string" where
  "hmac_block key = (let k = (if 64 < length key then sha256_digest key else key) in
     k @ replicate (64 - length k) (char_of (0 :: int)))"

definition hmac_inner :: "string \<Rightarrow> string \<Rightarrow> string" where
  "hmac_inner key m = map (xor_byte 54) (hmac_block key) @ m"

definition hmac_outer :: "string \<Rightarrow> string \<Rightarrow> string" where
  "hmac_outer key m = map (xor_byte 92) (hmac_block key) @ sha256_digest (hmac_inner key m)"

definition hmac_sha256_hex :: "string \<Rightarrow> string \<Rightarrow> string" where
  "hmac_sha256_hex key m = sha256_hex (hmac_outer key m)"

lemma concat_map_eqD:
  assumes "concat (map f xs) = concat (map f ys)" "length xs = length ys" "\<And>x. length (f x) = k"
  shows "map f xs = map f ys"
  using assms(2,1,3) by (induction xs ys rule: list_induct2) (auto simp: append_eq_append_conv)

lemma length_bytes_be [simp]: "length (bytes_be k n) = k"
  by (induction k arbitrary: n) auto

lemma bytes_be_inj: "bytes_be k m = bytes_be k n \<Longrightarrow> m mod 256 ^ k = n mod 256 ^ k"
proof (induction k arbitrary: m n)
  case (Suc k)
  have two: "x mod (256 * 256 ^ k) = 256 * (x div 256 mod 256 ^ k) + x mod 256" for x :: int
    by (simp add: zmod_zmult2_eq)
  from Suc.prems have "bytes_be k (m div 256) = bytes_be k (n div 256)"
    and "(char_of (m mod 256) :: char) = char_of (n mod 256)" by simp_all
  with Suc.IH [of "m div 256" "n div 256"] have "m div 256 mod 256 ^ k = n div 256 mod 256 ^ k"
    and "m mod 256 = n mod 256" by (simp_all add: char_of_eq_iff [symmetric] of_char_of)
  then show ?case by (simp add: two)
qed simp

text \<open>The digest and its hexadecimal text determine each other.\<close>

lemma sha256_digest_eqD: "sha256_digest m = sha256_digest m' \<Longrightarrow> sha256_hex m = sha256_hex m'"
proof -
  assume eq: "sha256_digest m = sha256_digest m'"
  let ?w = "\<lambda>m. sha_state_words (sha_blocks sha_init (sha_words (sha_pad m)))"
  have "map (\<lambda>w. bytes_be 4 (uint w)) (?w m) = map (\<lambda>w. bytes_be 4 (uint w)) (?w m')"
    by (rule concat_map_eqD [where k = 4]) (use eq in \<open>simp_all add: sha256_digest_def sha_state_words_def\<close>)
  moreover have "inj (\<lambda>w :: u32. bytes_be 4 (uint w))"
  proof (rule injI)
    fix v w :: u32
    assume "bytes_be 4 (uint v) = bytes_be 4 (uint w)"
    from bytes_be_inj [OF this] have "uint v mod 2 ^ 32 = uint w mod 2 ^ 32" by simp
    then show "v = w" using uint_bounded [of v] uint_bounded [of w]
      by (simp add: word_uint_eq_iff)
  qed
  ultimately have "?w m = ?w m'" by (simp add: inj_map_eq_map)
  then show ?thesis by (simp add: sha256_hex_def)
qed

text \<open>
  Two bodies with the same MAC under one key are the same body, or two named messages collide
  under SHA-256.
\<close>

lemma hmac_determines:
  assumes "hmac_sha256_hex key m = hmac_sha256_hex key m'"
  shows "m = m' \<or> sha_collision (hmac_outer key m) (hmac_outer key m')
    \<or> sha_collision (hmac_inner key m) (hmac_inner key m')"
proof (rule ccontr)
  assume a: "\<not> ?thesis"
  with assms have "hmac_outer key m = hmac_outer key m'" by (auto simp: sha_collision_def hmac_sha256_hex_def)
  then have "sha256_digest (hmac_inner key m) = sha256_digest (hmac_inner key m')" by (simp add: hmac_outer_def)
  from sha256_digest_eqD [OF this] a have "hmac_inner key m = hmac_inner key m'" by (auto simp: sha_collision_def)
  with a show False by (simp add: hmac_inner_def)
qed

lemma hmac_ascii: "is_ascii (hmac_sha256_hex key m)"
  using set_sha256_hex [of "hmac_outer key m"]
  by (auto simp: hmac_sha256_hex_def is_ascii_def hex_digits_def)

section \<open>Request bodies\<close>

text \<open>\<open>bytes.decode("utf-8")\<close>: the code points, or no value where it raises \<open>UnicodeDecodeError\<close>.\<close>

definition continues :: "int \<Rightarrow> int \<Rightarrow> char \<Rightarrow> bool" where
  "continues lo hi c \<longleftrightarrow> lo \<le> of_char c \<and> of_char c \<le> hi"

fun utf8_points :: "string \<Rightarrow> int list option" where
  "utf8_points [] = Some []"
| "utf8_points (a # r) = (let n = of_char a :: int in
     if n < 128 then map_option ((#) n) (utf8_points r)
     else if 194 \<le> n \<and> n \<le> 223 then (case r of
         b # r \<Rightarrow> if continues 128 191 b
           then map_option ((#) ((n - 192) * 64 + (of_char b - 128))) (utf8_points r) else None
       | [] \<Rightarrow> None)
     else if 224 \<le> n \<and> n \<le> 239 then (case r of
         b # c # r \<Rightarrow> if continues (if n = 224 then 160 else 128) (if n = 237 then 159 else 191) b \<and> continues 128 191 c
           then map_option ((#) ((n - 224) * 4096 + (of_char b - 128) * 64 + (of_char c - 128))) (utf8_points r) else None
       | _ \<Rightarrow> None)
     else if 240 \<le> n \<and> n \<le> 244 then (case r of
         b # c # d # r \<Rightarrow> if continues (if n = 240 then 144 else 128) (if n = 244 then 143 else 191) b
             \<and> continues 128 191 c \<and> continues 128 191 d
           then map_option ((#) ((n - 240) * 262144 + (of_char b - 128) * 4096 + (of_char c - 128) * 64
             + (of_char d - 128))) (utf8_points r) else None
       | _ \<Rightarrow> None)
     else None)"

text \<open>
  \<open>json.loads(body.decode("utf-8"))\<close>: \<open>NotJson\<close> is either of the two exceptions the adapters
  catch, \<open>IntegerTooLong\<close> the plain \<open>ValueError\<close> of an integer beyond the digit limit, and
  \<open>BeyondModel\<close> marks a text with a character that a \<^typ>\<open>string\<close> does not have.
\<close>

datatype body_error = NotJson | IntegerTooLong | BeyondModel

definition parse_body :: "string \<Rightarrow> body_error + json" where
  "parse_body body = (case utf8_points body of
     None \<Rightarrow> Inl NotJson
   | Some points \<Rightarrow>
     if \<exists>n \<in> set points. 256 \<le> n then Inl BeyondModel
     else case loads (map char_of points) of
       Inr j \<Rightarrow> Inr j
     | Inl JSONDecodeError \<Rightarrow> Inl NotJson
     | Inl IntDigitsLimit \<Rightarrow> Inl IntegerTooLong
     | Inl Unrepresentable \<Rightarrow> Inl BeyondModel
     | Inl OutOfFuel \<Rightarrow> Inl BeyondModel)"

section \<open>Equality of parsed values\<close>

text \<open>Numbers compare by value across \<open>bool\<close>, \<open>int\<close> and \<open>float\<close>; a NaN equals nothing.\<close>

datatype py_number = Finite rat | PosInf | NegInf | NotANumber

definition float_value :: "string \<Rightarrow> py_number" where
  "float_value text = (if text = ''NaN'' then NotANumber else if text = ''Infinity'' then PosInf
     else if text = ''-Infinity'' then NegInf
     else let neg = starts ''-'' text;
              body = (if neg then tl text else text);
              ds = takeWhile is_digit body;
              (fraction, r) = scan_fraction (drop (length ds) body);
              x = fl (of_int (digits_value 0 (ds @ fraction))
                * 10 powi ((case fst (scan_exponent r) of None \<Rightarrow> 0 | Some e \<Rightarrow> e) - int (length fraction)))
          in Finite (if neg then - x else x))"

definition number_of :: "json \<Rightarrow> py_number option" where
  "number_of j = (case j of JInt i \<Rightarrow> Some (Finite (of_int i)) | JBool b \<Rightarrow> Some (Finite (if b then 1 else 0))
     | JFloat text \<Rightarrow> Some (float_value text) | _ \<Rightarrow> None)"

function (sequential) json_eq :: "json \<Rightarrow> json \<Rightarrow> bool" where
  "json_eq (JList xs) (JList ys) \<longleftrightarrow> length xs = length ys \<and> list_all (\<lambda>(x, y). json_eq x y) (zip xs ys)"
| "json_eq (JObj ms) (JObj ns) \<longleftrightarrow> length ms = length ns
     \<and> list_all (\<lambda>(k, v). case map_of ns k of None \<Rightarrow> False | Some w \<Rightarrow> json_eq v w) ms"
| "json_eq x y \<longleftrightarrow> (case (number_of x, number_of y) of
     (Some a, Some b) \<Rightarrow> a = b \<and> a \<noteq> NotANumber
   | (None, None) \<Rightarrow> x = y
   | _ \<Rightarrow> False)"
  by pat_completeness auto
termination
proof (relation "measure (\<lambda>(x, y). size x)")
  fix xs ys x y and p :: "json \<times> json"
  assume "p \<in> set (zip xs ys)" "(x, y) = p"
  then have "x \<in> set xs" by (auto dest: set_zip_leftD)
  then show "((x, y), (JList xs, JList ys)) \<in> measure (\<lambda>(x, y). size x)"
    by (simp add: less_Suc_eq_le size_list_estimation')
next
  fix ms ns k v w and p :: "string \<times> json"
  assume "p \<in> set ms" "(k, v) = p"
  then show "((v, w), (JObj ms, JObj ns)) \<in> measure (\<lambda>(x, y). size x)"
    by (auto simp: less_Suc_eq_le intro: size_list_estimation' [of p])
qed simp

section \<open>Field constraints\<close>

definition opt_nonneg :: "int option \<Rightarrow> bool" where
  "opt_nonneg n \<longleftrightarrow> (case n of None \<Rightarrow> True | Some i \<Rightarrow> 0 \<le> i)"

definition ProviderPayment :: "provider_payment \<Rightarrow> exn + provider_payment" where
  "ProviderPayment p =
     (if sized 1 40 (pp_provider p) \<and> sized 1 200 (pp_provider_payment_id p) \<and> 0 \<le> pp_amount_inr p
         \<and> sized 3 3 (pp_currency p) \<and> opt_sized 1 200 (pp_provider_order_id p)
         \<and> opt_sized 1 200 (pp_provider_transaction_id p) \<and> opt_sized 1 200 (pp_provider_receipt p)
         \<and> opt_sized 1 40 (pp_provider_status p) \<and> opt_nonneg (pp_provider_attempts p)
      then Inr p else Inl (ValidationError ''ProviderPayment''))"

definition VerifiedWebhookEvent :: "verified_webhook_event \<Rightarrow> exn + verified_webhook_event" where
  "VerifiedWebhookEvent e =
     (if sized 1 40 (we_provider e) \<and> sized 1 200 (we_provider_event_id e)
         \<and> sized 1 200 (we_provider_payment_id e) \<and> opt_sized 1 200 (we_provider_order_id e)
         \<and> opt_sized 1 200 (we_provider_transaction_id e) \<and> opt_nonneg (we_amount_inr e)
         \<and> opt_sized 3 3 (we_currency e) \<and> opt_sized 1 40 (we_provider_status e) \<and> opt_nonneg (we_provider_attempts e)
      then Inr e else Inl (ValidationError ''VerifiedWebhookEvent''))"

lemma ProviderPayment_Inr: "ProviderPayment p = Inr q \<Longrightarrow> q = p"
  by (simp add: ProviderPayment_def split: if_splits)

lemma VerifiedWebhookEvent_Inr: "VerifiedWebhookEvent e = Inr f \<Longrightarrow> f = e"
  by (simp add: VerifiedWebhookEvent_def split: if_splits)

section \<open>Texts\<close>

definition lower_char :: "char \<Rightarrow> char" where
  "lower_char c = (let n = of_char c :: int in
     if 65 \<le> n \<and> n \<le> 90 \<or> 192 \<le> n \<and> n \<le> 222 \<and> n \<noteq> 215 then char_of (n + 32) else c)"

fun contains :: "string \<Rightarrow> string \<Rightarrow> bool" where
  "contains p [] \<longleftrightarrow> p = []"
| "contains p (c # cs) \<longleftrightarrow> starts p (c # cs) \<or> contains p cs"

end
