(* ===== verification/FakeProvider.thy ===== *)
theory FakeProvider
  imports ProviderWire
begin

text \<open>
  The deterministic provider of \<^verbatim>\<open>services/payment_executor/providers/fake.py\<close>: its scripted
  faults, its idempotency store, its webhooks. A dictionary is the map of its entries; the
  conversion of a JSON value to \<open>int\<close> by the schema library is a parameter.
\<close>

section \<open>State\<close>

text \<open>\<open>FaultMode\<close>.\<close>

datatype fault_mode = F_SUCCESS | F_TIMEOUT_BEFORE_CREATE | F_TIMEOUT_AFTER_CREATE | F_TRANSIENT_FAILURE
  | F_TERMINAL_FAILURE | F_DUPLICATE_RESPONSE | F_PENDING

record fake_provider =
  fk_webhook_secret :: string
  fk_default_fault :: fault_mode
  fk_fault_script :: "fault_mode list"
  fk_created_payments :: "string \<rightharpoonup> provider_payment"
  fk_by_provider_id :: "string \<rightharpoonup> string"
  fk_create_calls :: "string list"
  fk_get_calls :: "(string option \<times> string option) list"

definition FAKE_NAME :: string where
  "FAKE_NAME = ''fake''"

definition FakePaymentProvider :: "string \<Rightarrow> fault_mode \<Rightarrow> fake_provider" where
  "FakePaymentProvider webhook_secret default_fault =
     \<lparr>fk_webhook_secret = webhook_secret, fk_default_fault = default_fault, fk_fault_script = [],
      fk_created_payments = Map.empty, fk_by_provider_id = Map.empty, fk_create_calls = [], fk_get_calls = []\<rparr>"

section \<open>Test control\<close>

definition queue_faults :: "fault_mode list \<Rightarrow> fake_provider \<Rightarrow> fake_provider" where
  "queue_faults modes p = p\<lparr>fk_fault_script := fk_fault_script p @ modes\<rparr>"

definition next_fault :: "fake_provider \<Rightarrow> fault_mode \<times> fake_provider" where
  "next_fault p = (case fk_fault_script p of
     f # fs \<Rightarrow> (f, p\<lparr>fk_fault_script := fs\<rparr>)
   | [] \<Rightarrow> (fk_default_fault p, p))"

definition payment_count_for :: "string \<Rightarrow> fake_provider \<Rightarrow> nat" where
  "payment_count_for key p = (if fk_created_payments p key \<noteq> None then 1 else 0)"

text \<open>\<open>settle\<close>: \<open>KeyError\<close> (no value) when the key holds no payment.\<close>

definition settle :: "string \<Rightarrow> provider_status \<Rightarrow> fake_provider \<Rightarrow> (provider_payment \<times> fake_provider) option" where
  "settle key status p = (case fk_created_payments p key of
     None \<Rightarrow> None
   | Some existing \<Rightarrow>
       let updated = existing\<lparr>pp_status := status\<rparr> in
       Some (updated, p\<lparr>fk_created_payments := (fk_created_payments p)(key \<mapsto> updated)\<rparr>))"

section \<open>Create and lookup\<close>

definition fake_payment_id :: "string \<Rightarrow> string" where
  "fake_payment_id key = ''fake_pay_'' @ take 16 (sha256_hex (utf8 key))"

definition fake_record :: "payment_request \<Rightarrow> provider_status \<Rightarrow> fake_provider
    \<Rightarrow> (exn + provider_payment) \<times> fake_provider" where
  "fake_record request status p =
     (let key = rq_idempotency_key request in
      case fk_created_payments p key of
        Some held \<Rightarrow> (Inr (held\<lparr>pp_idempotent_replay := True\<rparr>), p)
      | None \<Rightarrow>
        case ProviderPayment \<lparr>pp_provider = FAKE_NAME, pp_provider_payment_id = fake_payment_id key,
            pp_status = status, pp_amount_inr = rq_amount_inr request, pp_currency = rq_currency request,
            pp_idempotency_key = Some key, pp_provider_order_id = None, pp_provider_transaction_id = None,
            pp_provider_receipt = None, pp_provider_status = None, pp_provider_attempts = None,
            pp_idempotent_replay = False\<rparr> of
          Inl e \<Rightarrow> (Inl e, p)
        | Inr payment \<Rightarrow>
          (Inr payment, p\<lparr>fk_created_payments := (fk_created_payments p)(key \<mapsto> payment),
             fk_by_provider_id := (fk_by_provider_id p)(pp_provider_payment_id payment \<mapsto> key)\<rparr>))"

definition fake_create_payment :: "payment_request \<Rightarrow> fake_provider \<Rightarrow> (exn + provider_payment) \<times> fake_provider" where
  "fake_create_payment request p =
     (case next_fault (p\<lparr>fk_create_calls := fk_create_calls p @ [rq_idempotency_key request]\<rparr>) of (fault, p) \<Rightarrow>
      if fault = F_TIMEOUT_BEFORE_CREATE
        then (Inl (ProviderTimeout ''connection timed out before the payment was created''), p)
      else if fault = F_TRANSIENT_FAILURE
        then (Inl (ProviderTransientError ''provider temporarily unavailable''), p)
      else if fault = F_TERMINAL_FAILURE then (Inl (ProviderTerminalError ''payment declined''), p)
      else if fault = F_TIMEOUT_AFTER_CREATE then
        (case fake_record request PP_SUCCEEDED p of
           (Inl e, p) \<Rightarrow> (Inl e, p)
         | (Inr payment, p) \<Rightarrow> (Inl (ProviderTimeout ''connection timed out after the payment was created''), p))
      else if fault = F_PENDING then fake_record request PP_PENDING p
      else if fault = F_DUPLICATE_RESPONSE then
        (case fake_record request PP_SUCCEEDED p of
           (Inl e, p) \<Rightarrow> (Inl e, p)
         | (Inr payment, p) \<Rightarrow> (Inr (payment\<lparr>pp_idempotent_replay := True\<rparr>), p))
      else fake_record request PP_SUCCEEDED p)"

definition fake_get_payment :: "string option \<Rightarrow> string option \<Rightarrow> fake_provider
    \<Rightarrow> (exn + provider_payment option) \<times> fake_provider" where
  "fake_get_payment provider_payment_id idempotency_key p =
     (Inr (case provider_payment_id of
        Some i \<Rightarrow> (case fk_by_provider_id p i of None \<Rightarrow> None | Some key \<Rightarrow> fk_created_payments p key)
      | None \<Rightarrow> (case idempotency_key of Some key \<Rightarrow> fk_created_payments p key | None \<Rightarrow> None)),
      p\<lparr>fk_get_calls := fk_get_calls p @ [(provider_payment_id, idempotency_key)]\<rparr>)"

section \<open>Webhooks\<close>

definition fake_sign :: "string \<Rightarrow> string \<Rightarrow> string" where
  "fake_sign secret body = hmac_sha256_hex (utf8 secret) body"

abbreviation signature_invalid :: exn where
  "signature_invalid \<equiv> WebhookVerificationError ''WEBHOOK_SIGNATURE_INVALID''"

text \<open>The event of a parsed body; every \<open>KeyError\<close> and \<open>ValueError\<close> is one refusal.\<close>

definition fake_event :: "(json \<Rightarrow> int option) \<Rightarrow> string option \<Rightarrow> (string \<times> json) list
    \<Rightarrow> exn + verified_webhook_event" where
  "fake_event int_of provider_event_id parsed =
     (let event_id = (case provider_event_id of Some (c # cs) \<Rightarrow> Some (c # cs)
        | _ \<Rightarrow> map_option json_str (jget ''event_id'' parsed));
          event_type = (case jget ''event_type'' parsed of Some (JStr t) \<Rightarrow> webhook_of_text t | _ \<Rightarrow> None);
          payment_id = map_option json_str (jget ''provider_payment_id'' parsed);
          sequence = (case jget ''sequence'' parsed of None \<Rightarrow> Some None | Some JNull \<Rightarrow> Some None
            | Some j \<Rightarrow> map_option Some (int_of j)) in
      case (event_id, event_type, payment_id, sequence) of
        (Some eid, Some t, Some pid, Some seq) \<Rightarrow>
          (case VerifiedWebhookEvent \<lparr>we_provider = FAKE_NAME, we_provider_event_id = eid, we_event_type = t,
              we_provider_payment_id = pid, we_provider_order_id = None, we_provider_transaction_id = None,
              we_amount_inr = None, we_currency = None, we_provider_status = None, we_provider_attempts = None,
              we_sequence = seq, we_occurred_at = None\<rparr> of
             Inr e \<Rightarrow> Inr e | Inl _ \<Rightarrow> Inl signature_invalid)
      | _ \<Rightarrow> Inl signature_invalid)"

definition fake_verify_webhook :: "(json \<Rightarrow> int option) \<Rightarrow> string \<Rightarrow> string \<Rightarrow> string \<Rightarrow> string option
    \<Rightarrow> exn + verified_webhook_event" where
  "fake_verify_webhook int_of secret body signature provider_event_id =
     bindE (compare_digest (fake_sign secret body) signature) (\<lambda>same.
     if \<not> same then Inl signature_invalid
     else case parse_body body of
       Inl NotJson \<Rightarrow> Inl signature_invalid
     | Inl IntegerTooLong \<Rightarrow> Inl (ValueError ''Exceeds the limit for integer string conversion'')
     | Inl BeyondModel \<Rightarrow> Inl (RuntimeError ''character beyond the model'')
     | Inr (JObj parsed) \<Rightarrow> fake_event int_of provider_event_id parsed
     | Inr _ \<Rightarrow> Inl signature_invalid)"

definition webhook_body :: "string \<Rightarrow> webhook_type \<Rightarrow> string \<Rightarrow> int option \<Rightarrow> string" where
  "webhook_body event_id event_type provider_payment_id sequence =
     dumps True (JObj ([(''event_id'', JStr event_id), (''event_type'', JStr (webhook_text event_type)),
       (''provider_payment_id'', JStr provider_payment_id)]
       @ (case sequence of None \<Rightarrow> [] | Some n \<Rightarrow> [(''sequence'', JInt n)])))"

definition fake :: "(json \<Rightarrow> int option) \<Rightarrow> string \<Rightarrow> fake_provider payment_provider" where
  "fake int_of secret = \<lparr>pv_name = FAKE_NAME, pv_create_retries_are_idempotent = True,
     pv_create_payment = fake_create_payment, pv_get_payment = fake_get_payment,
     pv_verify_webhook = fake_verify_webhook int_of secret\<rparr>"

section \<open>The contract of an idempotent provider\<close>

text \<open>
  What a provider promises that declares \<open>create_retries_are_idempotent\<close>
  (\<^verbatim>\<open>providers/base.py\<close>): it holds at most one payment for a key, a create that returns, returns
  the held one, and no call or settlement replaces the payment a key holds by another.
\<close>

definition same_payment :: "provider_payment \<Rightarrow> provider_payment \<Rightarrow> bool" where
  "same_payment a b \<longleftrightarrow> pp_provider a = pp_provider b \<and> pp_provider_payment_id a = pp_provider_payment_id b
     \<and> pp_amount_inr a = pp_amount_inr b \<and> pp_currency a = pp_currency b
     \<and> pp_idempotency_key a = pp_idempotency_key b"

lemma same_payment_refl [simp]: "same_payment a a"
  by (simp add: same_payment_def)

lemma same_payment_sym: "same_payment a b \<Longrightarrow> same_payment b a"
  by (simp add: same_payment_def)

lemma same_payment_trans: "same_payment a b \<Longrightarrow> same_payment b c \<Longrightarrow> same_payment a c"
  by (simp add: same_payment_def)

locale idempotent_provider =
  fixes create :: "payment_request \<Rightarrow> 'p \<Rightarrow> (exn + provider_payment) \<times> 'p"
    and get :: "string option \<Rightarrow> string option \<Rightarrow> 'p \<Rightarrow> (exn + provider_payment option) \<times> 'p"
    and held :: "'p \<Rightarrow> string \<Rightarrow> provider_payment option"
    and other :: "'p \<Rightarrow> 'p \<Rightarrow> bool"
  assumes create_returns: "create q p = (Inr pay, p') \<Longrightarrow> \<exists>h. held p' (rq_idempotency_key q) = Some h \<and> same_payment pay h"
    and create_keeps: "create q p = (r, p') \<Longrightarrow> held p k = Some h \<Longrightarrow> held p' k = Some h"
    and get_by_key: "get None (Some k) p = (found, p') \<Longrightarrow> found = Inr (held p k)"
    and get_keeps: "get i j p = (found, p') \<Longrightarrow> held p' = held p"
    and other_keeps: "other p p' \<Longrightarrow> held p k = Some h \<Longrightarrow> \<exists>h'. held p' k = Some h' \<and> same_payment h h'"
begin

text \<open>Any call, and anything else that happens to the provider between two calls.\<close>

inductive evolves :: "'p \<Rightarrow> 'p \<Rightarrow> bool" where
  by_create: "create q p = (r, p') \<Longrightarrow> evolves p p'"
| by_get: "get i k p = (r, p') \<Longrightarrow> evolves p p'"
| by_other: "other p p' \<Longrightarrow> evolves p p'"

lemma evolves_keeps: "evolves p p' \<Longrightarrow> held p k = Some h \<Longrightarrow> \<exists>h'. held p' k = Some h' \<and> same_payment h h'"
  by (induction rule: evolves.induct) (auto dest: create_keeps get_keeps other_keeps)

lemma history_keeps:
  "evolves\<^sup>*\<^sup>* p p' \<Longrightarrow> held p k = Some h \<Longrightarrow> \<exists>h'. held p' k = Some h' \<and> same_payment h h'"
proof (induction rule: rtranclp_induct)
  case (step y z)
  then show ?case using evolves_keeps same_payment_trans by blast
qed simp

lemma create_after_payment:
  assumes "held p (rq_idempotency_key q) = Some h" "evolves\<^sup>*\<^sup>* p p1" "create q p1 = (Inr pay, p2)"
  shows "same_payment pay h"
proof -
  from history_keeps [OF assms(2,1)] obtain h1 where h1: "held p1 (rq_idempotency_key q) = Some h1" "same_payment h h1" by blast
  from create_returns [OF assms(3)] create_keeps [OF assms(3) h1(1)] have "same_payment pay h1" by auto
  with h1(2) show ?thesis using same_payment_sym same_payment_trans by blast
qed

lemma lookup_after_payment:
  assumes "held p k = Some h" "evolves\<^sup>*\<^sup>* p p1" "get None (Some k) p1 = (r, p2)"
  shows "\<exists>found. r = Inr (Some found) \<and> same_payment found h"
  using history_keeps [OF assms(2,1)] get_by_key [OF assms(3)] same_payment_sym by auto

end

section \<open>The deterministic provider keeps it\<close>

inductive fake_other :: "fake_provider \<Rightarrow> fake_provider \<Rightarrow> bool" where
  "fake_other p (queue_faults modes p)"
| "settle key status p = Some (pay, p') \<Longrightarrow> fake_other p p'"

lemma fake_record_outcome:
  assumes "fake_record q status p = (r, p')"
  obtains (held) h where "fk_created_payments p (rq_idempotency_key q) = Some h"
      "r = Inr (h\<lparr>pp_idempotent_replay := True\<rparr>)" "p' = p"
  | (refused) e where "r = Inl e" "p' = p"
  | (created) pay where "fk_created_payments p (rq_idempotency_key q) = None" "r = Inr pay"
      "fk_created_payments p' = (fk_created_payments p)(rq_idempotency_key q \<mapsto> pay)"
      "pp_idempotency_key pay = Some (rq_idempotency_key q)" "pp_amount_inr pay = rq_amount_inr q"
  using assms by (auto simp: fake_record_def Let_def ProviderPayment_def split: option.splits if_splits)

lemma next_fault_created: "next_fault p = (f, p') \<Longrightarrow> fk_created_payments p' = fk_created_payments p"
  by (auto simp: next_fault_def split: list.splits)

text \<open>What a create leaves behind: what was held, and possibly a payment for its own key.\<close>

lemma fake_create_outcome:
  assumes "fake_create_payment q p = (r, p')"
  obtains (nothing) e where "r = Inl e" "fk_created_payments p' = fk_created_payments p"
  | (replayed) h pay where "fk_created_payments p (rq_idempotency_key q) = Some h" "fk_created_payments p' = fk_created_payments p"
      "r = Inr pay" "same_payment pay h"
  | (created) h where "fk_created_payments p (rq_idempotency_key q) = None"
      "fk_created_payments p' = (fk_created_payments p)(rq_idempotency_key q \<mapsto> h)"
      "\<And>pay. r = Inr pay \<Longrightarrow> same_payment pay h"
proof -
  obtain f p1 where f: "next_fault (p\<lparr>fk_create_calls := fk_create_calls p @ [rq_idempotency_key q]\<rparr>) = (f, p1)" by fastforce
  from next_fault_created [OF f] have c: "fk_created_payments p1 = fk_created_payments p" by simp
  show ?thesis
  proof (cases "f \<in> {F_TIMEOUT_BEFORE_CREATE, F_TRANSIENT_FAILURE, F_TERMINAL_FAILURE}")
    case True
    with assms f have "isl r" "p' = p1" by (auto simp: fake_create_payment_def)
    with c show ?thesis using that(1) [of "projl r"] by simp
  next
    case False
    define status where "status = (if f = F_PENDING then PP_PENDING else PP_SUCCEEDED)"
    obtain r1 p2 where rec: "fake_record q status p1 = (r1, p2)" by fastforce
    with False assms f have p': "p' = p2" and r: "r = (case r1 of Inl e \<Rightarrow> Inl e | Inr pay \<Rightarrow>
        if f = F_TIMEOUT_AFTER_CREATE then Inl (ProviderTimeout ''connection timed out after the payment was created'')
        else if f = F_DUPLICATE_RESPONSE then Inr (pay\<lparr>pp_idempotent_replay := True\<rparr>) else Inr pay)"
      by (cases f; auto simp: fake_create_payment_def status_def split: sum.splits)+
    from rec show ?thesis
    proof (cases rule: fake_record_outcome)
      case (held h)
      show ?thesis
      proof (cases "f = F_TIMEOUT_AFTER_CREATE")
        case True
        with held r p' c show ?thesis using that(1) by simp
      next
        case False
        with held r p' c show ?thesis
          using that(2) [of h "h\<lparr>pp_idempotent_replay := True\<rparr>"] by (auto simp: same_payment_def)
      qed
    next
      case (refused e)
      with r p' c show ?thesis using that(1) by simp
    next
      case (created pay)
      with r p' c show ?thesis
        using that(3) [of pay] by (auto simp: same_payment_def split: if_splits)
    qed
  qed
qed

interpretation fake_store: idempotent_provider fake_create_payment fake_get_payment fk_created_payments fake_other
proof unfold_locales
  show "\<exists>h. fk_created_payments p' (rq_idempotency_key q) = Some h \<and> same_payment pay h"
    if "fake_create_payment q p = (Inr pay, p')" for q p pay p'
    using that by (cases rule: fake_create_outcome) auto
  show "fk_created_payments p' k = Some h"
    if "fake_create_payment q p = (r, p')" "fk_created_payments p k = Some h" for q p r p' k h
    using that by (cases rule: fake_create_outcome) auto
  show "found = Inr (fk_created_payments p k)" if "fake_get_payment None (Some k) p = (found, p')" for k p found p'
    using that by (auto simp: fake_get_payment_def)
  show "fk_created_payments p' = fk_created_payments p" if "fake_get_payment i j p = (found, p')" for i j p found p'
    using that by (auto simp: fake_get_payment_def)
  show "\<exists>h'. fk_created_payments p' k = Some h' \<and> same_payment h h'"
    if "fake_other p p'" "fk_created_payments p k = Some h" for p p' k h
    using that by (cases rule: fake_other.cases)
      (auto simp: queue_faults_def settle_def Let_def same_payment_def split: option.splits)
qed

text \<open>
  C11. A lost response is recoverable and a retry is safe: when a create of the deterministic
  provider timed out after it had recorded the payment, then after any history of calls,
  scripted faults and settlements, a lookup by the idempotency key finds exactly that payment,
  and any later create for the key that returns, returns that same payment (the same id, amount
  and currency), so that no history makes the provider hold a second payment for the key.
\<close>

theorem lost_response_is_one_payment:
  assumes "fake_create_payment q p = (Inl e, p1)" "fk_created_payments p1 (rq_idempotency_key q) = Some h"
    and "fake_store.evolves\<^sup>*\<^sup>* p1 p2"
  shows "(\<exists>found. fst (fake_get_payment None (Some (rq_idempotency_key q)) p2) = Inr (Some found) \<and> same_payment found h)
    \<and> (\<forall>pay. fst (fake_create_payment q p2) = Inr pay \<longrightarrow> same_payment pay h)
    \<and> payment_count_for (rq_idempotency_key q) p2 = 1"
proof (intro conjI allI impI)
  show "\<exists>found. fst (fake_get_payment None (Some (rq_idempotency_key q)) p2) = Inr (Some found) \<and> same_payment found h"
    using fake_store.lookup_after_payment [OF assms(2,3)] by (metis prod.exhaust_sel)
  show "same_payment pay h" if "fst (fake_create_payment q p2) = Inr pay" for pay
    using fake_store.create_after_payment [OF assms(2,3), of pay "snd (fake_create_payment q p2)"] that
    by (simp add: prod_eq_iff)
  show "payment_count_for (rq_idempotency_key q) p2 = 1"
    using fake_store.history_keeps [OF assms(3,2)] by (auto simp: payment_count_for_def)
qed

text \<open>The response is lost, the payment settles, the worker looks it up.\<close>

definition sample_request :: payment_request where
  "sample_request = \<lparr>rq_idempotency_key = ''key-1'', rq_amount_inr = 7598, rq_currency = ''INR'',
     rq_merchant_id = ''m1'', rq_transaction_digest_prefix = ''abc''\<rparr>"

definition sample_lost :: "(exn + provider_payment) \<times> fake_provider" where
  "sample_lost = fake_create_payment sample_request
     (queue_faults [F_TIMEOUT_AFTER_CREATE] (FakePaymentProvider ''s'' F_SUCCESS))"

definition sample_settled :: fake_provider where
  "sample_settled = snd (the (settle ''key-1'' PP_FAILED (snd sample_lost)))"

lemmas sample_lost_simps = sample_lost_def sample_settled_def sample_request_def fake_create_payment_def
  FakePaymentProvider_def queue_faults_def next_fault_def fake_record_def ProviderPayment_def sized_def opt_sized_def
  opt_nonneg_def FAKE_NAME_def fake_payment_id_def settle_def Let_def

theorem lost_response_is_one_payment_witness:
  "(\<exists>found. fst (fake_get_payment None (Some (rq_idempotency_key sample_request)) sample_settled) = Inr (Some found)
      \<and> same_payment found (the (fk_created_payments (snd sample_lost) ''key-1'')))
    \<and> payment_count_for (rq_idempotency_key sample_request) sample_settled = 1"
proof -
  have lost: "fake_create_payment sample_request (queue_faults [F_TIMEOUT_AFTER_CREATE] (FakePaymentProvider ''s'' F_SUCCESS))
      = (Inl (ProviderTimeout ''connection timed out after the payment was created''), snd sample_lost)"
    by (simp add: sample_lost_simps)
  have held: "fk_created_payments (snd sample_lost) (rq_idempotency_key sample_request)
      = Some (the (fk_created_payments (snd sample_lost) ''key-1''))"
    by (simp add: sample_lost_simps)
  have "settle ''key-1'' PP_FAILED (snd sample_lost)
      = Some (fst (the (settle ''key-1'' PP_FAILED (snd sample_lost))), sample_settled)"
    by (simp add: sample_lost_simps)
  then have "fake_store.evolves (snd sample_lost) sample_settled"
    by (intro fake_store.by_other fake_other.intros(2))
  then have "fake_store.evolves\<^sup>*\<^sup>* (snd sample_lost) sample_settled" by (rule r_into_rtranclp)
  from lost_response_is_one_payment [OF lost held this] show ?thesis by blast
qed

section \<open>Webhooks it signs\<close>

lemma esc_char_ascii: "is_ascii (esc_char True c)"
  using set_hex_fixed [of 4 "of_char c"] by (auto simp: esc_char_def is_ascii_def hex_digits_def)

lemma enc_str_ascii: "is_ascii (enc_str True s)"
  using esc_char_ascii by (auto simp: enc_str_def is_ascii_def)

lemma dec_int_ascii: "is_ascii (dec_int i)"
  using set_dec_int [of i] by (auto simp: is_ascii_def dec_digits_def)

lemma utf8_points_ascii: "is_ascii s \<Longrightarrow> utf8_points s = Some (map of_char s)"
  by (induction s) (auto simp: is_ascii_def Let_def)

lemma parse_body_ascii:
  "is_ascii s \<Longrightarrow> loads s = Inr j \<Longrightarrow> parse_body s = Inr j"
  by (auto simp: parse_body_def utf8_points_ascii is_ascii_def o_def)

lemma is_ascii_append: "is_ascii (s @ t) \<longleftrightarrow> is_ascii s \<and> is_ascii t"
  by (auto simp: is_ascii_def)

lemma webhook_body_ascii: "is_ascii (webhook_body eid t pid seq)"
  by (cases seq) (simp_all add: webhook_body_def dumps_def is_ascii_append enc_str_ascii dec_int_ascii)

lemma parse_webhook_body:
  assumes "\<And>n. seq = Some n \<Longrightarrow> length (dec_nat \<bar>n\<bar>) \<le> INT_MAX_STR_DIGITS"
  shows "parse_body (webhook_body eid t pid seq) = Inr (JObj ([(''event_id'', JStr eid), (''event_type'', JStr (webhook_text t)),
    (''provider_payment_id'', JStr pid)] @ (case seq of None \<Rightarrow> [] | Some n \<Rightarrow> [(''sequence'', JInt n)])))"
proof (rule parse_body_ascii [OF webhook_body_ascii])
  let ?j = "JObj ([(''event_id'', JStr eid), (''event_type'', JStr (webhook_text t)),
    (''provider_payment_id'', JStr pid)] @ (case seq of None \<Rightarrow> [] | Some n \<Rightarrow> [(''sequence'', JInt n)]))"
  have "plain ?j" using assms by (cases seq) auto
  moreover have "normalise ?j = ?j" by (cases seq) simp_all
  ultimately show "loads (webhook_body eid t pid seq) = Inr ?j"
    using loads_dumps [of ?j True] by (simp add: webhook_body_def)
qed

text \<open>
  Round trip of a webhook: a body that \<open>webhook_body\<close> builds, delivered with the signature the
  provider's secret gives it, verifies, and the verified event names exactly the event id, type,
  payment id and sequence the body was built from, whatever characters they contain.
\<close>

theorem signed_webhook_verifies:
  assumes "sized 1 200 eid" "sized 1 200 pid"
    and "\<And>n. seq = Some n \<Longrightarrow> int_of (JInt n) = Some n \<and> length (dec_nat \<bar>n\<bar>) \<le> INT_MAX_STR_DIGITS"
  shows "fake_verify_webhook int_of secret (webhook_body eid t pid seq) (fake_sign secret (webhook_body eid t pid seq)) None
    = Inr \<lparr>we_provider = FAKE_NAME, we_provider_event_id = eid, we_event_type = t, we_provider_payment_id = pid,
        we_provider_order_id = None, we_provider_transaction_id = None, we_amount_inr = None, we_currency = None,
        we_provider_status = None, we_provider_attempts = None, we_sequence = seq, we_occurred_at = None\<rparr>"
proof -
  have "webhook_of_text (webhook_text t) = Some t" by (simp add: webhook_enum.of_text_Some)
  then show ?thesis
    using assms parse_webhook_body [of seq eid t pid] hmac_ascii [of "utf8 secret" "webhook_body eid t pid seq"]
    by (cases seq) (simp_all add: fake_verify_webhook_def compare_digest_def fake_sign_def fake_event_def jget_def
        json_str_def Let_def VerifiedWebhookEvent_def FAKE_NAME_def sized_def opt_sized_def opt_nonneg_def)
qed

theorem signed_webhook_verifies_witness:
  "\<exists>event. fake_verify_webhook (\<lambda>j. case j of JInt n \<Rightarrow> Some n | _ \<Rightarrow> None) ''s''
      (webhook_body ''evt-1'' W_PAYMENT_SUCCEEDED ''fake_pay_1'' (Some 7))
      (fake_sign ''s'' (webhook_body ''evt-1'' W_PAYMENT_SUCCEEDED ''fake_pay_1'' (Some 7))) None = Inr event
    \<and> we_provider_event_id event = ''evt-1'' \<and> we_event_type event = W_PAYMENT_SUCCEEDED \<and> we_sequence event = Some 7"
proof -
  have "length (dec_nat \<bar>7\<bar>) \<le> INT_MAX_STR_DIGITS" by (subst dec_nat.simps) (simp add: INT_MAX_STR_DIGITS_def)
  then show ?thesis
    by (subst signed_webhook_verifies) (simp_all add: sized_def)
qed

end
