(* ===== verification/Razorpay.thy ===== *)
theory Razorpay
  imports FakeProvider
begin

text \<open>
  The Razorpay TEST adapter of \<^verbatim>\<open>services/payment_executor/providers/razorpay.py\<close> and the
  registry of \<^verbatim>\<open>services/payment_executor/registry.py\<close>. The HTTP client, the remote service behind
  it and the text of the schema library's errors are outside the program: they are the record
  \<open>outside\<close>. Every request that is sent is recorded with the state of the client. A \<open>ValueError\<close>
  that stays inside the adapter is its text.
\<close>

section \<open>Requests\<close>

datatype http_method = GET | POST

record http_request =
  hq_method :: http_method
  hq_path :: string
  hq_auth :: "string \<times> string"
  hq_json :: "json option"
  hq_params :: "(string \<times> json) list option"

text \<open>\<open>response.status_code\<close> as an integer and \<open>response.json()\<close>, when they can be read.\<close>

record http_response =
  hr_status :: "int option"
  hr_json :: "json option"

text \<open>\<open>TimeoutError\<close>, \<open>OSError\<close> and \<open>httpx.HTTPError\<close> by the name of their type, or another exception.\<close>

datatype transport_failure = TransportFailure string | OtherException exn

record 'h outside =
  os_send :: "http_request \<Rightarrow> 'h \<Rightarrow> (transport_failure + http_response) \<times> 'h"
  os_schema_error :: "provider_payment \<Rightarrow> string"

record 'h rail =
  rl_client :: 'h
  rl_sent :: "http_request list"

type_synonym ('h, 'a) http = "('h rail, exn, 'a) session"

section \<open>Construction\<close>

record razorpay =
  rz_key_id :: string
  rz_key_secret :: string
  rz_webhook_secret :: string
  rz_connect_timeout :: rat
  rz_read_timeout :: rat
  rz_write_timeout :: rat
  rz_pool_timeout :: rat
  rz_overall_timeout :: rat

definition RAZORPAY_NAME :: string where
  "RAZORPAY_NAME = ''razorpay_test''"

definition RECEIPT_PREFIX :: string where
  "RECEIPT_PREFIX = ''pactra_''"

definition RAZORPAY_RECEIPT_MAX_LENGTH :: nat where
  "RAZORPAY_RECEIPT_MAX_LENGTH = 40"

definition RECEIPT_DIGEST_LENGTH :: nat where
  "RECEIPT_DIGEST_LENGTH = RAZORPAY_RECEIPT_MAX_LENGTH - length RECEIPT_PREFIX"

definition receipt_for_idempotency_key :: "string \<Rightarrow> string" where
  "receipt_for_idempotency_key key = RECEIPT_PREFIX @ take RECEIPT_DIGEST_LENGTH (sha256_hex (utf8 key))"

definition is_configured_secret :: "string \<Rightarrow> bool" where
  "is_configured_secret v \<longleftrightarrow> v \<noteq> [] \<and> v \<noteq> ''REPLACE_ME''"

definition RazorpayTestPaymentProvider :: "razorpay \<Rightarrow> exn + razorpay" where
  "RazorpayTestPaymentProvider p =
     bindE (require (starts ''rzp_test_'' (rz_key_id p) \<and> rz_key_id p \<noteq> ''rzp_test_REPLACE_ME'') ''razorpay.test_mode_only'') (\<lambda>_.
     bindE (require (is_configured_secret (rz_key_secret p)) ''razorpay.key_secret_present'') (\<lambda>_.
     bindE (require (is_configured_secret (rz_webhook_secret p)) ''razorpay.webhook_secret_present'') (\<lambda>_.
     bindE (require (0 < rz_connect_timeout p) ''razorpay.connect_timeout_positive'') (\<lambda>_.
     bindE (require (0 < rz_read_timeout p) ''razorpay.read_timeout_positive'') (\<lambda>_.
     bindE (require (0 < rz_write_timeout p) ''razorpay.write_timeout_positive'') (\<lambda>_.
     bindE (require (0 < rz_pool_timeout p) ''razorpay.pool_timeout_positive'') (\<lambda>_.
     bindE (require (0 < rz_overall_timeout p) ''razorpay.overall_timeout_positive'') (\<lambda>_.
     Inr p))))))))"

section \<open>Transport\<close>

definition method_text :: "http_method \<Rightarrow> string" where
  "method_text m = (case m of GET \<Rightarrow> ''GET'' | POST \<Rightarrow> ''POST'')"

definition rz_request :: "'h outside \<Rightarrow> razorpay \<Rightarrow> http_method \<Rightarrow> string \<Rightarrow> json option \<Rightarrow> (string \<times> json) list option
    \<Rightarrow> ('h, http_response) http" where
  "rz_request out p meth path json_body params = (\<lambda>s.
     let q = \<lparr>hq_method = meth, hq_path = path, hq_auth = (rz_key_id p, rz_key_secret p),
              hq_json = json_body, hq_params = params\<rparr> in
     case os_send out q (rl_client s) of (r, h) \<Rightarrow>
       (case r of
          Inl (TransportFailure name) \<Rightarrow>
            Inl (ProviderTimeout (''bounded '' @ method_text meth @ '' transport failure ('' @ name @ '')''))
        | Inl (OtherException e) \<Rightarrow> Inl e
        | Inr response \<Rightarrow> Inr response,
        s\<lparr>rl_client := h, rl_sent := rl_sent s @ [q]\<rparr>))"

section \<open>Responses\<close>

definition rz_status_code :: "http_response \<Rightarrow> string + int" where
  "rz_status_code response = (case hr_status response of
     None \<Rightarrow> Inl ''response has no valid HTTP status'' | Some code \<Rightarrow> Inr code)"

definition json_object :: "http_response \<Rightarrow> string + (string \<times> json) list" where
  "json_object response = (case hr_json response of
     None \<Rightarrow> Inl ''response body is not valid JSON''
   | Some (JObj ms) \<Rightarrow> Inr ms
   | Some _ \<Rightarrow> Inl ''response body is not a JSON object'')"

definition non_negative_int :: "string \<Rightarrow> json option \<Rightarrow> string + int" where
  "non_negative_int field v = (case v of
     Some (JInt i) \<Rightarrow> if i < 0 then Inl (field @ '' is not a non-negative integer'') else Inr i
   | _ \<Rightarrow> Inl (field @ '' is not a non-negative integer''))"

definition whole_rupees :: "string \<Rightarrow> json option \<Rightarrow> string + int" where
  "whole_rupees field v = bindE (non_negative_int field v) (\<lambda>i.
     if i mod 100 \<noteq> 0 then Inl (field @ '' cannot be represented as whole INR'') else Inr (i div 100))"

definition text_of_json :: "json option \<Rightarrow> string option" where
  "text_of_json v = (case v of Some (JStr s) \<Rightarrow> Some s | _ \<Rightarrow> None)"

definition order_status :: "string \<Rightarrow> provider_status" where
  "order_status raw = (if raw = ''created'' then PP_CREATED else if raw = ''attempted'' then PP_PENDING
     else if raw = ''paid'' then PP_SUCCEEDED else PP_PENDING)"

text \<open>\<open>_order_to_payment\<close>. The comparison of receipts raises \<open>TypeError\<close> on a text that is not ASCII.\<close>

definition order_to_payment :: "'h outside \<Rightarrow> string option \<Rightarrow> (string \<times> json) list \<Rightarrow> exn + provider_payment" where
  "order_to_payment out expected order =
    (case text_of_json (jget ''id'' order) of
       None \<Rightarrow> Inl (ValueError ''order id is missing or malformed'')
     | Some order_id \<Rightarrow>
     if \<not> starts ''order_'' order_id then Inl (ValueError ''order id is missing or malformed'')
     else if text_of_json (jget ''entity'' order) \<noteq> Some ''order'' then Inl (ValueError ''response entity is not an order'')
     else case text_of_json (jget ''status'' order) of
       None \<Rightarrow> Inl (ValueError ''order status is missing or malformed'')
     | Some raw_status \<Rightarrow>
     if raw_status = [] then Inl (ValueError ''order status is missing or malformed'')
     else bindE (map_sum ValueError id (whole_rupees ''order.amount'' (jget ''amount'' order))) (\<lambda>amount_inr.
     case text_of_json (jget ''currency'' order) of
       None \<Rightarrow> Inl (ValueError ''order currency is missing or malformed'')
     | Some currency \<Rightarrow>
     if length currency \<noteq> 3 then Inl (ValueError ''order currency is missing or malformed'')
     else case text_of_json (jget ''receipt'' order) of
       None \<Rightarrow> Inl (ValueError ''order receipt is missing or malformed'')
     | Some receipt \<Rightarrow>
     if receipt = [] then Inl (ValueError ''order receipt is missing or malformed'')
     else bindE (case expected of None \<Rightarrow> Inr True
         | Some key \<Rightarrow> compare_digest receipt (receipt_for_idempotency_key key)) (\<lambda>same.
     if \<not> same then Inl (ValueError ''order receipt does not match the requested logical payment'')
     else bindE (map_sum ValueError id (non_negative_int ''order.attempts'' (jget ''attempts'' order))) (\<lambda>attempts.
     let payment = \<lparr>pp_provider = RAZORPAY_NAME, pp_provider_payment_id = order_id, pp_status = order_status raw_status,
           pp_amount_inr = amount_inr, pp_currency = currency, pp_idempotency_key = expected,
           pp_provider_order_id = Some order_id, pp_provider_transaction_id = None, pp_provider_receipt = Some receipt,
           pp_provider_status = Some raw_status, pp_provider_attempts = Some attempts, pp_idempotent_replay = False\<rparr> in
     case ProviderPayment payment of
       Inl _ \<Rightarrow> Inl (ValueError (os_schema_error out payment))
     | Inr payment \<Rightarrow> Inr payment))))"

section \<open>Captured payments\<close>

definition is_captured :: "json \<Rightarrow> bool" where
  "is_captured item \<longleftrightarrow> (case item of JObj ms \<Rightarrow> text_of_json (jget ''status'' ms) = Some ''captured'' | _ \<Rightarrow> False)"

text \<open>The identifier of one captured item, checked against the order.\<close>

definition captured_id :: "provider_payment \<Rightarrow> json \<Rightarrow> string + string" where
  "captured_id payment item = (let ms = (case item of JObj ms \<Rightarrow> ms | _ \<Rightarrow> []) in
     case text_of_json (jget ''id'' ms) of
       None \<Rightarrow> Inl ''captured payment id is malformed''
     | Some payment_id \<Rightarrow>
       if \<not> starts ''pay_'' payment_id then Inl ''captured payment id is malformed''
       else if text_of_json (jget ''order_id'' ms) \<noteq> pp_provider_order_id payment
         then Inl ''captured payment names a different order''
       else bindE (whole_rupees ''payment.amount'' (jget ''amount'' ms)) (\<lambda>amount.
         if amount \<noteq> pp_amount_inr payment \<or> text_of_json (jget ''currency'' ms) \<noteq> Some (pp_currency payment)
         then Inl ''captured payment amount or currency mismatches its order'' else Inr payment_id))"

fun captured_ids :: "provider_payment \<Rightarrow> json list \<Rightarrow> string + string list" where
  "captured_ids payment [] = Inr []"
| "captured_ids payment (item # items) =
     (if is_captured item then bindE (captured_id payment item) (\<lambda>i. bindE (captured_ids payment items) (\<lambda>is. Inr (i # is)))
      else captured_ids payment items)"

definition items_of :: "string \<Rightarrow> http_response \<Rightarrow> string + json list" where
  "items_of missing response = bindE (json_object response) (\<lambda>parsed.
     case jget ''items'' parsed of Some (JList items) \<Rightarrow> Inr items | _ \<Rightarrow> Inl missing)"

abbreviation transient_unless :: "string \<Rightarrow> string + 'a \<Rightarrow> exn + 'a" where
  "transient_unless what r \<equiv> map_sum (\<lambda>m. ProviderTransientError (what @ m)) id r"

definition attach_captured_payment :: "'h outside \<Rightarrow> razorpay \<Rightarrow> provider_payment \<Rightarrow> ('h, provider_payment) http" where
  "attach_captured_payment out p payment =
     bind (rz_request out p GET (''/orders/'' @ pp_provider_payment_id payment @ ''/payments'') None None) (\<lambda>response.
     bind (lift (transient_unless ''malformed HTTP response while fetching captured payment: '' (rz_status_code response))) (\<lambda>code.
     andthen (guardE (200 \<le> code \<and> code < 300)
        (ProviderTransientError (''HTTP '' @ dec_int code @ '' while fetching payments for paid order'')))
    (bind (lift (transient_unless ''malformed payments response: ''
        (bindE (items_of ''payments collection has no items list'' response) (captured_ids payment)))) (\<lambda>captured.
     case captured of
       [i] \<Rightarrow> ret (payment\<lparr>pp_provider_transaction_id := Some i\<rparr>)
     | _ \<Rightarrow> raise (ProviderTransientError (''paid order exposes '' @ dec_int (int (length captured))
         @ '' matching captured payments; expected exactly one''))))))"

section \<open>Create\<close>

definition duplicate_receipt_response :: "http_response \<Rightarrow> bool" where
  "duplicate_receipt_response response = (case hr_json response of
     Some (JObj parsed) \<Rightarrow> (case jget ''error'' parsed of
       Some (JObj error) \<Rightarrow> (case text_of_json (jget ''description'' error) of
         Some description \<Rightarrow> let lowered = map lower_char description in
           contains ''receipt'' lowered \<and> (contains ''already'' lowered \<or> contains ''unique'' lowered)
       | None \<Rightarrow> False)
     | _ \<Rightarrow> False)
   | _ \<Rightarrow> False)"

definition create_payload :: "payment_request \<Rightarrow> json" where
  "create_payload request = JObj
     [(''amount'', JInt (rq_amount_inr request * 100)), (''currency'', JStr (rq_currency request)),
      (''receipt'', JStr (receipt_for_idempotency_key (rq_idempotency_key request))),
      (''notes'', JObj [(''pactra_txn'', JStr (rq_transaction_digest_prefix request)),
        (''pactra_idem'', JStr (take 16 (sha256_hex (utf8 (rq_idempotency_key request)))))])]"

text \<open>An exception of \<open>_order_to_payment\<close>: a \<open>ValueError\<close> is classified, anything else passes.\<close>

definition classified :: "(string \<Rightarrow> exn) \<Rightarrow> exn + 'a \<Rightarrow> exn + 'a" where
  "classified err r = (case r of Inl (ValueError m) \<Rightarrow> Inl (err m) | _ \<Rightarrow> r)"

definition with_captured :: "'h outside \<Rightarrow> razorpay \<Rightarrow> provider_payment \<Rightarrow> ('h, provider_payment) http" where
  "with_captured out p payment =
     (if pp_status payment = PP_SUCCEEDED then attach_captured_payment out p payment else ret payment)"

definition classify_create_response :: "'h outside \<Rightarrow> razorpay \<Rightarrow> payment_request \<Rightarrow> http_response \<Rightarrow> ('h, provider_payment) http" where
  "classify_create_response out p request response =
     bind (lift (map_sum (\<lambda>m. ProviderTimeout (''ambiguous malformed create response: '' @ m)) id (rz_status_code response))) (\<lambda>code.
     if 200 \<le> code \<and> code < 300 then
       bind (lift (classified (\<lambda>m. ProviderTimeout (''ambiguous malformed create response: '' @ m))
           (bindE (map_sum ValueError id (json_object response)) (order_to_payment out (Some (rq_idempotency_key request))))))
         (with_captured out p)
     else if 500 \<le> code then raise (ProviderTimeout (''ambiguous HTTP '' @ dec_int code @ '' response to order creation''))
     else if code = 429 then raise (ProviderTransientError ''HTTP 429 from Razorpay'')
     else if code = 400 \<and> duplicate_receipt_response response
       then raise (ProviderTimeout ''duplicate receipt response requires Order reconciliation'')
     else raise (ProviderTerminalError (''HTTP '' @ dec_int code @ '' from Razorpay'')))"

definition rz_create_payment :: "'h outside \<Rightarrow> razorpay \<Rightarrow> payment_request \<Rightarrow> ('h, provider_payment) http" where
  "rz_create_payment out p request =
     bind (rz_request out p POST ''/orders'' (Some (create_payload request)) None) (classify_create_response out p request)"

section \<open>Lookup\<close>

definition page_size :: int where
  "page_size = 100"

definition max_pages :: nat where
  "max_pages = 100"

text \<open>One page: every order with the exact receipt is kept under its id, unchanged.\<close>

definition keep_order :: "json \<Rightarrow> (string \<times> (string \<times> json) list) list \<Rightarrow> string + (string \<times> (string \<times> json) list) list" where
  "keep_order item exact = (let ms = (case item of JObj ms \<Rightarrow> ms | _ \<Rightarrow> []) in
     case text_of_json (jget ''id'' ms) of
       None \<Rightarrow> Inl ''matching order id is missing or malformed''
     | Some order_id \<Rightarrow>
       if order_id = [] then Inl ''matching order id is missing or malformed''
       else case map_of exact order_id of
         None \<Rightarrow> Inr (exact @ [(order_id, ms)])
       | Some previous \<Rightarrow> if json_eq (JObj previous) (JObj ms) then Inr exact
           else Inl ''matching order changed across search pages'')"

definition has_receipt :: "string \<Rightarrow> json \<Rightarrow> bool" where
  "has_receipt receipt item \<longleftrightarrow> (case item of JObj ms \<Rightarrow> text_of_json (jget ''receipt'' ms) = Some receipt | _ \<Rightarrow> False)"

fun keep_orders :: "string \<Rightarrow> json list \<Rightarrow> (string \<times> (string \<times> json) list) list
    \<Rightarrow> string + (string \<times> (string \<times> json) list) list" where
  "keep_orders receipt [] exact = Inr exact"
| "keep_orders receipt (item # items) exact =
     (if has_receipt receipt item then bindE (keep_order item exact) (keep_orders receipt items)
      else keep_orders receipt items exact)"

definition read_page :: "string \<Rightarrow> http_response \<Rightarrow> (string \<times> (string \<times> json) list) list
    \<Rightarrow> string + json list \<times> (string \<times> (string \<times> json) list) list" where
  "read_page receipt response exact =
     bindE (items_of ''orders collection has no items list'' response) (\<lambda>items.
     if page_size < int (length items) then Inl ''orders collection exceeds requested page size''
     else bindE (keep_orders receipt items exact) (\<lambda>exact. Inr (items, exact)))"

fun search_pages :: "'h outside \<Rightarrow> razorpay \<Rightarrow> string \<Rightarrow> nat list \<Rightarrow> (string \<times> (string \<times> json) list) list
    \<Rightarrow> ('h, (string \<times> json) list list) http" where
  "search_pages out p receipt [] exact = raise (ProviderAmbiguity
     ''Razorpay Order receipt search exceeded the safe pagination bound; refusing to assume a unique match'')"
| "search_pages out p receipt (page_number # pages) exact =
     bind (rz_request out p GET ''/orders'' None (Some [(''receipt'', JStr receipt), (''count'', JInt page_size),
         (''skip'', JInt (int page_number * page_size))])) (\<lambda>response.
     bind (lift (transient_unless ''malformed HTTP response while searching Razorpay Orders: '' (rz_status_code response))) (\<lambda>code.
     andthen (guardE (200 \<le> code \<and> code < 300)
        (ProviderTransientError (''HTTP '' @ dec_int code @ '' while searching Razorpay Orders'')))
    (bind (lift (transient_unless ''malformed Order search response: '' (read_page receipt response exact))) (\<lambda>(items, exact).
     if int (length items) < page_size then ret (map snd exact)
     else search_pages out p receipt pages exact))))"

definition orders_with_exact_receipt :: "'h outside \<Rightarrow> razorpay \<Rightarrow> string \<Rightarrow> ('h, (string \<times> json) list list) http" where
  "orders_with_exact_receipt out p receipt = search_pages out p receipt [0..<max_pages] []"

definition lookup_order :: "'h outside \<Rightarrow> razorpay \<Rightarrow> string \<Rightarrow> string option \<Rightarrow> ('h, provider_payment option) http" where
  "lookup_order out p order_id idempotency_key =
     bind (rz_request out p GET (''/orders/'' @ order_id) None None) (\<lambda>response.
     bind (lift (transient_unless ''malformed HTTP response while fetching Razorpay Order: '' (rz_status_code response))) (\<lambda>code.
     if code = 404 then ret None
     else andthen (guardE (200 \<le> code \<and> code < 300)
        (ProviderTransientError (''HTTP '' @ dec_int code @ '' while fetching Razorpay Order'')))
    (bind (lift (classified (\<lambda>m. ProviderTransientError (''malformed Order lookup response: '' @ m))
        (bindE (map_sum ValueError id (json_object response)) (order_to_payment out idempotency_key)))) (\<lambda>payment.
     bind (with_captured out p payment) (\<lambda>payment. ret (Some payment))))))"

definition lookup_receipt :: "'h outside \<Rightarrow> razorpay \<Rightarrow> string \<Rightarrow> ('h, provider_payment option) http" where
  "lookup_receipt out p key =
     bind (orders_with_exact_receipt out p (receipt_for_idempotency_key key)) (\<lambda>exact.
     case exact of
       [] \<Rightarrow> ret None
     | [order] \<Rightarrow>
       bind (lift (classified (\<lambda>m. ProviderTransientError (''malformed Order search response: '' @ m))
           (order_to_payment out (Some key) order))) (\<lambda>payment.
       bind (with_captured out p payment) (\<lambda>payment. ret (Some payment)))
     | _ \<Rightarrow> raise (ProviderAmbiguity (dec_int (int (length exact))
         @ '' Razorpay Orders share one PACTRA receipt; refusing ambiguity'')))"

definition rz_get_payment :: "'h outside \<Rightarrow> razorpay \<Rightarrow> string option \<Rightarrow> string option \<Rightarrow> ('h, provider_payment option) http" where
  "rz_get_payment out p provider_payment_id idempotency_key =
     (case (provider_payment_id, idempotency_key) of
        (None, None) \<Rightarrow> ret None
      | (Some order_id, _) \<Rightarrow> lookup_order out p order_id idempotency_key
      | (None, Some key) \<Rightarrow> lookup_receipt out p key)"

section \<open>Webhooks\<close>

record razorpay_evidence =
  ev_event_type :: webhook_type
  ev_order_id :: string
  ev_payment_id :: string
  ev_amount_inr :: int
  ev_currency :: string
  ev_status :: string
  ev_attempts :: "int option"

definition RAZORPAY_EVENTS :: "(string \<times> webhook_type \<times> string) list" where
  "RAZORPAY_EVENTS =
     [(''payment.authorized'', W_PAYMENT_PENDING, ''authorized''),
      (''payment.captured'', W_PAYMENT_SUCCEEDED, ''captured''),
      (''payment.failed'', W_PAYMENT_ATTEMPT_FAILED, ''failed''),
      (''order.paid'', W_PAYMENT_SUCCEEDED, ''captured'')]"

text \<open>\<open>wrapper.get("entity") if isinstance(wrapper, dict) else None\<close>, when it is a dictionary.\<close>

definition entity_of :: "json option \<Rightarrow> (string \<times> json) list option" where
  "entity_of wrapper = (case wrapper of
     Some (JObj ms) \<Rightarrow> (case jget ''entity'' ms of Some (JObj entity) \<Rightarrow> Some entity | _ \<Rightarrow> None)
   | _ \<Rightarrow> None)"

text \<open>The order entity of an \<open>order.paid\<close> event has to agree with its payment entity.\<close>

definition paid_order_attempts :: "(string \<times> json) list \<Rightarrow> string \<Rightarrow> int \<Rightarrow> string \<Rightarrow> string + int" where
  "paid_order_attempts payload order_id amount_inr currency = (case entity_of (jget ''order'' payload) of
     None \<Rightarrow> Inl ''order.paid has no order entity''
   | Some order \<Rightarrow>
     if text_of_json (jget ''id'' order) \<noteq> Some order_id \<or> text_of_json (jget ''status'' order) \<noteq> Some ''paid''
     then Inl ''order.paid entities disagree on Order identity or status''
     else bindE (whole_rupees ''order.amount'' (jget ''amount'' order)) (\<lambda>order_amount.
       if order_amount \<noteq> amount_inr \<or> text_of_json (jget ''currency'' order) \<noteq> Some currency
       then Inl ''order.paid entities disagree on amount or currency''
       else non_negative_int ''order.attempts'' (jget ''attempts'' order)))"

definition rz_webhook_evidence :: "(string \<times> json) list \<Rightarrow> string \<Rightarrow> webhook_type \<Rightarrow> string \<Rightarrow> string + razorpay_evidence" where
  "rz_webhook_evidence parsed event_name event_type required_status =
    (case jget ''payload'' parsed of
       Some (JObj payload) \<Rightarrow>
       (case entity_of (jget ''payment'' payload) of
          None \<Rightarrow> Inl ''payment entity is missing''
        | Some payment \<Rightarrow>
        (case text_of_json (jget ''id'' payment) of
           None \<Rightarrow> Inl ''payment id is malformed''
         | Some payment_id \<Rightarrow>
         if \<not> starts ''pay_'' payment_id then Inl ''payment id is malformed''
         else case text_of_json (jget ''order_id'' payment) of
           None \<Rightarrow> Inl ''payment order_id is malformed''
         | Some order_id \<Rightarrow>
         if \<not> starts ''order_'' order_id then Inl ''payment order_id is malformed''
         else case text_of_json (jget ''status'' payment) of
           None \<Rightarrow> Inl ''payment status is missing''
         | Some status \<Rightarrow>
         if status = [] then Inl ''payment status is missing''
         else case text_of_json (jget ''currency'' payment) of
           None \<Rightarrow> Inl ''payment currency is malformed''
         | Some currency \<Rightarrow>
         if length currency \<noteq> 3 then Inl ''payment currency is malformed''
         else bindE (whole_rupees ''payment.amount'' (jget ''amount'' payment)) (\<lambda>amount_inr.
         if status \<noteq> required_status
         then Inl (event_name @ '' carries payment status '' @ py_repr status @ '', expected '' @ py_repr required_status)
         else if event_name \<in> {''payment.captured'', ''order.paid''} \<and> jget ''captured'' payment \<noteq> Some (JBool True)
         then Inl ''success event does not carry captured=true''
         else bindE (if event_name = ''order.paid''
             then bindE (paid_order_attempts payload order_id amount_inr currency) (\<lambda>a. Inr (Some a)) else Inr None) (\<lambda>attempts.
         Inr \<lparr>ev_event_type = event_type, ev_order_id = order_id, ev_payment_id = payment_id, ev_amount_inr = amount_inr,
              ev_currency = currency, ev_status = status, ev_attempts = attempts\<rparr>))))
     | _ \<Rightarrow> Inl ''payload is missing'')"

text \<open>
  \<open>datetime.fromtimestamp(seconds, tz=timezone.utc)\<close>: the years 1 to 9999; beyond them a
  \<open>ValueError\<close>, beyond the years the C library counts an \<open>OSError\<close>, and beyond 64 bits an
  \<open>OverflowError\<close>.
\<close>

definition fromtimestamp :: "int \<Rightarrow> exn + instant" where
  "fromtimestamp t =
     (if - 62135596800 \<le> t \<and> t < 253402300800 then Inr ((t + 62135596800) * 1000000)
      else if - 67768040609740800 \<le> t \<and> t \<le> 67768036191676799 then Inl (ValueError ''year is out of range'')
      else if - (2 ^ 63) \<le> t \<and> t < 2 ^ 63 then Inl OSError
      else Inl OverflowError)"

abbreviation payload_invalid :: exn where
  "payload_invalid \<equiv> WebhookVerificationError ''WEBHOOK_PAYLOAD_INVALID''"

definition rz_event :: "string \<Rightarrow> (string \<times> json) list \<Rightarrow> string \<Rightarrow> webhook_type \<Rightarrow> string \<Rightarrow> exn + verified_webhook_event" where
  "rz_event provider_event_id parsed event_name event_type required_status =
     (case rz_webhook_evidence parsed event_name event_type required_status of
        Inl _ \<Rightarrow> Inl payload_invalid
      | Inr ev \<Rightarrow>
        bindE (case jget ''created_at'' parsed of
            Some (JInt t) \<Rightarrow> (case fromtimestamp t of Inl (ValueError _) \<Rightarrow> Inl payload_invalid
              | Inl e \<Rightarrow> Inl e | Inr moment \<Rightarrow> Inr (Some moment))
          | _ \<Rightarrow> Inr None) (\<lambda>occurred.
        case VerifiedWebhookEvent \<lparr>we_provider = RAZORPAY_NAME, we_provider_event_id = provider_event_id,
            we_event_type = ev_event_type ev, we_provider_payment_id = ev_order_id ev,
            we_provider_order_id = Some (ev_order_id ev), we_provider_transaction_id = Some (ev_payment_id ev),
            we_amount_inr = Some (ev_amount_inr ev), we_currency = Some (ev_currency ev),
            we_provider_status = Some (ev_status ev), we_provider_attempts = ev_attempts ev,
            we_sequence = None, we_occurred_at = occurred\<rparr> of
          Inl _ \<Rightarrow> Inl payload_invalid
        | Inr event \<Rightarrow> Inr event))"

text \<open>An event name that is a list or a dictionary cannot be looked up in a set: \<open>TypeError\<close>.\<close>

definition rz_verify_webhook :: "razorpay \<Rightarrow> string \<Rightarrow> string \<Rightarrow> string option \<Rightarrow> exn + verified_webhook_event" where
  "rz_verify_webhook p body signature provider_event_id =
     (if \<not> is_ascii signature \<or> signature \<noteq> hmac_sha256_hex (utf8 (rz_webhook_secret p)) body
      then Inl (WebhookVerificationError ''WEBHOOK_SIGNATURE_INVALID'')
      else case provider_event_id of
        None \<Rightarrow> Inl (WebhookVerificationError ''WEBHOOK_EVENT_ID_MISSING'')
      | Some eid \<Rightarrow>
      if eid = [] then Inl (WebhookVerificationError ''WEBHOOK_EVENT_ID_MISSING'')
      else case parse_body body of
        Inl NotJson \<Rightarrow> Inl payload_invalid
      | Inl IntegerTooLong \<Rightarrow> Inl (ValueError ''Exceeds the limit for integer string conversion'')
      | Inl BeyondModel \<Rightarrow> Inl (RuntimeError ''character beyond the model'')
      | Inr (JObj parsed) \<Rightarrow>
        (case jget ''event'' parsed of
           Some (JStr name) \<Rightarrow> (case map_of RAZORPAY_EVENTS name of
               Some (event_type, required_status) \<Rightarrow> rz_event eid parsed name event_type required_status
             | None \<Rightarrow> Inl payload_invalid)
         | Some (JList _) \<Rightarrow> Inl (TypeError ''unhashable type'')
         | Some (JObj _) \<Rightarrow> Inl (TypeError ''unhashable type'')
         | _ \<Rightarrow> Inl payload_invalid)
      | Inr _ \<Rightarrow> Inl payload_invalid)"

definition razorpay_provider :: "'h outside \<Rightarrow> razorpay \<Rightarrow> 'h rail payment_provider" where
  "razorpay_provider out p = \<lparr>pv_name = RAZORPAY_NAME, pv_create_retries_are_idempotent = False,
     pv_create_payment = rz_create_payment out p, pv_get_payment = rz_get_payment out p,
     pv_verify_webhook = rz_verify_webhook p\<rparr>"

section \<open>Registry\<close>

datatype adapter = FakeAdapter | RazorpayAdapter razorpay

definition registered_provider_names :: "string \<Rightarrow> string list" where
  "registered_provider_names app_env = (if app_env = ''production'' then [RAZORPAY_NAME] else [FAKE_NAME, RAZORPAY_NAME])"

text \<open>\<open>from_environment\<close>: the settings as they load, or the exception loading them raised.\<close>

definition from_environment :: "exn + razorpay \<Rightarrow> exn + razorpay" where
  "from_environment settings = bindE settings RazorpayTestPaymentProvider"

definition provider_for :: "exn + razorpay \<Rightarrow> string \<Rightarrow> string \<Rightarrow> exn + adapter" where
  "provider_for settings name app_env =
     (if name \<notin> set (registered_provider_names app_env) then Inl (UnknownProvider name)
      else if name = FAKE_NAME then Inr FakeAdapter
      else case from_environment settings of
        Inl _ \<Rightarrow> Inl (ProviderUnavailable name)
      | Inr p \<Rightarrow> Inr (RazorpayAdapter p))"

definition WEBHOOK_SIGNATURE_HEADERS :: "(string \<times> string) list" where
  "WEBHOOK_SIGNATURE_HEADERS = [(FAKE_NAME, ''x-fake-signature''), (RAZORPAY_NAME, ''x-razorpay-signature'')]"

definition WEBHOOK_EVENT_ID_HEADERS :: "(string \<times> string) list" where
  "WEBHOOK_EVENT_ID_HEADERS = [(RAZORPAY_NAME, ''x-razorpay-event-id'')]"

definition signature_header_for :: "string \<Rightarrow> exn + string" where
  "signature_header_for name = (case map_of WEBHOOK_SIGNATURE_HEADERS name of
     None \<Rightarrow> Inl (UnknownProvider name) | Some header \<Rightarrow> Inr header)"

definition event_id_header_for :: "string \<Rightarrow> exn + string option" where
  "event_id_header_for name = (if map_of WEBHOOK_SIGNATURE_HEADERS name = None then Inl (UnknownProvider name)
     else Inr (map_of WEBHOOK_EVENT_ID_HEADERS name))"

end
