(* ===== verification/Reconciliation.thy ===== *)
theory Reconciliation
  imports Executor
begin

text \<open>
  Reconciliation (\<^verbatim>\<open>services/payment_executor/reconciliation.py\<close>): an uncertain payment is resolved
  by asking the provider what it holds for the idempotency key. Each answer is one definition:
  the lookup failed, an ambiguity was observed before, nothing was found, a payment was found.
\<close>

section \<open>Operations\<close>

text \<open>The audit event that says whether the event was rescheduled or dead-lettered.\<close>

definition audit_reconcile_retry :: "payment_intent_row \<Rightarrow> outbox_event_row \<Rightarrow> bool \<Rightarrow> string \<Rightarrow> string \<Rightarrow> unit db" where
  "audit_reconcile_retry intent event retried reason_code phase =
     payment_audit (pi_mission_id intent) (if retried then E_PAYMENT_RETRY_SCHEDULED else E_OUTBOX_EVENT_DEAD_LETTERED)
       [(''payment_intent_id'', JStr (uuid_str (pi_id intent))),
        (''outbox_event_id'', JStr (uuid_str (ob_id event))),
        (''reason_code'', JStr reason_code),
        (''phase'', JStr phase)]"

definition reconcile_lookup_failed ::
  "uuid \<Rightarrow> outbox_event_row \<Rightarrow> exn \<Rightarrow> payment_state \<Rightarrow> instant \<Rightarrow> dispatch_result db" where
  "reconcile_lookup_failed i event error current now =
     (let reason = fst (the (provider_error error)); detail = snd (the (provider_error error));
          ambiguous = (case error of ProviderAmbiguity _ \<Rightarrow> True | _ \<Rightarrow> False) in
      bind (if ambiguous then
          andthen (remember_provider_ambiguity i now)
         (bind (read_intent i) (\<lambda>intent.
          if current \<noteq> P_PROVIDER_PENDING then
            andthen (apply_payment_transition i P_PROVIDER_PENDING E_PAYMENT_PROVIDER_UNCERTAIN
              [(''provider'', JStr (pi_provider intent)), (''provider_ambiguity_observed'', JBool True),
               (''replacement_create_permitted'', JBool False), (''detail'', JStr detail)]
              (Some (reason_text R_PROVIDER_AMBIGUITY)))
            (ret P_PROVIDER_PENDING)
          else
            andthen flush_intents
           (andthen (payment_audit (pi_mission_id intent) E_PAYMENT_PROVIDER_UNCERTAIN
              [(''payment_intent_id'', JStr (uuid_str (pi_id intent))), (''state'', JStr (payment_text current)),
               (''provider'', JStr (pi_provider intent)), (''provider_ambiguity_observed'', JBool True),
               (''replacement_create_permitted'', JBool False), (''detail'', JStr detail),
               (''reason_code'', JStr (reason_text R_PROVIDER_AMBIGUITY))])
           (ret current))))
        else ret current) (\<lambda>current.
      bind (reschedule_event event detail (Some now) None) (\<lambda>retried.
      bind (read_intent i) (\<lambda>intent.
      andthen (audit_reconcile_retry intent event retried reason ''reconciliation'')
      (ret (DispatchResult current True retried))))))"

text \<open>An ambiguity once observed is never resolved automatically.\<close>

definition reconcile_ambiguous ::
  "uuid \<Rightarrow> outbox_event_row \<Rightarrow> provider_payment option \<Rightarrow> payment_state \<Rightarrow> instant \<Rightarrow> dispatch_result db" where
  "reconcile_ambiguous i event payment current now =
     bind (read_intent i) (\<lambda>intent.
     bind (if current \<noteq> P_PROVIDER_PENDING then
         andthen (apply_payment_transition i P_PROVIDER_PENDING E_PAYMENT_PROVIDER_UNCERTAIN
           [(''provider'', JStr (pi_provider intent)), (''provider_ambiguity_observed'', JBool True),
            (''replacement_create_permitted'', JBool False), (''resolution'', JStr ''operator_review'')]
           (Some (reason_text R_PROVIDER_AMBIGUITY)))
         (ret P_PROVIDER_PENDING)
       else andthen (remember_provider_ambiguity i now) (andthen flush_intents (ret current))) (\<lambda>current.
     bind (reschedule_event event ''known provider ambiguity remains unresolved'' (Some now) None) (\<lambda>retried.
     andthen (payment_audit (pi_mission_id intent) E_PAYMENT_RECONCILED
       (dict_merge (dict_merge
         [(''payment_intent_id'', JStr (uuid_str (pi_id intent))),
          (''provider'', JStr (pi_provider intent)),
          (''reason_code'', JStr (reason_text R_PROVIDER_AMBIGUITY)),
          (''provider_ambiguity_observed'', JBool True),
          (''current_search_result'', JStr (if payment = None then ''no_exact_match'' else ''one_exact_candidate''))]
         (case payment of None \<Rightarrow> [] | Some p \<Rightarrow> provider_evidence_payload p))
         [(''candidate_adopted'', JBool False),
          (''replacement_create_permitted'', JBool False),
          (''manual_recovery_required'', JBool True)]))
     (ret (DispatchResult current True retried)))))"

text \<open>A linked reference that cannot be found stays unresolved.\<close>

definition reconcile_linked_missing ::
  "uuid \<Rightarrow> outbox_event_row \<Rightarrow> string \<Rightarrow> payment_state \<Rightarrow> instant \<Rightarrow> dispatch_result db" where
  "reconcile_linked_missing i event pid current now =
     bind (read_intent i) (\<lambda>intent.
     bind (reschedule_event event ''linked provider reference was not found'' (Some now) None) (\<lambda>retried.
     andthen (payment_audit (pi_mission_id intent) E_PAYMENT_RECONCILED
       [(''payment_intent_id'', JStr (uuid_str (pi_id intent))),
        (''provider'', JStr (pi_provider intent)),
        (''provider_payment_id'', JStr pid),
        (''reason_code'', JStr (reason_text R_PROVIDER_PAYMENT_NOT_FOUND)),
        (''linked_provider_reference_unresolved'', JBool True),
        (''replacement_create_permitted'', JBool False)])
    (andthen (audit_reconcile_retry intent event retried (reason_text R_PROVIDER_PAYMENT_NOT_FOUND)
       ''linked-reference-reconciliation'')
    (ret (DispatchResult current True retried)))))"

text \<open>The fence is permanent: an empty search never restores the permission to create.\<close>

definition reconcile_fenced_missing ::
  "uuid \<Rightarrow> outbox_event_row \<Rightarrow> payment_state \<Rightarrow> instant \<Rightarrow> dispatch_result db" where
  "reconcile_fenced_missing i event current now =
     bind (read_intent i) (\<lambda>intent.
     bind (if current \<noteq> P_PROVIDER_PENDING then
         andthen (apply_payment_transition i P_PROVIDER_PENDING E_PAYMENT_PROVIDER_UNCERTAIN
           [(''provider'', JStr (pi_provider intent)), (''provider_create_fenced'', JBool True),
            (''provider_payment_may_exist'', JBool True), (''replacement_create_permitted'', JBool False),
            (''resolution'', JStr ''reconciliation_or_operator_review'')]
           (Some (reason_text R_PROVIDER_CREATE_FENCED)))
         (ret P_PROVIDER_PENDING)
       else
         andthen (modify_intent i (\<lambda>r. Inr (r\<lparr>pi_last_reason_code := Some (reason_text R_PROVIDER_CREATE_FENCED)\<rparr>)))
        (andthen flush_intents (ret current))) (\<lambda>current.
     bind (reschedule_event event ''fenced create has no visible provider Order'' (Some now) None) (\<lambda>retried.
     andthen (payment_audit (pi_mission_id intent) E_PAYMENT_RECONCILED
       [(''payment_intent_id'', JStr (uuid_str (pi_id intent))),
        (''provider'', JStr (pi_provider intent)),
        (''reason_code'', JStr (reason_text R_PROVIDER_CREATE_FENCED)),
        (''provider_search_found_no_match'', JBool True),
        (''provider_create_fenced'', JBool True),
        (''replacement_create_permitted'', JBool False),
        (''manual_recovery_may_be_required'', JBool True)])
    (andthen (audit_reconcile_retry intent event retried (reason_text R_PROVIDER_CREATE_FENCED)
       ''fenced-create-reconciliation'')
    (ret (DispatchResult current True retried))))))"

text \<open>\<open>current\<close> is the state of the row it was called with, so the transition is checked on the row.\<close>

definition resolve_no_provider_payment ::
  "uuid \<Rightarrow> outbox_event_row \<Rightarrow> instant \<Rightarrow> payment_state \<Rightarrow> dispatch_result db" where
  "resolve_no_provider_payment i event now current =
     bind (read_intent i) (\<lambda>intent.
     andthen (payment_audit (pi_mission_id intent) E_PAYMENT_RECONCILED
       [(''payment_intent_id'', JStr (uuid_str (pi_id intent))),
        (''provider'', JStr (pi_provider intent)),
        (''reason_code'', JStr (reason_text R_PROVIDER_PAYMENT_NOT_FOUND)),
        (''provider_holds_no_payment'', JBool True),
        (''conclusion'', JStr ''provider create contract makes a same-key retry idempotent'')])
    (andthen (modify_intent i (\<lambda>r. bindE (assert_payment_transition (pi_state r) P_FAILED_RETRYABLE) (\<lambda>_.
       Inr (r\<lparr>pi_state := P_FAILED_RETRYABLE, pi_last_reason_code := Some (reason_text R_PROVIDER_PAYMENT_NOT_FOUND)\<rparr>))))
    (andthen flush_intents
    (andthen (enqueue_outbox_event (pi_id intent) OE_PAYMENT_CREATE_REQUESTED
       [(''idempotency_key'', JStr (pi_idempotency_key intent))] (Some now) DEFAULT_MAX_ATTEMPTS)
    (andthen (complete_event event (Some now))
    (andthen (payment_audit (pi_mission_id intent) E_PAYMENT_RETRY_SCHEDULED
       [(''payment_intent_id'', JStr (uuid_str (pi_id intent))),
        (''state'', JStr (payment_text P_FAILED_RETRYABLE)),
        (''reason_code'', JStr (reason_text R_PROVIDER_PAYMENT_NOT_FOUND))])
    (ret (DispatchResult P_FAILED_RETRYABLE True True))))))))"

text \<open>The provider holds a payment: it is validated, linked and folded in, or it mismatches.\<close>

definition or_mismatch :: "'a db \<Rightarrow> (string + 'a) db" where
  "or_mismatch m = catch (bind m (\<lambda>x. ret (Inr x)))
     (\<lambda>e. case e of ProviderPaymentMismatch detail \<Rightarrow> ret (Inl detail) | _ \<Rightarrow> raise e)"

definition reconcile_mismatch ::
  "uuid \<Rightarrow> outbox_event_row \<Rightarrow> string \<Rightarrow> payment_state \<Rightarrow> instant \<Rightarrow> dispatch_result db" where
  "reconcile_mismatch i event detail current now =
     bind (reschedule_event event detail (Some now) None) (\<lambda>retried.
     bind (read_intent i) (\<lambda>intent.
     andthen (audit_reconcile_retry intent event retried (reason_text R_PROVIDER_RESPONSE_MISMATCH) ''reconciliation'')
     (ret (DispatchResult current True retried))))"

definition reconcile_settle ::
  "uuid \<Rightarrow> outbox_event_row \<Rightarrow> provider_payment \<Rightarrow> payment_state \<Rightarrow> instant \<Rightarrow> dispatch_result db" where
  "reconcile_settle i event payment st now =
     bind (read_intent i) (\<lambda>intent.
     andthen (payment_audit (pi_mission_id intent) E_PAYMENT_RECONCILED
       (dict_merge (dict_merge [(''payment_intent_id'', JStr (uuid_str (pi_id intent))),
           (''provider'', JStr (pi_provider intent))] (provider_evidence_payload payment))
         [(''provider_state'', JStr (provider_text (pp_status payment))),
          (''state'', JStr (payment_text st)),
          (''resolved_existing_provider_payment'', JBool True)]))
    (if st = P_PROVIDER_PENDING then
       bind (reschedule_event event ''provider payment still pending'' (Some now) None) (\<lambda>retried.
       ret (DispatchResult st True retried))
     else andthen (complete_event event (Some now)) (ret (DispatchResult st True False))))"

definition reconcile_found ::
  "uuid \<Rightarrow> outbox_event_row \<Rightarrow> provider_payment \<Rightarrow> payment_state \<Rightarrow> instant \<Rightarrow> dispatch_result db" where
  "reconcile_found i event payment current now =
     bind (read_intent i) (\<lambda>intent.
     bind (or_mismatch
         (andthen (lift (validate_provider_payment intent payment (pi_provider_payment_id intent = None)))
         (whenS (current \<in> {P_QUEUED, P_FAILED_RETRYABLE}) (record_payment_attempt i False True)))) (\<lambda>validated.
     case validated of
       Inl detail \<Rightarrow> reconcile_mismatch i event detail current now
     | Inr _ \<Rightarrow>
       let current = (if current \<in> {P_QUEUED, P_FAILED_RETRYABLE} then P_PROCESSING else current) in
       bind (or_mismatch (apply_provider_payment i payment (Some now))) (\<lambda>applied. case applied of
         Inl detail \<Rightarrow> reconcile_mismatch i event detail current now
       | Inr st \<Rightarrow> reconcile_settle i event payment st now)))"

definition reconcile_answer :: "bool \<Rightarrow> uuid \<Rightarrow> outbox_event_row \<Rightarrow> exn + provider_payment option \<Rightarrow> payment_state
    \<Rightarrow> instant \<Rightarrow> dispatch_result db" where
  "reconcile_answer idempotent i event answer current now =
     bind (read_intent i) (\<lambda>intent. case answer of
       Inl e \<Rightarrow> reconcile_lookup_failed i event e current now
     | Inr payment \<Rightarrow>
       if pi_provider_ambiguity_observed_at intent \<noteq> None then reconcile_ambiguous i event payment current now
       else (case payment of
         None \<Rightarrow> (case pi_provider_payment_id intent of
             Some pid \<Rightarrow> reconcile_linked_missing i event pid current now
           | None \<Rightarrow> if pi_provider_create_fenced_at intent \<noteq> None \<and> \<not> idempotent
               then reconcile_fenced_missing i event current now
               else resolve_no_provider_payment i event now current)
       | Some p \<Rightarrow> reconcile_found i event p current now))"

text \<open>\<open>get_payment\<close> with the state it was asked in, and the answer.\<close>

definition ask_provider :: "'p payment_provider \<Rightarrow> uuid \<Rightarrow> outbox_event_row \<Rightarrow> instant \<Rightarrow> ('p, dispatch_result) job" where
  "ask_provider prov i event now =
     bind (in_db (read_intent i)) (\<lambda>intent.
     bind (try_get_payment prov (pi_provider_payment_id intent) (Some (pi_idempotency_key intent))) (\<lambda>answer.
     in_db (reconcile_answer (pv_create_retries_are_idempotent prov) i event answer (pi_state intent) now)))"

definition reconcile_intent :: "approver \<Rightarrow> capability_set \<Rightarrow> 'p payment_provider \<Rightarrow> uuid \<Rightarrow> outbox_event_row
    \<Rightarrow> instant option \<Rightarrow> ('p, dispatch_result) job" where
  "reconcile_intent cfg capabilities prov i event now =
     andthen (lift (enforce_registered capabilities C_PAYMENT_EXECUTE))
    (bind (in_db (lock_payment_intent i)) (\<lambda>intent.
     bind (in_db (moment_of now)) (\<lambda>moment.
     andthen (lift (validate_provider_route intent prov))
    (if is_terminal (pi_state intent) then
       andthen (in_db (complete_event event (Some moment))) (ret (DispatchResult (pi_state intent) False False))
     else
       andthen (in_db (verify_intent_authorization_before_provider_io cfg i event moment))
      (if \<not> pv_create_retries_are_idempotent prov \<and> pi_provider_create_fenced_at intent = None then
         andthen (in_db (update_payment_intents
           (\<lambda>r. pi_id r = i \<and> pi_provider_create_fenced_at r = None)
           (\<lambda>r. r\<lparr>pi_provider_create_fenced_at := Some moment\<rparr>)))
        (andthen commit
        (bind (in_db (lock_payment_intent i)) (\<lambda>locked.
         andthen (lift (validate_provider_route locked prov))
        (if is_terminal (pi_state locked) then
           andthen (in_db (complete_event event (Some moment))) (ret (DispatchResult (pi_state locked) False False))
         else
           andthen (in_db (verify_intent_authorization_before_provider_io cfg i event moment))
           (ask_provider prov i event moment)))))
       else ask_provider prov i event moment)))))"

section \<open>Every step of it is a payment step\<close>

context settlement_order
begin

lemma keeps_or_mismatch: "keeps P m \<Longrightarrow> keeps P (or_mismatch m)"
  unfolding or_mismatch_def by (intro keeps_adopting settlement_intros)

lemma keeps_audit_reconcile: "keeps P (audit_reconcile_retry intent event retried reason phase)"
  unfolding audit_reconcile_retry_def by (rule keeps_payment_audit)

lemma keeps_lookup_failed: "keeps P (reconcile_lookup_failed i event e current now)"
  unfolding reconcile_lookup_failed_def Let_def
  by (intro settlement_intros keeps_remember_ambiguity keeps_audit_reconcile)

lemma keeps_ambiguous: "keeps P (reconcile_ambiguous i event payment current now)"
  unfolding reconcile_ambiguous_def by (intro settlement_intros keeps_remember_ambiguity)

lemma keeps_linked_missing: "keeps P (reconcile_linked_missing i event pid current now)"
  unfolding reconcile_linked_missing_def by (intro settlement_intros keeps_audit_reconcile)

lemma keeps_fenced_missing: "keeps P (reconcile_fenced_missing i event current now)"
  unfolding reconcile_fenced_missing_def
  by (intro settlement_intros keeps_audit_reconcile write_intent) (auto intro: evolves_notes)

lemma keeps_no_payment: "keeps P (resolve_no_provider_payment i event now current)"
  unfolding resolve_no_provider_payment_def
proof (intro settlement_intros write_intent, goal_cases)
  case (1 intent r r')
  then show ?case
    by (auto simp: intent_evolves_def created_for_def assert_payment_transition_def can_transition_def
        split: if_splits intro: payment_table.moves_step)
qed

lemma keeps_mismatch: "keeps P (reconcile_mismatch i event detail current now)"
  unfolding reconcile_mismatch_def by (intro settlement_intros keeps_audit_reconcile)

lemma keeps_settle: "keeps P (reconcile_settle i event payment st now)"
  unfolding reconcile_settle_def by (intro settlement_intros)

lemma keeps_found: "keeps P (reconcile_found i event payment current now)"
  unfolding reconcile_found_def Let_def
  by (intro settlement_intros keeps_or_mismatch keeps_sum keeps_mismatch keeps_settle keeps_record_attempt
      keeps_apply_provider_payment)

lemma keeps_answer: "keeps P (reconcile_answer idempotent i event answer current now)"
  unfolding reconcile_answer_def
  by (intro settlement_intros keeps_sum keeps_lookup_failed keeps_ambiguous keeps_linked_missing keeps_fenced_missing
      keeps_no_payment keeps_found)

lemma keeps_ask: "keeps (carries P) (ask_provider prov i event now)"
  unfolding ask_provider_def by (intro job_intros keeps_in_db keeps_read_intent keeps_try_get keeps_answer)

lemma keeps_reconcile: "keeps (carries P) (reconcile_intent cfg' caps prov i event now)"
  unfolding reconcile_intent_def
  by (intro job_intros keeps_in_db keeps_lock_payment_intent keeps_moment_of keeps_complete keeps_verify_before_io
      write_intents keeps_commit keeps_ask)
    (simp add: intent_evolves_def created_for_def)

end

end
