(* ===== verification/Webhooks.thy ===== *)
theory Webhooks
  imports Reconciliation
begin

text \<open>
  Webhook deliveries (\<^verbatim>\<open>services/payment_executor/webhooks.py\<close>): verify, resolve the payment from
  server-side state, deduplicate on the UNIQUE index, and apply only what the state machine
  permits. The verification of the MAC belongs to the provider and is a parameter.
\<close>

section \<open>Operations\<close>

record webhook_outcome =
  wo_accepted :: bool
  wo_applied :: bool
  wo_reason_code :: "string option"
  wo_state :: "payment_state option"
  wo_payment_intent_id :: "uuid option"

definition find_linked_intent :: "string \<Rightarrow> string \<Rightarrow> world \<Rightarrow> payment_intent_row option" where
  "find_linked_intent provider pid w =
     find_row (\<lambda>r. pi_provider r = provider \<and> pi_provider_payment_id r = Some pid) (w_payment_intents w)"

definition evidence_mismatches :: "payment_intent_row \<Rightarrow> verified_webhook_event \<Rightarrow> string list" where
  "evidence_mismatches intent event =
     (if we_amount_inr event \<noteq> None \<and> we_amount_inr event \<noteq> Some (pi_amount_inr intent) then [''amount''] else [])
   @ (if we_currency event \<noteq> None \<and> we_currency event \<noteq> Some (pi_currency intent) then [''currency''] else [])
   @ (if we_provider_order_id event \<noteq> None \<and> pi_provider_order_id intent \<noteq> None
        \<and> we_provider_order_id event \<noteq> pi_provider_order_id intent then [''provider_order_id''] else [])
   @ (if webhook_type_to_state (we_event_type event) = P_SUCCEEDED \<and> pi_provider_transaction_id intent \<noteq> None
        \<and> we_provider_transaction_id event \<noteq> pi_provider_transaction_id intent
      then [''provider_transaction_id''] else [])"

definition store_provider_evidence ::
  "verified_webhook_event \<Rightarrow> payment_state \<Rightarrow> payment_intent_row \<Rightarrow> payment_intent_row" where
  "store_provider_evidence event target r = r\<lparr>
     pi_provider_order_id := (if we_provider_order_id event \<noteq> None \<and> pi_provider_order_id r = None
       then we_provider_order_id event else pi_provider_order_id r),
     pi_provider_transaction_id := (if target = P_SUCCEEDED \<and> we_provider_transaction_id event \<noteq> None
       then we_provider_transaction_id event else pi_provider_transaction_id r),
     pi_provider_status := (case we_provider_status event of None \<Rightarrow> pi_provider_status r | Some s \<Rightarrow> Some s),
     pi_provider_attempts := (case we_provider_attempts event of None \<Rightarrow> pi_provider_attempts r
       | Some n \<Rightarrow> Some (max (case pi_provider_attempts r of None \<Rightarrow> 0 | Some k \<Rightarrow> k) n))\<rparr>"

definition outcome_of :: "bool \<Rightarrow> string option \<Rightarrow> payment_state \<Rightarrow> payment_intent_row \<Rightarrow> webhook_outcome" where
  "outcome_of applied reason st intent = \<lparr>wo_accepted = True, wo_applied = applied, wo_reason_code = reason,
     wo_state = Some st, wo_payment_intent_id = Some (pi_id intent)\<rparr>"

text \<open>The stored delivery is marked as processed, with the state it applied, and flushed.\<close>

definition mark_processed :: "uuid \<Rightarrow> instant \<Rightarrow> payment_state option \<Rightarrow> unit db" where
  "mark_processed stored moment applied =
     andthen (set_webhook stored (\<lambda>r. r\<lparr>wh_processed_at := Some moment, wh_applied_state := applied\<rparr>)) flush_intents"

definition webhook_evidence :: "verified_webhook_event \<Rightarrow> payload" where
  "webhook_evidence event =
     [(''provider'', JStr (we_provider event)),
      (''provider_payment_id'', JStr (we_provider_payment_id event)),
      (''provider_order_id'', jopt (we_provider_order_id event)),
      (''provider_transaction_id'', jopt (we_provider_transaction_id event)),
      (''provider_status'', jopt (we_provider_status event)),
      (''provider_attempts'', jint (we_provider_attempts event)),
      (''provider_event_id'', JStr (we_provider_event_id event)),
      (''source'', JStr ''webhook'')]"

definition attempt_failed_reason :: "verified_webhook_event \<Rightarrow> string option" where
  "attempt_failed_reason event = (if we_event_type event = W_PAYMENT_ATTEMPT_FAILED
     then Some (reason_text R_PROVIDER_PAYMENT_ATTEMPT_FAILED) else None)"

text \<open>Step 4: apply only what the state machine permits.\<close>

definition apply_webhook :: "payment_intent_row \<Rightarrow> verified_webhook_event \<Rightarrow> uuid \<Rightarrow> instant \<Rightarrow> webhook_outcome db" where
  "apply_webhook intent event stored moment =
     (let i = pi_id intent; current = pi_state intent; target = webhook_type_to_state (we_event_type event) in
      if pi_provider_ambiguity_observed_at intent \<noteq> None then
        andthen (modify_intent i (\<lambda>r. Inr (r\<lparr>pi_last_reason_code := Some (reason_text R_PROVIDER_AMBIGUITY)\<rparr>)))
       (andthen (payment_audit (pi_mission_id intent) E_PAYMENT_PROVIDER_UNCERTAIN
          [(''payment_intent_id'', JStr (uuid_str i)), (''state'', JStr (payment_text current)),
           (''provider'', JStr (we_provider event)), (''provider_event_id'', JStr (we_provider_event_id event)),
           (''provider_ambiguity_observed'', JBool True), (''webhook_applied'', JBool False),
           (''manual_recovery_required'', JBool True), (''reason_code'', JStr (reason_text R_PROVIDER_AMBIGUITY))])
       (andthen (mark_processed stored moment None)
       (ret (outcome_of False (Some (reason_text R_PROVIDER_AMBIGUITY)) current intent))))
      else if current = target \<or> is_terminal current \<or> \<not> can_transition current target then
        if current = target \<and> current = P_PROVIDER_PENDING then
          andthen (modify_intent i (\<lambda>r. Inr ((store_provider_evidence event target r)
            \<lparr>pi_last_reason_code := attempt_failed_reason event\<rparr>)))
         (andthen (payment_audit (pi_mission_id intent) E_PAYMENT_PROVIDER_UNCERTAIN
            (dict_merge [(''payment_intent_id'', JStr (uuid_str i)), (''state'', JStr (payment_text current))]
              (webhook_evidence event @ [(''reason_code'', jopt (attempt_failed_reason event))])))
         (andthen (mark_processed stored moment (Some current))
         (ret (outcome_of False (attempt_failed_reason event) current intent))))
        else
          andthen (payment_audit (pi_mission_id intent) E_WEBHOOK_OUT_OF_ORDER_IGNORED
            [(''payment_intent_id'', JStr (uuid_str i)),
             (''reason_code'', JStr (reason_text R_ILLEGAL_PAYMENT_TRANSITION)),
             (''provider_event_id'', JStr (we_provider_event_id event)),
             (''current_state'', JStr (payment_text current)), (''requested_state'', JStr (payment_text target)),
             (''terminal'', JBool (is_terminal current))])
         (andthen (mark_processed stored moment None)
         (ret (outcome_of False (Some (reason_text R_ILLEGAL_PAYMENT_TRANSITION)) current intent)))
      else
        andthen (modify_intent i (\<lambda>r. Inr (store_provider_evidence event target r)))
       (andthen (apply_payment_transition i target
          (if target = P_SUCCEEDED then E_PAYMENT_SUCCEEDED
           else if target = P_FAILED_TERMINAL then E_PAYMENT_FAILED else E_PAYMENT_PROVIDER_UNCERTAIN)
          (webhook_evidence event) (attempt_failed_reason event))
       (andthen (if target = P_SUCCEEDED then apply_mission_state (pi_mission_id intent) M_PAYMENT_SUCCEEDED
          else if target = P_FAILED_TERMINAL then apply_mission_state (pi_mission_id intent) M_PAYMENT_FAILED
          else ret ())
       (andthen (mark_processed stored moment (Some target))
       (ret (outcome_of True None target intent))))))"

text \<open>Step 3: the UNIQUE index decides whether the delivery is new.\<close>

definition stored_delivery :: "uuid \<Rightarrow> verified_webhook_event \<Rightarrow> payment_intent_row \<Rightarrow> instant \<Rightarrow> webhook_event_row" where
  "stored_delivery i event intent moment = \<lparr>wh_id = i, wh_provider = we_provider event,
     wh_provider_event_id = we_provider_event_id event, wh_event_type = we_event_type event,
     wh_provider_payment_id = we_provider_payment_id event,
     wh_provider_transaction_id = we_provider_transaction_id event, wh_payment_intent_id = Some (pi_id intent),
     wh_sequence = we_sequence event, wh_received_at = moment, wh_processed_at = None, wh_applied_state = None\<rparr>"

definition deliver_webhook :: "payment_intent_row \<Rightarrow> verified_webhook_event \<Rightarrow> instant \<Rightarrow> webhook_outcome db" where
  "deliver_webhook intent event moment =
     bind uuid4 (\<lambda>stored.
     bind (catch (bind (begin_nested (insert_webhook_event (stored_delivery stored event intent moment))) (\<lambda>_. ret True))
       (\<lambda>e. case e of IntegrityError _ \<Rightarrow> ret False | _ \<Rightarrow> raise e)) (\<lambda>new.
     if \<not> new then
       andthen (payment_audit (pi_mission_id intent) E_DUPLICATE_WEBHOOK_IGNORED
         [(''payment_intent_id'', JStr (uuid_str (pi_id intent))),
          (''reason_code'', JStr (reason_text R_WEBHOOK_DUPLICATE)),
          (''provider_event_id'', JStr (we_provider_event_id event)),
          (''state'', JStr (payment_text (pi_state intent)))])
       (ret (outcome_of False (Some (reason_text R_WEBHOOK_DUPLICATE)) (pi_state intent) intent))
     else
       andthen (payment_audit (pi_mission_id intent) E_WEBHOOK_VERIFIED
         [(''payment_intent_id'', JStr (uuid_str (pi_id intent))),
          (''provider'', JStr (we_provider event)),
          (''provider_event_id'', JStr (we_provider_event_id event)),
          (''event_type'', JStr (webhook_text (we_event_type event))),
          (''sequence'', jint (we_sequence event)),
          (''provider_order_id'', jopt (we_provider_order_id event)),
          (''provider_transaction_id'', jopt (we_provider_transaction_id event)),
          (''provider_status'', jopt (we_provider_status event)),
          (''provider_attempts'', jint (we_provider_attempts event))])
       (apply_webhook intent event stored moment)))"

definition handle_webhook :: "'p payment_provider \<Rightarrow> string \<Rightarrow> string \<Rightarrow> string option \<Rightarrow> instant option
    \<Rightarrow> webhook_outcome db" where
  "handle_webhook prov body signature provider_event_id now =
     bind (moment_of now) (\<lambda>moment.
     bind (lift (case pv_verify_webhook prov body signature provider_event_id of
         Inl (WebhookVerificationError reason) \<Rightarrow> Inl (WebhookRejected reason)
       | Inl e \<Rightarrow> Inl e | Inr event \<Rightarrow> Inr event)) (\<lambda>event.
     andthen (guardE (we_provider event = pv_name prov) (WebhookRejected (reason_text R_PROVIDER_RESPONSE_MISMATCH)))
    (bind (gets (find_linked_intent (we_provider event) (we_provider_payment_id event))) (\<lambda>found. case found of
       None \<Rightarrow> raise (WebhookRejected (reason_text R_WEBHOOK_UNKNOWN_PAYMENT))
     | Some intent \<Rightarrow>
       andthen (guardE (evidence_mismatches intent event = []) (WebhookRejected (reason_text R_PROVIDER_RESPONSE_MISMATCH)))
       (deliver_webhook intent event moment)))))"

section \<open>Every step of it is a payment step\<close>

lemma evidence_evolves:
  assumes "evidence_mismatches r event = []"
  shows "intent_evolves r (store_provider_evidence event (webhook_type_to_state (we_event_type event)) r)"
    and "intent_evolves r ((store_provider_evidence event (webhook_type_to_state (we_event_type event)) r)\<lparr>pi_last_reason_code := c\<rparr>)"
  using assms
  by (auto simp: evidence_mismatches_def store_provider_evidence_def intent_evolves_def created_for_def once_def
      split: if_splits)

text \<open>Until it writes the intent, a delivery leaves the intents as they are.\<close>

lemma audit_intents: "payment_audit m t p w = (r, w') \<Longrightarrow> w_payment_intents w' = w_payment_intents w"
  by (drule payment_audit_tables) (simp add: payment_tables_def)

lemma insert_webhook_intents:
  "begin_nested (insert_webhook_event row) w = (r, w') \<Longrightarrow> w_payment_intents w' = w_payment_intents w"
  by (auto simp: begin_nested_def insert_webhook_event_eq restore_tables_def split: if_splits)

text \<open>A step from one given state.\<close>

definition keeps_at :: "('s \<Rightarrow> 's \<Rightarrow> bool) \<Rightarrow> 's \<Rightarrow> ('s, 'e, 'a) session \<Rightarrow> bool" where
  "keeps_at Q s m \<longleftrightarrow> Q s (snd (m s))"

context settlement_order
begin

lemma at_bind:
  assumes "keeps_at P s m" and "\<And>x t. m s = (Inr x, t) \<Longrightarrow> keeps_at P t (f x)"
  shows "keeps_at P s (bind m f)"
  using assms trans unfolding keeps_at_def by (cases "m s"; cases "fst (m s)") (auto simp: bind_def)

lemma at_andthen:
  assumes "keeps_at P s m" and "\<And>x t. m s = (Inr x, t) \<Longrightarrow> keeps_at P t k"
  shows "keeps_at P s (andthen m k)"
  unfolding andthen_def using assms by (rule at_bind)

lemma at_keeps: "keeps P m \<Longrightarrow> keeps_at P s m"
  by (simp add: keeps_def keeps_at_def)

lemma at_andthen_keeps: "keeps_at P s m \<Longrightarrow> keeps P k \<Longrightarrow> keeps_at P s (andthen m k)"
  by (erule at_andthen) (rule at_keeps)

lemma at_if: "(c \<Longrightarrow> keeps_at P s m) \<Longrightarrow> (\<not> c \<Longrightarrow> keeps_at P s k) \<Longrightarrow> keeps_at P s (if c then m else k)"
  by simp

lemma keeps_mark_processed: "keeps P (mark_processed stored moment applied)"
  unfolding mark_processed_def by (intro settlement_intros write_webhook) (simp add: delivery_key_def)

lemma at_apply_webhook:
  assumes here: "find_intent (pi_id intent) s = Some intent" and ok: "evidence_mismatches intent event = []"
  shows "keeps_at P s (apply_webhook intent event stored moment)"
proof -
  have w: "keeps_at P s (modify_intent (pi_id intent) (\<lambda>r. Inr (f r)))" if "intent_evolves intent (f intent)" for f
    unfolding keeps_at_def using that here by (intro write_intent_at) auto
  note ev = evidence_evolves [OF ok]
  show ?thesis unfolding apply_webhook_def Let_def
    by (intro at_if at_andthen_keeps [OF w] ev evolves_notes(2))
      (intro at_keeps settlement_intros keeps_mark_processed)+
qed

lemma at_deliver_webhook:
  assumes here: "find_intent (pi_id intent) s = Some intent" and ok: "evidence_mismatches intent event = []"
  shows "keeps_at P s (deliver_webhook intent event moment)"
  unfolding deliver_webhook_def
proof (rule at_bind [OF at_keeps [OF ids]], goal_cases)
  case (1 stored t)
  then have t: "w_payment_intents t = w_payment_intents s" by (auto simp: uuid4_def)
  let ?insert = "catch (bind (begin_nested (insert_webhook_event (stored_delivery stored event intent moment))) (\<lambda>_. ret True))
      (\<lambda>e. case e of IntegrityError _ \<Rightarrow> ret False | _ \<Rightarrow> raise e)"
  have k: "keeps P ?insert"
    by (intro keeps_catch keeps_bind keeps_begin_nested new_webhook keeps_ret) (auto intro!: settlement_intros split: exn.split)
  show ?case
  proof (rule at_bind [OF at_keeps [OF k]], goal_cases)
    case (1 new u)
    then have u: "w_payment_intents u = w_payment_intents s"
      using t insert_webhook_intents [of "stored_delivery stored event intent moment" t]
      by (auto simp: catch_def bind_def ret_def raise_def split: prod.splits sum.splits exn.splits)
    have "keeps_at P u (andthen (payment_audit m' ty body) (apply_webhook intent event stored moment))" for m' ty body
    proof (rule at_andthen [OF at_keeps [OF keeps_payment_audit]])
      fix x v assume "payment_audit m' ty body u = (Inr x, v)"
      from audit_intents [OF this] u here have "find_intent (pi_id intent) v = Some intent" by (simp add: find_intent_def)
      from at_apply_webhook [OF this ok] show "keeps_at P v (apply_webhook intent event stored moment)" .
    qed
    moreover have "keeps_at P u (andthen (payment_audit m' ty body) (ret oc))" for m' ty body and oc :: webhook_outcome
      by (intro at_keeps settlement_intros)
    ultimately show ?case by simp
  qed
qed

lemma at_handle_webhook:
  assumes k: "keyed pi_id (w_payment_intents s)"
  shows "keeps_at P s (handle_webhook prov body sig eid now)"
  unfolding handle_webhook_def
proof (rule at_bind [OF at_keeps [OF keeps_moment_of]], rule at_bind [OF at_keeps [OF keeps_lift]],
    rule at_andthen [OF at_keeps [OF keeps_guardE]], rule at_bind [OF at_keeps [OF keeps_gets]], goal_cases)
  case (1 moment t event u x v found v')
  then have tabs: "w_payment_intents v = w_payment_intents s" "v' = v"
    and found: "found = find_linked_intent (we_provider event) (we_provider_payment_id event) v"
    by (auto simp: lift_eq_Inr_iff guardE_eq_Inr_iff gets_eq_Inr_iff dest!: moment_of_tables)
      (auto simp: payment_tables_def)
  show ?case
  proof (cases found)
    case None
    then show ?thesis by (simp add: at_keeps [OF keeps_raise])
  next
    case (Some intent)
    with found tabs have "find_row (\<lambda>r. pi_provider r = we_provider event
        \<and> pi_provider_payment_id r = Some (we_provider_payment_id event)) (w_payment_intents s) = Some intent"
      by (simp add: find_linked_intent_def)
    from find_row_SomeD [OF this] have "intent \<in> set (w_payment_intents s)" by blast
    with k tabs have here: "find_intent (pi_id intent) v = Some intent" by (simp add: find_intent_def find_row_key)
    have "keeps_at P v (andthen (guardE (evidence_mismatches intent event = []) e) (deliver_webhook intent event moment))" for e
      by (rule at_andthen [OF at_keeps [OF keeps_guardE]])
        (use at_deliver_webhook [OF here] in \<open>auto simp: guardE_eq_Inr_iff\<close>)
    with Some tabs show ?thesis by simp
  qed
qed

end

section \<open>A provider event is applied at most once\<close>

definition delivered :: "world \<Rightarrow> (string \<times> string) set" where
  "delivered w = set (map delivery_key (w_webhook_events w))"

interpretation deliveries: payment_order "\<lambda>w w'. delivered w \<subseteq> delivered w'" cfg for cfg
proof unfold_locales
  show "keeps (\<lambda>w w'. delivered w \<subseteq> delivered w') (set_webhook wi whf)"
    if "\<And>r. delivery_key (whf r) = delivery_key r" for wi whf
    using that by (simp only: keeps_def set_webhook_eq delivered_def) (simp del: set_map)
  show "delivered s \<subseteq> delivered (restore_tables s s')" for s s' by (simp add: delivered_def restore_tables_def)
qed (auto simp: keeps_def payment_eqs delivered_def split: option.split sum.split)

text \<open>The insert in its savepoint: it stores the delivery, or the tables are as they were.\<close>

lemma store_delivery:
  assumes "catch (bind (begin_nested (insert_webhook_event row)) (\<lambda>_. ret True))
      (\<lambda>e. case e of IntegrityError _ \<Rightarrow> ret False | _ \<Rightarrow> raise e) w = (Inr new, w')"
  shows "(new \<longrightarrow> delivery_key row \<in> delivered w' \<and> delivery_key row \<notin> delivered w)
    \<and> (\<not> new \<longrightarrow> payment_tables w' = payment_tables w)"
  using assms
  by (auto simp: catch_def bind_def ret_def raise_def begin_nested_def insert_webhook_event_eq delivered_def
      keyed_append_one restore_payment_tables split: if_splits)

lemma delivery_key_stored [simp]:
  "delivery_key (stored_delivery i event intent t) = (we_provider event, we_provider_event_id event)"
  by (simp add: delivery_key_def stored_delivery_def)

lemma apply_webhook_delivered:
  assumes "find_intent (pi_id intent) s = Some intent" "evidence_mismatches intent event = []"
    and "apply_webhook intent event stored moment s = (r, t)"
  shows "delivered s \<subseteq> delivered t"
  using deliveries.at_apply_webhook [OF assms(1,2), of stored moment] assms(3) by (simp add: keeps_at_def)

lemma deliver_outcome:
  assumes run: "deliver_webhook intent event moment w = (Inr oc, w')"
    and here: "find_intent (pi_id intent) w = Some intent" and ok: "evidence_mismatches intent event = []"
  shows "if (we_provider event, we_provider_event_id event) \<in> delivered w
    then \<not> wo_applied oc \<and> payment_tables w' = payment_tables w
    else wo_applied oc \<longrightarrow> (we_provider event, we_provider_event_id event) \<in> delivered w'"
proof -
  from run obtain stored w1 new w2 where w1: "uuid4 w = (Inr stored, w1)"
    and ins: "catch (bind (begin_nested (insert_webhook_event (stored_delivery stored event intent moment))) (\<lambda>_. ret True))
      (\<lambda>e. case e of IntegrityError _ \<Rightarrow> ret False | _ \<Rightarrow> raise e) w1 = (Inr new, w2)"
    and rest: "(if \<not> new then
       andthen (payment_audit (pi_mission_id intent) E_DUPLICATE_WEBHOOK_IGNORED
         [(''payment_intent_id'', JStr (uuid_str (pi_id intent))),
          (''reason_code'', JStr (reason_text R_WEBHOOK_DUPLICATE)),
          (''provider_event_id'', JStr (we_provider_event_id event)),
          (''state'', JStr (payment_text (pi_state intent)))])
       (ret (outcome_of False (Some (reason_text R_WEBHOOK_DUPLICATE)) (pi_state intent) intent))
     else
       andthen (payment_audit (pi_mission_id intent) E_WEBHOOK_VERIFIED
         [(''payment_intent_id'', JStr (uuid_str (pi_id intent))),
          (''provider'', JStr (we_provider event)),
          (''provider_event_id'', JStr (we_provider_event_id event)),
          (''event_type'', JStr (webhook_text (we_event_type event))),
          (''sequence'', jint (we_sequence event)),
          (''provider_order_id'', jopt (we_provider_order_id event)),
          (''provider_transaction_id'', jopt (we_provider_transaction_id event)),
          (''provider_status'', jopt (we_provider_status event)),
          (''provider_attempts'', jint (we_provider_attempts event))])
       (apply_webhook intent event stored moment)) w2 = (Inr oc, w')"
    unfolding deliver_webhook_def bind_eq_Inr_iff by blast
  have t1: "payment_tables w1 = payment_tables w" using uuid4_tables [OF w1] .
  then have d1: "delivered w1 = delivered w" by (simp add: payment_tables_def delivered_def)
  note st = store_delivery [OF ins]
  show ?thesis
  proof (cases new)
    case False
    then have "payment_tables w' = payment_tables w2" "\<not> wo_applied oc"
      using rest by (auto simp: session_Inr_iffs outcome_of_def dest!: payment_audit_tables)
    with False st t1 show ?thesis by simp
  next
    case True
    with rest obtain m t p x u where a: "payment_audit m t p w2 = (Inr x, u)"
      and ap: "apply_webhook intent event stored moment u = (Inr oc, w')" by (auto simp: andthen_eq_Inr_iff)
    have "begin_nested (insert_webhook_event (stored_delivery stored event intent moment)) w1 = (Inr (), w2)"
      using ins True by (auto simp: catch_def bind_def ret_def raise_def split: prod.splits sum.splits exn.splits)
    from audit_intents [OF a] insert_webhook_intents [OF this] t1 here
    have "find_intent (pi_id intent) u = Some intent" by (simp add: find_intent_def payment_tables_def)
    from apply_webhook_delivered [OF this ok ap] payment_audit_tables [OF a] st True d1
    show ?thesis by (auto simp: payment_tables_def delivered_def)
  qed
qed

lemma handle_outcome:
  assumes run: "handle_webhook prov body sig eid now w = (Inr oc, w')" and k: "keyed pi_id (w_payment_intents w)"
  obtains event where "pv_verify_webhook prov body sig eid = Inr event" "we_provider event = pv_name prov"
    and "if (we_provider event, we_provider_event_id event) \<in> delivered w
      then \<not> wo_applied oc \<and> payment_tables w' = payment_tables w
      else wo_applied oc \<longrightarrow> (we_provider event, we_provider_event_id event) \<in> delivered w'"
proof -
  from run obtain moment w1 event intent where w1: "moment_of now w = (Inr moment, w1)"
    and ver: "(case pv_verify_webhook prov body sig eid of Inl (WebhookVerificationError reason) \<Rightarrow> Inl (WebhookRejected reason)
       | Inl e \<Rightarrow> Inl e | Inr event \<Rightarrow> Inr event) = Inr event"
    and name: "we_provider event = pv_name prov"
    and found: "find_linked_intent (we_provider event) (we_provider_payment_id event) w1 = Some intent"
    and ok: "evidence_mismatches intent event = []"
    and del: "deliver_webhook intent event moment w1 = (Inr oc, w')"
    unfolding handle_webhook_def session_Inr_iffs or_raise_eq_Inr_iff by blast
  have t: "payment_tables w1 = payment_tables w" using moment_of_tables [OF w1] .
  from found have "intent \<in> set (w_payment_intents w1)" unfolding find_linked_intent_def by (blast dest: find_row_SomeD)
  with k t have "find_intent (pi_id intent) w1 = Some intent" by (simp add: find_intent_def find_row_key payment_tables_def)
  note out = deliver_outcome [OF del this ok]
  have d: "delivered w1 = delivered w" using t by (simp add: payment_tables_def delivered_def)
  have "pv_verify_webhook prov body sig eid = Inr event"
    using ver by (auto split: sum.splits exn.splits)
  then show ?thesis using name by (rule that) (use out d t in simp)
qed

text \<open>
  C20. A provider event is applied at most once: after a delivery that was applied, and any steps of
  the payment services, every other verified delivery of the same provider event is accepted
  without being applied and leaves the payments, the missions, the outbox, the authorizations and
  the stored deliveries as they are.
\<close>

theorem webhook_is_applied_at_most_once:
  assumes first: "handle_webhook prov body sig eid now w = (Inr oc, w')" "wo_applied oc"
    and between: "delivered w' \<subseteq> delivered v"
    and second: "handle_webhook prov body2 sig2 eid2 now2 v = (Inr oc2, v')"
    and same: "map_sum id we_provider_event_id (pv_verify_webhook prov body2 sig2 eid2)
      = map_sum id we_provider_event_id (pv_verify_webhook prov body sig eid)"
    and k: "keyed pi_id (w_payment_intents w)" "keyed pi_id (w_payment_intents v)"
  shows "\<not> wo_applied oc2 \<and> payment_tables v' = payment_tables v"
proof -
  from handle_outcome [OF first(1) k(1)] first(2) obtain event where e: "pv_verify_webhook prov body sig eid = Inr event"
    "we_provider event = pv_name prov" "(we_provider event, we_provider_event_id event) \<in> delivered w'"
    by (metis (full_types))
  from handle_outcome [OF second k(2)] obtain event2 where e2: "pv_verify_webhook prov body2 sig2 eid2 = Inr event2"
    "we_provider event2 = pv_name prov"
    and out: "if (we_provider event2, we_provider_event_id event2) \<in> delivered v
      then \<not> wo_applied oc2 \<and> payment_tables v' = payment_tables v
      else wo_applied oc2 \<longrightarrow> (we_provider event2, we_provider_event_id event2) \<in> delivered v'" by metis
  from e e2 same have "(we_provider event2, we_provider_event_id event2) = (we_provider event, we_provider_event_id event)"
    by simp
  with e(3) between out show ?thesis by auto
qed

text \<open>A provider whose webhooks verify.\<close>

definition sample_event_of :: "webhook_type \<Rightarrow> verified_webhook_event" where
  "sample_event_of t = \<lparr>we_provider = ''fake'', we_provider_event_id = ''evt_1'', we_event_type = t,
     we_provider_payment_id = ''pay_1'', we_provider_order_id = None, we_provider_transaction_id = None,
     we_amount_inr = Some 7598, we_currency = Some ''INR'', we_provider_status = None, we_provider_attempts = None,
     we_sequence = None, we_occurred_at = None\<rparr>"

definition sample_provider :: "unit payment_provider" where
  "sample_provider = \<lparr>pv_name = ''fake'', pv_create_retries_are_idempotent = False,
     pv_create_payment = (\<lambda>q p. (Inl (ProviderTimeout ''lost''), p)),
     pv_get_payment = (\<lambda>pid key p. (Inr None, p)),
     pv_verify_webhook = (\<lambda>body sig eid. if sig = ''ok'' then Inr (sample_event_of W_PAYMENT_SUCCEEDED)
       else Inl (WebhookVerificationError ''WEBHOOK_SIGNATURE_INVALID''))\<rparr>"

lemma linked_applies:
  assumes t: "w_payment_intents t = [sample_intent]" "find_mission 1 t \<noteq> None" "fresh_ids (Suc n) t"
  shows "\<exists>oc w'. apply_webhook sample_intent (sample_event_of W_PAYMENT_SUCCEEDED) stored moment t = (Inr oc, w') \<and> wo_applied oc"
proof -
  let ?r = "sample_intent\<lparr>pi_state := P_SUCCEEDED, pi_last_reason_code := None\<rparr>"
  have ev: "store_provider_evidence (sample_event_of W_PAYMENT_SUCCEEDED) P_SUCCEEDED sample_intent = sample_intent"
    "attempt_failed_reason (sample_event_of W_PAYMENT_SUCCEEDED) = None"
    "webhook_type_to_state (we_event_type (sample_event_of W_PAYMENT_SUCCEEDED)) = P_SUCCEEDED"
    by (simp_all add: store_provider_evidence_def sample_event_of_def attempt_failed_reason_def webhook_type_to_state_def)
  have tr: "can_transition P_PROVIDER_PENDING P_SUCCEEDED" "\<not> is_terminal P_PROVIDER_PENDING"
    by (simp_all add: can_transition_def ALLOWED_PAYMENT_TRANSITIONS_def is_terminal_def TERMINAL_PAYMENT_STATES_def)
  have fl: "flush_intents u = (Inr (), u)" if "w_payment_intents u = [?r]" for u
    using that by (simp add: flush_intents_def db_require_def session_defs payment_intents_unique_def keyed_def somes_def
        payment_intent_checks_def)
  have "fresh_ids (Suc n) (t\<lparr>w_payment_intents := [?r]\<rparr>)"
    by (rule fresh_ids_cong [THEN iffD2, OF _ _ _ _ _ t(3)]) (simp_all add: t)
  moreover have "find_mission 1 (t\<lparr>w_payment_intents := [?r]\<rparr>) \<noteq> None" using t(2) by (simp add: find_mission_def)
  ultimately have a: "payment_audit 1 ty body (t\<lparr>w_payment_intents := [?r]\<rparr>)
      = (Inr (), audited 1 ty EXECUTOR_ACTOR body (t\<lparr>w_payment_intents := [?r]\<rparr>))" for ty body
    by (rule fresh_audit)
  have ai: "w_payment_intents (audited m ty ac body u) = w_payment_intents u" for m ty ac body u
    by (simp add: audited_def draw_def)
  have same: "t\<lparr>w_payment_intents := [sample_intent]\<rparr> = t" using t(1) by (cases t) simp
  have m1: "modify_intent 50 (\<lambda>r. Inr (store_provider_evidence (sample_event_of W_PAYMENT_SUCCEEDED) P_SUCCEEDED r)) t
      = (Inr sample_intent, t)"
    using t(1) same by (simp add: modify_intent_eq find_intent_def find_row_def ev update_where_def)
  have m2: "apply_payment_transition 50 P_SUCCEEDED ty body None t = (Inr (), audited 1 ty EXECUTOR_ACTOR
      (dict_put (dict_merge [(''payment_intent_id'', JStr (uuid_str 50)), (''state'', JStr (payment_text P_SUCCEEDED))] body)
        ''reason_code'' (jopt None)) (t\<lparr>w_payment_intents := [?r]\<rparr>))" for ty body
    using t(1) by (simp add: apply_payment_transition_def modify_intent_eq find_intent_def find_row_def update_where_def
        assert_payment_transition_def tr andthen_def bind_def fl a)
  show ?thesis
    by (simp add: apply_webhook_def Let_def ev tr m1 m2 andthen_def bind_def apply_mission_state_eq mark_processed_def
        set_webhook_eq fl ai ret_def outcome_of_def split: option.split)
qed

lemma linked_delivery:
  "\<exists>oc w'. handle_webhook sample_provider body ''ok'' eid (Some 5) linked_world = (Inr oc, w') \<and> wo_applied oc"
proof -
  define w2 where "w2 = linked_world\<lparr>w_uuid_idx := Suc 0,
    w_webhook_events := [stored_delivery 100 (sample_event_of W_PAYMENT_SUCCEEDED) sample_intent 5]\<rparr>"
  have "find_mission 1 w2 \<noteq> None" by (simp add: w2_def find_mission_def find_row_def sample_mission_def)
  moreover have "fresh_ids (Suc (Suc 0)) w2"
    by (simp add: w2_def fresh_ids_def used_ids_def keyed_def inj_on_def atLeastLessThanSuc)
  ultimately have a: "payment_audit 1 t p w2 = (Inr (), audited 1 t EXECUTOR_ACTOR p w2)"
    "fresh_ids (Suc 0) (audited 1 t EXECUTOR_ACTOR p w2)" "find_mission 1 (audited 1 t EXECUTOR_ACTOR p w2) \<noteq> None" for t p
    by (simp_all add: fresh_audit fresh_audited(3))
  have "w_payment_intents (audited 1 t EXECUTOR_ACTOR p w2) = [sample_intent]" for t p
    by (simp add: w2_def audited_def draw_def)
  note run = linked_applies [OF this a(3,2), of 100 5 E_WEBHOOK_VERIFIED]
  have "insert_webhook_event (stored_delivery 100 (sample_event_of W_PAYMENT_SUCCEEDED) sample_intent 5)
      (linked_world\<lparr>w_uuid_idx := Suc 0\<rparr>) = (Inr (), w2)"
    by (simp add: insert_webhook_event_eq stored_delivery_def find_intent_def find_row_def keyed_def w2_def)
  then have "deliver_webhook sample_intent (sample_event_of W_PAYMENT_SUCCEEDED) 5 linked_world
      = apply_webhook sample_intent (sample_event_of W_PAYMENT_SUCCEEDED) 100 5 (audited 1 E_WEBHOOK_VERIFIED EXECUTOR_ACTOR
        [(''payment_intent_id'', JStr (uuid_str 50)), (''provider'', JStr ''fake''), (''provider_event_id'', JStr ''evt_1''),
         (''event_type'', JStr (webhook_text W_PAYMENT_SUCCEEDED)), (''sequence'', jint None), (''provider_order_id'', jopt None),
         (''provider_transaction_id'', jopt None), (''provider_status'', jopt None), (''provider_attempts'', jint None)] w2)"
    by (simp add: deliver_webhook_def uuid4_def bind_def catch_def begin_nested_def ret_def andthen_def a)
      (simp add: sample_event_of_def a)
  moreover have "handle_webhook sample_provider body ''ok'' eid (Some 5) linked_world
      = deliver_webhook sample_intent (sample_event_of W_PAYMENT_SUCCEEDED) 5 linked_world"
    by (simp add: handle_webhook_def moment_of_def session_defs sample_provider_def find_linked_intent_def find_row_def
        evidence_mismatches_def) (simp add: sample_event_of_def)
  ultimately show ?thesis using run by metis
qed

lemma linked_duplicate:
  assumes "(''fake'', ''evt_1'') \<in> set (map delivery_key rows)"
  shows "\<exists>oc v'. handle_webhook sample_provider body ''ok'' eid (Some 5) (linked_world\<lparr>w_webhook_events := rows\<rparr>) = (Inr oc, v')"
proof -
  define v where "v = linked_world\<lparr>w_uuid_idx := Suc 0, w_webhook_events := rows\<rparr>"
  have u: "uuid4 (linked_world\<lparr>w_webhook_events := rows\<rparr>) = (Inr 100, v)" by (simp add: uuid4_def v_def)
  have "fresh_ids (Suc 0) (restore_tables v v)" "find_mission 1 (restore_tables v v) \<noteq> None"
    by (simp_all add: v_def fresh_ids_def used_ids_def keyed_def restore_tables_def find_mission_def find_row_def sample_mission_def)
  from fresh_audit [OF this] have a: "payment_audit 1 t p (restore_tables v v)
      = (Inr (), audited 1 t EXECUTOR_ACTOR p (restore_tables v v))" for t p .
  have "\<exists>c. insert_webhook_event (stored_delivery 100 (sample_event_of W_PAYMENT_SUCCEEDED) sample_intent 5) v
      = (Inl (IntegrityError c), v)"
    using assms by (auto simp: insert_webhook_event_eq v_def keyed_append_one stored_delivery_def sample_event_of_def
        delivery_key_def)
  then have "\<exists>oc v'. deliver_webhook sample_intent (sample_event_of W_PAYMENT_SUCCEEDED) 5
      (linked_world\<lparr>w_webhook_events := rows\<rparr>) = (Inr oc, v')"
    by (auto simp: deliver_webhook_def u bind_def catch_def begin_nested_def ret_def andthen_def a)
  moreover have "handle_webhook sample_provider body ''ok'' eid (Some 5) (linked_world\<lparr>w_webhook_events := rows\<rparr>)
      = deliver_webhook sample_intent (sample_event_of W_PAYMENT_SUCCEEDED) 5 (linked_world\<lparr>w_webhook_events := rows\<rparr>)"
    by (simp add: handle_webhook_def moment_of_def session_defs sample_provider_def find_linked_intent_def find_row_def
        evidence_mismatches_def) (simp add: sample_event_of_def)
  ultimately show ?thesis by simp
qed

theorem webhook_is_applied_at_most_once_witness:
  "\<exists>oc w' oc2 v v'. handle_webhook sample_provider ''b'' ''ok'' None (Some 5) linked_world = (Inr oc, w') \<and> wo_applied oc
    \<and> handle_webhook sample_provider ''b'' ''ok'' None (Some 5) v = (Inr oc2, v')
    \<and> \<not> wo_applied oc2 \<and> payment_tables v' = payment_tables v"
proof -
  obtain oc w' where first: "handle_webhook sample_provider ''b'' ''ok'' None (Some 5) linked_world = (Inr oc, w')"
    "wo_applied oc" using linked_delivery by blast
  have k: "keyed pi_id (w_payment_intents linked_world)" by (simp add: keyed_def)
  define v where "v = linked_world\<lparr>w_webhook_events := w_webhook_events w'\<rparr>"
  have d: "delivered w' \<subseteq> delivered v" by (simp add: v_def delivered_def)
  from handle_outcome [OF first(1) k] obtain event where "pv_verify_webhook sample_provider ''b'' ''ok'' None = Inr event"
    "if (we_provider event, we_provider_event_id event) \<in> delivered linked_world
      then \<not> wo_applied oc \<and> payment_tables w' = payment_tables linked_world
      else wo_applied oc \<longrightarrow> (we_provider event, we_provider_event_id event) \<in> delivered w'" by metis
  with first(2) have "(''fake'', ''evt_1'') \<in> delivered w'"
    by (auto simp: sample_provider_def sample_event_of_def split: if_splits)
  then have "(''fake'', ''evt_1'') \<in> set (map delivery_key (w_webhook_events w'))" by (simp add: delivered_def)
  from linked_duplicate [OF this, of "''b''" None] obtain oc2 v' where second: "handle_webhook sample_provider ''b'' ''ok'' None (Some 5) v
      = (Inr oc2, v')" by (auto simp: v_def)
  have kv: "keyed pi_id (w_payment_intents v)" by (simp add: v_def keyed_def)
  from webhook_is_applied_at_most_once [OF first d second _ k kv] first second show ?thesis by blast
qed

end
