(* ===== verification/Worker.thy ===== *)
theory Worker
  imports Webhooks
begin

text \<open>
  The outbox worker (\<^verbatim>\<open>services/payment_executor/worker.py\<close>): claim an event in one transaction,
  handle it in another, and return it to the queue in a third when the handler raised. A session
  that is left by an exception is rolled back. The text of an exception is a parameter.
\<close>

section \<open>Operations\<close>

definition EXECUTOR_PRINCIPAL :: string where
  "EXECUTOR_PRINCIPAL = ''payment-executor''"

record worker_outcome =
  wr_event_id :: "uuid option"
  wr_event_type :: "outbox_event_type option"
  wr_result :: "dispatch_result option"

definition executor_capabilities :: capability_set where
  "executor_capabilities = capabilities_for EXECUTOR_PRINCIPAL"

definition process_claimed_event :: "approver \<Rightarrow> 'p payment_provider \<Rightarrow> outbox_event_row \<Rightarrow> capability_set option
    \<Rightarrow> instant option \<Rightarrow> ('p, dispatch_result) job" where
  "process_claimed_event cfg prov event capabilities now =
     (let caps = (case capabilities of None \<Rightarrow> executor_capabilities | Some c \<Rightarrow> c) in
      bind (in_db (moment_of now)) (\<lambda>moment.
      bind (in_db (gets (find_intent (ob_payment_intent_id event)))) (\<lambda>found. case found of
        None \<Rightarrow> raise (ValueError ''outbox event references a missing payment intent'')
      | Some intent \<Rightarrow>
        if ob_event_type event = OE_PAYMENT_CREATE_REQUESTED
        then dispatch_create cfg caps prov (pi_id intent) event (Some moment)
        else reconcile_intent cfg caps prov (pi_id intent) event (Some moment))))"

text \<open>\<open>async with sessionmaker() as session\<close>, left by an exception.\<close>

definition session_scope :: "('p, 'a) job \<Rightarrow> ('p, 'a) job" where
  "session_scope m = catch m (\<lambda>e. andthen rollback (raise e))"

definition return_to_queue :: "uuid \<Rightarrow> string \<Rightarrow> instant \<Rightarrow> ('p, unit) job" where
  "return_to_queue event_id reason moment =
     session_scope (bind (in_db (gets (find_outbox event_id))) (\<lambda>stale.
       andthen (case stale of
           None \<Rightarrow> ret ()
         | Some event \<Rightarrow> andthen (in_db (reschedule_event event reason (Some moment) None)) (ret ()))
       commit))"

definition handle_claimed :: "approver \<Rightarrow> 'p payment_provider \<Rightarrow> (exn \<Rightarrow> string) \<Rightarrow> string \<Rightarrow> uuid \<Rightarrow> outbox_event_type
    \<Rightarrow> instant \<Rightarrow> ('p, worker_outcome) job" where
  "handle_claimed cfg prov exc_text worker_id event_id event_type moment =
     bind (session_scope (bind (in_db (gets (find_outbox event_id))) (\<lambda>found. case found of
         None \<Rightarrow> raise (ValueError ''claimed outbox event no longer exists'')
       | Some claimed_event \<Rightarrow>
         andthen (guardE (ob_claimed_by claimed_event = Some worker_id) (ValueError ''worker does not own outbox event''))
         (ret claimed_event)))) (\<lambda>claimed_event.
     catch
       (bind (process_claimed_event cfg prov claimed_event None (Some moment)) (\<lambda>result.
        andthen commit
       (ret \<lparr>wr_event_id = Some event_id, wr_event_type = Some event_type, wr_result = Some result\<rparr>)))
       (\<lambda>exc. andthen rollback (andthen (return_to_queue event_id (exc_text exc) moment) (raise exc))))"

definition run_once :: "dialect \<Rightarrow> approver \<Rightarrow> 'p payment_provider \<Rightarrow> (exn \<Rightarrow> string) \<Rightarrow> string \<Rightarrow> instant option \<Rightarrow> int
    \<Rightarrow> ('p, worker_outcome) job" where
  "run_once dialect cfg prov exc_text worker_id now lease =
     bind (in_db (moment_of now)) (\<lambda>moment.
     bind (session_scope
         (bind (in_db (claim_next_event dialect worker_id (Some moment) lease)) (\<lambda>event.
          andthen commit (ret event)))) (\<lambda>event. case event of
       None \<Rightarrow> ret \<lparr>wr_event_id = None, wr_event_type = None, wr_result = None\<rparr>
     | Some ev \<Rightarrow> handle_claimed cfg prov exc_text worker_id (ob_id ev) (ob_event_type ev) moment))"

primrec drain :: "nat \<Rightarrow> dialect \<Rightarrow> approver \<Rightarrow> 'p payment_provider \<Rightarrow> (exn \<Rightarrow> string) \<Rightarrow> string \<Rightarrow> instant option
    \<Rightarrow> ('p, worker_outcome list) job" where
  "drain 0 dialect cfg prov exc_text worker_id now = ret []"
| "drain (Suc max_events) dialect cfg prov exc_text worker_id now =
     bind (run_once dialect cfg prov exc_text worker_id now DEFAULT_LEASE) (\<lambda>outcome.
     if wr_event_id outcome = None then ret []
     else bind (drain max_events dialect cfg prov exc_text worker_id now) (\<lambda>outcomes. ret (outcome # outcomes)))"

section \<open>What a worker keeps\<close>

text \<open>
  The interface of the worker: a relation on works that its statements, the transaction
  boundaries and the two handlers keep is kept by every turn and by every drain.
\<close>

locale worker_order = session_order Q for Q :: "'p work \<Rightarrow> 'p work \<Rightarrow> bool" +
  fixes prov :: "'p payment_provider" and cfg :: approver
  assumes wk_clock: "keeps Q (in_db (moment_of now))"
    and wk_intent: "keeps Q (in_db (gets (find_intent i)))"
    and wk_event: "keeps Q (in_db (gets (find_outbox i)))"
    and wk_claim: "keeps Q (in_db (claim_next_event dialect worker now lease))"
    and wk_reschedule: "keeps Q (in_db (reschedule_event event reason now delay))"
    and wk_commit: "keeps Q commit"
    and wk_rollback: "keeps Q rollback"
    and wk_dispatch: "keeps Q (dispatch_create cfg caps prov i event now)"
    and wk_reconcile: "keeps Q (reconcile_intent cfg caps prov i event now)"
begin

lemmas worker_intros = keeps_intros wk_clock wk_intent wk_event wk_claim wk_reschedule wk_commit wk_rollback
  wk_dispatch wk_reconcile

lemma keeps_process_claimed: "keeps Q (process_claimed_event cfg prov event caps now)"
  unfolding process_claimed_event_def Let_def by (intro worker_intros)

lemma keeps_session_scope: "keeps Q m \<Longrightarrow> keeps Q (session_scope m)"
  unfolding session_scope_def by (intro worker_intros)

lemma keeps_handle_claimed: "keeps Q (handle_claimed cfg prov exc_text worker i t moment)"
  unfolding handle_claimed_def return_to_queue_def
  by (intro worker_intros keeps_session_scope keeps_process_claimed)

lemma keeps_run_once: "keeps Q (run_once dialect cfg prov exc_text worker now lease)"
  unfolding run_once_def by (intro worker_intros keeps_session_scope keeps_handle_claimed)

lemma keeps_drain: "keeps Q (drain n dialect cfg prov exc_text worker now)"
proof (induction n)
  case (Suc n)
  then show ?case unfolding drain.simps by (intro worker_intros keeps_run_once)
qed (simp add: keeps_ret)

end

context settlement_order
begin

lemma carries_worker: "worker_order (carries P) prov cfg'"
  by (intro worker_order.intro carries_order worker_order_axioms.intro keeps_in_db keeps_moment_of keeps_gets keeps_claim
      keeps_reschedule keeps_commit keeps_rollback keeps_dispatch_create keeps_reconcile)

end

interpretation worker_rows: worker_order "carries intents_kept" prov cfg for prov :: "'p payment_provider" and cfg
  by (rule payment_rows.carries_worker)

interpretation worker_ledger: worker_order "carries (\<lambda>w w'. ledger_ok w \<longrightarrow> ledger_ok w')" prov cfg
  for prov :: "'p payment_provider" and cfg
  by (rule payment_ledger.carries_worker)

interpretation worker_settled: worker_order "carries (\<lambda>w w'. paid_for w \<longrightarrow> paid_for w')" prov cfg
  for prov :: "'p payment_provider" and cfg
  by (rule settled.carries_worker)

section \<open>At most one create call per payment\<close>

definition creates_for :: "string \<Rightarrow> provider_call list \<Rightarrow> nat" where
  "creates_for key calls = length (filter (\<lambda>c. case c of CreateCall q \<Rightarrow> rq_idempotency_key q = key
     | LookupCall _ _ \<Rightarrow> False) calls)"

text \<open>One create at most for each key, and only for payments whose fence is committed.\<close>

definition fence_entry :: "string \<Rightarrow> 'p work \<Rightarrow> bool" where
  "fence_entry key k \<longleftrightarrow> creates_for key (wk_calls k) = 0
     \<or> creates_for key (wk_calls k) = 1
       \<and> (\<exists>r \<in> set (w_payment_intents (wk_committed k)). pi_idempotency_key r = key \<and> pi_provider_create_fenced_at r \<noteq> None)"

definition fence_invariant :: "'p work \<Rightarrow> bool" where
  "fence_invariant k \<longleftrightarrow> (\<forall>key. fence_entry key k)"

definition fence_kept :: "'p work \<Rightarrow> 'p work \<Rightarrow> bool" where
  "fence_kept k k' \<longleftrightarrow> carries intents_kept k k'
     \<and> (env_keeps intents_kept k \<and> intents_kept (wk_committed k) (wk_db k) \<and> intents_keyed (wk_committed k)
         \<and> fence_invariant k \<longrightarrow> fence_invariant k')"

lemma carries_keyed:
  assumes "carries intents_kept k k'" "env_keeps intents_kept k" "intents_kept (wk_committed k) (wk_db k)"
    "intents_keyed (wk_committed k)"
  shows "env_keeps intents_kept k'" "intents_kept (wk_committed k') (wk_db k')" "intents_keyed (wk_committed k')"
    "grows intent_evolves (w_payment_intents (wk_committed k)) (w_payment_intents (wk_committed k'))"
    "intents_keyed (wk_db k')"
  using assms by (auto simp: carries_def env_keeps_def intents_kept_def)

interpretation fence: session_order fence_kept
proof
  show "fence_kept s s" for s :: "'p work"
    by (simp add: fence_kept_def session_order.refl [OF payment_rows.carries_order])
  show "fence_kept s t \<Longrightarrow> fence_kept t u \<Longrightarrow> fence_kept s u" for s t u :: "'p work"
    unfolding fence_kept_def using session_order.trans [OF payment_rows.carries_order] carries_keyed by blast
qed

text \<open>Fences survive: without a new create call the invariant is carried along.\<close>

lemma creates_no_create: "no_create k k' \<Longrightarrow> creates_for key (wk_calls k') = creates_for key (wk_calls k)"
proof -
  assume "no_create k k'"
  then obtain cs where cs: "wk_calls k' = wk_calls k @ cs" "list_all (\<lambda>c. \<not> is_create c) cs" by (auto simp: no_create_def)
  have "filter (\<lambda>c. case c of CreateCall q \<Rightarrow> rq_idempotency_key q = key | LookupCall _ _ \<Rightarrow> False) cs = []"
    using cs(2) by (induction cs) (auto simp: is_create_def split: provider_call.splits)
  with cs(1) show ?thesis by (simp add: creates_for_def)
qed

lemma fence_survives:
  assumes "grows intent_evolves rows rows'" and "r \<in> set rows" "pi_provider_create_fenced_at r \<noteq> None"
  shows "\<exists>r' \<in> set rows'. intent_evolves r r' \<and> pi_idempotency_key r' = pi_idempotency_key r
    \<and> pi_provider_create_fenced_at r' \<noteq> None"
  using growsD [OF assms(1,2)] assms(3) by (fastforce simp: intent_evolves_def created_for_def)

lemma fence_entry_survives:
  assumes "grows intent_evolves (w_payment_intents (wk_committed k)) (w_payment_intents (wk_committed k'))"
    and "creates_for key (wk_calls k') = creates_for key (wk_calls k)" and "fence_entry key k"
  shows "fence_entry key k'"
  using assms(2,3) fence_survives [OF assms(1)] unfolding fence_entry_def by auto

lemma fence_kept_quiet:
  assumes "keeps (carries intents_kept) m" and "keeps no_create m" shows "keeps fence_kept m"
  unfolding keeps_def fence_kept_def
proof (intro allI conjI impI)
  fix k
  show c: "carries intents_kept k (snd (m k))" using assms(1) by (simp add: keeps_def)
  assume a: "env_keeps intents_kept k \<and> intents_kept (wk_committed k) (wk_db k) \<and> intents_keyed (wk_committed k)
    \<and> fence_invariant k"
  then have g: "grows intent_evolves (w_payment_intents (wk_committed k)) (w_payment_intents (wk_committed (snd (m k))))"
    using carries_keyed(4) [OF c] by blast
  have "no_create k (snd (m k))" using assms(2) by (simp add: keeps_def)
  with a show "fence_invariant (snd (m k))"
    by (simp add: fence_invariant_def fence_entry_survives [OF g creates_no_create])
qed

interpretation silent: session_order no_create
proof
  show "no_create s s" for s :: "'p work" by (simp add: no_create_def)
  fix s t u :: "'p work" assume "no_create s t" "no_create t u"
  then obtain cs ds where "wk_calls u = wk_calls s @ (cs @ ds)" "list_all (\<lambda>c. \<not> is_create c) (cs @ ds)"
    by (auto simp: no_create_def)
  then show "no_create s u" unfolding no_create_def by blast
qed

lemma silent_boundaries: "keeps no_create commit" "keeps no_create rollback"
  by (simp_all add: keeps_def commit_def rollback_def modify_def Let_def no_create_def)

lemma silent_quiet: "keeps quiet m \<Longrightarrow> keeps no_create m"
  by (simp add: keeps_def quiet_no_create)

lemma silent_reconcile: "keeps no_create (reconcile_intent cfg caps prov i event now)"
  unfolding reconcile_intent_def ask_provider_def
  by (intro silent.keeps_intros silent_boundaries silent_quiet [OF quiet_in_db] silent_quiet [OF quiet_lookup])

lemma fence_in_db: "keeps intents_kept m \<Longrightarrow> keeps fence_kept (in_db m)"
  by (intro fence_kept_quiet payment_rows.keeps_in_db silent_quiet quiet_in_db)

lemma creates_append_create:
  assumes "list_all (\<lambda>c. \<not> is_create c) cs"
  shows "creates_for key (calls @ cs @ [CreateCall q]) = creates_for key calls + (if rq_idempotency_key q = key then 1 else 0)"
proof -
  have "filter (\<lambda>c. case c of CreateCall q \<Rightarrow> rq_idempotency_key q = key | LookupCall _ _ \<Rightarrow> False) cs = []"
    using assms by (induction cs) (auto simp: is_create_def split: provider_call.splits)
  then show ?thesis by (simp add: creates_for_def)
qed

lemma fenced_create_first:
  assumes c: "carries intents_kept k k'" "env_keeps intents_kept k" "intents_kept (wk_committed k) (wk_db k)"
      "intents_keyed (wk_committed k)"
    and new: "find_intent i (wk_db k) = Some r" "pi_provider_create_fenced_at r = None"
      "find_intent i (wk_committed k') = Some r'"
    and old: "r0 \<in> set (w_payment_intents (wk_committed k))" "pi_provider_create_fenced_at r0 \<noteq> None"
  shows "pi_idempotency_key r0 \<noteq> pi_idempotency_key r'"
proof
  assume key: "pi_idempotency_key r0 = pi_idempotency_key r'"
  note K = carries_keyed [OF c]
  note r' = find_intent_SomeD [OF new(3)]
  from fence_survives [OF K(4) old] obtain r0' where r0': "r0' \<in> set (w_payment_intents (wk_committed k'))"
    "intent_evolves r0 r0'" "pi_idempotency_key r0' = pi_idempotency_key r'" using key by auto
  then have "r0' = r'" using K(3) r' by (auto simp: intents_keyed_def dest: keyed_unique)
  then have id: "pi_id r0 = i" using r0'(2) r' by (auto dest: intent_evolves_id)
  from c(3,4) have db: "intents_keyed (wk_db k)"
    "grows intent_evolves (w_payment_intents (wk_committed k)) (w_payment_intents (wk_db k))"
    by (simp_all add: intents_kept_def)
  from fence_survives [OF db(2) old] obtain s where s: "s \<in> set (w_payment_intents (wk_db k))" "intent_evolves r0 s"
    "pi_provider_create_fenced_at s \<noteq> None" by blast
  from find_intent_SomeD [OF new(1)] intent_evolves_id [OF s(2)] id db(1) s(1) have "s = r"
    by (auto simp: intents_keyed_def dest: keyed_unique)
  with s(3) new(2) show False by simp
qed

lemma fence_dispatch:
  assumes np: "\<not> pv_create_retries_are_idempotent prov"
  shows "keeps fence_kept (dispatch_create cfg caps prov i event now)"
  unfolding keeps_def fence_kept_def
proof (intro allI conjI impI)
  fix k
  let ?k' = "snd (dispatch_create cfg caps prov i event now k)"
  show c: "carries intents_kept k ?k'"
    by (rule keeps_result [OF payment_rows.keeps_dispatch_create]) (rule prod.collapse [symmetric])
  assume "env_keeps intents_kept k \<and> intents_kept (wk_committed k) (wk_db k) \<and> intents_keyed (wk_committed k)
    \<and> fence_invariant k"
  then have a: "env_keeps intents_kept k" "intents_kept (wk_committed k) (wk_db k)" "intents_keyed (wk_committed k)"
    and inv: "fence_invariant k" by auto
  note g = fence_entry_survives [OF carries_keyed(4) [OF c a]]
  from dispatch_calls [OF np, of k cfg caps i event now] show "fence_invariant ?k'"
  proof
    assume "no_create k ?k'"
    with inv show ?thesis by (simp add: fence_invariant_def g creates_no_create)
  next
    assume "fenced_create i k ?k'"
    then obtain r r' cs where f: "find_intent i (wk_db k) = Some r" "pi_provider_create_fenced_at r = None"
      "find_intent i (wk_committed ?k') = Some r'" "pi_provider_create_fenced_at r' \<noteq> None"
      "wk_calls ?k' = wk_calls k @ cs @ [CreateCall (request_of r')]" "list_all (\<lambda>c. \<not> is_create c) cs"
      by (auto simp: fenced_create_def)
    have count: "creates_for key (wk_calls ?k') = creates_for key (wk_calls k)
        + (if pi_idempotency_key r' = key then 1 else 0)" for key
      unfolding f(5) creates_append_create [OF f(6)] by (simp add: request_of_def)
    have none: "creates_for (pi_idempotency_key r') (wk_calls k) = 0"
      using inv fenced_create_first [OF c a f(1-3)] unfolding fence_invariant_def fence_entry_def by metis
    have r': "r' \<in> set (w_payment_intents (wk_committed ?k'))" using find_intent_SomeD [OF f(3)] by blast
    show ?thesis unfolding fence_invariant_def
    proof
      fix key
      show "fence_entry key ?k'"
      proof (cases "pi_idempotency_key r' = key")
        case True
        with count none r' f(4) show ?thesis by (auto simp: fence_entry_def)
      next
        case False
        with count [of key] inv show ?thesis by (simp add: fence_invariant_def g)
      qed
    qed
  qed
qed

interpretation fence_worker: worker_order fence_kept "prov\<lparr>pv_create_retries_are_idempotent := False\<rparr>" cfg
  for prov :: "'p payment_provider" and cfg
proof (intro worker_order.intro fence.session_order_axioms worker_order_axioms.intro fence_in_db payment_rows.keeps_moment_of
    payment_rows.keeps_gets payment_rows.keeps_claim payment_rows.keeps_reschedule)
  show "keeps fence_kept (commit :: ('p, unit) job)" "keeps fence_kept (rollback :: ('p, unit) job)"
    by (intro fence_kept_quiet payment_rows.keeps_commit payment_rows.keeps_rollback silent_boundaries)+
  show "keeps fence_kept (dispatch_create cfg caps (prov\<lparr>pv_create_retries_are_idempotent := False\<rparr>) i event now)"
    for caps i event now by (rule fence_dispatch) simp
  show "keeps fence_kept (reconcile_intent cfg caps (prov\<lparr>pv_create_retries_are_idempotent := False\<rparr>) i event now)"
    for caps i event now by (intro fence_kept_quiet payment_rows.keeps_reconcile silent_reconcile)
qed

section \<open>Histories of turns\<close>

text \<open>
  Turns of any number of workers, one after the other, whatever they return or raise. A worker
  may also die while it handles an event: its open transaction is discarded, and the lease
  stays as it was committed.
\<close>

datatype turn = Turn dialect string "instant option" int | Dies dialect string "instant option" int

definition dying_turn :: "dialect \<Rightarrow> approver \<Rightarrow> 'p payment_provider \<Rightarrow> string \<Rightarrow> instant option \<Rightarrow> int \<Rightarrow> ('p, unit) job" where
  "dying_turn dialect cfg prov worker_id now lease =
     bind (in_db (moment_of now)) (\<lambda>moment.
     bind (session_scope (bind (in_db (claim_next_event dialect worker_id (Some moment) lease)) (\<lambda>event.
       andthen commit (ret event)))) (\<lambda>event. case event of
       None \<Rightarrow> ret ()
     | Some ev \<Rightarrow> andthen (catch (andthen (process_claimed_event cfg prov ev None (Some moment)) (ret ())) (\<lambda>e. ret ()))
         rollback))"

primrec run_turn :: "approver \<Rightarrow> 'p payment_provider \<Rightarrow> (exn \<Rightarrow> string) \<Rightarrow> turn \<Rightarrow> ('p, unit) job" where
  "run_turn cfg prov exc_text (Turn dialect worker now lease) =
     catch (andthen (run_once dialect cfg prov exc_text worker now lease) (ret ())) (\<lambda>e. ret ())"
| "run_turn cfg prov exc_text (Dies dialect worker now lease) =
     catch (dying_turn dialect cfg prov worker now lease) (\<lambda>e. ret ())"

definition run_turns :: "approver \<Rightarrow> 'p payment_provider \<Rightarrow> (exn \<Rightarrow> string) \<Rightarrow> turn list \<Rightarrow> ('p, unit) job" where
  "run_turns cfg prov exc_text = forS (run_turn cfg prov exc_text)"

context worker_order
begin

lemma keeps_run_turns: "keeps Q (run_turns cfg prov exc_text turns)"
proof -
  have "keeps Q (run_turn cfg prov exc_text t)" for t
    by (cases t) (auto simp: dying_turn_def intro!: worker_intros keeps_session_scope keeps_process_claimed keeps_run_once)
  then show ?thesis unfolding run_turns_def by (rule keeps_forS)
qed

end

lemma run_turns_fence:
  assumes np: "\<not> pv_create_retries_are_idempotent prov" and env: "env_keeps intents_kept k"
    and start: "wk_db k = wk_committed k" "intents_keyed (wk_committed k)" "wk_calls k = []"
    and run: "run_turns cfg prov exc_text turns k = (res, k')"
  shows "fence_entry key k'"
proof -
  have "prov\<lparr>pv_create_retries_are_idempotent := False\<rparr> = prov" using np by (cases prov) simp
  with run have "run_turns cfg (prov\<lparr>pv_create_retries_are_idempotent := False\<rparr>) exc_text turns k = (res, k')" by simp
  then have "fence_kept k k'" by (rule keeps_result [OF fence_worker.keeps_run_turns])
  moreover have "fence_invariant k" by (simp add: fence_invariant_def fence_entry_def start creates_for_def)
  moreover have "intents_kept (wk_committed k) (wk_db k)" by (simp add: start intents_kept_frame)
  ultimately have "fence_invariant k'" using env start(2) by (simp add: fence_kept_def)
  then show ?thesis by (simp add: fence_invariant_def)
qed

text \<open>
  At most one create call per payment: with a provider whose create is not idempotent, over any
  history of worker turns, with any results, crashes and commits of other lawful sessions in
  between, the provider receives at most one create call for an idempotency key, and if it
  received one, the one-way fence of that payment is durable.
\<close>

theorem at_most_one_create_per_payment:
  assumes np: "\<not> pv_create_retries_are_idempotent prov" and env: "env_keeps intents_kept k"
    and start: "wk_db k = wk_committed k" "intents_keyed (wk_committed k)" "wk_calls k = []"
    and run: "run_turns cfg prov exc_text turns k = (res, k')"
  shows "creates_for key (wk_calls k') \<le> 1
    \<and> (creates_for key (wk_calls k') = 1 \<longrightarrow> (\<exists>r \<in> set (w_payment_intents (wk_committed k')).
         pi_idempotency_key r = key \<and> pi_provider_create_fenced_at r \<noteq> None))"
  using run_turns_fence [OF assms, of key] by (auto simp: fence_entry_def)

text \<open>
  C4. Workers keep the books: over any history of worker turns, crashes included, every payment
  intent only evolves as specified (what it was created for never changes, its state follows the
  transition table, provider references, fence and ambiguity are set once), every audit chain
  stays verifiable, and every payment stands on a consumed authorization that binds it, provided
  the other sessions keep to this too.
\<close>

theorem workers_refine_the_payment_specification:
  assumes env: "env_keeps intents_kept k" "env_keeps (\<lambda>w w'. ledger_ok w \<longrightarrow> ledger_ok w') k"
      "env_keeps (\<lambda>w w'. paid_for w \<longrightarrow> paid_for w') k"
    and start: "wk_db k = wk_committed k" "intents_keyed (wk_committed k)" "ledger_ok (wk_committed k)"
      "paid_for (wk_committed k)"
    and run: "run_turns cfg prov exc_text turns k = (res, k')"
  shows "grows intent_evolves (w_payment_intents (wk_committed k)) (w_payment_intents (wk_committed k'))
    \<and> intents_keyed (wk_committed k') \<and> ledger_ok (wk_committed k') \<and> paid_for (wk_committed k')"
proof -
  have "carries intents_kept k k'" "carries (\<lambda>w w'. ledger_ok w \<longrightarrow> ledger_ok w') k k'"
    "carries (\<lambda>w w'. paid_for w \<longrightarrow> paid_for w') k k'"
    using keeps_result [OF worker_rows.keeps_run_turns run] keeps_result [OF worker_ledger.keeps_run_turns run]
      keeps_result [OF worker_settled.keeps_run_turns run] by simp_all
  then show ?thesis using env start by (simp add: carries_def intents_kept_frame) (simp add: intents_kept_def)
qed

text \<open>A work that starts from a settled-up world, alone on its database.\<close>

definition sample_work :: "unit work" where
  "sample_work = (let w = linked_world\<lparr>w_authorizations := [consumed 5 sample_active]\<rparr> in
     \<lparr>wk_db = w, wk_committed = w, wk_provider = (), wk_calls = [], wk_env = (\<lambda>n w. w), wk_turn = 0\<rparr>)"

lemma sample_work_ok:
  "wk_db sample_work = wk_committed sample_work" "intents_keyed (wk_committed sample_work)" "wk_calls sample_work = []"
  "ledger_ok (wk_committed sample_work)" "paid_for (wk_committed sample_work)" "wk_env sample_work = (\<lambda>n w. w)"
proof -
  show "intents_keyed (wk_committed sample_work)" by (simp add: sample_work_def Let_def intents_keyed_def keyed_def)
  show "ledger_ok (wk_committed sample_work)" by (simp add: sample_work_def Let_def ledger_ok_def list_events_def intact_def)
  have "az_bound_amount_inr sample_active = 7598" "az_bound_currency sample_active = ''INR''"
    "az_bound_merchant_id sample_active = ''merchant_a''"
    by (simp_all add: sample_active_def sample_row_def issued_row_def sample_transaction_def)
  moreover have "py_upper ''INR'' = ''INR''" by code_simp
  ultimately have "covers (consumed 5 sample_active) sample_intent"
    by (simp add: covers_def consumed_def sample_intent_def new_intent_row_def) (simp add: sample_transaction_def)
  then show "paid_for (wk_committed sample_work)" by (simp add: sample_work_def Let_def paid_for_def)
qed (simp_all add: sample_work_def Let_def)

theorem at_most_one_create_per_payment_witness:
  "\<exists>res k'. run_turns sample_approver sample_provider (\<lambda>e. ''error'')
      [Turn None ''a'' (Some 5) DEFAULT_LEASE, Dies None ''b'' (Some 6) DEFAULT_LEASE] sample_work = (res, k')
    \<and> creates_for ''k'' (wk_calls k') \<le> 1"
proof -
  obtain res k' where run: "run_turns sample_approver sample_provider (\<lambda>e. ''error'')
      [Turn None ''a'' (Some 5) DEFAULT_LEASE, Dies None ''b'' (Some 6) DEFAULT_LEASE] sample_work = (res, k')" by fastforce
  have "\<not> pv_create_retries_are_idempotent sample_provider" by (simp add: sample_provider_def)
  moreover have "env_keeps intents_kept sample_work" by (simp add: env_keeps_def sample_work_ok intents_kept_frame)
  ultimately show ?thesis using at_most_one_create_per_payment [OF _ _ sample_work_ok(1-3) run] run by blast
qed

theorem workers_refine_the_payment_specification_witness:
  "\<exists>res k'. run_turns sample_approver sample_provider (\<lambda>e. ''error'')
      [Turn None ''a'' (Some 5) DEFAULT_LEASE, Dies None ''b'' (Some 6) DEFAULT_LEASE] sample_work = (res, k')
    \<and> paid_for (wk_committed k') \<and> ledger_ok (wk_committed k')"
proof -
  obtain res k' where run: "run_turns sample_approver sample_provider (\<lambda>e. ''error'')
      [Turn None ''a'' (Some 5) DEFAULT_LEASE, Dies None ''b'' (Some 6) DEFAULT_LEASE] sample_work = (res, k')" by fastforce
  have "env_keeps intents_kept sample_work" "env_keeps (\<lambda>w w'. ledger_ok w \<longrightarrow> ledger_ok w') sample_work"
    "env_keeps (\<lambda>w w'. paid_for w \<longrightarrow> paid_for w') sample_work"
    by (simp_all add: env_keeps_def sample_work_ok intents_kept_frame)
  from workers_refine_the_payment_specification [OF this sample_work_ok(1,2,4,5) run] run show ?thesis by blast
qed

end
