(* ===== verification/Rail.thy ===== *)
theory Rail
  imports Razorpay Worker
begin

text \<open>
  What the Razorpay adapter guarantees: which requests a call sends, when a payment counts as
  succeeded and a create as refused, that the receipt search is exhaustive, when a webhook is
  believed, and, with the workers, that Razorpay receives one order per payment.
\<close>

section \<open>What an adapter call sends\<close>

text \<open>A part of a call that only asks: every request it sends is a \<open>GET\<close>.\<close>

definition asks :: "'h rail \<Rightarrow> 'h rail \<Rightarrow> bool" where
  "asks s s' \<longleftrightarrow> (\<exists>qs. rl_sent s' = rl_sent s @ qs \<and> list_all (\<lambda>q. hq_method q = GET) qs)"

interpretation asks: session_order asks
proof
  show "asks s s" for s :: "'h rail" by (simp add: asks_def)
  fix s t u :: "'h rail" assume "asks s t" "asks t u"
  then obtain cs ds where "rl_sent u = rl_sent s @ (cs @ ds)" "list_all (\<lambda>q. hq_method q = GET) (cs @ ds)"
    by (auto simp: asks_def)
  then show "asks s u" unfolding asks_def by blast
qed

abbreviation request_of_call :: "razorpay \<Rightarrow> http_method \<Rightarrow> string \<Rightarrow> json option \<Rightarrow> (string \<times> json) list option \<Rightarrow> http_request" where
  "request_of_call p meth path j params \<equiv> \<lparr>hq_method = meth, hq_path = path, hq_auth = (rz_key_id p, rz_key_secret p),
     hq_json = j, hq_params = params\<rparr>"

lemma request_sent:
  "rl_sent (snd (rz_request out p meth path j params s)) = rl_sent s @ [request_of_call p meth path j params]"
  by (simp add: rz_request_def Let_def split: prod.split)

lemma request_returns:
  "rz_request out p meth path j params s = (Inr resp, t) \<Longrightarrow>
     \<exists>h. os_send out (request_of_call p meth path j params) (rl_client s) = (Inr resp, h) \<and> rl_client t = h"
  by (auto simp: rz_request_def Let_def split: prod.splits sum.splits transport_failure.splits)

lemma asks_request: "keeps asks (rz_request out p GET path j params)"
  by (simp add: keeps_def asks_def request_sent)

lemma asks_attach: "keeps asks (attach_captured_payment out p payment)"
  unfolding attach_captured_payment_def
  by (intro asks.keeps_intros asks_request) (auto intro!: asks.keeps_intros split: list.split)

lemma asks_with_captured: "keeps asks (with_captured out p payment)"
  unfolding with_captured_def by (intro asks.keeps_intros asks_attach)

lemma asks_search: "keeps asks (search_pages out p receipt pages exact)"
  by (induction pages arbitrary: exact) (auto intro!: asks.keeps_intros asks_request)

lemma asks_get: "keeps asks (rz_get_payment out p pid key)"
  unfolding rz_get_payment_def lookup_order_def lookup_receipt_def orders_with_exact_receipt_def
  by (auto intro!: asks.keeps_intros asks_request asks_with_captured asks_search split: option.split list.split)

lemma asks_classify: "keeps asks (classify_create_response out p q response)"
  unfolding classify_create_response_def by (intro asks.keeps_intros asks_with_captured)

definition order_request :: "razorpay \<Rightarrow> payment_request \<Rightarrow> http_request" where
  "order_request p q = request_of_call p POST ''/orders'' (Some (create_payload q)) None"

text \<open>A create sends one order and then at most asks for its payments.\<close>

lemma create_sends:
  "\<exists>qs. rl_sent (snd (rz_create_payment out p q s)) = rl_sent s @ order_request p q # qs
     \<and> list_all (\<lambda>q. hq_method q = GET) qs"
proof -
  obtain r t where r: "rz_request out p POST ''/orders'' (Some (create_payload q)) None s = (r, t)" by fastforce
  then have t: "rl_sent t = rl_sent s @ [order_request p q]"
    using request_sent [of out p POST "''/orders''" "Some (create_payload q)" None s] by (simp add: order_request_def)
  have "asks t (snd (rz_create_payment out p q s))"
  proof (cases r)
    case (Inl e)
    with r show ?thesis by (simp add: rz_create_payment_def bind_def asks.refl)
  next
    case (Inr resp)
    with asks_classify [of out p q resp] r show ?thesis by (simp add: rz_create_payment_def bind_run keeps_def)
  qed
  with t show ?thesis by (auto simp: asks_def)
qed

section \<open>Success needs exactly one captured payment\<close>

lemma text_of_json_Some [simp]: "text_of_json v = Some s \<longleftrightarrow> v = Some (JStr s)"
  by (auto simp: text_of_json_def split: option.splits json.splits)

lemma text_of_json_JStr [simp]: "text_of_json (Some (JStr s)) = Some s"
  by simp

lemma non_negative_int_Inr: "non_negative_int f v = Inr i \<longleftrightarrow> v = Some (JInt i) \<and> 0 \<le> i"
  by (auto simp: non_negative_int_def split: option.splits json.splits if_splits)

lemma whole_rupees_Inr: "whole_rupees f v = Inr a \<longleftrightarrow> v = Some (JInt (100 * a)) \<and> 0 \<le> a"
proof
  assume "whole_rupees f v = Inr a"
  then obtain i where i: "non_negative_int f v = Inr i" "i mod 100 = 0" "a = i div 100"
    by (auto simp: whole_rupees_def split: if_splits)
  then have "v = Some (JInt i)" "0 \<le> i" by (auto simp: non_negative_int_Inr)
  with i show "v = Some (JInt (100 * a)) \<and> 0 \<le> a" by auto
next
  assume "v = Some (JInt (100 * a)) \<and> 0 \<le> a"
  then have "non_negative_int f v = Inr (100 * a)" by (simp add: non_negative_int_Inr)
  then show "whole_rupees f v = Inr a" by (simp add: whole_rupees_def)
qed

text \<open>
  What a response has to show before a payment counts as captured: among its items exactly one is
  captured, and that one names a \<open>pay_\<close> identifier, the order, the amount in paise and the
  currency of the payment.
\<close>

definition shows_capture :: "provider_payment \<Rightarrow> http_response \<Rightarrow> bool" where
  "shows_capture pay resp \<longleftrightarrow> (\<exists>parsed items ms tx order_id.
     hr_json resp = Some (JObj parsed) \<and> jget ''items'' parsed = Some (JList items)
     \<and> filter is_captured items = [JObj ms] \<and> pp_provider_order_id pay = Some order_id
     \<and> jget ''id'' ms = Some (JStr tx) \<and> starts ''pay_'' tx \<and> pp_provider_transaction_id pay = Some tx
     \<and> jget ''order_id'' ms = Some (JStr order_id) \<and> jget ''amount'' ms = Some (JInt (100 * pp_amount_inr pay))
     \<and> jget ''currency'' ms = Some (JStr (pp_currency pay)))"

lemma captured_ids_Inr:
  "captured_ids pay items = Inr is \<Longrightarrow> list_all2 (\<lambda>item i. captured_id pay item = Inr i) (filter is_captured items) is"
  by (induction pay items arbitrary: "is" rule: captured_ids.induct) (auto split: if_splits)

lemma captured_id_Inr:
  assumes "captured_id pay (JObj ms) = Inr tx" "pp_provider_order_id pay = Some order_id"
  shows "jget ''id'' ms = Some (JStr tx) \<and> starts ''pay_'' tx \<and> jget ''order_id'' ms = Some (JStr order_id)
     \<and> jget ''amount'' ms = Some (JInt (100 * pp_amount_inr pay)) \<and> jget ''currency'' ms = Some (JStr (pp_currency pay))"
  using assms by (auto simp: captured_id_def whole_rupees_Inr split: option.splits if_splits)

lemma items_of_Inr:
  "items_of m resp = Inr items \<longleftrightarrow> (\<exists>parsed. hr_json resp = Some (JObj parsed) \<and> jget ''items'' parsed = Some (JList items))"
proof -
  have obj: "json_object resp = Inr ms \<longleftrightarrow> hr_json resp = Some (JObj ms)" for ms
    by (auto simp: json_object_def split: option.splits json.splits)
  have "(case v of Some (JList items) \<Rightarrow> Inr items | _ \<Rightarrow> Inl m) = Inr items \<longleftrightarrow> v = Some (JList items)" for v
    by (auto split: option.splits json.splits)
  then show ?thesis by (auto simp: items_of_def obj)
qed

definition payments_request :: "razorpay \<Rightarrow> string \<Rightarrow> http_request" where
  "payments_request p order_id = request_of_call p GET (''/orders/'' @ order_id @ ''/payments'') None None"

lemma map_sum_Inr_id: "map_sum f id r = Inr x \<longleftrightarrow> r = Inr x"
  by (cases r) auto

lemma attach_returns:
  assumes run: "attach_captured_payment out p pay s = (Inr pay', s')" and id: "pp_provider_order_id pay = Some order_id"
  shows "\<exists>resp h. os_send out (payments_request p (pp_provider_payment_id pay)) (rl_client s) = (Inr resp, h) \<and> shows_capture pay' resp"
    and "\<exists>tx. pay' = pay\<lparr>pp_provider_transaction_id := Some tx\<rparr>"
proof -
  from run obtain resp t items captured where r: "rz_request out p GET (''/orders/'' @ pp_provider_payment_id pay @ ''/payments'') None None s = (Inr resp, t)"
    and items: "items_of ''payments collection has no items list'' resp = Inr items" "captured_ids pay items = Inr captured"
    and pay': "(case captured of [i] \<Rightarrow> ret (pay\<lparr>pp_provider_transaction_id := Some i\<rparr>)
     | _ \<Rightarrow> raise (ProviderTransientError (''paid order exposes '' @ dec_int (int (length captured))
         @ '' matching captured payments; expected exactly one''))) t = (Inr pay', s')"
    unfolding attach_captured_payment_def session_Inr_iffs map_sum_Inr_id by auto
  from pay' obtain tx where tx: "captured = [tx]" "pay' = pay\<lparr>pp_provider_transaction_id := Some tx\<rparr>"
    by (auto simp: session_Inr_iffs split: list.splits)
  from captured_ids_Inr [OF items(2)] tx obtain item where item: "filter is_captured items = [item]" "captured_id pay item = Inr tx"
    by (auto simp: list_all2_Cons2)
  then have "is_captured item" by (metis filter_eq_ConsD)
  then obtain ms where ms: "item = JObj ms" by (auto simp: is_captured_def split: json.splits)
  from items(1) obtain parsed where "hr_json resp = Some (JObj parsed)" "jget ''items'' parsed = Some (JList items)"
    by (auto simp: items_of_Inr)
  with item ms captured_id_Inr [OF _ id] have "shows_capture pay' resp"
    unfolding shows_capture_def tx(2) by (auto simp: id)
  with request_returns [OF r] show "\<exists>resp h. os_send out (payments_request p (pp_provider_payment_id pay)) (rl_client s) = (Inr resp, h) \<and> shows_capture pay' resp"
    by (auto simp: payments_request_def)
  show "\<exists>tx. pay' = pay\<lparr>pp_provider_transaction_id := Some tx\<rparr>" using tx by blast
qed

lemma option_Inr_iff: "(case v of None \<Rightarrow> Inl e | Some x \<Rightarrow> f x) = Inr y \<longleftrightarrow> (\<exists>x. v = Some x \<and> f x = Inr y)"
  by (cases v) auto

lemma if_Inr_iff: "(if b then Inl e else m) = Inr y \<longleftrightarrow> \<not> b \<and> m = Inr y"
  by simp

lemma schema_Inr_iff:
  "(case ProviderPayment p of Inl _ \<Rightarrow> Inl e | Inr q \<Rightarrow> Inr q) = Inr pay \<longleftrightarrow> ProviderPayment p = Inr pay"
  by (cases "ProviderPayment p") auto

lemmas checked_iffs = option_Inr_iff if_Inr_iff schema_Inr_iff map_sum_Inr_id bindE_eq_Inr_iff

lemma order_to_payment_Inr:
  assumes "order_to_payment out expected order = Inr pay"
  shows "pp_provider_order_id pay = Some (pp_provider_payment_id pay) \<and> pp_provider pay = RAZORPAY_NAME
    \<and> jget ''id'' order = Some (JStr (pp_provider_payment_id pay))
    \<and> jget ''amount'' order = Some (JInt (100 * pp_amount_inr pay)) \<and> jget ''currency'' order = Some (JStr (pp_currency pay))
    \<and> pp_idempotency_key pay = expected \<and> pp_provider_transaction_id pay = None
    \<and> (\<forall>key. expected = Some key \<longrightarrow> jget ''receipt'' order = Some (JStr (receipt_for_idempotency_key key)))"
  using assms unfolding order_to_payment_def Let_def checked_iffs whole_rupees_Inr non_negative_int_Inr text_of_json_Some
  by - (elim exE conjE, drule ProviderPayment_Inr, cases expected, simp,
      simp add: compare_digest_def split: if_splits)

lemma with_captured_returns:
  assumes "with_captured out p pay s = (Inr pay', s')" "pp_provider_order_id pay = Some (pp_provider_payment_id pay)"
    and "pp_status pay' = PP_SUCCEEDED"
  shows "\<exists>resp h h'. os_send out (payments_request p (pp_provider_payment_id pay')) h = (Inr resp, h') \<and> shows_capture pay' resp"
proof (cases "pp_status pay = PP_SUCCEEDED")
  case True
  with assms(1) have run: "attach_captured_payment out p pay s = (Inr pay', s')" by (simp add: with_captured_def)
  from attach_returns(2) [OF this assms(2)] have "pp_provider_payment_id pay' = pp_provider_payment_id pay" by auto
  with attach_returns(1) [OF run assms(2)] show ?thesis by metis
next
  case False
  with assms(1,3) show ?thesis by (simp add: with_captured_def ret_eq_iff)
qed

lemma classified_Inr: "classified err r = Inr x \<longleftrightarrow> r = Inr x"
  by (auto simp: classified_def split: sum.splits exn.splits)

lemma create_returns_order:
  assumes "rz_create_payment out p q s = (Inr pay, s')"
  obtains order pay0 t where "order_to_payment out (Some (rq_idempotency_key q)) order = Inr pay0"
    "with_captured out p pay0 t = (Inr pay, s')"
proof -
  from assms obtain resp t where "classify_create_response out p q resp t = (Inr pay, s')"
    by (auto simp: rz_create_payment_def bind_eq_Inr_iff)
  then show ?thesis using that
    by (auto simp: classify_create_response_def session_Inr_iffs classified_Inr map_sum_Inr_id split: if_splits)
qed

lemma get_returns_order:
  assumes "rz_get_payment out p pid key s = (Inr (Some pay), s')"
  obtains order pay0 t where "order_to_payment out key order = Inr pay0" "with_captured out p pay0 t = (Inr pay, s')"
proof (cases pid)
  case (Some order_id)
  with assms have "lookup_order out p order_id key s = (Inr (Some pay), s')" by (simp add: rz_get_payment_def)
  then show ?thesis using that
    by (auto simp: lookup_order_def session_Inr_iffs classified_Inr map_sum_Inr_id split: if_splits)
next
  case None
  with assms obtain k where k: "key = Some k" "lookup_receipt out p k s = (Inr (Some pay), s')"
    by (auto simp: rz_get_payment_def ret_eq_iff split: option.splits)
  then obtain exact t where "(case exact of [] \<Rightarrow> ret None | [order] \<Rightarrow>
       bind (lift (classified (\<lambda>m. ProviderTransientError (''malformed Order search response: '' @ m))
           (order_to_payment out (Some k) order))) (\<lambda>payment.
       bind (with_captured out p payment) (\<lambda>payment. ret (Some payment)))
     | _ \<Rightarrow> raise (ProviderAmbiguity (dec_int (int (length exact))
         @ '' Razorpay Orders share one PACTRA receipt; refusing ambiguity''))) t = (Inr (Some pay), s')"
    unfolding lookup_receipt_def bind_eq_Inr_iff by blast
  then show ?thesis using that k(1)
    by (auto simp: session_Inr_iffs classified_Inr split: list.splits)
qed

text \<open>
  C7. Razorpay success needs evidence: when a create or a lookup of the Razorpay adapter returns a
  payment it calls succeeded, the authenticated listing of that order's payments was read, exactly
  one payment in it was captured, and that one names the order, the amount in paise and the
  currency of the payment; its \<open>pay_\<close> identifier is the transaction id. An order that says it is
  paid is not enough.
\<close>

theorem razorpay_success_was_captured:
  assumes "rz_create_payment out p q s = (Inr pay, s') \<or> rz_get_payment out p pid key s = (Inr (Some pay), s')"
    and "pp_status pay = PP_SUCCEEDED"
  shows "\<exists>resp h h'. os_send out (payments_request p (pp_provider_payment_id pay)) h = (Inr resp, h') \<and> shows_capture pay resp"
proof -
  from assms(1) obtain expected order pay0 t where "order_to_payment out expected order = Inr pay0"
      "with_captured out p pay0 t = (Inr pay, s')"
    by (elim disjE) (erule create_returns_order get_returns_order, blast)+
  with with_captured_returns [of out p pay0 t pay s'] order_to_payment_Inr [of out expected order pay0] assms(2)
  show ?thesis by blast
qed

section \<open>What a failed create means\<close>

text \<open>A response that refuses the order for good: read, and neither a success, a server error, a rate
  limit nor a duplicate receipt.\<close>

definition refuses_order :: "http_response \<Rightarrow> bool" where
  "refuses_order resp \<longleftrightarrow> (\<exists>code. hr_status resp = Some code \<and> \<not> (200 \<le> code \<and> code < 300) \<and> code < 500 \<and> code \<noteq> 429
     \<and> \<not> (code = 400 \<and> duplicate_receipt_response resp))"

definition is_terminal_error :: "exn \<Rightarrow> bool" where
  "is_terminal_error e \<longleftrightarrow> (case e of ProviderTerminalError _ \<Rightarrow> True | _ \<Rightarrow> False)"

definition never_terminal :: "'h outside \<Rightarrow> bool" where
  "never_terminal out \<longleftrightarrow> (\<forall>q h e h'. os_send out q h = (Inl (OtherException e), h') \<longrightarrow> \<not> is_terminal_error e)"

definition not_refused :: "('s, exn, 'a) session \<Rightarrow> bool" where
  "not_refused m \<longleftrightarrow> (\<forall>s e t. m s = (Inl e, t) \<longrightarrow> \<not> is_terminal_error e)"

lemma not_refused_bind: "not_refused m \<Longrightarrow> (\<And>x. not_refused (f x)) \<Longrightarrow> not_refused (bind m f)"
  unfolding not_refused_def bind_def by (auto split: prod.splits sum.splits)

lemma not_refused_andthen: "not_refused m \<Longrightarrow> not_refused n \<Longrightarrow> not_refused (andthen m n)"
  unfolding andthen_def by (rule not_refused_bind)

lemma not_refused_basic:
  "not_refused (ret x)" "\<not> is_terminal_error e \<Longrightarrow> not_refused (raise e)" "\<not> is_terminal_error e \<Longrightarrow> not_refused (guardE b e)"
  "(\<And>e. r = Inl e \<Longrightarrow> \<not> is_terminal_error e) \<Longrightarrow> not_refused (lift r)"
  by (auto simp: not_refused_def ret_def raise_def guardE_def lift_def)

lemma not_refused_request: "never_terminal out \<Longrightarrow> not_refused (rz_request out p meth path j params)"
  unfolding not_refused_def never_terminal_def rz_request_def Let_def
  by (auto simp: is_terminal_error_def split: prod.splits sum.splits transport_failure.splits)

lemma order_to_payment_error: "order_to_payment out expected order = Inl e \<Longrightarrow> \<not> is_terminal_error e"
  unfolding order_to_payment_def Let_def compare_digest_def
  by (auto simp: is_terminal_error_def bindE_def map_sum_def split: option.splits if_splits sum.splits)

lemma classified_error:
  assumes "classified err r = Inl e" and "\<And>e'. r = Inl e' \<Longrightarrow> \<not> is_terminal_error e'" and "\<And>m. \<not> is_terminal_error (err m)"
  shows "\<not> is_terminal_error e"
  using assms by (cases r) (auto simp: classified_def split: exn.splits)

lemma not_refused_attach: "never_terminal out \<Longrightarrow> not_refused (attach_captured_payment out p pay)"
  unfolding attach_captured_payment_def
  by (intro not_refused_bind not_refused_andthen not_refused_request not_refused_basic)
    (auto simp: is_terminal_error_def map_sum_def intro!: not_refused_basic split: sum.splits list.split)

lemma not_refused_with_captured: "never_terminal out \<Longrightarrow> not_refused (with_captured out p pay)"
  by (simp add: with_captured_def not_refused_attach not_refused_basic)

lemma not_refused_accepted:
  assumes "never_terminal out"
  shows "not_refused (bind (lift (classified (\<lambda>m. ProviderTimeout (''ambiguous malformed create response: '' @ m))
           (bindE (map_sum ValueError id (json_object resp)) (order_to_payment out (Some (rq_idempotency_key q))))))
         (with_captured out p))"
proof (intro not_refused_bind not_refused_with_captured assms(1) not_refused_basic)
  fix e
  assume "classified (\<lambda>m. ProviderTimeout (''ambiguous malformed create response: '' @ m))
     (bindE (map_sum ValueError id (json_object resp)) (order_to_payment out (Some (rq_idempotency_key q)))) = Inl e"
  then show "\<not> is_terminal_error e"
  proof (rule classified_error)
    show "\<not> is_terminal_error e'" if "bindE (map_sum ValueError id (json_object resp))
        (order_to_payment out (Some (rq_idempotency_key q))) = Inl e'" for e'
      using that order_to_payment_error [of out "Some (rq_idempotency_key q)"]
      by (cases "json_object resp") (auto simp: is_terminal_error_def [of "ValueError _"])
  qed (simp add: is_terminal_error_def)
qed

text \<open>
  C10. A create is reported as refused for good (\<open>ProviderTerminalError\<close>) only when Razorpay said so:
  its response to the order was read, and was neither a success, a server error, a rate limit nor a
  duplicate receipt. A lost or unreadable response, a server error, a malformed success and
  anything that happens after the order exists are never a terminal failure.
\<close>

theorem terminal_failure_is_a_refusal:
  assumes "never_terminal out" and "rz_create_payment out p q s = (Inl (ProviderTerminalError m), s')"
  shows "\<exists>resp h. os_send out (order_request p q) (rl_client s) = (Inr resp, h) \<and> refuses_order resp"
proof -
  obtain r t where r: "rz_request out p POST ''/orders'' (Some (create_payload q)) None s = (r, t)" by fastforce
  have "\<not> is_terminal_error e" if "r = Inl e" for e
    using not_refused_request [OF assms(1)] r that unfolding not_refused_def by blast
  then obtain resp where resp: "r = Inr resp" using assms(2) r
    by (cases r) (auto simp: rz_create_payment_def bind_def is_terminal_error_def)
  with assms(2) r have c: "classify_create_response out p q resp t = (Inl (ProviderTerminalError m), s')"
    by (simp add: rz_create_payment_def bind_run)
  have "refuses_order resp"
  proof (cases "hr_status resp")
    case None
    with c show ?thesis by (simp add: classify_create_response_def rz_status_code_def bind_def lift_def)
  next
    case (Some code)
    show ?thesis
    proof (cases "200 \<le> code \<and> code < 300")
      case True
      note not_refused_accepted [OF assms(1), of resp q p]
      moreover have "bind (lift (classified (\<lambda>m. ProviderTimeout (''ambiguous malformed create response: '' @ m))
           (bindE (map_sum ValueError id (json_object resp)) (order_to_payment out (Some (rq_idempotency_key q))))))
         (with_captured out p) t = (Inl (ProviderTerminalError m), s')"
        using c Some True by (simp add: classify_create_response_def rz_status_code_def bind_def lift_def)
      ultimately have "\<not> is_terminal_error (ProviderTerminalError m)" unfolding not_refused_def by blast
      then show ?thesis by (simp add: is_terminal_error_def)
    next
      case False
      with c Some show ?thesis
        by (auto simp: classify_create_response_def rz_status_code_def bind_def lift_def raise_def refuses_order_def split: if_splits)
    qed
  qed
  with request_returns [OF r [unfolded resp]] show ?thesis by (auto simp: order_request_def)
qed

section \<open>The receipt search\<close>

lemma search_bound:
  "length (rl_sent (snd (search_pages out p receipt pages exact s))) \<le> length (rl_sent s) + length pages"
proof (induction pages arbitrary: exact s)
  case (Cons k pages)
  let ?params = "Some [(''receipt'', JStr receipt), (''count'', JInt page_size), (''skip'', JInt (int k * page_size))]"
  obtain r t where r: "rz_request out p GET ''/orders'' None ?params s = (r, t)" by fastforce
  have t: "length (rl_sent t) = Suc (length (rl_sent s))"
    using request_sent [of out p GET "''/orders''" None ?params s] r by simp
  have rest: "length (rl_sent (snd (search_pages out p receipt pages e t))) \<le> length (rl_sent t) + length pages" for e
    by (rule Cons.IH)
  show ?case
  proof (cases r)
    case (Inl e)
    with r t show ?thesis by (simp add: bind_def)
  next
    case (Inr resp)
    with r t rest show ?thesis
      by (auto simp: bind_def andthen_def guardE_def lift_def ret_def raise_def split: sum.split prod.split)
  qed
qed (simp add: raise_def)

text \<open>The entry a matching order gets, and the order of an entry.\<close>

definition fields_of :: "json \<Rightarrow> (string \<times> json) list" where
  "fields_of item = (case item of JObj ms \<Rightarrow> ms | _ \<Rightarrow> [])"

definition order_id_of :: "json \<Rightarrow> string option" where
  "order_id_of item = text_of_json (jget ''id'' (fields_of item))"

definition well_named :: "json list \<Rightarrow> bool" where
  "well_named items \<longleftrightarrow> distinct (map order_id_of items) \<and> None \<notin> set (map order_id_of items) \<and> Some [] \<notin> set (map order_id_of items)"

definition entry_of :: "json \<Rightarrow> string \<times> (string \<times> json) list" where
  "entry_of item = (the (order_id_of item), fields_of item)"

lemma keep_order_new:
  assumes "order_id_of item = Some i" "i \<noteq> []" "i \<notin> fst ` set exact"
  shows "keep_order item exact = Inr (exact @ [entry_of item])"
proof -
  have "map_of exact i = None" using assms(3) by (simp add: map_of_eq_None_iff)
  with assms(1,2) show ?thesis
    by (auto simp: keep_order_def order_id_of_def fields_of_def entry_of_def Let_def)
qed

lemma keep_orders_well_named:
  assumes "well_named (seen @ filter (has_receipt receipt) items)"
  shows "keep_orders receipt items (map entry_of seen) = Inr (map entry_of (seen @ filter (has_receipt receipt) items))"
  using assms
proof (induction items arbitrary: seen)
  case (Cons item items)
  show ?case
  proof (cases "has_receipt receipt item")
    case True
    with Cons.prems have w: "well_named (seen @ item # filter (has_receipt receipt) items)" by simp
    then obtain i where i: "order_id_of item = Some i" "i \<noteq> []"
      by (cases "order_id_of item") (auto simp: well_named_def)
    have "i \<notin> fst ` set (map entry_of seen)"
    proof
      assume "i \<in> fst ` set (map entry_of seen)"
      then obtain x where x: "x \<in> set seen" "the (order_id_of x) = i" by (auto simp: entry_of_def)
      have "None \<notin> order_id_of ` set seen" using w by (simp add: well_named_def)
      with x(1) have "order_id_of x \<noteq> None" by (metis image_eqI)
      with x i have "order_id_of item = order_id_of x" by auto
      then have "order_id_of item \<in> order_id_of ` set seen" using x(1) by (rule image_eqI)
      with w show False by (simp add: well_named_def)
    qed
    from keep_order_new [OF i this] True Cons.IH [of "seen @ [item]"] Cons.prems show ?thesis by simp
  next
    case False
    with Cons show ?thesis by simp
  qed
qed simp

text \<open>
  A collection that does not change while it is read, served in pages: the documented behaviour of
  the receipt-filtered listing.
\<close>

definition page_request :: "razorpay \<Rightarrow> string \<Rightarrow> nat \<Rightarrow> http_request" where
  "page_request p receipt k = request_of_call p GET ''/orders'' None
     (Some [(''receipt'', JStr receipt), (''count'', JInt page_size), (''skip'', JInt (int k * page_size))])"

definition serves_pages :: "'h outside \<Rightarrow> razorpay \<Rightarrow> string \<Rightarrow> json list \<Rightarrow> bool" where
  "serves_pages out p receipt orders \<longleftrightarrow> (\<forall>k h. \<exists>resp h' code parsed.
     os_send out (page_request p receipt k) h = (Inr resp, h') \<and> hr_status resp = Some code \<and> 200 \<le> code \<and> code < 300
     \<and> hr_json resp = Some (JObj parsed) \<and> jget ''items'' parsed = Some (JList (take 100 (drop (100 * k) orders))))"

lemma page_read:
  assumes served: "serves_pages out p receipt orders"
    and named: "well_named (filter (has_receipt receipt) orders)"
  shows "\<exists>t. search_pages out p receipt (k # pages) (map entry_of (filter (has_receipt receipt) (take (100 * k) orders))) s
    = (if length orders < 100 * Suc k
       then (Inr (map fields_of (filter (has_receipt receipt) orders)), t)
       else search_pages out p receipt pages (map entry_of (filter (has_receipt receipt) (take (100 * Suc k) orders))) t)
    \<and> length (rl_sent t) = Suc (length (rl_sent s))"
proof -
  let ?page = "take 100 (drop (100 * k) orders)" and ?f = "filter (has_receipt receipt)"
  from served obtain resp h' code parsed where send: "os_send out (page_request p receipt k) (rl_client s) = (Inr resp, h')"
    and resp: "hr_status resp = Some code" "200 \<le> code" "code < 300" "hr_json resp = Some (JObj parsed)"
      "jget ''items'' parsed = Some (JList ?page)"
    unfolding serves_pages_def by blast
  define t where "t = s\<lparr>rl_client := h', rl_sent := rl_sent s @ [page_request p receipt k]\<rparr>"
  have req: "rz_request out p GET ''/orders'' None (Some [(''receipt'', JStr receipt), (''count'', JInt page_size),
      (''skip'', JInt (int k * page_size))]) s = (Inr resp, t)"
    using send by (simp add: rz_request_def page_request_def t_def)
  have pre: "take (100 * k) orders @ ?page = take (100 * Suc k) orders"
    by (simp add: take_add [symmetric] add.commute)
  have "well_named (?f (take (100 * Suc k) orders))"
  proof -
    have "?f orders = ?f (take (100 * Suc k) orders) @ ?f (drop (100 * Suc k) orders)"
      by (simp flip: filter_append)
    with named show ?thesis by (auto simp: well_named_def)
  qed
  then have "well_named (?f (take (100 * k) orders) @ ?f ?page)" by (simp add: pre flip: filter_append)
  from keep_orders_well_named [OF this]
  have "read_page receipt resp (map entry_of (?f (take (100 * k) orders))) = Inr (?page, map entry_of (?f (take (100 * Suc k) orders)))"
    using items_of_Inr [of "''orders collection has no items list''" resp ?page] resp(4,5)
    by (simp add: read_page_def page_size_def pre flip: filter_append)
  then have run: "search_pages out p receipt (k # pages) (map entry_of (?f (take (100 * k) orders))) s
    = (if int (length ?page) < page_size then ret (map snd (map entry_of (?f (take (100 * Suc k) orders))))
       else search_pages out p receipt pages (map entry_of (?f (take (100 * Suc k) orders)))) t"
    using resp req by (simp add: rz_status_code_def bind_def lift_def andthen_def guardE_def ret_def)
  have "int (length ?page) < page_size \<longleftrightarrow> length orders < 100 * Suc k" by (auto simp: page_size_def)
  moreover have "map snd (map entry_of xs) = map fields_of xs" for xs by (simp add: entry_of_def)
  moreover have "take (100 * Suc k) orders = orders" if "length orders < 100 * Suc k" using that by simp
  ultimately show ?thesis using run by (intro exI [of _ t]) (auto simp: ret_def t_def)
qed

lemma search_all:
  assumes "serves_pages out p receipt orders" "well_named (filter (has_receipt receipt) orders)"
    and "100 * k \<le> length orders" "length orders < 100 * n"
  shows "\<exists>t. search_pages out p receipt [k..<n] (map entry_of (filter (has_receipt receipt) (take (100 * k) orders))) s
     = (Inr (map fields_of (filter (has_receipt receipt) orders)), t)
    \<and> length (rl_sent t) = length (rl_sent s) + (length orders div 100 - k) + 1"
  using assms(3)
proof (induction "n - k" arbitrary: k s)
  case 0
  with assms(4) show ?case by simp
next
  case (Suc d)
  then have k: "[k..<n] = k # [Suc k..<n]" by (simp add: upt_conv_Cons)
  obtain t where t: "search_pages out p receipt (k # [Suc k..<n]) (map entry_of (filter (has_receipt receipt) (take (100 * k) orders))) s
    = (if length orders < 100 * Suc k
       then (Inr (map fields_of (filter (has_receipt receipt) orders)), t)
       else search_pages out p receipt [Suc k..<n] (map entry_of (filter (has_receipt receipt) (take (100 * Suc k) orders))) t)"
    "length (rl_sent t) = Suc (length (rl_sent s))"
    using page_read [OF assms(1,2)] by blast
  show ?case
  proof (cases "length orders < 100 * Suc k")
    case True
    with Suc.prems have "length orders div 100 = k" by (simp add: div_nat_eqI)
    with True t k show ?thesis by auto
  next
    case False
    have d: "d = n - Suc k" using Suc.hyps(2) by simp
    from False obtain u where u: "search_pages out p receipt [Suc k..<n] (map entry_of (filter (has_receipt receipt) (take (100 * Suc k) orders))) t
        = (Inr (map fields_of (filter (has_receipt receipt) orders)), u)"
      "length (rl_sent u) = length (rl_sent t) + (length orders div 100 - Suc k) + 1"
      using Suc.hyps(1) [OF d, of t] by (meson not_less)
    have "Suc k \<le> length orders div 100" using False by (simp add: less_eq_div_iff_mult_less_eq)
    with False t k u show ?thesis by auto
  qed
qed

lemma receipt_length [simp]: "length (receipt_for_idempotency_key key) = 40"
  by (simp add: receipt_for_idempotency_key_def RECEIPT_PREFIX_def RECEIPT_DIGEST_LENGTH_def RAZORPAY_RECEIPT_MAX_LENGTH_def)

text \<open>
  C9. The receipt search terminates and is exhaustive: whatever the service answers, it sends at most
  one hundred requests; and over a listing that is served in pages and does not change meanwhile,
  with fewer than ten thousand orders whose ids are well formed, it returns exactly the orders
  with this receipt, in order, after one request per hundred orders and one more. So no match
  means that there is none, and a match on any page is found.
\<close>

theorem receipt_search_is_exhaustive:
  assumes "serves_pages out p receipt orders" "well_named (filter (has_receipt receipt) orders)" "length orders < 10000"
  shows "\<exists>t. orders_with_exact_receipt out p receipt s = (Inr (map fields_of (filter (has_receipt receipt) orders)), t)
    \<and> length (rl_sent t) = length (rl_sent s) + length orders div 100 + 1
    \<and> (\<forall>out' :: 'h outside. \<forall>s'. length (rl_sent (snd (orders_with_exact_receipt out' p receipt s'))) \<le> length (rl_sent s') + 100)"
proof -
  have bound: "length (rl_sent (snd (orders_with_exact_receipt out' p receipt s'))) \<le> length (rl_sent s') + 100"
    for out' :: "'h outside" and s'
    using search_bound [of out' p receipt "[0..<max_pages]" "[]" s'] by (simp add: orders_with_exact_receipt_def max_pages_def)
  show ?thesis
    using search_all [OF assms(1,2), of 0 max_pages s] assms(3) bound
    by (auto simp: orders_with_exact_receipt_def max_pages_def)
qed

section \<open>Webhooks\<close>

lemma rz_event_Inr:
  assumes "rz_event eid parsed name t status = Inr event"
  obtains ev where "rz_webhook_evidence parsed name t status = Inr ev" "we_provider_event_id event = eid"
    "we_event_type event = ev_event_type ev" "we_provider_status event = Some (ev_status ev)"
    "we_provider_transaction_id event = Some (ev_payment_id ev)" "we_amount_inr event = Some (ev_amount_inr ev)"
    "we_provider_payment_id event = ev_order_id ev"
  using assms
  by (auto simp: rz_event_def VerifiedWebhookEvent_def split: sum.splits option.splits json.splits exn.splits if_splits)

definition success_event :: "string \<Rightarrow> bool" where
  "success_event name \<longleftrightarrow> name \<in> {''payment.captured'', ''order.paid''}"

text \<open>The entity a success event rests on: captured, of this order, amount and currency.\<close>

lemma payload_Inr_iff:
  "(case x of JObj payload \<Rightarrow> f payload | _ \<Rightarrow> Inl m) = Inr y \<longleftrightarrow> (\<exists>payload. x = JObj payload \<and> f payload = Inr y)"
  by (auto split: json.splits)

lemma rz_webhook_evidence_Inr:
  assumes "rz_webhook_evidence parsed name t status = Inr ev"
  shows "ev_event_type ev = t \<and> ev_status ev = status \<and> starts ''pay_'' (ev_payment_id ev) \<and> starts ''order_'' (ev_order_id ev)
    \<and> (\<exists>payload payment. jget ''payload'' parsed = Some (JObj payload) \<and> entity_of (jget ''payment'' payload) = Some payment
      \<and> jget ''id'' payment = Some (JStr (ev_payment_id ev)) \<and> jget ''order_id'' payment = Some (JStr (ev_order_id ev))
      \<and> jget ''amount'' payment = Some (JInt (100 * ev_amount_inr ev)) \<and> jget ''status'' payment = Some (JStr status)
      \<and> (success_event name \<longrightarrow> jget ''captured'' payment = Some (JBool True)))"
proof -
  from assms obtain payload payment attempts where p: "jget ''payload'' parsed = Some (JObj payload)"
      "entity_of (jget ''payment'' payload) = Some payment"
    and e: "jget ''id'' payment = Some (JStr (ev_payment_id ev))" "starts ''pay_'' (ev_payment_id ev)"
      "jget ''order_id'' payment = Some (JStr (ev_order_id ev))" "starts ''order_'' (ev_order_id ev)"
      "jget ''amount'' payment = Some (JInt (100 * ev_amount_inr ev))" "jget ''status'' payment = Some (JStr status)"
      "ev_event_type ev = t" "ev_status ev = status"
      "\<not> (name \<in> {''payment.captured'', ''order.paid''} \<and> jget ''captured'' payment \<noteq> Some (JBool True))"
    unfolding rz_webhook_evidence_def checked_iffs payload_Inr_iff whole_rupees_Inr text_of_json_Some
    by (elim exE conjE) fastforce
  then show ?thesis by (auto simp: success_event_def)
qed



section \<open>One order per payment\<close>

text \<open>
  A relation on jobs that every step of a worker keeps, when it allows any change of the database,
  the transaction boundaries and the two provider calls.
\<close>

locale call_order = session_order Q for Q :: "'p work \<Rightarrow> 'p work \<Rightarrow> bool" +
  fixes prov :: "'p payment_provider" and cfg :: approver
  assumes any_db: "Q k (k\<lparr>wk_db := w\<rparr>)"
    and at_commit: "keeps Q commit"
    and at_rollback: "keeps Q rollback"
    and at_create: "keeps Q (create_payment prov request)"
    and at_get: "keeps Q (get_payment prov pid key)"
begin

lemma keeps_in_db: "keeps Q (in_db m)"
  by (simp add: keeps_def in_db_def any_db split: prod.split)

lemma keeps_try_get: "keeps Q (try_get_payment prov pid key)"
  unfolding try_get_payment_def by (intro keeps_intros at_get)

lemma keeps_try_create: "keeps Q (try_create_payment prov request)"
  unfolding try_create_payment_def by (intro keeps_intros at_create)

lemmas call_intros = keeps_intros keeps_in_db keeps_try_get keeps_try_create at_commit at_rollback

lemma keeps_recover: "keeps Q (recover_fenced_create cfg prov i event now)"
  unfolding recover_fenced_create_def
  by (intro call_intros) (auto intro!: call_intros split: sum.split option.split)

lemma keeps_create_or_adopt: "keeps Q (create_or_adopt cfg prov i event now)"
  unfolding create_or_adopt_def
  by (intro call_intros) (auto intro!: call_intros split: sum.split option.split)

lemma keeps_dispatch: "keeps Q (dispatch_create cfg caps prov i event now)"
  unfolding dispatch_create_def create_behind_fence_def acquire_provider_create_fence_def
  by (intro call_intros keeps_recover keeps_create_or_adopt)

lemma keeps_reconcile: "keeps Q (reconcile_intent cfg caps prov i event now)"
  unfolding reconcile_intent_def ask_provider_def by (intro call_intros)

end

sublocale call_order \<subseteq> worker_order Q prov cfg
  by unfold_locales (intro keeps_in_db at_commit at_rollback keeps_dispatch keeps_reconcile)+

text \<open>The orders Razorpay was sent are the create calls the workers made, in this order.\<close>

definition created_requests :: "provider_call list \<Rightarrow> payment_request list" where
  "created_requests cs = concat (map (\<lambda>c. case c of CreateCall q \<Rightarrow> [q] | LookupCall _ _ \<Rightarrow> []) cs)"

definition sent_orders :: "'h rail \<Rightarrow> http_request list" where
  "sent_orders r = filter (\<lambda>q. hq_method q = POST) (rl_sent r)"

definition orders_match :: "razorpay \<Rightarrow> 'h rail work \<Rightarrow> 'h rail work \<Rightarrow> bool" where
  "orders_match p k k' \<longleftrightarrow> (\<exists>cs. wk_calls k' = wk_calls k @ cs
     \<and> sent_orders (wk_provider k') = sent_orders (wk_provider k) @ map (order_request p) (created_requests cs))"

lemma orders_match_same:
  "wk_calls k' = wk_calls k \<Longrightarrow> wk_provider k' = wk_provider k \<Longrightarrow> orders_match p k k'"
  by (simp add: orders_match_def created_requests_def)

lemma asks_sent_orders: "asks s s' \<Longrightarrow> sent_orders s' = sent_orders s"
  by (auto simp: asks_def sent_orders_def list_all_iff filter_empty_conv)

lemma create_sent_orders: "sent_orders (snd (rz_create_payment out p q s)) = sent_orders s @ [order_request p q]"
proof -
  obtain qs where "rl_sent (snd (rz_create_payment out p q s)) = rl_sent s @ order_request p q # qs"
    "list_all (\<lambda>q. hq_method q = GET) qs" using create_sends by blast
  then show ?thesis by (auto simp: sent_orders_def order_request_def list_all_iff filter_empty_conv)
qed

lemma get_sent_orders: "sent_orders (snd (rz_get_payment out p pid key s)) = sent_orders s"
  using asks_get [of out p pid key] by (simp add: keeps_def asks_sent_orders)

interpretation razorpay_calls: call_order "orders_match p" "razorpay_provider out p" cfg for out p cfg
proof unfold_locales
  show "orders_match p s s" for s :: "'h rail work" by (simp add: orders_match_same)
  show "orders_match p s t \<Longrightarrow> orders_match p t u \<Longrightarrow> orders_match p s u" for s t u :: "'h rail work"
    by (auto simp: orders_match_def created_requests_def)
  show "orders_match p k (k\<lparr>wk_db := w\<rparr>)" for k :: "'h rail work" and w by (simp add: orders_match_same)
  show "keeps (orders_match p) (commit :: ('h rail, unit) job)" "keeps (orders_match p) (rollback :: ('h rail, unit) job)"
    by (simp_all add: keeps_def commit_def rollback_def modify_def Let_def orders_match_same)
  show "keeps (orders_match p) (create_payment (razorpay_provider out p) request)" for request
    using create_sent_orders [of out p request]
    by (auto simp: keeps_def create_payment_def razorpay_provider_def orders_match_def created_requests_def split: prod.split)
      (metis snd_conv)
  show "keeps (orders_match p) (get_payment (razorpay_provider out p) pid key)" for pid key
    using get_sent_orders [of out p pid key]
    by (auto simp: keeps_def get_payment_def razorpay_provider_def orders_match_def created_requests_def split: prod.split)
      (metis snd_conv)
qed

lemma creates_for_distinct:
  assumes "\<And>key. creates_for key cs \<le> 1"
  shows "distinct (map rq_idempotency_key (created_requests cs))"
  using assms
proof (induction cs)
  case (Cons c cs)
  have tail: "creates_for key cs \<le> 1" for key
    using Cons.prems [of key] by (auto simp: creates_for_def split: if_splits)
  show ?case
  proof (cases c)
    case (CreateCall q)
    have "creates_for (rq_idempotency_key q) cs = 0"
      using Cons.prems [of "rq_idempotency_key q"] CreateCall by (simp add: creates_for_def)
    then have "rq_idempotency_key q \<notin> rq_idempotency_key ` set (created_requests cs)"
      by (auto simp: creates_for_def created_requests_def filter_empty_conv split: provider_call.splits)
    with CreateCall Cons.IH tail show ?thesis by (simp add: created_requests_def)
  next
    case LookupCall
    with Cons.IH tail show ?thesis by (simp add: created_requests_def)
  qed
qed (simp add: created_requests_def)

text \<open>
  C6. Razorpay receives at most one order per payment: over any history of worker turns, crashes,
  failures of the transport and commits of other lawful sessions, the \<open>POST\<close> requests sent to
  Razorpay are exactly the orders of a list of payment requests with pairwise different
  idempotency keys.
\<close>

theorem razorpay_receives_one_order_per_payment:
  assumes env: "env_keeps intents_kept k"
    and start: "wk_db k = wk_committed k" "intents_keyed (wk_committed k)" "wk_calls k = []" "rl_sent (wk_provider k) = []"
    and run: "run_turns cfg (razorpay_provider out p) exc_text turns k = (res, k')"
  shows "\<exists>qs. sent_orders (wk_provider k') = map (order_request p) qs \<and> distinct (map rq_idempotency_key qs)"
proof -
  have "\<not> pv_create_retries_are_idempotent (razorpay_provider out p)" by (simp add: razorpay_provider_def)
  then have "creates_for key (wk_calls k') \<le> 1" for key
    using run_turns_fence [OF _ env start(1-3) run, of key] by (auto simp: fence_entry_def)
  moreover from keeps_result [OF razorpay_calls.keeps_run_turns run] have "orders_match p k k'" .
  ultimately show ?thesis using start(3,4) creates_for_distinct [of "wk_calls k'"]
    by (auto simp: orders_match_def sent_orders_def)
qed

section \<open>Examples\<close>

text \<open>A client that plays a list of responses and then fails.\<close>

definition scripted :: "http_response list outside" where
  "scripted = \<lparr>os_send = (\<lambda>q rs. case rs of [] \<Rightarrow> (Inl (TransportFailure ''ReadTimeout''), []) | r # rs \<Rightarrow> (Inr r, rs)),
     os_schema_error = (\<lambda>_. ''invalid'')\<rparr>"

definition sample_adapter :: razorpay where
  "sample_adapter = \<lparr>rz_key_id = ''rzp_test_1'', rz_key_secret = ''k'', rz_webhook_secret = ''w'', rz_connect_timeout = 3,
     rz_read_timeout = 7, rz_write_timeout = 5, rz_pool_timeout = 2, rz_overall_timeout = 10\<rparr>"

definition sample_order :: "(string \<times> json) list" where
  "sample_order = [(''id'', JStr ''order_1''), (''entity'', JStr ''order''), (''status'', JStr ''paid''),
     (''amount'', JInt 759800), (''currency'', JStr ''INR''),
     (''receipt'', JStr (receipt_for_idempotency_key (rq_idempotency_key sample_request))), (''attempts'', JInt 1)]"

definition sample_responses :: "http_response list" where
  "sample_responses = [\<lparr>hr_status = Some 200, hr_json = Some (JObj sample_order)\<rparr>,
     \<lparr>hr_status = Some 200, hr_json = Some (JObj [(''items'', JList
       [JObj [(''status'', JStr ''failed'')],
        JObj [(''id'', JStr ''pay_1''), (''status'', JStr ''captured''), (''order_id'', JStr ''order_1''),
          (''amount'', JInt 759800), (''currency'', JStr ''INR'')]])])\<rparr>]"

lemma receipt_ascii: "is_ascii (receipt_for_idempotency_key key)"
  using set_sha256_hex [of "utf8 key"]
  by (auto simp: receipt_for_idempotency_key_def RECEIPT_PREFIX_def is_ascii_append is_ascii_def hex_digits_def
      dest!: in_set_takeD)

lemma receipt_nonempty: "receipt_for_idempotency_key key \<noteq> []"
  using receipt_length [of key] by (metis list.size(3) zero_neq_numeral)

theorem razorpay_success_was_captured_witness:
  "\<exists>pay s'. rz_create_payment scripted sample_adapter sample_request \<lparr>rl_client = sample_responses, rl_sent = []\<rparr> = (Inr pay, s')
    \<and> pp_status pay = PP_SUCCEEDED \<and> (\<exists>resp h h'.
      os_send scripted (payments_request sample_adapter (pp_provider_payment_id pay)) h = (Inr resp, h') \<and> shows_capture pay resp)"
proof -
  have ok: "order_to_payment scripted (Some (rq_idempotency_key sample_request)) sample_order
    = Inr \<lparr>pp_provider = RAZORPAY_NAME, pp_provider_payment_id = ''order_1'', pp_status = PP_SUCCEEDED,
        pp_amount_inr = 7598, pp_currency = ''INR'', pp_idempotency_key = Some (rq_idempotency_key sample_request),
        pp_provider_order_id = Some ''order_1'', pp_provider_transaction_id = None,
        pp_provider_receipt = Some (receipt_for_idempotency_key (rq_idempotency_key sample_request)),
        pp_provider_status = Some ''paid'', pp_provider_attempts = Some 1, pp_idempotent_replay = False\<rparr>"
    by (simp add: order_to_payment_def sample_order_def jget_def starts_def whole_rupees_def non_negative_int_def text_of_json_def
        compare_digest_def receipt_ascii receipt_nonempty order_status_def ProviderPayment_def sized_def opt_sized_def
        opt_nonneg_def RAZORPAY_NAME_def)
  have "\<exists>pay s'. rz_create_payment scripted sample_adapter sample_request \<lparr>rl_client = sample_responses, rl_sent = []\<rparr> = (Inr pay, s')
    \<and> pp_status pay = PP_SUCCEEDED"
    by (simp add: rz_create_payment_def classify_create_response_def rz_request_def scripted_def sample_responses_def bind_def
        rz_status_code_def lift_def json_object_def classified_def ok [unfolded scripted_def] with_captured_def
        attach_captured_payment_def andthen_def guardE_def ret_def items_of_def jget_def is_captured_def captured_id_def
        text_of_json_def starts_def whole_rupees_def non_negative_int_def)
  then show ?thesis using razorpay_success_was_captured by blast
qed

theorem terminal_failure_is_a_refusal_witness:
  "\<exists>m s'. rz_create_payment scripted sample_adapter sample_request
      \<lparr>rl_client = [\<lparr>hr_status = Some 401, hr_json = None\<rparr>], rl_sent = []\<rparr> = (Inl (ProviderTerminalError m), s')
    \<and> (\<exists>resp h. os_send scripted (order_request sample_adapter sample_request) [\<lparr>hr_status = Some 401, hr_json = None\<rparr>] = (Inr resp, h)
        \<and> refuses_order resp)"
proof -
  obtain m s' where run: "rz_create_payment scripted sample_adapter sample_request
      \<lparr>rl_client = [\<lparr>hr_status = Some 401, hr_json = None\<rparr>], rl_sent = []\<rparr> = (Inl (ProviderTerminalError m), s')"
    by (simp add: rz_create_payment_def classify_create_response_def rz_request_def scripted_def bind_def
        rz_status_code_def lift_def raise_def)
  moreover have "never_terminal scripted" by (auto simp: never_terminal_def scripted_def split: list.splits)
  ultimately show ?thesis using terminal_failure_is_a_refusal [OF _ run] by auto
qed

text \<open>A service that pages through a collection.\<close>

definition paging :: "json list \<Rightarrow> unit outside" where
  "paging orders = \<lparr>os_send = (\<lambda>q h. (Inr \<lparr>hr_status = Some 200, hr_json = Some (JObj [(''items'', JList (take 100 (drop
       (case hq_params q of Some [_, _, (_, JInt n)] \<Rightarrow> nat n | _ \<Rightarrow> 0) orders)))])\<rparr>, h)),
     os_schema_error = (\<lambda>_. ''invalid'')\<rparr>"

lemma paging_serves: "serves_pages (paging orders) p receipt orders"
  by (simp add: serves_pages_def paging_def page_request_def page_size_def jget_def nat_mult_distrib mult.commute)

theorem receipt_search_is_exhaustive_witness:
  "\<exists>t. orders_with_exact_receipt (paging [JObj [(''id'', JStr ''o1''), (''receipt'', JStr ''r'')], JObj [(''receipt'', JStr ''rr'')]])
      sample_adapter ''r'' \<lparr>rl_client = (), rl_sent = []\<rparr> = (Inr [[(''id'', JStr ''o1''), (''receipt'', JStr ''r'')]], t)
    \<and> length (rl_sent t) = 1"
proof -
  let ?orders = "[JObj [(''id'', JStr ''o1''), (''receipt'', JStr ''r'')], JObj [(''receipt'', JStr ''rr'')]]"
  have f: "filter (has_receipt ''r'') ?orders = [JObj [(''id'', JStr ''o1''), (''receipt'', JStr ''r'')]]"
    by (simp add: has_receipt_def jget_def)
  have "well_named (filter (has_receipt ''r'') ?orders)"
    unfolding f by (simp add: well_named_def order_id_of_def fields_of_def jget_def)
  from receipt_search_is_exhaustive [OF paging_serves this, of sample_adapter "\<lparr>rl_client = (), rl_sent = []\<rparr>"] show ?thesis
    unfolding f by (auto simp: fields_of_def)
qed


text \<open>A captured payment, as Razorpay would deliver it.\<close>

definition sample_delivery :: json where
  "sample_delivery = JObj [(''event'', JStr ''payment.captured''), (''payload'', JObj [(''payment'', JObj [(''entity'', JObj
     [(''amount'', JInt 759800), (''captured'', JBool True), (''currency'', JStr ''INR''), (''id'', JStr ''pay_1''),
      (''order_id'', JStr ''order_1''), (''status'', JStr ''captured'')])])])]"

lemma enc_ascii:
  "plain j \<Longrightarrow> is_ascii (enc True j)"
  "\<forall>x \<in> set xs. plain x \<Longrightarrow> is_ascii (enc_elems True start xs)"
  "\<forall>m \<in> set ms. plain (snd m) \<Longrightarrow> is_ascii (enc_members True start ms)"
  by (induction True j and True start xs and True start ms rule: enc_enc_elems_enc_members.induct)
    (auto simp: is_ascii_append enc_str_ascii dec_int_ascii)

lemma parse_dumps: "plain j \<Longrightarrow> parse_body (dumps True j) = Inr (normalise j)"
  by (intro parse_body_ascii loads_dumps) (simp_all add: dumps_def enc_ascii plain_normalise)


definition rail_work :: "http_response list rail work" where
  "rail_work = \<lparr>wk_db = wk_db sample_work, wk_committed = wk_committed sample_work,
     wk_provider = \<lparr>rl_client = sample_responses, rl_sent = []\<rparr>, wk_calls = [], wk_env = (\<lambda>n w. w), wk_turn = 0\<rparr>"

theorem razorpay_receives_one_order_per_payment_witness:
  "\<exists>res k'. run_turns sample_approver (razorpay_provider scripted sample_adapter) (\<lambda>e. ''error'')
      [Turn None ''a'' (Some 5) DEFAULT_LEASE, Dies None ''b'' (Some 6) DEFAULT_LEASE] rail_work = (res, k')
    \<and> (\<exists>qs. sent_orders (wk_provider k') = map (order_request sample_adapter) qs \<and> distinct (map rq_idempotency_key qs))"
proof -
  obtain res k' where run: "run_turns sample_approver (razorpay_provider scripted sample_adapter) (\<lambda>e. ''error'')
      [Turn None ''a'' (Some 5) DEFAULT_LEASE, Dies None ''b'' (Some 6) DEFAULT_LEASE] rail_work = (res, k')" by fastforce
  have "env_keeps intents_kept rail_work" by (simp add: env_keeps_def rail_work_def intents_kept_frame)
  from razorpay_receives_one_order_per_payment [OF this _ _ _ _ run] run sample_work_ok(1,2) show ?thesis
    by (auto simp: rail_work_def)
qed

end
