(* ===== verification/Risk.thy ===== *)
theory Risk
  imports Orchestrator FloatLaws
begin

text \<open>
  The advisory risk engine (\<^verbatim>\<open>services/risk_engine/\<close>: \<^verbatim>\<open>config.py\<close>, \<^verbatim>\<open>models.py\<close>, \<^verbatim>\<open>anomaly.py\<close>,
  \<^verbatim>\<open>features.py\<close>, \<^verbatim>\<open>heuristic.py\<close>, \<^verbatim>\<open>engine.py\<close>). Floats are the rationals they denote and every
  operation rounds with \<open>fl\<close>; \<open>sum\<close> of floats is the compensated summation of the Python version
  the project requires. A rule names its fields of the configuration by their selectors. The
  sentences meant for a reader (\<open>source_detail\<close>, the templates and \<^verbatim>\<open>explain.py\<close>) are not modelled:
  nothing the engine computes depends on them. Of rows with equal timestamps the later one in the
  table counts as the later one.
\<close>

section \<open>Configuration\<close>

datatype risk_band = RB_LOW | RB_MEDIUM | RB_HIGH | RB_CRITICAL

datatype risk_recommendation = RR_PROCEED | RR_REVIEW | RR_REQUIRE_STRONGER_APPROVAL | RR_ESCALATE

fun band_text :: "risk_band \<Rightarrow> string" where
  "band_text RB_LOW = ''LOW''"
| "band_text RB_MEDIUM = ''MEDIUM''"
| "band_text RB_HIGH = ''HIGH''"
| "band_text RB_CRITICAL = ''CRITICAL''"

fun recommendation_text :: "risk_recommendation \<Rightarrow> string" where
  "recommendation_text RR_PROCEED = ''PROCEED''"
| "recommendation_text RR_REVIEW = ''REVIEW''"
| "recommendation_text RR_REQUIRE_STRONGER_APPROVAL = ''REQUIRE_STRONGER_APPROVAL''"
| "recommendation_text RR_ESCALATE = ''ESCALATE''"

definition WEAK :: rat where
  "WEAK = fl (5 / 100)"

definition MODERATE :: rat where
  "MODERATE = fl (15 / 100)"

definition STRONG :: rat where
  "STRONG = fl (35 / 100)"

definition SEVERE :: rat where
  "SEVERE = fl (60 / 100)"

definition ENGINE_VERSION :: string where
  "ENGINE_VERSION = ''pactra-risk-v1''"

definition HEURISTIC_VERSION :: string where
  "HEURISTIC_VERSION = ''heuristic-v1''"

definition MODEL_TYPE_HEURISTIC :: string where
  "MODEL_TYPE_HEURISTIC = ''DETERMINISTIC_HEURISTIC''"

text \<open>Two doubles that differ have a rounded difference other than zero, so the division is defined.\<close>

definition ramp :: "rat \<Rightarrow> rat \<Rightarrow> rat \<Rightarrow> exn + rat" where
  "ramp v lo hi =
     (if hi \<le> lo then Inl (ValueError ''ramp requires hi > lo'')
      else if v \<le> lo then Inr 0
      else if hi \<le> v then Inr 1
      else Inr (fl (fl (v - lo) / fl (hi - lo))))"

record risk_config =
  rc_saturation_points :: rat
  rc_band_medium_at :: rat
  rc_band_high_at :: rat
  rc_band_critical_at :: rat
  rc_review_threshold :: rat
  rc_amount_hard_limit_weight :: rat
  rc_amount_hard_limit_ramp_lo :: rat
  rc_amount_hard_limit_ramp_hi :: rat
  rc_amount_soft_budget_weight :: rat
  rc_amount_soft_budget_ramp_lo :: rat
  rc_amount_soft_budget_ramp_hi :: rat
  rc_preferred_merchant_trust :: rat
  rc_merchant_trust_weight :: rat
  rc_merchant_unknown_weight :: rat
  rc_merchant_identity_mismatch_weight :: rat
  rc_merchant_identity_mismatch_saturates_at :: rat
  rc_merchant_escalation_weight :: rat
  rc_merchant_escalation_saturates_at :: rat
  rc_merchant_failure_ratio_weight :: rat
  rc_merchant_failure_ratio_ramp_lo :: rat
  rc_merchant_failure_ratio_ramp_hi :: rat
  rc_min_merchant_payment_history :: int
  rc_replay_attempt_weight :: rat
  rc_replay_attempt_saturates_at :: rat
  rc_binding_failure_weight :: rat
  rc_binding_failure_saturates_at :: rat
  rc_mission_escalation_weight :: rat
  rc_mission_escalation_saturates_at :: rat
  rc_authorization_age_weight :: rat
  rc_authorization_age_ramp_lo :: rat
  rc_authorization_age_ramp_hi :: rat
  rc_payment_attempt_weight :: rat
  rc_payment_attempt_ramp_lo :: rat
  rc_payment_attempt_ramp_hi :: rat
  rc_provider_timeout_weight :: rat
  rc_provider_timeout_saturates_at :: rat
  rc_provider_mismatch_weight :: rat
  rc_provider_mismatch_saturates_at :: rat
  rc_idempotency_conflict_weight :: rat
  rc_idempotency_conflict_saturates_at :: rat
  rc_webhook_anomaly_weight :: rat
  rc_webhook_anomaly_saturates_at :: rat
  rc_reconciliation_weight :: rat
  rc_reconciliation_ramp_lo :: rat
  rc_reconciliation_ramp_hi :: rat
  rc_audit_integrity_weight :: rat
  rc_invalid_offer_weight :: rat
  rc_invalid_offer_ramp_lo :: rat
  rc_invalid_offer_ramp_hi :: rat
  rc_min_offers_for_ratio :: int
  rc_min_history_observations :: int
  rc_amount_anomaly_weight :: rat
  rc_amount_anomaly_ramp_lo :: rat
  rc_amount_anomaly_ramp_hi :: rat

definition DEFAULT_RISK_CONFIG :: risk_config where
  "DEFAULT_RISK_CONFIG = \<lparr>rc_saturation_points = 1,
     rc_band_medium_at = fl (1 / 4),
     rc_band_high_at = fl (1 / 2),
     rc_band_critical_at = fl (3 / 4),
     rc_review_threshold = fl (1 / 4),
     rc_amount_hard_limit_weight = MODERATE,
     rc_amount_hard_limit_ramp_lo = fl (3 / 4),
     rc_amount_hard_limit_ramp_hi = 1,
     rc_amount_soft_budget_weight = WEAK,
     rc_amount_soft_budget_ramp_lo = 1,
     rc_amount_soft_budget_ramp_hi = fl (3 / 2),
     rc_preferred_merchant_trust = fl (4 / 5),
     rc_merchant_trust_weight = MODERATE,
     rc_merchant_unknown_weight = STRONG,
     rc_merchant_identity_mismatch_weight = SEVERE,
     rc_merchant_identity_mismatch_saturates_at = 1,
     rc_merchant_escalation_weight = STRONG,
     rc_merchant_escalation_saturates_at = 2,
     rc_merchant_failure_ratio_weight = MODERATE,
     rc_merchant_failure_ratio_ramp_lo = fl (1 / 5),
     rc_merchant_failure_ratio_ramp_hi = fl (3 / 5),
     rc_min_merchant_payment_history = 3,
     rc_replay_attempt_weight = SEVERE,
     rc_replay_attempt_saturates_at = 1,
     rc_binding_failure_weight = SEVERE,
     rc_binding_failure_saturates_at = 1,
     rc_mission_escalation_weight = STRONG,
     rc_mission_escalation_saturates_at = 2,
     rc_authorization_age_weight = WEAK,
     rc_authorization_age_ramp_lo = fl (4 / 5),
     rc_authorization_age_ramp_hi = 1,
     rc_payment_attempt_weight = MODERATE,
     rc_payment_attempt_ramp_lo = 1,
     rc_payment_attempt_ramp_hi = 4,
     rc_provider_timeout_weight = MODERATE,
     rc_provider_timeout_saturates_at = 2,
     rc_provider_mismatch_weight = STRONG,
     rc_provider_mismatch_saturates_at = 1,
     rc_idempotency_conflict_weight = STRONG,
     rc_idempotency_conflict_saturates_at = 1,
     rc_webhook_anomaly_weight = WEAK,
     rc_webhook_anomaly_saturates_at = 3,
     rc_reconciliation_weight = WEAK,
     rc_reconciliation_ramp_lo = 1,
     rc_reconciliation_ramp_hi = 3,
     rc_audit_integrity_weight = SEVERE,
     rc_invalid_offer_weight = WEAK,
     rc_invalid_offer_ramp_lo = fl (17 / 50),
     rc_invalid_offer_ramp_hi = 1,
     rc_min_offers_for_ratio = 2,
     rc_min_history_observations = 5,
     rc_amount_anomaly_weight = MODERATE,
     rc_amount_anomaly_ramp_lo = fl (3 / 2),
     rc_amount_anomaly_ramp_hi = 3\<rparr>"

definition recommendation_for :: "risk_band \<Rightarrow> risk_recommendation" where
  "recommendation_for band = (case band of
     RB_LOW \<Rightarrow> RR_PROCEED | RB_MEDIUM \<Rightarrow> RR_REVIEW | RB_HIGH \<Rightarrow> RR_REQUIRE_STRONGER_APPROVAL | RB_CRITICAL \<Rightarrow> RR_ESCALATE)"

definition band_for :: "risk_config \<Rightarrow> rat \<Rightarrow> risk_band" where
  "band_for c score =
     (if rc_band_critical_at c \<le> score then RB_CRITICAL
      else if rc_band_high_at c \<le> score then RB_HIGH
      else if rc_band_medium_at c \<le> score then RB_MEDIUM else RB_LOW)"

section \<open>Features\<close>

datatype feature_source = FS_MERCHANT_REGISTRY | FS_USER_POLICY | FS_POLICY_DECISION | FS_AUTHORIZATION_ROW
  | FS_PAYMENT_INTENT_ROW | FS_AUDIT_LEDGER | FS_MISSION_ROW | FS_MERCHANT_PAYLOAD

datatype feature_unavailable_reason = INSUFFICIENT_HISTORY | NO_POLICY_DECISION | NO_AUTHORIZATION | NO_PAYMENT_INTENT
  | NO_OFFERS | NO_SELECTED_MERCHANT

datatype feature_scalar = SFloat rat | SInt int | SBool bool

record feature_value =
  fv_name :: string
  fv_value :: "feature_scalar option"
  fv_source :: feature_source
  fv_authority :: authority_level
  fv_trust :: trust_level
  fv_derived_from_untrusted_evidence :: bool
  fv_available :: bool
  fv_unavailable_reason :: "feature_unavailable_reason option"

type_synonym features = "(string \<times> feature_value) list"

fun scalar_float :: "feature_scalar \<Rightarrow> rat" where
  "scalar_float (SFloat x) = x"
| "scalar_float (SInt i) = fl (of_int i)"
| "scalar_float (SBool b) = (if b then 1 else 0)"

fun truthy :: "feature_scalar option \<Rightarrow> bool" where
  "truthy None = False"
| "truthy (Some (SFloat x)) = (x \<noteq> 0)"
| "truthy (Some (SInt i)) = (i \<noteq> 0)"
| "truthy (Some (SBool b)) = b"

definition numeric :: "feature_value \<Rightarrow> rat option" where
  "numeric f = (if \<not> fv_available f then None else map_option scalar_float (fv_value f))"

record feature_spec =
  fs_source :: feature_source
  fs_authority :: authority_level
  fs_trust :: trust_level
  fs_derived_from_untrusted_evidence :: bool

definition audit_spec :: "bool \<Rightarrow> feature_spec" where
  "audit_spec untrusted_evidence = \<lparr>fs_source = FS_AUDIT_LEDGER, fs_authority = TRUSTED_INTERNAL_SERVICE,
     fs_trust = T_TRUSTED, fs_derived_from_untrusted_evidence = untrusted_evidence\<rparr>"

definition FEATURE_SPECS :: "(string \<times> feature_spec) list" where
  "FEATURE_SPECS = [
     (''amount_to_hard_limit_ratio'', \<lparr>fs_source = FS_POLICY_DECISION, fs_authority = USER_POLICY, fs_trust = T_AUTHORITATIVE,
       fs_derived_from_untrusted_evidence = False\<rparr>),
     (''amount_to_soft_budget_ratio'', \<lparr>fs_source = FS_POLICY_DECISION, fs_authority = USER_POLICY, fs_trust = T_AUTHORITATIVE,
       fs_derived_from_untrusted_evidence = False\<rparr>),
     (''requested_amount_inr'', \<lparr>fs_source = FS_POLICY_DECISION, fs_authority = SYSTEM_SECURITY_POLICY, fs_trust = T_TRUSTED,
       fs_derived_from_untrusted_evidence = False\<rparr>),
     (''quantity'', \<lparr>fs_source = FS_MISSION_ROW, fs_authority = TRUSTED_INTERNAL_SERVICE, fs_trust = T_TRUSTED,
       fs_derived_from_untrusted_evidence = False\<rparr>),
     (''merchant_trust'', \<lparr>fs_source = FS_MERCHANT_REGISTRY, fs_authority = TRUSTED_INTERNAL_SERVICE, fs_trust = T_TRUSTED,
       fs_derived_from_untrusted_evidence = False\<rparr>),
     (''merchant_known'', \<lparr>fs_source = FS_MERCHANT_REGISTRY, fs_authority = TRUSTED_INTERNAL_SERVICE, fs_trust = T_TRUSTED,
       fs_derived_from_untrusted_evidence = False\<rparr>),
     (''merchant_identity_mismatch_events'', audit_spec True),
     (''merchant_authority_escalation_events'', audit_spec True),
     (''merchant_failed_payment_ratio'', \<lparr>fs_source = FS_PAYMENT_INTENT_ROW, fs_authority = TRUSTED_INTERNAL_SERVICE, fs_trust = T_TRUSTED,
       fs_derived_from_untrusted_evidence = False\<rparr>),
     (''merchant_payment_observations'', \<lparr>fs_source = FS_PAYMENT_INTENT_ROW, fs_authority = TRUSTED_INTERNAL_SERVICE, fs_trust = T_TRUSTED,
       fs_derived_from_untrusted_evidence = False\<rparr>),
     (''authorization_replay_attempts'', audit_spec True),
     (''transaction_binding_failures'', audit_spec True),
     (''mission_authority_escalation_attempts'', audit_spec True),
     (''authorization_lifetime_used_ratio'', \<lparr>fs_source = FS_AUTHORIZATION_ROW, fs_authority = AUTHORIZATION, fs_trust = T_TRUSTED,
       fs_derived_from_untrusted_evidence = False\<rparr>),
     (''authorization_age_seconds'', \<lparr>fs_source = FS_AUTHORIZATION_ROW, fs_authority = AUTHORIZATION, fs_trust = T_TRUSTED,
       fs_derived_from_untrusted_evidence = False\<rparr>),
     (''payment_attempts'', \<lparr>fs_source = FS_PAYMENT_INTENT_ROW, fs_authority = TRUSTED_INTERNAL_SERVICE, fs_trust = T_TRUSTED,
       fs_derived_from_untrusted_evidence = False\<rparr>),
     (''provider_timeout_events'', audit_spec False),
     (''provider_response_mismatch_events'', audit_spec True),
     (''idempotency_conflict_events'', audit_spec True),
     (''webhook_anomaly_events'', audit_spec True),
     (''reconciliation_events'', audit_spec False),
     (''audit_chain_valid'', audit_spec False),
     (''invalid_offer_ratio'', \<lparr>fs_source = FS_MISSION_ROW, fs_authority = TRUSTED_INTERNAL_SERVICE, fs_trust = T_TRUSTED,
       fs_derived_from_untrusted_evidence = False\<rparr>),
     (''amount_vs_merchant_median_ratio'', \<lparr>fs_source = FS_AUTHORIZATION_ROW, fs_authority = AUTHORIZATION, fs_trust = T_TRUSTED,
       fs_derived_from_untrusted_evidence = False\<rparr>),
     (''merchant_amount_observations'', \<lparr>fs_source = FS_AUTHORIZATION_ROW, fs_authority = AUTHORIZATION, fs_trust = T_TRUSTED,
       fs_derived_from_untrusted_evidence = False\<rparr>)]"

text \<open>\<open>_value\<close>: a feature takes its provenance from its entry in the table.\<close>

definition feature_of :: "string \<Rightarrow> feature_scalar option \<Rightarrow> feature_unavailable_reason option \<Rightarrow> exn + (string \<times> feature_value)" where
  "feature_of name v unavailable = (case map_of FEATURE_SPECS name of
     None \<Rightarrow> Inl (KeyError name)
   | Some spec \<Rightarrow> Inr (name, \<lparr>fv_name = name, fv_value = (if unavailable = None then v else None), fv_source = fs_source spec,
       fv_authority = fs_authority spec, fv_trust = fs_trust spec,
       fv_derived_from_untrusted_evidence = fs_derived_from_untrusted_evidence spec,
       fv_available = (unavailable = None), fv_unavailable_reason = unavailable\<rparr>))"

section \<open>Merchant history\<close>

definition FAILED_STATES :: "payment_state set" where
  "FAILED_STATES = {P_FAILED_TERMINAL}"

definition SETTLED_STATES :: "payment_state set" where
  "SETTLED_STATES = {P_SUCCEEDED}"

definition HISTORY_WINDOW :: nat where
  "HISTORY_WINDOW = 200"

record merchant_history =
  mh_merchant_id :: string
  mh_amount_observations :: int
  mh_median_amount_inr :: "rat option"
  mh_settled_payments :: int
  mh_failed_payments :: int
  mh_available :: bool
  mh_cold_start :: bool

definition payment_observations :: "merchant_history \<Rightarrow> int" where
  "payment_observations h = mh_settled_payments h + mh_failed_payments h"

text \<open>The division of two integers is rounded once.\<close>

definition true_div :: "int \<Rightarrow> int \<Rightarrow> rat" where
  "true_div a b = fl (of_int a / of_int b)"

definition failure_ratio :: "merchant_history \<Rightarrow> rat option" where
  "failure_ratio h = (let total = payment_observations h in
     if total = 0 then None else Some (true_div (mh_failed_payments h) total))"

definition amount_ratio :: "merchant_history \<Rightarrow> int \<Rightarrow> rat option" where
  "amount_ratio h amount_inr = (case mh_median_amount_inr h of
     None \<Rightarrow> None
   | Some median \<Rightarrow> if \<not> mh_available h \<or> median \<le> 0 then None else Some (fl (fl (of_int amount_inr) / median)))"

definition empty_history :: "string \<Rightarrow> merchant_history" where
  "empty_history merchant_id = \<lparr>mh_merchant_id = merchant_id, mh_amount_observations = 0, mh_median_amount_inr = None,
     mh_settled_payments = 0, mh_failed_payments = 0, mh_available = False, mh_cold_start = True\<rparr>"

text \<open>\<open>float(statistics.median(...))\<close> of a list with at least one element.\<close>

definition median :: "int list \<Rightarrow> rat" where
  "median amounts = (let s = sort amounts; n = length s in
     if odd n then fl (of_int (s ! (n div 2))) else true_div (s ! (n div 2 - 1) + s ! (n div 2)) 2)"

text \<open>\<open>order_by(key.desc()).limit(n)\<close>.\<close>

definition recent :: "('r \<Rightarrow> instant) \<Rightarrow> nat \<Rightarrow> 'r list \<Rightarrow> 'r list" where
  "recent key n rows = take n (rev (sort_key key rows))"

definition load_merchant_history :: "string \<Rightarrow> uuid \<Rightarrow> int \<Rightarrow> world \<Rightarrow> merchant_history" where
  "load_merchant_history merchant_id exclude_mission_id min_observations w =
     (let amounts = map az_bound_amount_inr (recent az_issued_at HISTORY_WINDOW
            (filter (\<lambda>r. az_bound_merchant_id r = merchant_id \<and> az_mission_id r \<noteq> exclude_mission_id) (w_authorizations w)));
          states = map pi_state (recent pi_created_at HISTORY_WINDOW
            (filter (\<lambda>r. pi_merchant_id r = merchant_id \<and> pi_mission_id r \<noteq> exclude_mission_id) (w_payment_intents w)));
          available = (min_observations \<le> int (length amounts)) in
      \<lparr>mh_merchant_id = merchant_id, mh_amount_observations = int (length amounts),
       mh_median_amount_inr = (if available then Some (median amounts) else None),
       mh_settled_payments = int (length (filter (\<lambda>s. s \<in> SETTLED_STATES) states)),
       mh_failed_payments = int (length (filter (\<lambda>s. s \<in> FAILED_STATES) states)),
       mh_available = available, mh_cold_start = (amounts = [] \<and> states = [])\<rparr>)"

section \<open>What an assessment reads\<close>

definition NO_MERCHANT :: string where
  "NO_MERCHANT = []"

definition SECURITY_HISTORY_WINDOW :: nat where
  "SECURITY_HISTORY_WINDOW = 500"

record mission_facts =
  mf_mission_id :: uuid
  mf_mission :: mission_row
  mf_constraints :: "mission_constraints_row option"
  mf_policy_decision :: "policy_decision_row option"
  mf_authorization :: "authorization_row option"
  mf_payment_intent :: "payment_intent_row option"
  mf_offers :: "offer_row list"
  mf_events :: "audit_event_row list"
  mf_merchant_id :: "string option"
  mf_merchant_trust :: rat
  mf_merchant_known :: bool
  mf_history :: merchant_history
  mf_audit_chain_valid :: bool

text \<open>A member of an event's payload, when the payload is an object.\<close>

definition payload_member :: "string \<Rightarrow> audit_event_row \<Rightarrow> json option" where
  "payload_member key event = (case ae_payload event of JObj ms \<Rightarrow> jget key ms | _ \<Rightarrow> None)"

definition payload_reason :: "audit_event_row \<Rightarrow> string option" where
  "payload_reason event = (case payload_member ''reason_code'' event of Some (JStr reason) \<Rightarrow> Some reason | _ \<Rightarrow> None)"

definition count_type :: "audit_event_row list \<Rightarrow> event_type list \<Rightarrow> int" where
  "count_type events types = int (length (filter (\<lambda>event. ae_event_type event \<in> set (map event_text types)) events))"

definition load_selected_merchant :: "authorization_row option \<Rightarrow> policy_decision_row option \<Rightarrow> world \<Rightarrow> string option" where
  "load_selected_merchant authorization decision w = (case authorization of
     Some a \<Rightarrow> Some (az_bound_merchant_id a)
   | None \<Rightarrow> (case decision of
       None \<Rightarrow> None
     | Some d \<Rightarrow> (case pdr_selected_offer_id d of
         None \<Rightarrow> None
       | Some i \<Rightarrow> map_option of_merchant_id (find_row (\<lambda>o'. of_id o' = i) (w_offers w)))))"

definition merchant_violation_counts :: "string \<Rightarrow> world \<Rightarrow> int \<times> int" where
  "merchant_violation_counts merchant_id w =
     (let events = recent ae_created_at SECURITY_HISTORY_WINDOW
            (filter (\<lambda>e. ae_event_type e = event_text E_SECURITY_VIOLATION) (w_audit_events w));
          naming = (\<lambda>reason key e. payload_member ''reason_code'' e = Some (JStr (reason_text reason))
            \<and> payload_member key e = Some (JStr merchant_id)) in
      (int (length (filter (naming R_MERCHANT_IDENTITY_MISMATCH ''authenticated_merchant_id'') events)),
       int (length (filter (naming R_AUTHORITY_ESCALATION ''merchant_id'') events))))"

text \<open>\<open>scalar_one_or_none\<close>.\<close>

definition one_or_none :: "'r list \<Rightarrow> exn + 'r option" where
  "one_or_none rows = (case rows of [] \<Rightarrow> Inr None | [r] \<Rightarrow> Inr (Some r) | _ \<Rightarrow> Inl (RuntimeError ''MultipleResultsFound''))"

definition load_mission_facts :: "risk_config \<Rightarrow> merchant_registry \<Rightarrow> uuid \<Rightarrow> mission_facts db" where
  "load_mission_facts config registry mission_id =
     bind (gets (find_mission mission_id)) (\<lambda>found. case found of
       None \<Rightarrow> raise MissionNotFound
     | Some mission \<Rightarrow>
       bind (gets (\<lambda>w. filter (\<lambda>r. cr_mission_id r = mission_id) (w_mission_constraints w))) (\<lambda>constraint_rows.
       bind (lift (one_or_none constraint_rows)) (\<lambda>constraints.
       bind (gets (\<lambda>w. latest_by pdr_created_at (filter (\<lambda>r. pdr_mission_id r = mission_id) (w_policy_decisions w)))) (\<lambda>decision.
       bind (gets (\<lambda>w. latest_by az_issued_at (filter (\<lambda>r. az_mission_id r = mission_id) (w_authorizations w)))) (\<lambda>authorization.
       bind (gets (\<lambda>w. latest_by pi_created_at (filter (\<lambda>r. pi_mission_id r = mission_id) (w_payment_intents w)))) (\<lambda>payment_intent.
       bind (gets (\<lambda>w. filter (\<lambda>o'. of_mission_id o' = mission_id) (w_offers w))) (\<lambda>offers.
       bind (gets (list_events mission_id)) (\<lambda>events.
       bind (gets (load_selected_merchant authorization decision)) (\<lambda>merchant_id.
       bind (gets (\<lambda>w. case merchant_id of None \<Rightarrow> empty_history NO_MERCHANT
           | Some m \<Rightarrow> load_merchant_history m mission_id (rc_min_history_observations config) w)) (\<lambda>history.
       ret \<lparr>mf_mission_id = mission_id, mf_mission = mission, mf_constraints = constraints, mf_policy_decision = decision,
         mf_authorization = authorization, mf_payment_intent = payment_intent, mf_offers = offers, mf_events = events,
         mf_merchant_id = merchant_id,
         mf_merchant_trust = (case merchant_id of None \<Rightarrow> 0 | Some m \<Rightarrow> mr_trust_score (record_for registry m)),
         mf_merchant_known = (case merchant_id of None \<Rightarrow> False | Some m \<Rightarrow> mr_known (record_for registry m)),
         mf_history = history, mf_audit_chain_valid = vr_valid (verify_events mission_id events)\<rparr>))))))))))"

section \<open>Extraction\<close>

text \<open>The measurements in the order of the code: a name, its value, or why there is none.\<close>

type_synonym measurement = "string \<times> feature_scalar option \<times> feature_unavailable_reason option"

definition amount_features :: "mission_facts \<Rightarrow> measurement list" where
  "amount_features facts =
     (let undecided = map (\<lambda>name. (name, None, Some NO_POLICY_DECISION))
        [''requested_amount_inr'', ''amount_to_hard_limit_ratio'', ''amount_to_soft_budget_ratio''] in
      case mf_policy_decision facts of
        None \<Rightarrow> undecided
      | Some decision \<Rightarrow> (case pdr_requested_amount decision of
          None \<Rightarrow> undecided
        | Some amount \<Rightarrow>
          let hard = (case mf_constraints facts of Some c \<Rightarrow> mc_hard_limit_inr (cr_constraints c) | None \<Rightarrow> pdr_hard_limit decision);
              soft = (case mf_constraints facts of Some c \<Rightarrow> mc_soft_budget_inr (cr_constraints c) | None \<Rightarrow> pdr_soft_budget decision);
              over = (\<lambda>limit. if limit = 0 then None else Some (SFloat (true_div amount limit))) in
          [(''requested_amount_inr'', Some (SInt amount), None), (''amount_to_hard_limit_ratio'', over hard, None),
           (''amount_to_soft_budget_ratio'', over soft, None)]))"

definition merchant_features :: "risk_config \<Rightarrow> mission_facts \<Rightarrow> measurement list" where
  "merchant_features config facts =
     (case mf_merchant_id facts of
        None \<Rightarrow> [(''merchant_trust'', None, Some NO_SELECTED_MERCHANT), (''merchant_known'', None, Some NO_SELECTED_MERCHANT)]
      | Some _ \<Rightarrow> [(''merchant_trust'', Some (SFloat (mf_merchant_trust facts)), None),
          (''merchant_known'', Some (SBool (mf_merchant_known facts)), None)])
   @ [(''merchant_payment_observations'', Some (SInt (payment_observations (mf_history facts))), None),
      (if rc_min_merchant_payment_history config \<le> payment_observations (mf_history facts)
       then (''merchant_failed_payment_ratio'', map_option SFloat (failure_ratio (mf_history facts)), None)
       else (''merchant_failed_payment_ratio'', None, Some INSUFFICIENT_HISTORY))]"

definition authorization_features :: "mission_facts \<Rightarrow> instant \<Rightarrow> measurement list" where
  "authorization_features facts now =
     [(''authorization_replay_attempts'', Some (SInt (count_type (mf_events facts) [E_AUTHORIZATION_REPLAY_DETECTED])), None),
      (''transaction_binding_failures'', Some (SInt (count_type (mf_events facts) [E_TRANSACTION_BINDING_FAILURE])), None),
      (''mission_authority_escalation_attempts'', Some (SInt (int (length (filter (\<lambda>event.
          ae_event_type event = event_text E_SECURITY_VIOLATION
          \<and> payload_reason event = Some (reason_text R_AUTHORITY_ESCALATION)) (mf_events facts))))), None)]
   @ (case mf_authorization facts of
        None \<Rightarrow> [(''authorization_age_seconds'', None, Some NO_AUTHORIZATION),
          (''authorization_lifetime_used_ratio'', None, Some NO_AUTHORIZATION)]
      | Some a \<Rightarrow>
        let window = true_div (az_expires_at a - az_issued_at a) usec; elapsed = true_div (now - az_issued_at a) usec in
        [(''authorization_age_seconds'', Some (SFloat (max 0 elapsed)), None),
         (''authorization_lifetime_used_ratio'',
           if 0 < window then Some (SFloat (max 0 (fl (elapsed / window)))) else None, None)])"

definition payment_features :: "mission_facts \<Rightarrow> measurement list" where
  "payment_features facts =
     [(case mf_payment_intent facts of
         None \<Rightarrow> (''payment_attempts'', None, Some NO_PAYMENT_INTENT)
       | Some p \<Rightarrow> (''payment_attempts'', Some (SInt (pi_attempts p)), None)),
      (''provider_timeout_events'', Some (SInt (count_type (mf_events facts) [E_PAYMENT_PROVIDER_TIMEOUT])), None),
      (''provider_response_mismatch_events'', Some (SInt (int (length (filter (\<lambda>event.
          payload_reason event = Some (reason_text R_PROVIDER_RESPONSE_MISMATCH)) (mf_events facts))))), None),
      (''idempotency_conflict_events'', Some (SInt (count_type (mf_events facts) [E_IDEMPOTENCY_CONFLICT])), None),
      (''webhook_anomaly_events'', Some (SInt (count_type (mf_events facts)
          [E_DUPLICATE_WEBHOOK_IGNORED, E_WEBHOOK_OUT_OF_ORDER_IGNORED])), None),
      (''reconciliation_events'', Some (SInt (count_type (mf_events facts) [E_PAYMENT_RECONCILED])), None)]"

definition integrity_features :: "risk_config \<Rightarrow> mission_facts \<Rightarrow> measurement list" where
  "integrity_features config facts = (let total = int (length (mf_offers facts)) in
     [(''audit_chain_valid'', Some (SBool (mf_audit_chain_valid facts)), None),
      (if total < rc_min_offers_for_ratio config then (''invalid_offer_ratio'', None, Some NO_OFFERS)
       else (''invalid_offer_ratio'', Some (SFloat (true_div (int (length (filter (\<lambda>o'. \<not> of_valid o') (mf_offers facts)))) total)), None))])"

definition anomaly_features :: "mission_facts \<Rightarrow> measurement list" where
  "anomaly_features facts =
     (let amount = Option.bind (mf_policy_decision facts) pdr_requested_amount in
      [(''merchant_amount_observations'', Some (SInt (mh_amount_observations (mf_history facts))), None),
       (case Option.bind amount (amount_ratio (mf_history facts)) of
          None \<Rightarrow> (''amount_vs_merchant_median_ratio'', None,
            Some (if amount = None then NO_POLICY_DECISION else INSUFFICIENT_HISTORY))
        | Some ratio \<Rightarrow> (''amount_vs_merchant_median_ratio'', Some (SFloat ratio), None))])"

definition extract_features :: "risk_config \<Rightarrow> mission_facts \<Rightarrow> instant \<Rightarrow> exn + features" where
  "extract_features config facts now =
     mapE (\<lambda>(name, v, unavailable). feature_of name v unavailable)
       (amount_features facts @ [(''quantity'', Some (SInt (ms_quantity (mf_mission facts))), None)]
        @ merchant_features config facts @ authorization_features facts now @ payment_features facts
        @ integrity_features config facts @ anomaly_features facts)"

definition extract_merchant_history_features :: "mission_facts \<Rightarrow> features db" where
  "extract_merchant_history_features facts = (case mf_merchant_id facts of
     None \<Rightarrow> lift (mapE (\<lambda>name. feature_of name None (Some NO_SELECTED_MERCHANT))
       [''merchant_identity_mismatch_events'', ''merchant_authority_escalation_events''])
   | Some merchant_id \<Rightarrow>
     bind (gets (merchant_violation_counts merchant_id)) (\<lambda>counts.
     lift (mapE (\<lambda>(name, v). feature_of name (Some (SInt v)) None)
       [(''merchant_identity_mismatch_events'', fst counts), (''merchant_authority_escalation_events'', snd counts)])))"

section \<open>Scoring\<close>

datatype shape = SH_RATIO | SH_COUNT | SH_SHORTFALL | SH_ABSENT_FLAG

record factor_rule =
  fr_code :: string
  fr_feature :: string
  fr_shape :: shape
  fr_weight :: "risk_config \<Rightarrow> rat"
  fr_lo :: "(risk_config \<Rightarrow> rat) option"
  fr_hi :: "(risk_config \<Rightarrow> rat) option"
  fr_saturates :: "(risk_config \<Rightarrow> rat) option"
  fr_reference :: "(risk_config \<Rightarrow> rat) option"
  fr_requires_true :: "string option"

definition FACTOR_RULES :: "factor_rule list" where
  "FACTOR_RULES = [
     \<lparr>fr_code = ''MERCHANT_IDENTITY_MISMATCH_HISTORY'', fr_feature = ''merchant_identity_mismatch_events'', fr_shape = SH_COUNT, fr_weight = rc_merchant_identity_mismatch_weight,
      fr_lo = None, fr_hi = None, fr_saturates = Some rc_merchant_identity_mismatch_saturates_at,
      fr_reference = None, fr_requires_true = None\<rparr>,
     \<lparr>fr_code = ''AUTHORIZATION_REPLAY_HISTORY'', fr_feature = ''authorization_replay_attempts'', fr_shape = SH_COUNT, fr_weight = rc_replay_attempt_weight,
      fr_lo = None, fr_hi = None, fr_saturates = Some rc_replay_attempt_saturates_at,
      fr_reference = None, fr_requires_true = None\<rparr>,
     \<lparr>fr_code = ''TRANSACTION_BINDING_FAILURE_HISTORY'', fr_feature = ''transaction_binding_failures'', fr_shape = SH_COUNT, fr_weight = rc_binding_failure_weight,
      fr_lo = None, fr_hi = None, fr_saturates = Some rc_binding_failure_saturates_at,
      fr_reference = None, fr_requires_true = None\<rparr>,
     \<lparr>fr_code = ''AUDIT_CHAIN_INVALID'', fr_feature = ''audit_chain_valid'', fr_shape = SH_ABSENT_FLAG, fr_weight = rc_audit_integrity_weight,
      fr_lo = None, fr_hi = None, fr_saturates = None,
      fr_reference = None, fr_requires_true = None\<rparr>,
     \<lparr>fr_code = ''MERCHANT_AUTHORITY_ESCALATION_HISTORY'', fr_feature = ''merchant_authority_escalation_events'', fr_shape = SH_COUNT, fr_weight = rc_merchant_escalation_weight,
      fr_lo = None, fr_hi = None, fr_saturates = Some rc_merchant_escalation_saturates_at,
      fr_reference = None, fr_requires_true = None\<rparr>,
     \<lparr>fr_code = ''MISSION_AUTHORITY_ESCALATION_ATTEMPTS'', fr_feature = ''mission_authority_escalation_attempts'', fr_shape = SH_COUNT, fr_weight = rc_mission_escalation_weight,
      fr_lo = None, fr_hi = None, fr_saturates = Some rc_mission_escalation_saturates_at,
      fr_reference = None, fr_requires_true = None\<rparr>,
     \<lparr>fr_code = ''PROVIDER_RESPONSE_MISMATCH_HISTORY'', fr_feature = ''provider_response_mismatch_events'', fr_shape = SH_COUNT, fr_weight = rc_provider_mismatch_weight,
      fr_lo = None, fr_hi = None, fr_saturates = Some rc_provider_mismatch_saturates_at,
      fr_reference = None, fr_requires_true = None\<rparr>,
     \<lparr>fr_code = ''IDEMPOTENCY_CONFLICT_HISTORY'', fr_feature = ''idempotency_conflict_events'', fr_shape = SH_COUNT, fr_weight = rc_idempotency_conflict_weight,
      fr_lo = None, fr_hi = None, fr_saturates = Some rc_idempotency_conflict_saturates_at,
      fr_reference = None, fr_requires_true = None\<rparr>,
     \<lparr>fr_code = ''MERCHANT_UNKNOWN'', fr_feature = ''merchant_known'', fr_shape = SH_ABSENT_FLAG, fr_weight = rc_merchant_unknown_weight,
      fr_lo = None, fr_hi = None, fr_saturates = None,
      fr_reference = None, fr_requires_true = None\<rparr>,
     \<lparr>fr_code = ''MERCHANT_TRUST_BELOW_PREFERRED'', fr_feature = ''merchant_trust'', fr_shape = SH_SHORTFALL, fr_weight = rc_merchant_trust_weight,
      fr_lo = None, fr_hi = None, fr_saturates = None,
      fr_reference = Some rc_preferred_merchant_trust, fr_requires_true = Some ''merchant_known''\<rparr>,
     \<lparr>fr_code = ''AMOUNT_NEAR_HARD_LIMIT'', fr_feature = ''amount_to_hard_limit_ratio'', fr_shape = SH_RATIO, fr_weight = rc_amount_hard_limit_weight,
      fr_lo = Some rc_amount_hard_limit_ramp_lo, fr_hi = Some rc_amount_hard_limit_ramp_hi, fr_saturates = None,
      fr_reference = None, fr_requires_true = None\<rparr>,
     \<lparr>fr_code = ''MERCHANT_FAILED_PAYMENT_RATIO'', fr_feature = ''merchant_failed_payment_ratio'', fr_shape = SH_RATIO, fr_weight = rc_merchant_failure_ratio_weight,
      fr_lo = Some rc_merchant_failure_ratio_ramp_lo, fr_hi = Some rc_merchant_failure_ratio_ramp_hi, fr_saturates = None,
      fr_reference = None, fr_requires_true = None\<rparr>,
     \<lparr>fr_code = ''PAYMENT_RETRY_PRESSURE'', fr_feature = ''payment_attempts'', fr_shape = SH_RATIO, fr_weight = rc_payment_attempt_weight,
      fr_lo = Some rc_payment_attempt_ramp_lo, fr_hi = Some rc_payment_attempt_ramp_hi, fr_saturates = None,
      fr_reference = None, fr_requires_true = None\<rparr>,
     \<lparr>fr_code = ''PROVIDER_TIMEOUT_HISTORY'', fr_feature = ''provider_timeout_events'', fr_shape = SH_COUNT, fr_weight = rc_provider_timeout_weight,
      fr_lo = None, fr_hi = None, fr_saturates = Some rc_provider_timeout_saturates_at,
      fr_reference = None, fr_requires_true = None\<rparr>,
     \<lparr>fr_code = ''AMOUNT_ABOVE_MERCHANT_HISTORY_MEDIAN'', fr_feature = ''amount_vs_merchant_median_ratio'', fr_shape = SH_RATIO, fr_weight = rc_amount_anomaly_weight,
      fr_lo = Some rc_amount_anomaly_ramp_lo, fr_hi = Some rc_amount_anomaly_ramp_hi, fr_saturates = None,
      fr_reference = None, fr_requires_true = None\<rparr>,
     \<lparr>fr_code = ''AMOUNT_ABOVE_SOFT_BUDGET'', fr_feature = ''amount_to_soft_budget_ratio'', fr_shape = SH_RATIO, fr_weight = rc_amount_soft_budget_weight,
      fr_lo = Some rc_amount_soft_budget_ramp_lo, fr_hi = Some rc_amount_soft_budget_ramp_hi, fr_saturates = None,
      fr_reference = None, fr_requires_true = None\<rparr>,
     \<lparr>fr_code = ''AUTHORIZATION_NEAR_EXPIRY'', fr_feature = ''authorization_lifetime_used_ratio'', fr_shape = SH_RATIO, fr_weight = rc_authorization_age_weight,
      fr_lo = Some rc_authorization_age_ramp_lo, fr_hi = Some rc_authorization_age_ramp_hi, fr_saturates = None,
      fr_reference = None, fr_requires_true = None\<rparr>,
     \<lparr>fr_code = ''WEBHOOK_ANOMALY_HISTORY'', fr_feature = ''webhook_anomaly_events'', fr_shape = SH_COUNT, fr_weight = rc_webhook_anomaly_weight,
      fr_lo = None, fr_hi = None, fr_saturates = Some rc_webhook_anomaly_saturates_at,
      fr_reference = None, fr_requires_true = None\<rparr>,
     \<lparr>fr_code = ''RECONCILIATION_PRESSURE'', fr_feature = ''reconciliation_events'', fr_shape = SH_RATIO, fr_weight = rc_reconciliation_weight,
      fr_lo = Some rc_reconciliation_ramp_lo, fr_hi = Some rc_reconciliation_ramp_hi, fr_saturates = None,
      fr_reference = None, fr_requires_true = None\<rparr>,
     \<lparr>fr_code = ''HIGH_INVALID_OFFER_RATIO'', fr_feature = ''invalid_offer_ratio'', fr_shape = SH_RATIO, fr_weight = rc_invalid_offer_weight,
      fr_lo = Some rc_invalid_offer_ramp_lo, fr_hi = Some rc_invalid_offer_ramp_hi, fr_saturates = None,
      fr_reference = None, fr_requires_true = None\<rparr>]"

record risk_factor =
  rf_code :: string
  rf_feature :: string
  rf_contribution :: rat
  rf_weight :: rat
  rf_observed :: "feature_scalar option"
  rf_threshold :: "rat option"
  rf_saturates_at :: "rat option"
  rf_derived_from_untrusted_evidence :: bool

definition read_field :: "factor_rule \<Rightarrow> risk_config \<Rightarrow> (risk_config \<Rightarrow> rat) option \<Rightarrow> string \<Rightarrow> exn + rat" where
  "read_field rule config field what = (case field of
     None \<Rightarrow> Inl (ValueError (''factor rule '' @ fr_code rule @ '' declares no '' @ what)) | Some f \<Rightarrow> Inr (f config))"

definition bounds :: "factor_rule \<Rightarrow> risk_config \<Rightarrow> exn + (rat option \<times> rat option)" where
  "bounds rule config = (case fr_shape rule of
     SH_RATIO \<Rightarrow> bindE (read_field rule config (fr_lo rule) ''ramp lower bound'') (\<lambda>lo.
       bindE (read_field rule config (fr_hi rule) ''ramp upper bound'') (\<lambda>hi. Inr (Some lo, Some hi)))
   | SH_COUNT \<Rightarrow> bindE (read_field rule config (fr_saturates rule) ''saturation count'') (\<lambda>n. Inr (Some 0, Some n))
   | SH_SHORTFALL \<Rightarrow> bindE (read_field rule config (fr_reference rule) ''reference level'') (\<lambda>r. Inr (Some r, Some 0))
   | SH_ABSENT_FLAG \<Rightarrow> Inr (None, None))"

definition fraction :: "factor_rule \<Rightarrow> rat \<Rightarrow> risk_config \<Rightarrow> exn + rat" where
  "fraction rule observed config = (case fr_shape rule of
     SH_RATIO \<Rightarrow> bindE (read_field rule config (fr_lo rule) ''ramp lower bound'') (\<lambda>lo.
       bindE (read_field rule config (fr_hi rule) ''ramp upper bound'') (\<lambda>hi. ramp observed lo hi))
   | SH_COUNT \<Rightarrow> bindE (read_field rule config (fr_saturates rule) ''saturation count'') (\<lambda>n. ramp observed 0 n)
   | SH_SHORTFALL \<Rightarrow> bindE (read_field rule config (fr_reference rule) ''reference level'') (\<lambda>r.
       if r \<le> 0 then Inr 0 else ramp (fl (r - observed)) 0 r)
   | SH_ABSENT_FLAG \<Rightarrow> Inr (if observed \<noteq> 0 then 0 else 1))"

text \<open>One pass of the loop: what a rule observes, and the factor it contributes, if any.\<close>

definition observed_by :: "features \<Rightarrow> factor_rule \<Rightarrow> (feature_value \<times> rat) option" where
  "observed_by features rule = (case map_of features (fr_feature rule) of
     None \<Rightarrow> None
   | Some feature \<Rightarrow>
     if \<not> fv_available feature then None
     else if (case fr_requires_true rule of
         None \<Rightarrow> False
       | Some gate_name \<Rightarrow> (case map_of features gate_name of
           None \<Rightarrow> True | Some gate \<Rightarrow> \<not> fv_available gate \<or> \<not> truthy (fv_value gate))) then None
     else map_option (Pair feature) (numeric feature))"

definition factor_of :: "risk_config \<Rightarrow> features \<Rightarrow> factor_rule \<Rightarrow> exn + risk_factor option" where
  "factor_of config features rule = (case observed_by features rule of
     None \<Rightarrow> Inr None
   | Some (feature, observed) \<Rightarrow>
     bindE (fraction rule observed config) (\<lambda>fr.
     let weight = fr_weight rule config; contribution = fl (weight * fr) in
     if contribution \<le> 0 then Inr None
     else bindE (bounds rule config) (\<lambda>(threshold, saturates).
       Inr (Some \<lparr>rf_code = fr_code rule, rf_feature = fr_feature rule, rf_contribution = contribution, rf_weight = weight,
         rf_observed = fv_value feature, rf_threshold = threshold, rf_saturates_at = saturates,
         rf_derived_from_untrusted_evidence = fv_derived_from_untrusted_evidence feature\<rparr>))))"

text \<open>
  \<open>sum\<close> over floats, from Python 3.12 on: Neumaier's compensated summation, started with the
  first element.
\<close>

definition compensate :: "rat \<times> rat \<Rightarrow> rat \<Rightarrow> rat \<times> rat" where
  "compensate acc x = (let (s, c) = acc; t = fl (s + x) in
     (t, fl (c + (if \<bar>x\<bar> \<le> \<bar>s\<bar> then fl (fl (s - t) + x) else fl (fl (x - t) + s)))))"

definition py_sum :: "rat list \<Rightarrow> rat" where
  "py_sum xs = (case xs of [] \<Rightarrow> 0
   | x # rest \<Rightarrow> let (s, c) = foldl compensate (x, 0) rest in if c \<noteq> 0 then fl (s + c) else s)"

definition score :: "risk_config \<Rightarrow> features \<Rightarrow> exn + (risk_factor list \<times> rat)" where
  "score config features =
     bindE (mapE (factor_of config features) FACTOR_RULES) (\<lambda>found.
     let factors = sort_key (\<lambda>f. - rf_contribution f) (List.map_filter id found) in
     Inr (factors, py_sum (map rf_contribution factors)))"

definition normalize_points :: "risk_config \<Rightarrow> rat \<Rightarrow> rat" where
  "normalize_points config raw_points = (if raw_points \<le> 0 then 0 else min 1 (fl (raw_points / rc_saturation_points config)))"

section \<open>The assessment\<close>

record data_quality =
  dq_history_available :: bool
  dq_history_observations :: int
  dq_history_scope :: string
  dq_cold_start :: bool
  dq_features_available :: int
  dq_features_unavailable :: int
  dq_audit_chain_verified :: bool

record risk_assessment =
  ra_assessment_id :: uuid
  ra_mission_id :: uuid
  ra_transaction_digest_prefix :: "string option"
  ra_score :: rat
  ra_raw_points :: rat
  ra_saturation_points :: rat
  ra_band :: risk_band
  ra_recommendation :: risk_recommendation
  ra_feature_values :: features
  ra_factors :: "risk_factor list"
  ra_evaluated_at :: instant
  ra_engine_version :: string
  ra_model_type :: string
  ra_model_version :: string
  ra_data_quality :: data_quality
  ra_policy_decision :: "string option"
  ra_policy_reason_codes :: "string list"

text \<open>The constraints of the model that the values computed here could fail.\<close>

definition RiskAssessment :: "risk_assessment \<Rightarrow> exn + risk_assessment" where
  "RiskAssessment a = (if 0 \<le> ra_score a \<and> ra_score a \<le> 1 \<and> 0 \<le> ra_raw_points a \<and> 0 < ra_saturation_points a
     then Inr a else Inl (ValidationError ''RiskAssessment''))"

text \<open>\<open>round(x, 6)\<close>: the decimal with six places nearest to the double, as a double.\<close>

definition round6 :: "rat \<Rightarrow> rat" where
  "round6 x = fl (of_int (py_round (x * 1000000)) / 1000000)"

definition audit_payload :: "risk_assessment \<Rightarrow> payload" where
  "audit_payload a =
     [(''assessment_id'', JStr (uuid_str (ra_assessment_id a))), (''score'', jfloat (round6 (ra_score a))),
      (''band'', JStr (band_text (ra_band a))), (''recommendation'', JStr (recommendation_text (ra_recommendation a))),
      (''engine_version'', JStr (ra_engine_version a)), (''model_type'', JStr (ra_model_type a)),
      (''model_version'', JStr (ra_model_version a)), (''score_semantics'', JStr ''NORMALIZED_RISK_INDEX''),
      (''factor_codes'', JList (map (\<lambda>f. JStr (rf_code f)) (ra_factors a))), (''advisory'', JBool True),
      (''history_available'', JBool (dq_history_available (ra_data_quality a))),
      (''cold_start'', JBool (dq_cold_start (ra_data_quality a))),
      (''audit_chain_verified'', JBool (dq_audit_chain_verified (ra_data_quality a)))]"

definition count_availability :: "features \<Rightarrow> int \<times> int" where
  "count_availability features = (let available = int (length (filter (\<lambda>(_, f). fv_available f) features)) in
     (available, int (length features) - available))"

definition RISK_ACTOR :: string where
  "RISK_ACTOR = ''risk-engine''"

definition DIGEST_PREFIX :: nat where
  "DIGEST_PREFIX = 16"

definition HISTORY_SCOPE :: string where
  "HISTORY_SCOPE = ''authenticated_merchant''"

text \<open>The quality of the data behind an assessment, and the assessment of its facts.\<close>

definition quality_of :: "mission_facts \<Rightarrow> features \<Rightarrow> data_quality" where
  "quality_of facts features = (let history = mf_history facts in
     \<lparr>dq_history_available = mh_available history, dq_history_observations = mh_amount_observations history,
      dq_history_scope = HISTORY_SCOPE, dq_cold_start = mh_cold_start history,
      dq_features_available = fst (count_availability features), dq_features_unavailable = snd (count_availability features),
      dq_audit_chain_verified = mf_audit_chain_valid facts\<rparr>)"

definition assessment_of :: "risk_config \<Rightarrow> mission_facts \<Rightarrow> features \<Rightarrow> risk_factor list \<Rightarrow> rat \<Rightarrow> instant \<Rightarrow> uuid \<Rightarrow> risk_assessment" where
  "assessment_of settings facts features factors raw_points moment assessment_id =
     (let normalized = normalize_points settings raw_points; band = band_for settings normalized;
          decision = mf_policy_decision facts in
      \<lparr>ra_assessment_id = assessment_id, ra_mission_id = mf_mission_id facts,
       ra_transaction_digest_prefix = map_option (\<lambda>a. take DIGEST_PREFIX (az_transaction_digest a)) (mf_authorization facts),
       ra_score = normalized, ra_raw_points = raw_points, ra_saturation_points = rc_saturation_points settings,
       ra_band = band, ra_recommendation = recommendation_for band, ra_feature_values = features, ra_factors = factors,
       ra_evaluated_at = moment, ra_engine_version = ENGINE_VERSION, ra_model_type = MODEL_TYPE_HEURISTIC,
       ra_model_version = HEURISTIC_VERSION, ra_data_quality = quality_of facts features,
       ra_policy_decision = map_option (\<lambda>d. outcome_text (pdr_decision d)) decision,
       ra_policy_reason_codes = (case decision of None \<Rightarrow> [] | Some d \<Rightarrow> map reason_text (pdr_reason_codes d))\<rparr>)"

definition assess_mission :: "uuid \<Rightarrow> risk_config option \<Rightarrow> merchant_registry \<Rightarrow> instant option \<Rightarrow> risk_assessment db" where
  "assess_mission mission_id config registry now =
     (let settings = (case config of None \<Rightarrow> DEFAULT_RISK_CONFIG | Some c \<Rightarrow> c) in
      bind (moment_of now) (\<lambda>moment.
      bind (load_mission_facts settings registry mission_id) (\<lambda>facts.
      bind (lift (extract_features settings facts moment)) (\<lambda>own.
      bind (extract_merchant_history_features facts) (\<lambda>history_features.
      bind (lift (score settings (own @ history_features))) (\<lambda>scored.
      bind uuid4 (\<lambda>assessment_id.
      lift (RiskAssessment (assessment_of settings facts (own @ history_features) (fst scored) (snd scored) moment assessment_id)))))))))"

definition record_assessment :: "risk_assessment \<Rightarrow> audit_event_row db" where
  "record_assessment a = append_event (ra_mission_id a) E_RISK_ASSESSED RISK_ACTOR (audit_payload a)"

section \<open>The shapes\<close>

lemma fl_nonpos:
  assumes "x \<le> 0" shows "fl x \<le> 0"
proof (cases "x = 0")
  case False
  define u :: rat where "u = 2 powi (max (float_exponent \<bar>x\<bar> - 52) (- 1074))"
  have u: "0 < u" by (simp add: u_def)
  have "x / u \<le> 0" using assms u by (simp add: divide_nonpos_pos)
  then have "py_round (x / u) \<le> 0" using py_round_mono [of "x / u" "of_int 0"] py_round_of_int [of 0] by simp
  moreover have "fl x = of_int (py_round (x / u)) * u" using False by (simp add: fl_def u_def Let_def)
  ultimately show ?thesis using u by (simp add: mult_nonpos_nonneg)
qed simp

lemma ramp_cases:
  assumes "lo < hi"
  obtains f where "ramp v lo hi = Inr f" "0 \<le> f" "f \<le> 1"
proof (cases "v \<le> lo \<or> hi \<le> v")
  case True
  with assms that show thesis by (auto simp: ramp_def)
next
  case False
  let ?q = "fl (v - lo) / fl (hi - lo)"
  have "fl (v - lo) \<le> fl (hi - lo)" "0 \<le> fl (v - lo)" "0 \<le> fl (hi - lo)"
    using False assms by (auto intro: fl_mono fl_nonneg)
  then have "0 \<le> ?q" "?q \<le> 1" by (auto simp: divide_le_eq_1)
  from fl_nonneg [OF this(1)] fl_le_one [OF this] show thesis using False assms by (intro that) (auto simp: ramp_def)
qed

text \<open>More of a risky thing never earns a smaller fraction.\<close>

lemma ramp_mono:
  assumes "lo < hi" "v \<le> v'" "ramp v lo hi = Inr f" "ramp v' lo hi = Inr f'"
  shows "f \<le> f'"
proof (cases "v \<le> lo \<or> hi \<le> v'")
  case True
  obtain g where "ramp v lo hi = Inr g" "g \<le> 1" using ramp_cases [OF assms(1), of v] by blast
  moreover obtain g' where "ramp v' lo hi = Inr g'" "0 \<le> g'" using ramp_cases [OF assms(1), of v'] by blast
  ultimately show ?thesis using True assms by (auto simp: ramp_def split: if_splits)
next
  case False
  then have i: "lo < v" "v < hi" "lo < v'" "v' < hi" using assms(2) by auto
  have "fl (v - lo) \<le> fl (v' - lo)" "0 \<le> fl (v - lo)" "0 \<le> fl (hi - lo)"
    using i assms(1,2) by (auto intro: fl_mono fl_nonneg)
  then have "fl (fl (v - lo) / fl (hi - lo)) \<le> fl (fl (v' - lo) / fl (hi - lo))"
    using fl_mono [OF divide_nonneg_nonneg divide_right_mono, of "fl (v - lo)" "fl (hi - lo)" "fl (v' - lo)"] by simp
  with i assms show ?thesis by (auto simp: ramp_def split: if_splits)
qed

text \<open>What the rule table must provide for the configuration.\<close>

definition rule_ok :: "risk_config \<Rightarrow> factor_rule \<Rightarrow> bool" where
  "rule_ok c r \<longleftrightarrow> 0 < fr_weight r c \<and> fl (fr_weight r c) = fr_weight r c \<and> (case fr_shape r of
     SH_RATIO \<Rightarrow> (case (fr_lo r, fr_hi r) of (Some lo, Some hi) \<Rightarrow> lo c < hi c | _ \<Rightarrow> False)
   | SH_COUNT \<Rightarrow> (case fr_saturates r of Some n \<Rightarrow> 0 < n c | None \<Rightarrow> False)
   | SH_SHORTFALL \<Rightarrow> fr_reference r \<noteq> None
   | SH_ABSENT_FLAG \<Rightarrow> True)"

definition fixed_points :: "rat list" where
  "fixed_points = [WEAK, MODERATE, STRONG, SEVERE]"

lemma weights_exact: "list_all (\<lambda>x. 0 < x \<and> fl x = x) fixed_points"
  by code_simp

lemma default_ramps: "list_all (\<lambda>(a, b). a < b) [(fl (3 / 4), 1 :: rat), (1, fl (3 / 2)), (fl (1 / 5), fl (3 / 5)),
    (fl (4 / 5), 1), (fl (17 / 50), 1), (fl (3 / 2), 3)]"
  by code_simp

lemma default_rules_ok: "list_all (rule_ok DEFAULT_RISK_CONFIG) FACTOR_RULES"
  using weights_exact default_ramps
  by (simp add: FACTOR_RULES_def rule_ok_def DEFAULT_RISK_CONFIG_def fixed_points_def)

lemma fraction_total:
  assumes "rule_ok c r" obtains f where "fraction r x c = Inr f" "0 \<le> f" "f \<le> 1"
proof (cases "fr_shape r")
  case SH_RATIO
  with assms obtain lo hi where "fr_lo r = Some lo" "fr_hi r = Some hi" "lo c < hi c" by (auto simp: rule_ok_def split: option.splits)
  with SH_RATIO that show thesis using ramp_cases [of "lo c" "hi c" x] by (auto simp: fraction_def read_field_def)
next
  case SH_COUNT
  with assms obtain n where "fr_saturates r = Some n" "0 < n c" by (auto simp: rule_ok_def split: option.splits)
  with SH_COUNT that show thesis using ramp_cases [of 0 "n c" x] by (auto simp: fraction_def read_field_def)
next
  case SH_SHORTFALL
  with assms obtain n where n: "fr_reference r = Some n" by (auto simp: rule_ok_def)
  show thesis
  proof (cases "n c \<le> 0")
    case True
    with SH_SHORTFALL n that [of 0] show thesis by (simp add: fraction_def read_field_def)
  next
    case False
    with SH_SHORTFALL n that show thesis using ramp_cases [of 0 "n c" "fl (n c - x)"] by (auto simp: fraction_def read_field_def)
  qed
next
  case SH_ABSENT_FLAG
  with that show thesis by (simp add: fraction_def split: if_splits)
qed

text \<open>In which direction an observation is the riskier one.\<close>

definition no_riskier :: "factor_rule \<Rightarrow> rat \<Rightarrow> rat \<Rightarrow> bool" where
  "no_riskier r x y \<longleftrightarrow> (case fr_shape r of
     SH_RATIO \<Rightarrow> x \<le> y | SH_COUNT \<Rightarrow> x \<le> y | SH_SHORTFALL \<Rightarrow> y \<le> x | SH_ABSENT_FLAG \<Rightarrow> y = 0 \<or> x \<noteq> 0)"

lemma shortfall_mono:
  assumes "y \<le> x" "0 < n" "ramp (fl (n - x)) 0 n = Inr f" "ramp (fl (n - y)) 0 n = Inr g" shows "f \<le> g"
proof (cases "fl (n - x) \<le> 0")
  case True
  with assms(2,3) have "f = 0" by (simp add: ramp_def)
  with ramp_cases [OF assms(2), of "fl (n - y)"] assms(4) show ?thesis by auto
next
  case False
  then have "0 \<le> n - x" using fl_nonpos [of "n - x"] by linarith
  then have "fl (n - x) \<le> fl (n - y)" using assms(1) by (intro fl_mono) auto
  from ramp_mono [OF assms(2) this assms(3,4)] show ?thesis .
qed

lemma fraction_mono:
  assumes "rule_ok c r" "no_riskier r x y" "fraction r x c = Inr f" "fraction r y c = Inr g" shows "f \<le> g"
proof (cases "fr_shape r")
  case SH_RATIO
  with assms(1) obtain lo hi where "fr_lo r = Some lo" "fr_hi r = Some hi" "lo c < hi c" by (auto simp: rule_ok_def split: option.splits)
  with SH_RATIO assms show ?thesis using ramp_mono [of "lo c" "hi c" x y f g] by (auto simp: fraction_def read_field_def no_riskier_def)
next
  case SH_COUNT
  with assms(1) obtain n where "fr_saturates r = Some n" "0 < n c" by (auto simp: rule_ok_def split: option.splits)
  with SH_COUNT assms show ?thesis using ramp_mono [of 0 "n c" x y f g] by (auto simp: fraction_def read_field_def no_riskier_def)
next
  case SH_SHORTFALL
  with assms(1) obtain n where "fr_reference r = Some n" by (auto simp: rule_ok_def)
  with SH_SHORTFALL assms show ?thesis using shortfall_mono [of y x "n c" f g]
    by (auto simp: fraction_def read_field_def no_riskier_def split: if_splits)
next
  case SH_ABSENT_FLAG
  with assms show ?thesis by (auto simp: fraction_def no_riskier_def split: if_splits)
qed

lemma contribution_bounds:
  assumes "rule_ok c r" "0 \<le> f" "f \<le> 1"
  shows "0 \<le> fl (fr_weight r c * f)" "fl (fr_weight r c * f) \<le> fr_weight r c"
proof -
  have w: "0 < fr_weight r c" "fl (fr_weight r c) = fr_weight r c" using assms(1) by (auto simp: rule_ok_def)
  then have "0 \<le> fr_weight r c * f" "fr_weight r c * f \<le> fr_weight r c" using assms(2,3) by (auto simp: mult_left_le)
  from fl_nonneg [OF this(1)] fl_mono [OF this] w(2)
  show "0 \<le> fl (fr_weight r c * f)" "fl (fr_weight r c * f) \<le> fr_weight r c" by auto
qed

text \<open>
  C19. More of a risky thing never contributes less: for every rule of the heuristic and the server's
  configuration, every observation earns a fraction between 0 and 1 and a contribution between 0
  and the rule's weight, and an observation that is no riskier earns no more, rounding included.
  The index is between 0 and 1 and rises with the points.
\<close>

theorem risk_contributions_are_bounded_and_monotone:
  assumes "r \<in> set FACTOR_RULES" and "no_riskier r x y"
  shows "(\<exists>f g. fraction r x DEFAULT_RISK_CONFIG = Inr f \<and> fraction r y DEFAULT_RISK_CONFIG = Inr g
      \<and> 0 \<le> f \<and> f \<le> g \<and> g \<le> 1
      \<and> 0 \<le> fl (fr_weight r DEFAULT_RISK_CONFIG * f)
      \<and> fl (fr_weight r DEFAULT_RISK_CONFIG * f) \<le> fl (fr_weight r DEFAULT_RISK_CONFIG * g)
      \<and> fl (fr_weight r DEFAULT_RISK_CONFIG * g) \<le> fr_weight r DEFAULT_RISK_CONFIG)
    \<and> 0 \<le> normalize_points DEFAULT_RISK_CONFIG p \<and> normalize_points DEFAULT_RISK_CONFIG p \<le> 1
    \<and> (p \<le> q \<longrightarrow> normalize_points DEFAULT_RISK_CONFIG p \<le> normalize_points DEFAULT_RISK_CONFIG q)"
proof -
  from assms(1) default_rules_ok have ok: "rule_ok DEFAULT_RISK_CONFIG r" by (auto simp: list_all_iff)
  obtain f where f: "fraction r x DEFAULT_RISK_CONFIG = Inr f" "0 \<le> f" "f \<le> 1" using fraction_total [OF ok] .
  obtain g where g: "fraction r y DEFAULT_RISK_CONFIG = Inr g" "0 \<le> g" "g \<le> 1" using fraction_total [OF ok] .
  have le: "f \<le> g" by (rule fraction_mono [OF ok assms(2) f(1) g(1)])
  have w: "0 < fr_weight r DEFAULT_RISK_CONFIG" using ok by (simp add: rule_ok_def)
  have "fl (fr_weight r DEFAULT_RISK_CONFIG * f) \<le> fl (fr_weight r DEFAULT_RISK_CONFIG * g)"
    using le f(2) w by (intro fl_mono mult_nonneg_nonneg mult_left_mono) auto
  moreover have s: "rc_saturation_points DEFAULT_RISK_CONFIG = 1" by (simp add: DEFAULT_RISK_CONFIG_def)
  then have "0 \<le> normalize_points DEFAULT_RISK_CONFIG p" "normalize_points DEFAULT_RISK_CONFIG p \<le> 1"
    by (auto simp: normalize_points_def intro: fl_nonneg)
  moreover have "normalize_points DEFAULT_RISK_CONFIG p \<le> normalize_points DEFAULT_RISK_CONFIG q" if "p \<le> q"
    using that s fl_mono [of p q] fl_nonneg [of q] by (auto simp: normalize_points_def)
  ultimately show ?thesis using f g le contribution_bounds [OF ok f(2,3)] contribution_bounds [OF ok g(2,3)] by blast
qed

section \<open>The score is its evidence\<close>

text \<open>A rule fires when it observes something that earns a contribution.\<close>

definition fires :: "risk_config \<Rightarrow> features \<Rightarrow> factor_rule \<Rightarrow> bool" where
  "fires c features r \<longleftrightarrow> (\<exists>feature x f. observed_by features r = Some (feature, x) \<and> fraction r x c = Inr f
     \<and> 0 < fl (fr_weight r c * f))"

definition evidence :: "features \<Rightarrow> risk_factor \<Rightarrow> bool" where
  "evidence features f \<longleftrightarrow> 0 < rf_contribution f \<and> rf_contribution f \<le> rf_weight f
     \<and> (\<exists>feature. map_of features (rf_feature f) = Some feature \<and> fv_available feature
         \<and> rf_observed f = fv_value feature \<and> fv_value feature \<noteq> None)"

lemma bounds_total: "rule_ok c r \<Longrightarrow> \<exists>b. bounds r c = Inr b"
  by (auto simp: rule_ok_def bounds_def read_field_def split: shape.splits option.splits)

lemma observed_by_available:
  "observed_by features r = Some (feature, x) \<Longrightarrow> map_of features (fr_feature r) = Some feature \<and> fv_available feature
    \<and> fv_value feature \<noteq> None"
  by (auto simp: observed_by_def numeric_def split: option.splits if_splits)

lemma factor_of_cases:
  assumes "rule_ok c r"
  shows "\<exists>o'. factor_of c features r = Inr o' \<and> (case o' of None \<Rightarrow> \<not> fires c features r
    | Some f \<Rightarrow> fires c features r \<and> rf_code f = fr_code r \<and> evidence features f)"
proof (cases "observed_by features r")
  case None
  then show ?thesis by (simp add: factor_of_def fires_def)
next
  case (Some p)
  obtain feature x where p: "p = (feature, x)" by fastforce
  obtain f where f: "fraction r x c = Inr f" "0 \<le> f" "f \<le> 1" using fraction_total [OF assms] .
  obtain b where b: "bounds r c = Inr b" using bounds_total [OF assms] by blast
  note cb = contribution_bounds [OF assms f(2,3)]
  show ?thesis
  proof (cases "0 < fl (fr_weight r c * f)")
    case True
    with Some p f b cb observed_by_available [OF Some [unfolded p]] show ?thesis
      by (cases b) (auto simp: factor_of_def fires_def evidence_def Let_def)
  next
    case False
    with Some p f show ?thesis by (auto simp: factor_of_def fires_def Let_def)
  qed
qed

lemma mapE_pointwise:
  "(\<And>x. x \<in> set xs \<Longrightarrow> f x = Inr (g x)) \<Longrightarrow> mapE f xs = Inr (map g xs)"
  by (induction xs) auto

lemma rule_codes_distinct: "distinct (map fr_code FACTOR_RULES)"
  by (simp add: FACTOR_RULES_def)

lemma map_filter_codes:
  "(\<And>r f. r \<in> set rs \<Longrightarrow> g r = Some f \<Longrightarrow> rf_code f = fr_code r) \<Longrightarrow>
    map rf_code (List.map_filter id (map g rs)) = map fr_code (filter (\<lambda>r. g r \<noteq> None) rs)"
proof (induction rs)
  case (Cons r rs)
  have "map rf_code (List.map_filter id (map g rs)) = map fr_code (filter (\<lambda>r. g r \<noteq> None) rs)"
    by (rule Cons.IH) (rule Cons.prems, simp_all)
  with Cons.prems [of r] show ?case by (cases "g r") (simp_all add: List.map_filter_simps id_def)
qed (simp add: List.map_filter_simps)


section \<open>Advice only adds its record\<close>

text \<open>Two states of the database with the same nine tables.\<close>

definition tables_kept :: "world \<Rightarrow> world \<Rightarrow> bool" where
  "tables_kept w w' \<longleftrightarrow> w_missions w' = w_missions w \<and> w_mission_constraints w' = w_mission_constraints w
     \<and> w_offers w' = w_offers w \<and> w_policy_decisions w' = w_policy_decisions w \<and> w_audit_events w' = w_audit_events w
     \<and> w_authorizations w' = w_authorizations w \<and> w_payment_intents w' = w_payment_intents w
     \<and> w_outbox_events w' = w_outbox_events w \<and> w_webhook_events w' = w_webhook_events w"

interpretation reads: session_order tables_kept
  by unfold_locales (auto simp: tables_kept_def)

lemma reads_statements: "keeps tables_kept (moment_of now)" "keeps tables_kept uuid4"
  by (auto simp: keeps_def tables_kept_def moment_of_def utcnow_def uuid4_def ret_def split: option.split)

lemma reads_assess: "keeps tables_kept (assess_mission m config reg now)"
  unfolding assess_mission_def load_mission_facts_def extract_merchant_history_features_def Let_def
  by (intro reads.keeps_intros reads_statements)

text \<open>
  C17. An assessment is advice: scoring a mission, whether it returns or raises, writes no table, and
  recording it appends exactly one audit event to the ledger, of type RISK_ASSESSED with the
  engine's actor and the safe projection as its payload, and changes nothing else.
\<close>

theorem assessment_only_adds_its_record:
  assumes "assess_mission m config reg now w = (res, w1)" and "record_assessment a w1 = (out, w2)"
  shows "tables_kept w w1
    \<and> (case out of Inl e \<Rightarrow> tables_kept w w2
       | Inr row \<Rightarrow> ae_mission_id row = ra_mission_id a \<and> ae_event_type row = ''RISK_ASSESSED'' \<and> ae_actor row = ''risk-engine''
           \<and> ae_payload row = JObj (audit_payload a)
           \<and> w_audit_events w2 = w_audit_events w @ [row] \<and> tables_kept w (w2\<lparr>w_audit_events := w_audit_events w\<rparr>))"
proof -
  have 1: "tables_kept w w1" using reads_assess [of m config reg now] assms(1) by (metis keeps_def snd_conv)
  have "find_mission (ra_mission_id a) w1 = find_mission (ra_mission_id a) w" using 1 by (simp add: find_mission_def tables_kept_def)
  with assms(2) 1 show ?thesis
    by (auto simp: record_assessment_def append_event_eq next_row_def Let_def draw_def RISK_ACTOR_def tables_kept_def
        split: if_splits)
qed

section \<open>Witnesses\<close>

theorem risk_contributions_are_bounded_and_monotone_witness:
  "(\<exists>f g. fraction (hd FACTOR_RULES) 1 DEFAULT_RISK_CONFIG = Inr f \<and> fraction (hd FACTOR_RULES) 2 DEFAULT_RISK_CONFIG = Inr g
      \<and> 0 \<le> f \<and> f \<le> g \<and> g \<le> 1)
    \<and> normalize_points DEFAULT_RISK_CONFIG 1 \<le> normalize_points DEFAULT_RISK_CONFIG 2"
proof -
  have "hd FACTOR_RULES \<in> set FACTOR_RULES" and "no_riskier (hd FACTOR_RULES) 1 2"
    by (simp_all add: FACTOR_RULES_def no_riskier_def)
  from risk_contributions_are_bounded_and_monotone [OF this, of 1 2] show ?thesis by auto
qed

definition broken_chain :: features where
  "broken_chain = [(''audit_chain_valid'', \<lparr>fv_name = ''audit_chain_valid'', fv_value = Some (SBool False), fv_source = FS_AUDIT_LEDGER,
     fv_authority = SYSTEM_SECURITY_POLICY, fv_trust = T_AUTHORITATIVE, fv_derived_from_untrusted_evidence = False, fv_available = True,
     fv_unavailable_reason = None\<rparr>)]"

lemma broken_chain_fires:
  "fires DEFAULT_RISK_CONFIG broken_chain (FACTOR_RULES ! 3)" "fr_code (FACTOR_RULES ! 3) = ''AUDIT_CHAIN_INVALID''"
proof -
  have "0 < fl (rc_audit_integrity_weight DEFAULT_RISK_CONFIG)" by code_simp
  then show "fires DEFAULT_RISK_CONFIG broken_chain (FACTOR_RULES ! 3)"
    by (simp add: FACTOR_RULES_def fires_def observed_by_def broken_chain_def numeric_def fraction_def)
qed (simp add: FACTOR_RULES_def)


lemma sample_assessed:
  "case fst (assess_mission 1 None default_merchant_registry (Some 62000000000000000) sample_world) of
     Inl _ \<Rightarrow> False | Inr a \<Rightarrow> ra_mission_id a = 1"
  by code_simp

theorem assessment_only_adds_its_record_witness:
  "\<exists>a w1 row w2. assess_mission 1 None default_merchant_registry (Some 62000000000000000) sample_world = (Inr a, w1)
    \<and> tables_kept sample_world w1 \<and> record_assessment a w1 = (Inr row, w2) \<and> ae_event_type row = ''RISK_ASSESSED''
    \<and> w_audit_events w2 = [row] \<and> w_payment_intents w2 = []"
proof -
  obtain a w1 where run: "assess_mission 1 None default_merchant_registry (Some 62000000000000000) sample_world = (Inr a, w1)"
    and a: "ra_mission_id a = 1" using sample_assessed by (auto split: sum.splits prod.splits simp: prod_eq_iff)
  obtain out w2 where rec: "record_assessment a w1 = (out, w2)" by fastforce
  note claim = assessment_only_adds_its_record [OF run rec]
  then have w1: "w_missions w1 = [sample_mission M_CREATED]" "w_audit_events w1 = []"
    by (simp_all add: tables_kept_def sample_world_def empty_world_def)
  obtain row where "out = Inr row"
    using rec a w1 by (auto simp: record_assessment_def append_event_eq Let_def find_mission_def find_row_def sample_mission_def
        appendable_def keyed_def)
  with claim run rec show ?thesis by (auto simp: tables_kept_def sample_world_def empty_world_def)
qed

end
