(* ===== verification/Api.thy ===== *)
theory Api
  imports Rail Risk
begin

text \<open>
  The HTTP surface (\<^verbatim>\<open>apps/api/pactra/api/routes_payments.py\<close>, \<^verbatim>\<open>routes_missions.py\<close>,
  \<^verbatim>\<open>routes_risk.py\<close>, \<^verbatim>\<open>schemas_api.py\<close>) over the request scope of \<^verbatim>\<open>apps/api/db/session.py\<close>: a handler is a job that
  commits itself, and whatever it left uncommitted is rolled back when the request ends. The server
  settings are a record; a refusal is an \<open>HTTPException\<close> with its status and its reason code (or its
  detail where the code gives no reason code). \<open>MissionOut\<close> is without \<open>created_at\<close>, a column the
  model's mission row does not have.
\<close>

section \<open>Settings and read models\<close>

record 'h api_settings =
  as_app_env :: string
  as_razorpay_key_id :: string
  as_razorpay :: "exn + razorpay"
  as_outside :: "'h outside"
  as_fake_int :: "json \<Rightarrow> int option"
  as_fake_secret :: string
  as_orchestrator :: orchestrator_settings
  as_approver :: approver
  as_nulls_first :: bool

record offer_out =
  oo_offer_id :: uuid
  oo_offer_version :: string
  oo_merchant_id :: string
  oo_merchant_name :: string
  oo_merchant_trust :: rat
  oo_product_id :: string
  oo_title :: string
  oo_amount_inr :: int
  oo_currency :: string
  oo_rating :: rat
  oo_in_stock :: bool
  oo_valid :: bool
  oo_rejection_reasons :: "string list"
  oo_rank :: "int option"

record policy_decision_out =
  pdo_decision :: string
  pdo_policy_version :: string
  pdo_reason_codes :: "string list"
  pdo_requested_amount :: "int option"
  pdo_soft_budget :: int
  pdo_hard_limit :: int
  pdo_selected_offer_id :: "uuid option"

record audit_event_out =
  aeo_event_id :: uuid
  aeo_sequence :: int
  aeo_event_type :: string
  aeo_actor :: string
  aeo_payload :: json
  aeo_previous_hash :: string
  aeo_event_hash :: string
  aeo_created_at :: instant

text \<open>The public view of an authorization: neither its nonce nor its signature is a field.\<close>

record authorization_out =
  ao_authorization_id :: uuid
  ao_mission_id :: uuid
  ao_status :: string
  ao_transaction_digest :: string
  ao_binding_version :: string
  ao_policy_version :: string
  ao_offer_version :: string
  ao_approval_scheme :: string
  ao_signing_key_id :: "string option"
  ao_issued_at :: instant
  ao_expires_at :: instant
  ao_consumed_at :: "instant option"
  ao_bound_merchant_id :: string
  ao_bound_product_id :: string
  ao_bound_quantity :: int
  ao_bound_amount_inr :: int
  ao_bound_currency :: string

record approval_request =
  apr_signing_key_id :: string
  apr_signature :: string

record bound_transaction_summary =
  bs_merchant :: string
  bs_product :: string
  bs_quantity :: int
  bs_amount :: int
  bs_currency :: string
  bs_expiry :: datetime

record approval_challenge_out =
  co_authorization_id :: uuid
  co_mission_id :: uuid
  co_binding_version :: string
  co_transaction_digest :: string
  co_signing_key_id :: string
  co_approval_scheme :: string
  co_approval_message_hex :: string
  co_transaction :: bound_transaction_summary

record mission_out =
  mo_id :: uuid
  mo_state :: string
  mo_raw_query :: "string option"
  mo_quantity :: int
  mo_offers :: "offer_out list"
  mo_policy_decision :: "policy_decision_out option"

record payment_intent_out =
  pio_payment_intent_id :: uuid
  pio_mission_id :: uuid
  pio_authorization_id :: uuid
  pio_state :: string
  pio_idempotency_key :: string
  pio_amount_inr :: int
  pio_currency :: string
  pio_merchant_id :: string
  pio_provider :: string
  pio_provider_key_id :: "string option"
  pio_provider_payment_id :: "string option"
  pio_provider_order_id :: "string option"
  pio_provider_transaction_id :: "string option"
  pio_provider_receipt :: "string option"
  pio_provider_status :: "string option"
  pio_provider_attempts :: "int option"
  pio_attempts :: int
  pio_last_reason_code :: "string option"
  pio_created_at :: instant

record webhook_ack =
  wa_accepted :: bool
  wa_applied :: bool
  wa_reason_code :: "string option"
  wa_state :: "string option"

text \<open>The constraints of the one request body that is not a domain object.\<close>

definition ApprovalRequest :: "approval_request \<Rightarrow> exn + approval_request" where
  "ApprovalRequest r = (if sized 1 120 (apr_signing_key_id r) \<and> length (apr_signature r) = SIGNATURE_HEX_LENGTH
       \<and> is_hex (apr_signature r)
     then Inr r else Inl (ValidationError ''ApprovalRequest''))"

section \<open>Reasons\<close>

text \<open>The \<open>reason_code\<close> attribute of the exceptions a route answers for.\<close>

definition authorization_failure :: "exn \<Rightarrow> reason_code option" where
  "authorization_failure e = (case e of
     AuthorizationNotFound \<Rightarrow> Some R_AUTHORIZATION_NOT_FOUND
   | TransactionBindingFailure \<Rightarrow> Some R_TRANSACTION_BINDING_FAILURE
   | AuthorizationReplayDetected \<Rightarrow> Some R_AUTHORIZATION_REPLAY_DETECTED
   | AuthorizationExpired \<Rightarrow> Some R_AUTHORIZATION_EXPIRED
   | AuthorizationNotActive \<Rightarrow> Some R_AUTHORIZATION_NOT_ACTIVE
   | AuthorizationProofFailure reason \<Rightarrow> Some reason
   | _ \<Rightarrow> None)"

definition payment_refusal :: "exn \<Rightarrow> exn" where
  "payment_refusal e = (case e of
     CapabilityDenied _ _ \<Rightarrow> HTTPException 403 (reason_text R_CAPABILITY_DENIED)
   | IdempotencyConflict \<Rightarrow> HTTPException 409 (reason_text R_IDEMPOTENCY_CONFLICT)
   | MissionNotAuthorized \<Rightarrow> HTTPException 409 (reason_text R_MISSION_NOT_AUTHORIZED)
   | PaymentRequestRejected \<Rightarrow> HTTPException 409 ''PAYMENT_REQUEST_REJECTED''
   | _ \<Rightarrow> (case authorization_failure e of
       Some reason \<Rightarrow> HTTPException 409 (reason_text reason) | None \<Rightarrow> e))"

definition provider_refusal :: "int \<Rightarrow> exn \<Rightarrow> exn" where
  "provider_refusal unknown_status e = (case e of
     UnknownProvider _ \<Rightarrow> HTTPException unknown_status ''UNKNOWN_PAYMENT_PROVIDER''
   | ProviderUnavailable _ \<Rightarrow> HTTPException 503 ''PAYMENT_PROVIDER_UNAVAILABLE''
   | _ \<Rightarrow> e)"

definition webhook_refusal :: "exn \<Rightarrow> exn" where
  "webhook_refusal e = (case e of
     WebhookRejected reason \<Rightarrow> HTTPException
       (if reason = reason_text R_WEBHOOK_UNKNOWN_PAYMENT then 404
        else if reason = reason_text R_WEBHOOK_SIGNATURE_INVALID then 401 else 400) reason
   | _ \<Rightarrow> e)"

text \<open>\<open>try m except ...: raise f(e)\<close>.\<close>

definition translated :: "(exn \<Rightarrow> exn) \<Rightarrow> ('s, exn, 'a) session \<Rightarrow> ('s, exn, 'a) session" where
  "translated f m = catch m (\<lambda>e. raise (f e))"

section \<open>The scope of a request\<close>

text \<open>\<open>get_session\<close>: the session is rolled back on both paths.\<close>

definition get_session :: "('p, 'a) job \<Rightarrow> ('p, 'a) job" where
  "get_session handler = bind (session_scope handler) (\<lambda>x. andthen rollback (ret x))"

section \<open>Projections\<close>

definition offer_out_of :: "offer_row \<Rightarrow> offer_out" where
  "offer_out_of o' = \<lparr>oo_offer_id = of_id o', oo_offer_version = of_offer_version o', oo_merchant_id = of_merchant_id o',
     oo_merchant_name = of_merchant_name o', oo_merchant_trust = of_merchant_trust o', oo_product_id = of_product_id o',
     oo_title = of_title o', oo_amount_inr = of_amount_inr o', oo_currency = of_currency o', oo_rating = of_rating o',
     oo_in_stock = of_in_stock o', oo_valid = of_valid o', oo_rejection_reasons = map reason_text (of_rejection_reasons o'),
     oo_rank = of_rank o'\<rparr>"

definition authorization_out_of :: "authorization_row \<Rightarrow> authorization_out" where
  "authorization_out_of row = \<lparr>ao_authorization_id = az_authorization_id row, ao_mission_id = az_mission_id row,
     ao_status = auth_text (az_status row), ao_transaction_digest = az_transaction_digest row,
     ao_binding_version = az_binding_version row, ao_policy_version = az_policy_version row,
     ao_offer_version = az_offer_version row, ao_approval_scheme = scheme_text (az_approval_scheme row),
     ao_signing_key_id = az_signing_key_id row, ao_issued_at = az_issued_at row, ao_expires_at = az_expires_at row,
     ao_consumed_at = az_consumed_at row, ao_bound_merchant_id = az_bound_merchant_id row,
     ao_bound_product_id = az_bound_product_id row, ao_bound_quantity = az_bound_quantity row,
     ao_bound_amount_inr = az_bound_amount_inr row, ao_bound_currency = az_bound_currency row\<rparr>"

definition payment_out :: "'h api_settings \<Rightarrow> payment_intent_row \<Rightarrow> payment_intent_out" where
  "payment_out settings row = (let key_id = as_razorpay_key_id settings in
     \<lparr>pio_payment_intent_id = pi_id row, pio_mission_id = pi_mission_id row,
      pio_authorization_id = pi_authorization_id row, pio_state = payment_text (pi_state row),
      pio_idempotency_key = pi_idempotency_key row, pio_amount_inr = pi_amount_inr row, pio_currency = pi_currency row,
      pio_merchant_id = pi_merchant_id row, pio_provider = pi_provider row,
      pio_provider_key_id = (if pi_provider row = ''razorpay_test'' \<and> starts ''rzp_test_'' key_id
          \<and> key_id \<noteq> ''rzp_test_REPLACE_ME'' then Some key_id else None),
      pio_provider_payment_id = pi_provider_payment_id row, pio_provider_order_id = pi_provider_order_id row,
      pio_provider_transaction_id = pi_provider_transaction_id row, pio_provider_receipt = pi_provider_receipt row,
      pio_provider_status = pi_provider_status row, pio_provider_attempts = pi_provider_attempts row,
      pio_attempts = pi_attempts row, pio_last_reason_code = pi_last_reason_code row,
      pio_created_at = pi_created_at row\<rparr>)"

text \<open>
  \<open>order_by(Offer.rank)\<close>: the unranked offers come first on SQLite and last on PostgreSQL, in the
  order of the table.
\<close>

definition offers_by_rank :: "bool \<Rightarrow> uuid \<Rightarrow> world \<Rightarrow> offer_row list" where
  "offers_by_rank nulls_first mission_id w =
     (let rows = filter (\<lambda>o'. of_mission_id o' = mission_id) (w_offers w);
          unranked = filter (\<lambda>o'. of_rank o' = None) rows;
          ranked = sort_key (\<lambda>o'. the (of_rank o')) (filter (\<lambda>o'. of_rank o' \<noteq> None) rows) in
      if nulls_first then unranked @ ranked else ranked @ unranked)"

definition decision_out_of :: "policy_decision_row \<Rightarrow> policy_decision_out" where
  "decision_out_of pd = \<lparr>pdo_decision = outcome_text (pdr_decision pd), pdo_policy_version = pdr_policy_version pd,
     pdo_reason_codes = map reason_text (pdr_reason_codes pd), pdo_requested_amount = pdr_requested_amount pd,
     pdo_soft_budget = pdr_soft_budget pd, pdo_hard_limit = pdr_hard_limit pd,
     pdo_selected_offer_id = pdr_selected_offer_id pd\<rparr>"

definition mission_out_of :: "'h api_settings \<Rightarrow> mission_row \<Rightarrow> mission_out db" where
  "mission_out_of settings mission =
     bind (gets (offers_by_rank (as_nulls_first settings) (ms_id mission))) (\<lambda>offers.
     bind (gets (\<lambda>w. latest_by pdr_created_at (filter (\<lambda>r. pdr_mission_id r = ms_id mission) (w_policy_decisions w)))) (\<lambda>pd.
     ret \<lparr>mo_id = ms_id mission, mo_state = mission_text (ms_state mission), mo_raw_query = ms_raw_query mission,
       mo_quantity = ms_quantity mission, mo_offers = map offer_out_of offers,
       mo_policy_decision = map_option decision_out_of pd\<rparr>))"

definition audit_event_out_of :: "audit_event_row \<Rightarrow> audit_event_out" where
  "audit_event_out_of r = \<lparr>aeo_event_id = ae_event_id r, aeo_sequence = ae_sequence r, aeo_event_type = ae_event_type r,
     aeo_actor = ae_actor r, aeo_payload = ae_payload r, aeo_previous_hash = ae_previous_hash r,
     aeo_event_hash = ae_event_hash r, aeo_created_at = ae_created_at r\<rparr>"

section \<open>Mission routes\<close>

definition load_mission :: "uuid \<Rightarrow> mission_row db" where
  "load_mission mission_id = bind (gets (find_mission mission_id)) (\<lambda>found. case found of
     None \<Rightarrow> raise (HTTPException 404 ''mission not found'') | Some mission \<Rightarrow> ret mission)"

definition load_authorization :: "uuid \<Rightarrow> authorization_row db" where
  "load_authorization mission_id = bind (authorization_for_mission mission_id) (\<lambda>found. case found of
     None \<Rightarrow> raise (HTTPException 404 ''no authorization for this mission'') | Some row \<Rightarrow> ret row)"

definition create_mission_route :: "'h api_settings \<Rightarrow> create_mission_request \<Rightarrow> ('p, mission_out) job" where
  "create_mission_route settings request =
     bind (catch (in_db (run (as_orchestrator settings) default_merchant_registry (orchestrator_merchants None) request))
       (\<lambda>e. case e of
          BindRefusedOfferChanged _ \<Rightarrow> andthen commit (raise (HTTPException 409 (reason_text R_BIND_REFUSED_OFFER_CHANGED)))
        | _ \<Rightarrow> raise e)) (\<lambda>mission.
     andthen commit (in_db (mission_out_of settings mission)))"

definition get_mission_route :: "'h api_settings \<Rightarrow> uuid \<Rightarrow> mission_out db" where
  "get_mission_route settings mission_id = bind (load_mission mission_id) (mission_out_of settings)"

definition get_events_route :: "uuid \<Rightarrow> audit_event_out list db" where
  "get_events_route mission_id = andthen (load_mission mission_id)
     (bind (gets (list_events mission_id)) (\<lambda>rows. ret (map audit_event_out_of rows)))"

definition verify_audit_chain_route :: "uuid \<Rightarrow> verification_result db" where
  "verify_audit_chain_route mission_id = andthen (load_mission mission_id) (verify_mission_chain mission_id)"

definition replay_mission_route :: "uuid \<Rightarrow> mission_replay_result db" where
  "replay_mission_route mission_id = andthen (load_mission mission_id) (replay_mission mission_id True)"

definition get_offers_route :: "'h api_settings \<Rightarrow> uuid \<Rightarrow> offer_out list db" where
  "get_offers_route settings mission_id = andthen (load_mission mission_id)
     (bind (gets (offers_by_rank (as_nulls_first settings) mission_id)) (\<lambda>offers. ret (map offer_out_of offers)))"

definition get_authorization_route :: "uuid \<Rightarrow> authorization_out db" where
  "get_authorization_route mission_id = andthen (load_mission mission_id)
     (bind (load_authorization mission_id) (\<lambda>row. ret (authorization_out_of row)))"

definition approve_authorization_route :: "'h api_settings \<Rightarrow> uuid \<Rightarrow> approval_request \<Rightarrow> ('p, authorization_out) job" where
  "approve_authorization_route settings mission_id request =
     bind (in_db (load_mission mission_id)) (\<lambda>mission.
     bind (in_db (load_authorization mission_id)) (\<lambda>row.
     andthen (guardE (ms_state mission = M_AWAITING_APPROVAL) (HTTPException 409 ''MISSION_NOT_AWAITING_APPROVAL''))
    (bind (catch (in_db (approve_authorization_with_signature (as_approver settings) mission_id (az_authorization_id row)
           (apr_signing_key_id request) (apr_signature request) None))
         (\<lambda>e. case authorization_failure e of
            Some reason \<Rightarrow> andthen commit (raise (HTTPException 409 (reason_text reason)))
          | None \<Rightarrow> raise e)) (\<lambda>activated.
     andthen (in_db (lift (assert_transition (ms_state mission) M_AUTHORIZED)))
    (andthen (in_db (set_mission_state mission_id M_AUTHORIZED))
    (andthen commit (ret (authorization_out_of activated))))))))"

text \<open>\<open>bytes.hex()\<close>.\<close>

definition hex_of_bytes :: "string \<Rightarrow> string" where
  "hex_of_bytes bs = concat (map (\<lambda>b. hex_fixed 2 (of_char b)) bs)"

definition get_approval_challenge_route :: "'h api_settings \<Rightarrow> uuid \<Rightarrow> approval_challenge_out db" where
  "get_approval_challenge_route settings mission_id =
     bind (load_mission mission_id) (\<lambda>mission.
     bind (load_authorization mission_id) (\<lambda>row.
     andthen (guardE (ms_state mission = M_AWAITING_APPROVAL \<and> az_status row = A_PENDING
         \<and> az_approval_scheme row = S_USER_ED25519) (HTTPException 409 ''AUTHORIZATION_NOT_PENDING_USER_APPROVAL''))
    (bind utcnow (\<lambda>now.
     andthen (guardE (now < az_expires_at row) (HTTPException 409 ''AUTHORIZATION_EXPIRED''))
    (bind (lift (rebuild_bound_transaction row)) (\<lambda>transaction.
     let signing_key_id = ap_signing_key_id (as_approver settings) in
     bind (lift (approval_message (az_authorization_id row) (az_mission_id row) (az_binding_version row)
       (az_transaction_digest row) signing_key_id)) (\<lambda>message.
     ret \<lparr>co_authorization_id = az_authorization_id row, co_mission_id = az_mission_id row,
       co_binding_version = az_binding_version row, co_transaction_digest = az_transaction_digest row,
       co_signing_key_id = signing_key_id, co_approval_scheme = scheme_text S_USER_ED25519,
       co_approval_message_hex = hex_of_bytes message,
       co_transaction = \<lparr>bs_merchant = bt_merchant_id transaction, bs_product = bt_product_id transaction,
         bs_quantity = bt_quantity transaction, bs_amount = bt_amount_inr transaction,
         bs_currency = bt_currency transaction, bs_expiry = bt_expires_at transaction\<rparr>\<rparr>)))))))"

section \<open>Payment routes\<close>

definition MAX_IDEMPOTENCY_KEY_LENGTH :: nat where
  "MAX_IDEMPOTENCY_KEY_LENGTH = 200"

definition MAX_WEBHOOK_BODY_BYTES :: nat where
  "MAX_WEBHOOK_BODY_BYTES = 64 * 1024"

definition requested_provider :: "'h api_settings \<Rightarrow> string option \<Rightarrow> string" where
  "requested_provider settings provider = (case provider of
     Some name \<Rightarrow> if name \<noteq> [] then name
       else if as_app_env settings \<noteq> ''production'' then ''fake'' else ''razorpay_test''
   | None \<Rightarrow> if as_app_env settings \<noteq> ''production'' then ''fake'' else ''razorpay_test'')"

text \<open>201 with a payment this call created, 200 with the one that was there.\<close>

definition request_payment :: "'h api_settings \<Rightarrow> uuid \<Rightarrow> string \<Rightarrow> string option \<Rightarrow> ('p, int \<times> payment_intent_out) job" where
  "request_payment settings mission_id idempotency_key provider =
     (let provider_name = requested_provider settings provider in
      andthen (guardE (idempotency_key \<noteq> [] \<and> length idempotency_key \<le> MAX_IDEMPOTENCY_KEY_LENGTH)
        (HTTPException 400 ''IDEMPOTENCY_KEY_INVALID''))
     (andthen (translated (provider_refusal 400)
        (in_db (lift (provider_for (as_razorpay settings) provider_name (as_app_env settings)))))
     (andthen (in_db (load_mission mission_id))
     (bind (in_db (authorization_for_mission mission_id)) (\<lambda>found. case found of
        None \<Rightarrow> raise (HTTPException 409 ''NO_AUTHORIZATION'')
      | Some authorization \<Rightarrow>
        bind (translated payment_refusal (in_db (create_payment_intent (as_approver settings) executor_capabilities mission_id
          (az_authorization_id authorization) idempotency_key provider_name None))) (\<lambda>result.
        andthen commit
       (ret (if pr_created result then 201 else 200, payment_out settings (pr_intent result)))))))))"

definition get_payment_route :: "'h api_settings \<Rightarrow> uuid \<Rightarrow> payment_intent_out db" where
  "get_payment_route settings mission_id =
     andthen (load_mission mission_id)
    (bind (payment_intent_for_mission mission_id) (\<lambda>found. case found of
       None \<Rightarrow> raise (HTTPException 404 ''no payment intent for this mission'')
     | Some intent \<Rightarrow> ret (payment_out settings intent)))"

text \<open>The verification a webhook gets is that of the adapter its route names.\<close>

definition deliver_to :: "'h api_settings \<Rightarrow> adapter \<Rightarrow> string \<Rightarrow> string \<Rightarrow> string option \<Rightarrow> webhook_outcome db" where
  "deliver_to settings provider body signature provider_event_id = (case provider of
     FakeAdapter \<Rightarrow> handle_webhook (fake (as_fake_int settings) (as_fake_secret settings)) body signature provider_event_id None
   | RazorpayAdapter p \<Rightarrow> handle_webhook (razorpay_provider (as_outside settings) p) body signature provider_event_id None)"

definition header :: "(string \<Rightarrow> string option) \<Rightarrow> string \<Rightarrow> string" where
  "header headers name = (case headers name of None \<Rightarrow> [] | Some text \<Rightarrow> text)"

definition receive_webhook :: "'h api_settings \<Rightarrow> string \<Rightarrow> string \<Rightarrow> (string \<Rightarrow> string option) \<Rightarrow> ('p, webhook_ack) job" where
  "receive_webhook settings provider_name body headers =
     bind (translated (provider_refusal 404) (in_db (lift
       (bindE (provider_for (as_razorpay settings) provider_name (as_app_env settings)) (\<lambda>provider.
        bindE (signature_header_for provider_name) (\<lambda>header_name.
        bindE (event_id_header_for provider_name) (\<lambda>event_id_header.
        Inr (provider, header_name, event_id_header)))))))) (\<lambda>(provider, header_name, event_id_header).
     andthen (guardE (length body \<le> MAX_WEBHOOK_BODY_BYTES) (HTTPException 413 ''WEBHOOK_BODY_TOO_LARGE''))
    (bind (translated webhook_refusal (in_db (deliver_to settings provider body (header headers header_name)
        (map_option (header headers) event_id_header)))) (\<lambda>outcome.
     andthen commit
    (ret \<lparr>wa_accepted = wo_accepted outcome, wa_applied = wo_applied outcome, wa_reason_code = wo_reason_code outcome,
       wa_state = map_option payment_text (wo_state outcome)\<rparr>))))"

section \<open>Risk routes\<close>

definition assess_or_404 :: "uuid \<Rightarrow> risk_assessment db" where
  "assess_or_404 mission_id = translated (\<lambda>e. case e of
     MissionNotFound \<Rightarrow> HTTPException 404 ''mission not found'' | _ \<Rightarrow> e)
     (assess_mission mission_id None default_merchant_registry None)"

definition get_mission_risk :: "uuid \<Rightarrow> risk_assessment db" where
  "get_mission_risk mission_id = assess_or_404 mission_id"

definition assess_and_record :: "uuid \<Rightarrow> ('p, risk_assessment) job" where
  "assess_and_record mission_id =
     bind (in_db (assess_or_404 mission_id)) (\<lambda>assessment.
     andthen (in_db (record_assessment assessment))
    (andthen commit (ret assessment)))"

section \<open>Requests\<close>

datatype http_call =
    CreateMission create_mission_request
  | GetMission uuid
  | GetEvents uuid
  | VerifyAudit uuid
  | ReplayMission uuid
  | GetOffers uuid
  | GetAuthorization uuid
  | ApproveAuthorization uuid approval_request
  | GetApprovalChallenge uuid
  | RequestPayment uuid string "string option"
  | GetPayment uuid
  | ReceiveWebhook string string "string \<Rightarrow> string option"
  | GetRisk uuid
  | AssessRisk uuid

datatype http_reply =
    MissionReply mission_out
  | EventsReply "audit_event_out list"
  | VerificationReply verification_result
  | ReplayReply mission_replay_result
  | OffersReply "offer_out list"
  | AuthorizationReply authorization_out
  | ChallengeReply approval_challenge_out
  | PaymentReply int payment_intent_out
  | AckReply webhook_ack
  | AssessmentReply risk_assessment

definition answered :: "('a \<Rightarrow> 'b) \<Rightarrow> ('s, exn, 'a) session \<Rightarrow> ('s, exn, 'b) session" where
  "answered f m = bind m (\<lambda>x. ret (f x))"

text \<open>A body that fails its validators is answered before the handler runs.\<close>

definition validated :: "exn + 'a \<Rightarrow> exn + 'a" where
  "validated r = map_sum (\<lambda>_. HTTPException 422 ''request validation failed'') id r"

fun handler :: "'h api_settings \<Rightarrow> http_call \<Rightarrow> ('p, http_reply) job" where
  "handler s (CreateMission request) = bind (in_db (lift (validated (CreateMissionRequest request))))
     (\<lambda>r. answered MissionReply (create_mission_route s r))"
| "handler s (GetMission m) = answered MissionReply (in_db (get_mission_route s m))"
| "handler s (GetEvents m) = answered EventsReply (in_db (get_events_route m))"
| "handler s (VerifyAudit m) = answered VerificationReply (in_db (verify_audit_chain_route m))"
| "handler s (ReplayMission m) = answered ReplayReply (in_db (replay_mission_route m))"
| "handler s (GetOffers m) = answered OffersReply (in_db (get_offers_route s m))"
| "handler s (GetAuthorization m) = answered AuthorizationReply (in_db (get_authorization_route m))"
| "handler s (ApproveAuthorization m request) = bind (in_db (lift (validated (ApprovalRequest request))))
     (\<lambda>r. answered AuthorizationReply (approve_authorization_route s m r))"
| "handler s (GetApprovalChallenge m) = answered ChallengeReply (in_db (get_approval_challenge_route s m))"
| "handler s (RequestPayment m key provider) = answered (\<lambda>(code, out). PaymentReply code out) (request_payment s m key provider)"
| "handler s (GetPayment m) = answered (PaymentReply 200) (in_db (get_payment_route s m))"
| "handler s (ReceiveWebhook name body headers) = answered AckReply (receive_webhook s name body headers)"
| "handler s (GetRisk m) = answered AssessmentReply (in_db (get_mission_risk m))"
| "handler s (AssessRisk m) = answered AssessmentReply (assess_and_record m)"

definition serve :: "'h api_settings \<Rightarrow> http_call \<Rightarrow> ('p, http_reply) job" where
  "serve s request = get_session (handler s request)"

section \<open>What a request keeps\<close>

text \<open>
  The interface of the routes: on top of what the payment services need, the statements of the
  orchestrator, and the two operations a route calls that keep a relation only where the keys of
  the tables hold.
\<close>

locale api_order = settlement_order P cfg for P :: "world \<Rightarrow> world \<Rightarrow> bool" and cfg :: approver +
  fixes settings :: "'h api_settings"
  assumes approver: "as_approver settings = cfg"
    and any_append: "actor \<noteq> [] \<Longrightarrow> keeps P (append_event m t actor body)"
    and nonces: "keeps P generate_nonce"
    and new_mission: "keeps P (insert_mission mr)"
    and new_constraints: "keeps P (insert_mission_constraints cr)"
    and new_offer: "keeps P (insert_offer r)"
    and new_decision: "keeps P (insert_policy_decision pd)"
    and rank: "keeps P (set_rank i rk)"
    and normalization: "keeps P (normalize c quotes)"
    and mission_state: "keeps P (set_mission_state m st)"
    and new_payment: "keeps P (create_payment_intent cfg caps m a key provider now)"
    and delivery: "keeps P (deliver_to settings adapter raw_body signature event_id)"
begin

lemma keeps_audit_as: "actor \<noteq> [] \<Longrightarrow> keeps P (audit_as actor m t p)"
  unfolding audit_as_def by (intro keeps_andthen any_append keeps_ret)

lemma keeps_read_mission: "keeps P (read_mission m)"
  unfolding read_mission_def by (intro keeps_intros)

lemma keeps_transition: "actor \<noteq> [] \<Longrightarrow> keeps P (transition m st t actor p)"
  unfolding transition_def by (intro keeps_intros keeps_read_mission mission_state keeps_audit_as)

lemma actors [simp]: "ORCHESTRATOR_ACTOR \<noteq> []"
  by (simp add: ORCHESTRATOR_ACTOR_def)

lemmas run_intros = kernel_intros clock ids nonces new_mission new_constraints new_offer new_decision rank normalization
  mission_state keeps_read_mission keeps_transition keeps_audit_as keeps_forS actors

lemma keeps_adjudicate_claims: "keeps P (adjudicate_claims m claims reg)"
proof (induction m claims reg rule: adjudicate_claims.induct)
  case (2 m ctx raw claim claims reg)
  have "keeps P (adjudicate_claim m ctx raw claim reg)"
    unfolding adjudicate_claim_def Let_def
    by (auto simp: keeps_ret keeps_raise split: prod.splits sum.splits exn.splits intro!: keeps_andthen keeps_audit_as)
  with 2 show ?case by (simp add: keeps_bind)
qed (simp add: keeps_ret)

lemma keeps_build: "keeps P (build_bound_transaction_from_selected_offer m i v d q n e)"
  unfolding build_bound_transaction_from_selected_offer_def by (intro keeps_intros)

lemma keeps_bind_selected: "keeps P (bind_selected m offer d q e)"
  unfolding bind_selected_def
  by (intro keeps_bind keeps_lift nonces keeps_catch keeps_build)
    (auto simp: keeps_raise split: exn.split intro!: keeps_andthen keeps_audit_as)

lemma keeps_authorize: "keeps P (authorize ocfg m offer d q)"
  unfolding authorize_def by (intro run_intros keeps_bind_selected keeps_issue_authorization keeps_activate)

lemma keeps_admit: "keeps P (admit reg merchants request)"
  unfolding admit_def create_mission_def parse_intent_def discover_def receive_offers_def enforce_authority_def
    normalize_phase_def persist_offers_def flag_spoofs_def rank_phase_def decide_def Let_def
  by (intro run_intros keeps_adjudicate_claims) (auto split: prod.split intro!: run_intros)

lemma keeps_run: "keeps P (run ocfg reg merchants request)"
  unfolding run_def deny_mission_def
  by (rule keeps_bind [OF keeps_admit]) (auto split: prod.split option.split intro!: run_intros keeps_authorize)

end

context api_order
begin

text \<open>The routes, and the request around them.\<close>

lemma keeps_load: "keeps P (load_mission m)" "keeps P (load_authorization m)"
  unfolding load_mission_def load_authorization_def authorization_for_mission_def by (intro keeps_intros)+

lemma keeps_mission_out: "keeps P (mission_out_of settings mission)"
  unfolding mission_out_of_def by (intro keeps_intros)

lemma keeps_reads:
  "keeps P (get_mission_route settings m)" "keeps P (get_events_route m)" "keeps P (verify_audit_chain_route m)"
  "keeps P (get_offers_route settings m)" "keeps P (get_authorization_route m)" "keeps P (get_payment_route settings m)"
  unfolding get_mission_route_def get_events_route_def verify_audit_chain_route_def get_offers_route_def
    get_authorization_route_def get_payment_route_def verify_mission_chain_def payment_intent_for_mission_def
  by (intro keeps_intros keeps_load keeps_mission_out)+

lemma keeps_replay: "keeps P (replay_mission_route m)"
  unfolding replay_mission_route_def replay_mission_def verify_mission_chain_def
  by (intro keeps_intros keeps_load keeps_sum) (simp split: replay_error.split add: keeps_ret keeps_raise)

lemma keeps_challenge: "keeps P (get_approval_challenge_route settings m)"
  unfolding get_approval_challenge_route_def Let_def by (intro keeps_intros keeps_load clock)

lemmas route_intros = job_intros keeps_commit keeps_in_db

lemma keeps_translated: "keeps (carries P) m \<Longrightarrow> keeps (carries P) (translated f m)"
  unfolding translated_def by (intro route_intros)

lemma keeps_answered: "keeps (carries P) m \<Longrightarrow> keeps (carries P) (answered f m)"
  unfolding answered_def by (intro route_intros)

lemma keeps_create_mission_route: "keeps (carries P) (create_mission_route settings request)"
  unfolding create_mission_route_def
  by (intro route_intros keeps_run keeps_mission_out) (auto split: exn.split intro!: route_intros)

lemma keeps_approve_route: "keeps (carries P) (approve_authorization_route settings m request)"
  unfolding approve_authorization_route_def approver
  by (intro route_intros keeps_load keeps_approve mission_state keeps_lift)

lemma keeps_request_payment: "keeps (carries P) (request_payment settings m key provider)"
  unfolding request_payment_def Let_def approver authorization_for_mission_def
  by (intro route_intros keeps_translated keeps_lift keeps_load keeps_gets new_payment)

lemma keeps_receive_webhook: "keeps (carries P) (receive_webhook settings name body headers)"
  unfolding receive_webhook_def
  by (rule session_order.keeps_bind [OF carries_order keeps_translated [OF keeps_in_db [OF keeps_lift]]])
    (auto split: prod.split intro!: route_intros keeps_translated delivery)

lemma keeps_assess: "keeps P (assess_or_404 m)"
  unfolding assess_or_404_def translated_def assess_mission_def load_mission_facts_def
    extract_merchant_history_features_def moment_of_def Let_def
  by (intro keeps_intros clock ids)

lemma keeps_risk_routes: "keeps P (get_mission_risk m)" "keeps (carries P) (assess_and_record m)"
  unfolding get_mission_risk_def assess_and_record_def record_assessment_def
  by (intro route_intros keeps_assess any_append; simp add: RISK_ACTOR_def)+

lemma keeps_handler: "keeps (carries P) (handler settings request)"
  by (cases request)
    (auto intro!: keeps_answered keeps_in_db keeps_reads keeps_replay keeps_challenge keeps_create_mission_route
      keeps_approve_route keeps_request_payment keeps_receive_webhook keeps_risk_routes keeps_lift
      session_order.keeps_bind [OF carries_order])

lemma keeps_serve: "keeps (carries P) (serve settings request)"
  unfolding serve_def get_session_def session_scope_def by (intro job_intros keeps_handler keeps_rollback)

end

text \<open>A request makes no call on the provider, and leaves it as it was.\<close>

definition apart :: "'p work \<Rightarrow> 'p work \<Rightarrow> bool" where
  "apart k k' \<longleftrightarrow> wk_calls k' = wk_calls k \<and> wk_provider k' = wk_provider k"

interpretation apart: session_order apart
  by unfold_locales (auto simp: apart_def)

lemma apart_in_db: "keeps apart (in_db m)"
  by (simp add: keeps_def in_db_def apart_def split: prod.split)

lemma apart_boundaries: "keeps apart commit" "keeps apart rollback"
  by (simp_all add: keeps_def commit_def rollback_def modify_def apart_def Let_def)

lemmas apart_intros = apart.keeps_intros apart_in_db apart_boundaries

lemma apart_handler: "keeps apart (handler s request)"
proof (cases request)
  case (ReceiveWebhook name body headers)
  then show ?thesis
    by (auto simp: answered_def receive_webhook_def translated_def split: prod.split intro!: apart_intros)
qed (auto simp: answered_def create_mission_route_def approve_authorization_route_def request_payment_def translated_def
    assess_and_record_def Let_def split: exn.split option.split prod.split intro!: apart_intros)

lemma apart_serve: "keeps apart (serve s request)"
  unfolding serve_def get_session_def session_scope_def by (intro apart_intros apart_handler)

section \<open>The sound system\<close>

text \<open>
  The state the whole system is meant to keep: every audit chain verifies; every authorization row
  meets its constraints, and is in force by user approval only with a verified signature; a payment
  is the only one of its idempotency key and of its authorization; and every payment stands on a
  consumed authorization that binds it.
\<close>

definition sound :: "approver \<Rightarrow> world \<Rightarrow> bool" where
  "sound cfg w \<longleftrightarrow> ledger_ok w \<and> authorizations_ok cfg w \<and> intents_keyed w \<and> paid_for w"

definition keeps_sound :: "approver \<Rightarrow> world \<Rightarrow> world \<Rightarrow> bool" where
  "keeps_sound cfg w w' \<longleftrightarrow> (sound cfg w \<longrightarrow> sound cfg w')"

lemma keeps_soundI:
  assumes "keeps (\<lambda>w w'. ledger_ok w \<longrightarrow> ledger_ok w') m" "keeps (\<lambda>w w'. authorizations_ok cfg w \<longrightarrow> authorizations_ok cfg w') m"
    and "keeps intents_kept m" "keeps (\<lambda>w w'. paid_for w \<longrightarrow> paid_for w') m"
  shows "keeps (keeps_sound cfg) m"
  using assms by (simp add: keeps_def keeps_sound_def sound_def intents_kept_def)

lemma keeps_soundI_at:
  assumes "ledger_ok s \<longrightarrow> ledger_ok t" "authorizations_ok cfg s \<longrightarrow> authorizations_ok cfg t"
    and "intents_kept s t" "paid_for s \<longrightarrow> paid_for t"
  shows "keeps_sound cfg s t"
  using assms by (simp add: keeps_sound_def sound_def intents_kept_def)

lemma sound_frame:
  assumes "w_audit_events w' = w_audit_events w" "w_authorizations w' = w_authorizations w"
    and "w_payment_intents w' = w_payment_intents w"
  shows "keeps_sound cfg w w'"
  using ledger_ok_cong [OF assms(1)] authorizations_ok_cong [OF assms(2)] paid_for_cong [OF assms(3,2)] assms(3)
  by (simp add: keeps_sound_def sound_def intents_keyed_def)

interpretation sound_session: session_order "keeps_sound cfg" for cfg
  by unfold_locales (auto simp: keeps_sound_def)

lemma settlement_both:
  assumes P: "settlement_order P cfg" and Q: "settlement_order Q cfg"
  shows "settlement_order (\<lambda>w w'. P w w' \<and> Q w w') cfg"
proof -
  have so: "session_order P" "session_order Q" using assms by (auto simp: settlement_order_def kernel_order_def)
  have "session_order (\<lambda>w w'. P w w' \<and> Q w w')"
    by (rule session_order.intro) (use so in \<open>auto intro: session_order.refl session_order.trans\<close>)
  with assms show ?thesis unfolding settlement_order_def kernel_order_def kernel_order_axioms_def
      settlement_order_axioms_def keeps_def
    by simp
qed

lemma settlement_weaken:
  assumes P: "settlement_order P cfg" and le: "\<And>w w'. P w w' \<Longrightarrow> R w w'" and R: "session_order R"
    and sp: "\<And>s s'. R s (restore_tables s s')"
  shows "settlement_order R cfg"
  using P R sp le unfolding settlement_order_def kernel_order_def kernel_order_axioms_def
    settlement_order_axioms_def keeps_def
  by simp

interpretation sound_order: settlement_order "keeps_sound cfg" cfg for cfg
  by (rule settlement_weaken [OF settlement_both [OF
        settlement_both [OF payment_ledger.settlement_order_axioms payment_auth_rows.settlement_order_axioms]
        settlement_both [OF payment_rows.settlement_order_axioms settled.settlement_order_axioms]]
      _ sound_session.session_order_axioms])
    (auto intro: keeps_soundI_at sound_frame simp: restore_tables_def)


context settlement_order
begin

lemma at_deliver_to: "keyed pi_id (w_payment_intents s) \<Longrightarrow> P s (snd (deliver_to settings adapter body sig eid s))"
  by (simp add: deliver_to_def at_handle_webhook [unfolded keeps_at_def] split: adapter.split)

end

lemma deliver_to_rows: "keeps intents_kept (deliver_to settings adapter body sig eid)"
  unfolding keeps_def
proof
  fix s
  show "intents_kept s (snd (deliver_to settings adapter body sig eid s))"
  proof (cases "intents_keyed s")
    case True
    then show ?thesis by (intro payment_rows.at_deliver_to) (simp add: intents_keyed_def)
  qed (simp add: intents_kept_def)
qed

lemma deliver_to_sound: "keeps (keeps_sound cfg) (deliver_to settings adapter body sig eid)"
  unfolding keeps_def
proof
  fix s
  show "keeps_sound cfg s (snd (deliver_to settings adapter body sig eid s))"
  proof (cases "intents_keyed s")
    case True
    then show ?thesis by (intro sound_order.at_deliver_to) (simp add: intents_keyed_def)
  qed (simp add: keeps_sound_def sound_def)
qed

text \<open>The statements of the orchestrator leave the tables of the payments and the authorizations alone.\<close>

definition core :: "world \<Rightarrow> audit_event_row list \<times> authorization_row list \<times> payment_intent_row list" where
  "core w = (w_audit_events w, w_authorizations w, w_payment_intents w)"

lemma orchestrator_statements:
  "keeps (\<lambda>w w'. core w' = core w) generate_nonce"
  "keeps (\<lambda>w w'. core w' = core w) (insert_mission mr)"
  "keeps (\<lambda>w w'. core w' = core w) (insert_mission_constraints cr)"
  "keeps (\<lambda>w w'. core w' = core w) (insert_offer r)"
  "keeps (\<lambda>w w'. core w' = core w) (insert_policy_decision pd)"
  "keeps (\<lambda>w w'. core w' = core w) (set_rank i rk)"
  "keeps (\<lambda>w w'. core w' = core w) (normalize c quotes)"
  "keeps (\<lambda>w w'. core w' = core w) (set_mission_state m st)"
  by (simp_all add: keeps_def core_def generate_nonce_def token_hex_def insert_mission_def insert_mission_constraints_def insert_offer_def
      insert_policy_decision_def db_require_def session_defs normalize_def set_rank_def set_mission_state_def
      split: sum.split)

lemma append_sound: "actor \<noteq> [] \<Longrightarrow> keeps (keeps_sound cfg) (append_event m t actor body)"
  by (rule keeps_soundI [OF append_event_ledger])
    (simp_all add: keeps_def append_event_eq Let_def draw_def authorizations_ok_def paid_for_def intents_kept_frame)

interpretation api_rows: api_order intents_kept cfg "settings\<lparr>as_approver := cfg\<rparr>" for settings :: "'h api_settings" and cfg
proof unfold_locales
  show "keeps intents_kept (append_event m t actor body)" for m t actor body
    by (simp add: keeps_def append_event_eq Let_def draw_def intents_kept_frame)
qed (insert orchestrator_statements, auto simp: keeps_def core_def intents_kept_frame
    intro: deliver_to_rows [unfolded keeps_def, rule_format] payment_rows.keeps_create_payment_intent [unfolded keeps_def, rule_format])

lemma create_sound: "keeps (keeps_sound cfg) (create_payment_intent cfg caps m a key provider now)"
  unfolding keeps_def
proof
  fix w
  obtain r w' where run: "create_payment_intent cfg caps m a key provider now w = (r, w')" by fastforce
  note kept = keeps_result [OF payment_ledger.keeps_create_payment_intent run]
    keeps_result [OF payment_auth_rows.keeps_create_payment_intent run]
    keeps_result [OF payment_rows.keeps_create_payment_intent run]
  have "paid_for w'" if "sound cfg w"
    using create_keeps_paid_for [of w cfg caps m a key provider now] that run
    by (simp add: sound_def authorizations_ok_def)
  with kept have "keeps_sound cfg w w'" by (simp add: keeps_sound_def sound_def intents_kept_def)
  with run show "keeps_sound cfg w (snd (create_payment_intent cfg caps m a key provider now w))" by simp
qed

interpretation api_sound: api_order "keeps_sound cfg" cfg "settings\<lparr>as_approver := cfg\<rparr>" for settings :: "'h api_settings" and cfg
  by unfold_locales (insert orchestrator_statements, auto simp: keeps_def core_def
    intro: sound_frame deliver_to_sound [unfolded keeps_def, rule_format] create_sound [unfolded keeps_def, rule_format]
      append_sound [unfolded keeps_def, rule_format])

section \<open>The running system\<close>

text \<open>Requests and worker turns in any order; what they answer or raise stops nothing.\<close>

datatype system_step = Request http_call | WorkerTurn turn

fun run_step :: "'h api_settings \<Rightarrow> 'p payment_provider \<Rightarrow> (exn \<Rightarrow> string) \<Rightarrow> system_step \<Rightarrow> ('p, unit) job" where
  "run_step s prov exc_text (Request c) = catch (andthen (serve s c) (ret ())) (\<lambda>e. ret ())"
| "run_step s prov exc_text (WorkerTurn t) = run_turns (as_approver s) prov exc_text [t]"

definition run_system :: "'h api_settings \<Rightarrow> 'p payment_provider \<Rightarrow> (exn \<Rightarrow> string) \<Rightarrow> system_step list \<Rightarrow> ('p, unit) job" where
  "run_system s prov exc_text = forS (run_step s prov exc_text)"

text \<open>A relation that every request and every turn keeps is kept by the system.\<close>

lemma keeps_run_system:
  assumes "session_order Q" and "\<And>c. keeps Q (serve s c)" and "\<And>t. keeps Q (run_turns (as_approver s) prov exc_text [t])"
  shows "keeps Q (run_system s prov exc_text steps)"
proof -
  have "keeps Q (run_step s prov exc_text st)" for st
    using assms by (cases st) (auto intro!: session_order.keeps_catch session_order.keeps_andthen session_order.keeps_ret)
  then show ?thesis unfolding run_system_def by (rule session_order.keeps_forS [OF assms(1)])
qed

text \<open>
  C1. The system keeps its state sound: whatever requests arrive and whatever turns the workers take,
  in any order and with any outcome, provided other sessions keep the invariant too, then after
  every step, in the committed state and in the open session, every audit chain verifies, every
  authorization row meets its constraints (one approved by the user carries a signature that
  verifies), no idempotency key and no authorization has two payments, and every payment stands on
  a consumed authorization that binds its mission, digest, amount, currency and merchant.
\<close>

theorem system_stays_sound:
  fixes k :: "'p work"
  assumes env: "env_keeps (keeps_sound (as_approver s)) k"
    and start: "wk_db k = wk_committed k" "sound (as_approver s) (wk_committed k)"
    and run: "run_system s prov exc_text steps k = (res, k')"
  shows "sound (as_approver s) (wk_committed k') \<and> sound (as_approver s) (wk_db k')"
proof -
  let ?Q = "carries (keeps_sound (as_approver s)) :: 'p work \<Rightarrow> _"
  have "keeps ?Q (serve s c)" for c using api_sound.keeps_serve [of "as_approver s" s c] by simp
  moreover have "keeps ?Q (run_turns (as_approver s) prov exc_text [t])" for t
    by (rule worker_order.keeps_run_turns [OF sound_order.carries_worker])
  ultimately have "keeps ?Q (run_system s prov exc_text steps)"
    by (rule keeps_run_system [OF sound_order.carries_order])
  from keeps_result [OF this run] env start show ?thesis by (auto simp: carries_def keeps_sound_def)
qed

text \<open>
  C2. No code reachable from a request talks to a payment rail: with requests and worker turns in any
  order, a provider whose create is not idempotent is asked at most once to create a payment
  for an idempotency key, and only behind a durable fence; and a history of requests alone, whatever
  they are, makes no call on the provider and leaves its state as it was.
\<close>

theorem requests_never_reach_the_provider:
  fixes k :: "'p work"
  assumes np: "\<not> pv_create_retries_are_idempotent prov" and env: "env_keeps intents_kept k"
    and start: "wk_db k = wk_committed k" "intents_keyed (wk_committed k)" "wk_calls k = []"
    and run: "run_system s prov exc_text steps k = (res, k')"
  shows "creates_for key (wk_calls k') \<le> 1
    \<and> (creates_for key (wk_calls k') = 1 \<longrightarrow> (\<exists>r \<in> set (w_payment_intents (wk_committed k')).
         pi_idempotency_key r = key \<and> pi_provider_create_fenced_at r \<noteq> None))
    \<and> (steps \<in> range (map Request) \<longrightarrow> wk_calls k' = [] \<and> wk_provider k' = wk_provider k)"
proof (intro conjI impI)
  have prov: "prov\<lparr>pv_create_retries_are_idempotent := False\<rparr> = prov" using np by (cases prov) simp
  have "keeps fence_kept (serve s c :: ('p, http_reply) job)" for c
  proof (rule fence_kept_quiet)
    show "keeps (carries intents_kept) (serve s c :: ('p, http_reply) job)"
      using api_rows.keeps_serve [of "as_approver s" s c] by simp
    have "keeps apart (serve s c :: ('p, http_reply) job)" by (rule apart_serve)
    then show "keeps no_create (serve s c :: ('p, http_reply) job)" by (simp add: keeps_def apart_def no_create_def)
  qed
  moreover have "keeps fence_kept (run_turns (as_approver s) prov exc_text [t])" for t
    using fence_worker.keeps_run_turns [of "as_approver s" prov] prov by metis
  ultimately have "keeps fence_kept (run_system s prov exc_text steps)"
    by (rule keeps_run_system [OF fence.session_order_axioms])
  from keeps_result [OF this run] have "fence_kept k k'" .
  moreover have "fence_invariant k" by (simp add: fence_invariant_def fence_entry_def start creates_for_def)
  moreover have "intents_kept (wk_committed k) (wk_db k)" by (simp add: start intents_kept_frame)
  ultimately have "fence_entry key k'" using env start(2) by (simp add: fence_kept_def fence_invariant_def)
  then show "creates_for key (wk_calls k') \<le> 1" and "creates_for key (wk_calls k') = 1 \<Longrightarrow>
      \<exists>r \<in> set (w_payment_intents (wk_committed k')). pi_idempotency_key r = key \<and> pi_provider_create_fenced_at r \<noteq> None"
    by (auto simp: fence_entry_def)
  assume "steps \<in> range (map Request)"
  then obtain cs where steps: "steps = map Request cs" by blast
  have "keeps apart (run_step s prov exc_text (Request c))" for c
    unfolding run_step.simps by (intro apart.keeps_catch apart.keeps_andthen apart_serve apart.keeps_ret)
  then have "keeps apart (forS (\<lambda>c. run_step s prov exc_text (Request c)) cs)" by (rule apart.keeps_forS)
  moreover have "forS (run_step s prov exc_text) (map Request xs) = forS (\<lambda>c. run_step s prov exc_text (Request c)) xs" for xs
    by (induction xs) simp_all
  ultimately have "apart k k'" using run by (metis keeps_result run_system_def steps)
  then show "wk_calls k' = []" "wk_provider k' = wk_provider k" by (simp_all add: apart_def start)
qed

section \<open>A payment request is all or nothing\<close>

lemma in_db_Inr_iff: "in_db m k = (Inr x, k') \<longleftrightarrow> (\<exists>w. m (wk_db k) = (Inr x, w) \<and> k' = k\<lparr>wk_db := w\<rparr>)"
  by (auto simp: in_db_def split: prod.splits)

lemma translated_Inr_iff: "translated f m k = (Inr x, k') \<longleftrightarrow> m k = (Inr x, k')"
  by (auto simp: translated_def catch_def raise_def split: prod.splits sum.splits)

lemma load_mission_state: "load_mission m w = (r, w') \<Longrightarrow> w' = w"
  by (auto simp: load_mission_def session_defs split: option.splits)

text \<open>A handler that has not committed: the committed state and the environment are those of the start.\<close>

definition uncommitted :: "'p work \<Rightarrow> 'p work \<Rightarrow> bool" where
  "uncommitted k k' \<longleftrightarrow> wk_committed k' = wk_committed k \<and> wk_env k' = wk_env k"

interpretation uncommitted: session_order uncommitted
  by unfold_locales (auto simp: uncommitted_def)

lemma uncommitted_in_db: "keeps uncommitted (in_db m)"
  by (simp add: keeps_def in_db_def uncommitted_def split: prod.split)

lemma commit_last: "raises P (andthen commit (ret x))"
  by (simp add: raises_def commit_def session_defs)

lemma uncommitted_request: "raises uncommitted (request_payment s m key provider)"
  unfolding request_payment_def Let_def translated_def
  by (intro uncommitted.raises_andthen uncommitted.raises_bind uncommitted.raises_option commit_last
      uncommitted.raises_keeps [OF uncommitted.keeps_raise] uncommitted.keeps_guardE uncommitted.keeps_catch uncommitted_in_db
      uncommitted.keeps_raise)

lemma restore_same [simp]: "restore_tables w w = w"
  by (simp add: restore_tables_def)

lemma serve_failed:
  fixes k :: "'p work"
  assumes "raises uncommitted (handler s c :: ('p, http_reply) job)" and "serve s c k = (Inl e, k')" and "wk_env k = (\<lambda>n w. w)"
  shows "\<exists>w. wk_committed k' = restore_tables (wk_committed k) w"
proof (cases "handler s c k")
  case (Pair r t)
  with assms(2) obtain e' where r: "r = Inl e'"
    by (cases r) (auto simp: serve_def get_session_def session_scope_def catch_def bind_def andthen_def ret_def rollback_def modify_def)
  with assms(1) Pair have u: "wk_committed t = wk_committed k" "wk_env t = wk_env k" by (auto simp: raises_def uncommitted_def)
  from assms(2) Pair r have "k' = snd (rollback t)"
    by (auto simp: serve_def get_session_def session_scope_def catch_def bind_def andthen_def raise_def rollback_def modify_def)
  with u assms(3) show ?thesis by (auto simp: rollback_def modify_def Let_def)
qed

lemma request_payment_success:
  assumes "request_payment s m key provider k = (Inr x, t)" and "wk_env k = (\<lambda>n w. w)"
  obtains a r w where "create_payment_intent (as_approver s) executor_capabilities m a key (requested_provider s provider) None (wk_db k)
      = (Inr r, w)" "x = (if pr_created r then 201 else 200, payment_out s (pr_intent r))"
    "wk_committed t = w" "wk_db t = w" "wk_env t = wk_env k"
proof -
  from assms(1) obtain found k1 where mission: "in_db (load_mission m) k = (Inr found, k1)"
    and rest: "bind (in_db (authorization_for_mission m)) (\<lambda>found. case found of
        None \<Rightarrow> raise (HTTPException 409 ''NO_AUTHORIZATION'')
      | Some authorization \<Rightarrow>
        bind (translated payment_refusal (in_db (create_payment_intent (as_approver s) executor_capabilities m
          (az_authorization_id authorization) key (requested_provider s provider) None))) (\<lambda>result.
        andthen commit (ret (if pr_created result then 201 else 200, payment_out s (pr_intent result))))) k1 = (Inr x, t)"
    by (auto simp: request_payment_def Let_def session_Inr_iffs translated_Inr_iff in_db_Inr_iff)
  from mission have k1: "k1 = k" by (auto simp: in_db_Inr_iff dest!: load_mission_state)
  obtain latest where l: "in_db (authorization_for_mission m) k = (Inr latest, k)"
    by (simp add: authorization_for_mission_def in_db_def gets_def)
  note paid = rest [unfolded k1 bind_run [where m = "in_db (authorization_for_mission m)", OF l]]
  then obtain au where "latest = Some au" by (cases latest) (auto simp: raise_def)
  with paid have "bind (translated payment_refusal (in_db (create_payment_intent (as_approver s) executor_capabilities m
          (az_authorization_id au) key (requested_provider s provider) None))) (\<lambda>result.
        andthen commit (ret (if pr_created result then 201 else 200, payment_out s (pr_intent result)))) k = (Inr x, t)"
    by simp
  then show thesis using assms(2)
    by (auto simp: session_Inr_iffs translated_Inr_iff in_db_Inr_iff commit_def Let_def intro: that)
qed

lemma established_tables:
  "payment_tables w' = payment_tables v' \<Longrightarrow> established p t w w' = established p t w v'"
  by (auto simp: established_def payment_tables_def find_authorization_def)

text \<open>
  C3. A payment request is all or nothing, and a success answer is durable: when a request that is
  alone on the database ends, either it was refused and the committed tables are exactly those
  before it, or it answers with the payment of its key and that payment is committed: with 201 a
  new one, whose authorization is consumed, whose instruction is in the outbox and whose mission
  is PAYMENT_PENDING in the same commit, with 200 the one that was there, with no payment table
  changed.
\<close>

theorem payment_request_is_all_or_nothing:
  assumes alone: "wk_env k = (\<lambda>n w. w)" "wk_db k = wk_committed k"
    and keyed: "keyed az_authorization_id (w_authorizations (wk_committed k))"
    and run: "serve s (RequestPayment m key provider) k = (res, k')"
  shows "(\<exists>e w. res = Inl e \<and> wk_committed k' = restore_tables (wk_committed k) w)
    \<or> (\<exists>r :: payment_intent_result. res = Inr (PaymentReply (if pr_created r then 201 else 200) (payment_out s (pr_intent r)))
        \<and> pi_idempotency_key (pr_intent r) = key
        \<and> (if pr_created r
           then \<exists>moment. pi_mission_id (pr_intent r) = m \<and> established (pr_intent r) moment (wk_committed k) (wk_committed k')
           else find_by_idempotency_key key (wk_committed k) = Some (pr_intent r)
             \<and> payment_tables (wk_committed k') = payment_tables (wk_committed k)))"
proof (cases res)
  case (Inl e)
  have "raises uncommitted (handler s (RequestPayment m key provider))"
    using uncommitted_request [of s m key provider]
    by (auto simp: raises_def answered_def bind_def ret_def split: prod.splits sum.splits)
  from serve_failed [OF this run [unfolded Inl] alone(1)] Inl show ?thesis by blast
next
  case (Inr reply)
  from run [unfolded Inr] obtain x t where x: "request_payment s m key provider k = (Inr x, t)" "reply = PaymentReply (fst x) (snd x)"
    and k': "k' = snd (rollback t)"
    by (auto simp: serve_def get_session_def session_scope_def catch_def answered_def session_Inr_iffs raise_def andthen_def bind_def
        ret_def rollback_def modify_def split: prod.splits sum.splits)
  from request_payment_success [OF x(1) alone(1)] obtain a r w where
    c: "create_payment_intent (as_approver s) executor_capabilities m a key (requested_provider s provider) None (wk_committed k)
      = (Inr r, w)" and out: "x = (if pr_created r then 201 else 200, payment_out s (pr_intent r))"
    and w: "wk_committed t = w" "wk_db t = w" "wk_env t = wk_env k" using alone(2) by metis
  from k' w alone(1) have kw: "wk_committed k' = w" by (simp add: rollback_def modify_def Let_def)
  from create_success [OF c keyed] obtain au txn fp where
    g: "Intents.granted r m key (requested_provider s provider) None au txn fp (wk_committed k) w" by metis
  have "res = Inr (PaymentReply (if pr_created r then 201 else 200) (payment_out s (pr_intent r)))"
    using Inr x(2) out by simp
  moreover have "pi_idempotency_key (pr_intent r) = key"
    using g by (auto simp: Intents.granted_def reused_def new_intent_row_def find_by_idempotency_key_def dest: find_row_SomeD)
  moreover have "if pr_created r
      then \<exists>moment. pi_mission_id (pr_intent r) = m \<and> established (pr_intent r) moment (wk_committed k) w
      else find_by_idempotency_key key (wk_committed k) = Some (pr_intent r) \<and> payment_tables w = payment_tables (wk_committed k)"
    using g by (auto simp: Intents.granted_def reused_def new_intent_row_def)
  ultimately show ?thesis unfolding kw by (intro disjI2 exI [of _ r] conjI)
qed

text \<open>A server on the payable world, with a clock that stands within the authorization's lifetime.\<close>

definition shop_world :: world where
  "shop_world = payable_world\<lparr>w_clock := (\<lambda>n. 62500000000000000)\<rparr>"

definition sample_settings :: "unit api_settings" where
  "sample_settings = \<lparr>as_app_env = ''development'', as_razorpay_key_id = '''', as_razorpay = Inl (ValueError ''unset''),
     as_outside = undefined, as_fake_int = (\<lambda>j. None), as_fake_secret = ''s'',
     as_orchestrator = \<lparr>os_authorization_ttl_seconds = 900, os_signing_key_id = ''demo''\<rparr>,
     as_approver = sample_approver, as_nulls_first = True\<rparr>"

definition shop :: "unit work" where
  "shop = \<lparr>wk_db = shop_world, wk_committed = shop_world, wk_provider = (), wk_calls = [], wk_env = (\<lambda>n w. w), wk_turn = 0\<rparr>"

lemma shop_simps [simp]:
  "wk_db shop = shop_world" "wk_committed shop = shop_world" "wk_calls shop = []" "wk_env shop = (\<lambda>n w. w)"
  "as_approver sample_settings = sample_approver"
  by (simp_all add: shop_def sample_settings_def)

lemma shop_sound: "sound sample_approver shop_world"
  using payable_world_ok(1) [of sample_approver] payable_world_ok(2-7)
  by (simp add: sound_def shop_world_def authorizations_ok_def intents_keyed_def keyed_def paid_for_def ledger_ok_def
      list_events_def) (simp add: payable_world_def auth_world_def sample_world_def empty_world_def intact_def)

definition shop_steps :: "system_step list" where
  "shop_steps = [Request (RequestPayment 1 ''k'' (Some ''fake'')), WorkerTurn (Turn None ''a'' None DEFAULT_LEASE),
     Request (GetPayment 1), WorkerTurn (Dies None ''b'' None DEFAULT_LEASE)]"

theorem system_stays_sound_witness:
  "\<exists>res k'. run_system sample_settings sample_provider (\<lambda>e. ''error'') shop_steps shop = (res, k')
    \<and> sound sample_approver (wk_committed k') \<and> sound sample_approver (wk_db k')"
proof -
  obtain res k' where run: "run_system sample_settings sample_provider (\<lambda>e. ''error'') shop_steps shop = (res, k')"
    by fastforce
  have "env_keeps (keeps_sound (as_approver sample_settings)) shop" by (simp add: env_keeps_def keeps_sound_def)
  from system_stays_sound [OF this _ _ run] run show ?thesis by (simp add: shop_sound)
qed

theorem requests_never_reach_the_provider_witness:
  "\<exists>res k'. run_system sample_settings sample_provider (\<lambda>e. ''error'') shop_steps shop = (res, k')
    \<and> creates_for ''k'' (wk_calls k') \<le> 1"
proof -
  obtain res k' where run: "run_system sample_settings sample_provider (\<lambda>e. ''error'') shop_steps shop = (res, k')"
    by fastforce
  have "env_keeps intents_kept shop" by (simp add: env_keeps_def intents_kept_frame)
  moreover have "\<not> pv_create_retries_are_idempotent sample_provider" by (simp add: sample_provider_def)
  moreover have "intents_keyed (wk_committed shop)" using shop_sound by (simp add: sound_def)
  ultimately show ?thesis using requests_never_reach_the_provider [OF _ _ _ _ _ run] run by auto
qed

text \<open>The request succeeds there.\<close>

lemma create_now:
  assumes "enforce_registered caps C_PAYMENT_EXECUTE = Inr ()"
  shows "create_payment_intent cfg caps m a key provider None w
    = create_payment_intent cfg caps m a key provider (Some (w_clock w (w_clock_idx w))) (w\<lparr>w_clock_idx := Suc (w_clock_idx w)\<rparr>)"
  using assms by (simp add: create_payment_intent_def andthen_def lift_def bind_def moment_of_def utcnow_def ret_def)

lemma shop_creates:
  "\<exists>r w'. create_payment_intent sample_approver executor_capabilities 1 5 ''k'' ''fake'' None shop_world = (Inr r, w')"
proof -
  let ?w = "shop_world\<lparr>w_clock_idx := 1\<rparr>"
  have caps: "enforce_registered executor_capabilities C_PAYMENT_EXECUTE = Inr ()"
    using executor_may_pay by (simp add: executor_capabilities_def EXECUTOR_PRINCIPAL_def)
  have "w_clock_idx shop_world = 0" "w_clock shop_world 0 = 62500000000000000"
    by (simp_all add: shop_world_def payable_world_def auth_world_def sample_world_def empty_world_def)
  with create_now [OF caps, of sample_approver 1 5 "''k''" "''fake''" shop_world]
  have tick: "create_payment_intent sample_approver executor_capabilities 1 5 ''k'' ''fake'' None shop_world
    = create_payment_intent sample_approver executor_capabilities 1 5 ''k'' ''fake'' (Some 62500000000000000) ?w" by simp
  have "verify_authorization_for_payment sample_approver sample_active A_ACTIVE 62500000000000000 ?w = (Inr (sample_transaction 0), ?w)"
    using payable_verifies [of sample_approver]
    by (auto simp: verify_authorization_for_payment_def rebuild_sample require_policy_scheme_def session_defs Let_def
        latest_decision_def shop_world_def split: if_splits option.splits sum.splits)
  note v = this
  have ok: "authorizations_ok sample_approver ?w" "fresh_ids 5 ?w" "find_authorization 5 ?w = Some sample_active"
    "find_mission 1 ?w = Some (sample_mission M_AUTHORIZED)" "w_payment_intents shop_world = []"
    using payable_world_ok(1) [of sample_approver] payable_world_ok(2-7)
    by (simp_all add: shop_world_def authorizations_ok_def fresh_ids_def used_ids_def find_authorization_def find_mission_def)
  show ?thesis unfolding tick
    by (rule create_run [OF ok(1,2) caps ok(3) sample_active_fields(2) v ok(4)])
      (simp_all add: ok(5) sample_mission_def find_by_idempotency_key_def find_row_def payment_intents_unique_def keyed_def somes_def)
qed

theorem payment_request_is_all_or_nothing_witness:
  "\<exists>out k' (r :: payment_intent_result) moment.
    serve sample_settings (RequestPayment 1 ''k'' (Some ''fake'')) shop = (Inr (PaymentReply 201 out), k')
    \<and> established (pr_intent r) moment shop_world (wk_committed k')"
proof -
  obtain res k' where run: "serve sample_settings (RequestPayment 1 ''k'' (Some ''fake'')) shop = (res, k')" by fastforce
  have keyed: "keyed az_authorization_id (w_authorizations (wk_committed shop))"
    using shop_sound by (simp add: sound_def authorizations_ok_def)
  from shop_creates obtain r0 w0 where
    c: "create_payment_intent sample_approver executor_capabilities 1 5 ''k'' ''fake'' None shop_world = (Inr r0, w0)" by blast
  have world: "find_mission 1 shop_world = Some (sample_mission M_AUTHORIZED)" "w_authorizations shop_world = [sample_active]"
    "w_payment_intents shop_world = []"
    using payable_world_ok(5-7) by (simp_all add: shop_world_def find_mission_def)
  have auth: "authorization_for_mission 1 shop_world = (Inr (Some sample_active), shop_world)" "az_authorization_id sample_active = 5"
    by (simp_all add: authorization_for_mission_def gets_def world latest_by_def sample_active_fields)
  have ok: "res \<noteq> Inl e" for e
    using run c auth world(1)
    by (auto simp: serve_def get_session_def session_scope_def answered_def request_payment_def requested_provider_def
        provider_for_def registered_provider_names_def FAKE_NAME_def sample_settings_def load_mission_def in_db_def
        translated_def session_defs commit_def rollback_def Let_def MAX_IDEMPOTENCY_KEY_LENGTH_def)
  note outcome = payment_request_is_all_or_nothing [OF shop_simps(4) _ keyed run, unfolded shop_simps, OF refl]
  from outcome show ?thesis
  proof (elim disjE exE conjE)
    fix r :: payment_intent_result
    assume r: "res = Inr (PaymentReply (if pr_created r then 201 else 200) (payment_out sample_settings (pr_intent r)))"
      and eff: "if pr_created r then \<exists>moment. pi_mission_id (pr_intent r) = 1
        \<and> established (pr_intent r) moment shop_world (wk_committed k')
      else find_by_idempotency_key ''k'' shop_world = Some (pr_intent r)
        \<and> payment_tables (wk_committed k') = payment_tables shop_world"
    from eff have "pr_created r" by (auto simp: find_by_idempotency_key_def find_row_def world split: if_splits)
    with r eff run show ?thesis by auto
  qed (simp add: ok)
qed

section \<open>The worker process\<close>

text \<open>
  \<^verbatim>\<open>services/payment_executor/run_worker.py\<close>: the loop polls until it is told to stop, which a
  deployment does after some number of polls; a handler that raised is logged and the loop goes on. The
  adapter's calls are those of the provider \<open>prov_of\<close> gives for it.
\<close>

primrec poll :: "nat \<Rightarrow> dialect \<Rightarrow> approver \<Rightarrow> 'p payment_provider \<Rightarrow> (exn \<Rightarrow> string) \<Rightarrow> string \<Rightarrow> int \<Rightarrow> ('p, int) job" where
  "poll 0 dialect cfg prov exc_text worker_id processed = ret processed"
| "poll (Suc n) dialect cfg prov exc_text worker_id processed =
     bind (catch (bind (run_once dialect cfg prov exc_text worker_id None DEFAULT_LEASE)
         (\<lambda>outcome. ret (if wr_event_id outcome = None then processed else processed + 1)))
       (\<lambda>e. ret processed)) (poll n dialect cfg prov exc_text worker_id)"

definition run_forever :: "nat \<Rightarrow> 'h api_settings \<Rightarrow> (adapter \<Rightarrow> 'p payment_provider) \<Rightarrow> dialect \<Rightarrow> (exn \<Rightarrow> string)
    \<Rightarrow> string \<Rightarrow> string \<Rightarrow> ('p, int) job" where
  "run_forever polls s prov_of dialect exc_text provider_name worker_id =
     bind (lift (provider_for (as_razorpay s) provider_name (as_app_env s))) (\<lambda>provider.
     poll polls dialect (as_approver s) (prov_of provider) exc_text worker_id 0)"

text \<open>The exit code of the process.\<close>

definition worker_main :: "nat \<Rightarrow> 'h api_settings \<Rightarrow> (adapter \<Rightarrow> 'p payment_provider) \<Rightarrow> dialect \<Rightarrow> (exn \<Rightarrow> string)
    \<Rightarrow> string \<Rightarrow> string \<Rightarrow> ('p, int) job" where
  "worker_main polls s prov_of dialect exc_text provider_name worker_id =
     catch (bind (run_forever polls s prov_of dialect exc_text provider_name worker_id) (\<lambda>processed. ret 0))
       (\<lambda>e. case e of UnknownProvider _ \<Rightarrow> ret 2 | ProviderUnavailable _ \<Rightarrow> ret 2 | _ \<Rightarrow> raise e)"

lemma poll_step:
  assumes "run_once dialect cfg prov exc_text worker None DEFAULT_LEASE k = (r, t)"
  shows "poll (Suc n) dialect cfg prov exc_text worker c k = poll n dialect cfg prov exc_text worker
      (case r of Inl e \<Rightarrow> c | Inr outcome \<Rightarrow> if wr_event_id outcome = None then c else c + 1) t"
    and "run_turns cfg prov exc_text (Turn dialect worker None DEFAULT_LEASE # ts) k = run_turns cfg prov exc_text ts t"
  using assms by (auto simp: run_turns_def session_defs split: sum.split)

lemma poll_turns:
  "\<exists>c'. poll n dialect cfg prov exc_text worker c k = (Inr c', snd (run_turns cfg prov exc_text
      (replicate n (Turn dialect worker None DEFAULT_LEASE)) k)) \<and> c \<le> c' \<and> c' \<le> c + int n"
proof (induction n arbitrary: c k)
  case 0
  then show ?case by (simp add: run_turns_def session_defs)
next
  case (Suc n)
  obtain r t where r: "run_once dialect cfg prov exc_text worker None DEFAULT_LEASE k = (r, t)" by fastforce
  let ?c = "case r of Inl e \<Rightarrow> c | Inr outcome \<Rightarrow> if wr_event_id outcome = None then c else c + 1"
  have "c \<le> ?c \<and> ?c \<le> c + 1" by (simp split: sum.split)
  with Suc [of ?c t] poll_step [OF r] show ?case by fastforce
qed


end
