(* ===== verification/PyText.thy ===== *)
theory PyText
  imports ProviderWire
begin

text \<open>
  Texts that the Python standard library reads for the protocol adapters: \<open>datetime.fromisoformat\<close>
  (calendar dates and week dates, basic and extended, any separator, fractions cut to
  microseconds, offsets below a day) and the constructor of \<open>uuid.UUID\<close> from a string. Both are
  \<open>None\<close> where the library raises \<open>ValueError\<close>.
\<close>

section \<open>Digits\<close>

definition read_digits :: "nat \<Rightarrow> string \<Rightarrow> (int \<times> string) option" where
  "read_digits n s = (if n \<le> length s \<and> list_all is_digit (take n s)
     then Some (digits_value 0 (take n s), drop n s) else None)"

definition char_at :: "nat \<Rightarrow> string \<Rightarrow> char option" where
  "char_at i s = (if i < length s then Some (s ! i) else None)"

definition digit_at :: "nat \<Rightarrow> string \<Rightarrow> bool" where
  "digit_at i s \<longleftrightarrow> (case char_at i s of Some c \<Rightarrow> is_digit c | None \<Rightarrow> False)"

section \<open>Dates\<close>

text \<open>Where the date ends, from the characters at positions 4, 5, 8 and 10.\<close>

definition separator_location :: "string \<Rightarrow> nat option" where
  "separator_location s = (let n = length s in
     if n = 7 then Some 7
     else if char_at 4 s = Some (CHR ''-'') then
       if char_at 5 s = Some (CHR ''W'') then
         if char_at 8 s = Some (CHR ''-'') then
           if n = 9 then None else if digit_at 10 s then Some 8 else Some 10
         else Some 8
       else Some 10
     else if char_at 4 s = Some (CHR ''W'') then
       let pos = 7 + length (takeWhile is_digit (drop 7 s)) in
       if pos < 9 then Some pos else if even pos then Some 7 else Some 8
     else Some 8)"

text \<open>The zero-based day of a date of the ISO week calendar.\<close>

definition isoweek_to_ord :: "int \<Rightarrow> int \<Rightarrow> int \<Rightarrow> int option" where
  "isoweek_to_ord year week day =
     (let first = days_before_year year + 1; weekday = (first + 6) mod 7;
          monday = first - weekday + (if 3 < weekday then 7 else 0) in
      if \<not> (1 \<le> year \<and> year \<le> 9999) then None
      else if \<not> (0 < week \<and> week < 53)
          \<and> \<not> (week = 53 \<and> (first mod 7 = 4 \<or> first mod 7 = 3 \<and> is_leap year)) then None
      else if \<not> (0 < day \<and> day < 8) then None
      else let n = monday + (week - 1) * 7 + day - 2 in
        if 0 \<le> n \<and> n < 3652059 then Some n else None)"

definition ymd_to_ord :: "int \<Rightarrow> int \<Rightarrow> int \<Rightarrow> int option" where
  "ymd_to_ord year month day =
     (if 1 \<le> year \<and> year \<le> 9999 \<and> 1 \<le> month \<and> month \<le> 12 \<and> 1 \<le> day \<and> day \<le> days_in_month (is_leap year) month
      then Some (ymd2ord year month day) else None)"

definition parse_isoformat_date :: "string \<Rightarrow> int option" where
  "parse_isoformat_date s =
     Option.bind (read_digits 4 s) (\<lambda>(year, p).
     let dash = starts ''-'' p; p = (if dash then tl p else p) in
     if starts ''W'' p then
       Option.bind (read_digits 2 (tl p)) (\<lambda>(week, p).
       if p = [] then isoweek_to_ord year week 1
       else if dash \<and> \<not> starts ''-'' p then None
       else Option.bind (read_digits 1 (if dash then tl p else p)) (\<lambda>(day, p).
         if p = [] then isoweek_to_ord year week day else None))
     else
       Option.bind (read_digits 2 p) (\<lambda>(month, p).
       if dash \<and> \<not> starts ''-'' p then None
       else Option.bind (read_digits 2 (if dash then tl p else p)) (\<lambda>(day, p).
         if p = [] then ymd_to_ord year month day else None)))"

section \<open>Times\<close>

text \<open>
  \<open>HH[:?MM[:?SS[{.,}f+]]]\<close>: the components read so far, then the fraction. The result is the time
  of day in microseconds, the hours, minutes and seconds, and whether text is left over.
\<close>

record clock_reading =
  ck_hour :: int
  ck_minute :: int
  ck_second :: int
  ck_microsecond :: int
  ck_rest :: bool

definition parse_fraction :: "int \<Rightarrow> int \<Rightarrow> int \<Rightarrow> string \<Rightarrow> clock_reading option" where
  "parse_fraction h m s p = (let n = min 6 (length p) in
     Option.bind (read_digits n p) (\<lambda>(us, p).
     Some \<lparr>ck_hour = h, ck_minute = m, ck_second = s, ck_microsecond = us * 10 ^ (6 - n),
       ck_rest = (dropWhile is_digit p \<noteq> [])\<rparr>))"

text \<open>What follows a component: the end, a fraction, or the text of the next component.\<close>

datatype following = AtEnd | Dangling | Fraction string | Component string | Malformed

definition after_component :: "bool \<Rightarrow> string \<Rightarrow> following" where
  "after_component colon p = (case p of
     [] \<Rightarrow> AtEnd
   | c # q \<Rightarrow>
     if q = [] then Dangling
     else if colon \<and> c = CHR '':'' then Component q
     else if c = CHR ''.'' \<or> c = CHR '','' then Fraction q
     else if \<not> colon then Component p
     else Malformed)"

definition whole :: "int \<Rightarrow> int \<Rightarrow> int \<Rightarrow> bool \<Rightarrow> clock_reading option" where
  "whole h m s rest = Some \<lparr>ck_hour = h, ck_minute = m, ck_second = s, ck_microsecond = 0, ck_rest = rest\<rparr>"

definition parse_hh_mm_ss_ff :: "string \<Rightarrow> clock_reading option" where
  "parse_hh_mm_ss_ff p =
     Option.bind (read_digits 2 p) (\<lambda>(h, p).
     let colon = starts '':'' p in
     case after_component colon p of
       AtEnd \<Rightarrow> whole h 0 0 False
     | Dangling \<Rightarrow> whole h 0 0 True
     | Malformed \<Rightarrow> None
     | Fraction q \<Rightarrow> parse_fraction h 0 0 q
     | Component q \<Rightarrow>
       Option.bind (read_digits 2 q) (\<lambda>(m, p). case after_component colon p of
         AtEnd \<Rightarrow> whole h m 0 False
       | Dangling \<Rightarrow> whole h m 0 True
       | Malformed \<Rightarrow> None
       | Fraction q \<Rightarrow> parse_fraction h m 0 q
       | Component q \<Rightarrow>
         Option.bind (read_digits 2 q) (\<lambda>(s, p). case after_component colon p of
           AtEnd \<Rightarrow> whole h m s False
         | Dangling \<Rightarrow> whole h m s True
         | Malformed \<Rightarrow> None
         | Fraction q \<Rightarrow> parse_fraction h m s q
         | Component q \<Rightarrow> parse_fraction h m s q)))"

text \<open>The microseconds of a reading; \<open>datetime\<close> and \<open>timezone\<close> refuse what is out of range.\<close>

definition reading_usec :: "clock_reading \<Rightarrow> int" where
  "reading_usec r = (ck_hour r * 3600 + ck_minute r * 60 + ck_second r) * 1000000 + ck_microsecond r"

definition time_of_day :: "clock_reading \<Rightarrow> int option" where
  "time_of_day r = (if ck_hour r \<le> 23 \<and> ck_minute r \<le> 59 \<and> ck_second r \<le> 59 then Some (reading_usec r) else None)"

text \<open>An offset of no whole second is UTC, whatever its fraction.\<close>

definition offset_of :: "bool \<Rightarrow> clock_reading \<Rightarrow> int option" where
  "offset_of negative r = (let off = reading_usec r in
     if off < 1000000 then Some 0
     else if off < usec_per_day then Some (if negative then - off else off) else None)"

definition is_zone_sign :: "char \<Rightarrow> bool" where
  "is_zone_sign c \<longleftrightarrow> c = CHR ''+'' \<or> c = CHR ''-'' \<or> c = CHR ''Z''"

text \<open>The time of day and the offset, if there is one.\<close>

definition parse_isoformat_time :: "string \<Rightarrow> (int \<times> int option) option" where
  "parse_isoformat_time s =
     (let clock = takeWhile (\<lambda>c. \<not> is_zone_sign c) s; zone = dropWhile (\<lambda>c. \<not> is_zone_sign c) s in
      Option.bind (parse_hh_mm_ss_ff clock) (\<lambda>r. case zone of
        [] \<Rightarrow> if ck_rest r then None else map_option (\<lambda>t. (t, None)) (time_of_day r)
      | c # z \<Rightarrow>
        if c = CHR ''Z'' then if z \<noteq> [] then None else map_option (\<lambda>t. (t, Some 0)) (time_of_day r)
        else Option.bind (parse_hh_mm_ss_ff z) (\<lambda>o'.
          if ck_rest o' then None
          else Option.bind (offset_of (c = CHR ''-'') o') (\<lambda>off. map_option (\<lambda>t. (t, Some off)) (time_of_day r)))))"

definition fromisoformat :: "string \<Rightarrow> datetime option" where
  "fromisoformat s =
     (if length s < 7 then None
      else Option.bind (separator_location s) (\<lambda>k.
        Option.bind (parse_isoformat_date (take k s)) (\<lambda>day.
        if drop k s = [] then Some (Naive (day * usec_per_day))
        else Option.bind (parse_isoformat_time (drop (Suc k) s)) (\<lambda>(t, offset).
          Some (case offset of None \<Rightarrow> Naive (day * usec_per_day + t)
            | Some off \<Rightarrow> Aware (day * usec_per_day + t - off) off)))))"

section \<open>UUIDs\<close>

function replace_all :: "string \<Rightarrow> string \<Rightarrow> string" where
  "replace_all p s = (case s of
     [] \<Rightarrow> []
   | c # cs \<Rightarrow> if p \<noteq> [] \<and> starts p s then replace_all p (drop (length p) s) else c # replace_all p cs)"
  by pat_completeness auto
termination by (relation "measure (\<lambda>(p, s). length s)") auto

declare replace_all.simps [simp del]

definition strip_chars :: "(char \<Rightarrow> bool) \<Rightarrow> string \<Rightarrow> string" where
  "strip_chars p s = rev (dropWhile p (rev (dropWhile p s)))"

definition int_space :: "char \<Rightarrow> bool" where
  "int_space c \<longleftrightarrow> (let n = of_char c :: int in n = 32 \<or> 9 \<le> n \<and> n \<le> 13 \<or> n = 133 \<or> n = 160)"

text \<open>Hexadecimal digits with single underscores between them; the flag says an underscore was just read.\<close>

fun hex_run :: "int \<Rightarrow> bool \<Rightarrow> string \<Rightarrow> int option" where
  "hex_run acc u [] = (if u then None else Some acc)"
| "hex_run acc u (c # cs) =
     (if c = CHR ''_'' then if u then None else hex_run acc True cs
      else case hex_digit_value c of None \<Rightarrow> None | Some v \<Rightarrow> hex_run (16 * acc + v) False cs)"

text \<open>\<open>int(text, 16)\<close>: spaces around, a sign, the prefix \<open>0x\<close>.\<close>

definition int_base16 :: "string \<Rightarrow> int option" where
  "int_base16 text =
     (let s = strip_chars int_space text;
          negative = starts ''-'' s;
          s = (if negative \<or> starts ''+'' s then tl s else s);
          prefixed = (starts ''0x'' s \<or> starts ''0X'' s);
          s = (if prefixed then drop 2 s else s);
          s = (if prefixed \<and> starts ''_'' s then tl s else s) in
      if s = [] \<or> starts ''_'' s then None
      else map_option (\<lambda>v. if negative then - v else v) (hex_run 0 False s))"

definition UUID :: "string \<Rightarrow> uuid option" where
  "UUID text =
     (let s = replace_all ''uuid:'' (replace_all ''urn:'' text);
          s = replace_all ''-'' (strip_chars (\<lambda>c. c = CHR 0x7B \<or> c = CHR 0x7D) s) in
      if length s \<noteq> 32 then None
      else Option.bind (int_base16 s) (\<lambda>v. if 0 \<le> v \<and> v < 2 ^ 128 then Some (of_int v) else None))"

end
