(* ===== verification/Adapters.thy ===== *)
theory Adapters
  imports PyText Rail
begin

text \<open>
  The protocol adapters (\<^verbatim>\<open>services/adapters/\<close>: \<^verbatim>\<open>errors.py\<close>, \<^verbatim>\<open>fields.py\<close>, \<^verbatim>\<open>models.py\<close>, \<^verbatim>\<open>translation.py\<close>,
  \<^verbatim>\<open>registry.py\<close>, \<^verbatim>\<open>translate.py\<close>, \<^verbatim>\<open>support.py\<close>, \<^verbatim>\<open>commerce/pactra_commerce.py\<close>,
  \<^verbatim>\<open>authorization/pactra_intent.py\<close>, \<^verbatim>\<open>tools/mcp.py\<close>, \<^verbatim>\<open>tools/base.py\<close>, \<^verbatim>\<open>payment_rails/base.py\<close>): a payload
  off a wire becomes a canonical, still untrusted candidate, or is refused. A refusal carries what
  its message names instead of the message; an exception that is no refusal of an adapter is
  \<open>Raised\<close>. A dictionary is the list of its entries. A registered implementation is a record: the
  base class it derives from, the family it reports, and its translation, which may be any function.
  The prose of the support matrix and the envelope's diagnostic fingerprint are not modelled, and a
  float that is not a number, which the offer of the model cannot hold, is marked as outside it.
\<close>

section \<open>Refusals\<close>

datatype adapter_exn =
    AdapterError string
  | UnknownAdapter string
  | DuplicateAdapter string
  | AdapterFamilyMismatch string string string
  | AdapterRegistrationRefused string
  | UnsupportedProtocolVersion string string "string list"
  | ProtocolMismatch string
  | MalformedProtocolPayload string
  | AmbiguousProtocolField string string
  | ReservedFieldRejected "string list"
  | UnsupportedOperation string string
  | AuthorityCeilingViolation string string
  | ProvenanceIncomplete string "string list"
  | TaintStrippedViolation string string
  | Raised exn

fun adapter_reason_code :: "adapter_exn \<Rightarrow> string option" where
  "adapter_reason_code (AdapterError _) = Some ''ADAPTER_ERROR''"
| "adapter_reason_code (UnknownAdapter _) = Some ''ADAPTER_NOT_REGISTERED''"
| "adapter_reason_code (DuplicateAdapter _) = Some ''ADAPTER_ID_CONFLICT''"
| "adapter_reason_code (AdapterFamilyMismatch _ _ _) = Some ''ADAPTER_FAMILY_MISMATCH''"
| "adapter_reason_code (AdapterRegistrationRefused _) = Some ''ADAPTER_REGISTRATION_REFUSED''"
| "adapter_reason_code (UnsupportedProtocolVersion _ _ _) = Some ''ADAPTER_PROTOCOL_VERSION_UNSUPPORTED''"
| "adapter_reason_code (ProtocolMismatch _) = Some ''ADAPTER_PROTOCOL_MISMATCH''"
| "adapter_reason_code (MalformedProtocolPayload _) = Some ''ADAPTER_PAYLOAD_MALFORMED''"
| "adapter_reason_code (AmbiguousProtocolField _ _) = Some ''ADAPTER_AMBIGUOUS_FIELD''"
| "adapter_reason_code (ReservedFieldRejected _) = Some ''ADAPTER_RESERVED_FIELD_REJECTED''"
| "adapter_reason_code (UnsupportedOperation _ _) = Some ''ADAPTER_OPERATION_UNSUPPORTED''"
| "adapter_reason_code (AuthorityCeilingViolation _ _) = Some ''ADAPTER_AUTHORITY_CEILING''"
| "adapter_reason_code (ProvenanceIncomplete _ _) = Some ''ADAPTER_PROVENANCE_INCOMPLETE''"
| "adapter_reason_code (TaintStrippedViolation _ _) = Some ''ADAPTER_TAINT_STRIPPED''"
| "adapter_reason_code (Raised _) = None"

section \<open>Keys\<close>

type_synonym document = "(string \<times> json) list"

definition RESERVED_SECURITY_FIELDS :: "string set" where
  "RESERVED_SECURITY_FIELDS =
     {''authority'', ''authoritylevel'', ''capability'', ''capabilities'', ''capabilityset'', ''paymentexecute'',
      ''refundexecute'', ''policymodify'', ''authorizationissue'', ''merchantmodify'', ''trust'', ''trusted'',
      ''trustlevel'', ''tainted'', ''taint'', ''principal'', ''system'', ''systempolicy'', ''provenance'',
      ''authorization'', ''authorizationid'', ''authorizationvalid'', ''authorizationstatus'', ''nonce'',
      ''transactiondigest'', ''digest'', ''signature'', ''signed'', ''verified'', ''consumedat'', ''bindingversion'',
      ''policyoverride'', ''policyversion'', ''softbudgetinr'', ''hardlimitinr'', ''minrating'', ''allowedmerchants'',
      ''blockedmerchants'', ''minmerchanttrust'',
      ''merchanttrust'', ''merchanttrustscore'', ''trustscore'', ''merchantname'', ''adapterid'', ''adapterfamily'',
      ''adapterversion'',
      ''riskscore'', ''riskband'', ''riskrecommendation''}"

text \<open>\<open>str.isalnum\<close> of a character below U+0100.\<close>

definition is_alnum :: "char \<Rightarrow> bool" where
  "is_alnum c \<longleftrightarrow> (let n = of_char c :: int in
     48 \<le> n \<and> n \<le> 57 \<or> 65 \<le> n \<and> n \<le> 90 \<or> 97 \<le> n \<and> n \<le> 122 \<or> n \<in> {170, 178, 179, 181, 185, 186, 188, 189, 190}
     \<or> 192 \<le> n \<and> n \<noteq> 215 \<and> n \<noteq> 247)"

definition normalize_key :: "string \<Rightarrow> string" where
  "normalize_key key = filter is_alnum (map lower_char key)"

definition reserved_fields_in :: "document \<Rightarrow> string list" where
  "reserved_fields_in mapping = sort (filter (\<lambda>key. normalize_key key \<in> RESERVED_SECURITY_FIELDS) (map fst mapping))"

definition reject_reserved_fields :: "document \<Rightarrow> adapter_exn + unit" where
  "reject_reserved_fields mapping = (let found = reserved_fields_in mapping in
     if found \<noteq> [] then Inl (ReservedFieldRejected found) else Inr ())"

text \<open>The loop over the keys, with the first key of every canonical name seen so far.\<close>

fun reject_aliases :: "(string \<times> string) list \<Rightarrow> string list \<Rightarrow> adapter_exn + unit" where
  "reject_aliases seen [] = Inr ()"
| "reject_aliases seen (key # keys) = (case map_of seen (normalize_key key) of
     Some earlier \<Rightarrow> Inl (AmbiguousProtocolField earlier key)
   | None \<Rightarrow> reject_aliases ((normalize_key key, key) # seen) keys)"

definition reject_aliased_keys :: "document \<Rightarrow> adapter_exn + unit" where
  "reject_aliased_keys mapping = reject_aliases [] (map fst mapping)"

definition guard_payload_keys :: "document \<Rightarrow> adapter_exn + unit" where
  "guard_payload_keys mapping = bindE (reject_aliased_keys mapping) (\<lambda>_. reject_reserved_fields mapping)"

section \<open>Families, descriptors and candidates\<close>

datatype adapter_family = COMMERCE | PAYMENT_AUTHORIZATION | TOOL | AGENT_COMMUNICATION | PAYMENT_RAIL

fun family_display_name :: "adapter_family \<Rightarrow> string" where
  "family_display_name COMMERCE = ''CommerceAdapter''"
| "family_display_name PAYMENT_AUTHORIZATION = ''PaymentAuthorizationAdapter''"
| "family_display_name TOOL = ''ToolAdapter''"
| "family_display_name AGENT_COMMUNICATION = ''AgentCommunicationAdapter''"
| "family_display_name PAYMENT_RAIL = ''PaymentRailAdapter''"

definition TRANSLATING_FAMILIES :: "adapter_family set" where
  "TRANSLATING_FAMILIES = {COMMERCE, PAYMENT_AUTHORIZATION, TOOL}"

definition MAX_ADAPTER_AUTHORITY :: authority_level where
  "MAX_ADAPTER_AUTHORITY = AGENT_PROPOSAL"

datatype support_status = IMPLEMENTED | PARTIAL | PLANNED | NOT_APPLICABLE

record source_identity =
  si_claimed_id :: string
  si_channel :: string

definition SourceIdentity :: "source_identity \<Rightarrow> exn + source_identity" where
  "SourceIdentity s = (if sized 1 200 (si_claimed_id s) \<and> sized 1 120 (si_channel s) then Inr s
     else Inl (ValidationError ''SourceIdentity''))"

definition source_trust :: "source_identity \<Rightarrow> trust_level" where
  "source_trust s = T_UNTRUSTED"

definition source_authority :: "source_identity \<Rightarrow> authority_level" where
  "source_authority s = AGENT_PROPOSAL"

record adapter_descriptor =
  ad_adapter_id :: string
  ad_family :: adapter_family
  ad_protocol_name :: string
  ad_protocol_version :: string
  ad_supported_protocol_versions :: "string list"
  ad_adapter_version :: string
  ad_status :: support_status
  ad_emits_authority :: authority_level
  ad_emits_trust :: trust_level
  ad_summary :: string

text \<open>The pattern \<open>[a-z0-9._-]+\<close>.\<close>

definition id_char :: "char \<Rightarrow> bool" where
  "id_char c \<longleftrightarrow> (let n = of_char c :: int in 97 \<le> n \<and> n \<le> 122 \<or> 48 \<le> n \<and> n \<le> 57) \<or> c \<in> set ''._-''"

definition AdapterDescriptor :: "adapter_descriptor \<Rightarrow> exn + adapter_descriptor" where
  "AdapterDescriptor d =
     (if sized 1 80 (ad_adapter_id d) \<and> list_all id_char (ad_adapter_id d) \<and> sized 1 80 (ad_protocol_name d)
         \<and> sized 1 40 (ad_protocol_version d) \<and> ad_supported_protocol_versions d \<noteq> [] \<and> sized 1 40 (ad_adapter_version d)
         \<and> sized 10 400 (ad_summary d)
         \<and> ad_emits_authority d \<le> MAX_ADAPTER_AUTHORITY \<and> ad_emits_trust d = T_UNTRUSTED
         \<and> ad_protocol_version d \<in> set (ad_supported_protocol_versions d)
      then Inr d else Inl (ValidationError ''AdapterDescriptor''))"

definition supports :: "adapter_descriptor \<Rightarrow> string \<Rightarrow> bool" where
  "supports d protocol_version \<longleftrightarrow> protocol_version \<in> set (ad_supported_protocol_versions d)"

record candidate_offer =
  cf_claimed_merchant_id :: string
  cf_offer :: raw_offer
  cf_untrusted_metadata :: document

record candidate_catalog =
  cc_claimed_merchant_id :: string
  cc_offers :: "candidate_offer list"
  cc_untrusted_metadata :: document

datatype operation_type = CATALOG_SEARCH | MERCHANT_DISCOVER | OFFER_REQUEST | OFFER_RANK | PURCHASE_PROPOSE

fun OPERATION_CAPABILITY :: "operation_type \<Rightarrow> capability" where
  "OPERATION_CAPABILITY CATALOG_SEARCH = C_CATALOG_READ"
| "OPERATION_CAPABILITY MERCHANT_DISCOVER = C_MERCHANT_DISCOVER"
| "OPERATION_CAPABILITY OFFER_REQUEST = C_OFFER_REQUEST"
| "OPERATION_CAPABILITY OFFER_RANK = C_OFFER_RANK"
| "OPERATION_CAPABILITY PURCHASE_PROPOSE = C_PAYMENT_PROPOSE"

definition PRIVILEGED_CAPABILITIES :: "capability set" where
  "PRIVILEGED_CAPABILITIES = {C_PAYMENT_EXECUTE, C_REFUND_EXECUTE, C_POLICY_MODIFY, C_AUTHORIZATION_ISSUE, C_MERCHANT_MODIFY}"

record candidate_operation =
  cop_operation :: operation_type
  cop_claimed_tool_name :: string
  cop_arguments :: document

definition required_capability :: "candidate_operation \<Rightarrow> capability" where
  "required_capability operation = OPERATION_CAPABILITY (cop_operation operation)"

record candidate_request =
  cq_mission :: "uuid option"
  cq_claimed_merchant_id :: string
  cq_claimed_product_id :: string
  cq_claimed_quantity :: int
  cq_claimed_amount_inr :: int
  cq_claimed_currency :: string
  cq_claimed_expires_at :: "datetime option"
  cq_external_authorization_reference :: "string option"
  cq_untrusted_metadata :: document

definition CandidateAuthorizationRequest :: "candidate_request \<Rightarrow> exn + candidate_request" where
  "CandidateAuthorizationRequest c =
     (if sized 1 120 (cq_claimed_merchant_id c) \<and> sized 1 120 (cq_claimed_product_id c)
         \<and> 1 \<le> cq_claimed_quantity c \<and> cq_claimed_quantity c \<le> 100 \<and> 1 \<le> cq_claimed_amount_inr c
         \<and> sized 3 3 (cq_claimed_currency c)
         \<and> (case cq_claimed_expires_at c of Some (Naive _) \<Rightarrow> False | _ \<Rightarrow> True)
         \<and> (case cq_external_authorization_reference c of Some text \<Rightarrow> length text \<le> 400 | None \<Rightarrow> True)
      then Inr (c\<lparr>cq_claimed_currency := py_upper (cq_claimed_currency c)\<rparr>)
      else Inl (ValidationError ''CandidateAuthorizationRequest''))"

datatype canonical_payload =
    Catalog candidate_catalog
  | Offer candidate_offer
  | Operation candidate_operation
  | Request candidate_request

text \<open>Which payloads a family may emit; the other families have no entry.\<close>

definition FAMILY_PAYLOAD_TYPES :: "adapter_family \<Rightarrow> canonical_payload \<Rightarrow> bool option" where
  "FAMILY_PAYLOAD_TYPES family payload = (case family of
     COMMERCE \<Rightarrow> Some (case payload of Catalog _ \<Rightarrow> True | Offer _ \<Rightarrow> True | _ \<Rightarrow> False)
   | TOOL \<Rightarrow> Some (case payload of Operation _ \<Rightarrow> True | _ \<Rightarrow> False)
   | PAYMENT_AUTHORIZATION \<Rightarrow> Some (case payload of Request _ \<Rightarrow> True | _ \<Rightarrow> False)
   | _ \<Rightarrow> None)"

datatype warning_code =
    CLAIMED_IDENTITY_NOT_AUTHENTICATED
  | EXTERNAL_AUTHORIZATION_REFERENCE_NOT_VERIFIED
  | UNKNOWN_FIELDS_KEPT_AS_UNTRUSTED_METADATA
  | MERCHANT_TRUST_NOT_ASSIGNED_BY_ADAPTER

record adapter_warning =
  aw_code :: warning_code
  aw_detail :: string

definition AdapterWarning :: "warning_code \<Rightarrow> string \<Rightarrow> adapter_exn + adapter_warning" where
  "AdapterWarning code detail = (if sized 1 400 detail then Inr \<lparr>aw_code = code, aw_detail = detail\<rparr>
     else Inl (Raised (ValidationError ''AdapterWarning'')))"

type_synonym provenance_map = "(string \<times> provenance_meta) list"

record adapter_envelope =
  en_adapter_id :: string
  en_adapter_family :: adapter_family
  en_protocol_name :: string
  en_protocol_version :: string
  en_adapter_version :: string
  en_source_identity :: source_identity
  en_source_trust :: trust_level
  en_source_authority :: authority_level
  en_received_at :: instant
  en_raw_reference :: string
  en_raw_byte_length :: int
  en_canonical_payload :: canonical_payload
  en_provenance :: provenance_map
  en_warnings :: "adapter_warning list"

section \<open>Required provenance\<close>

definition OFFER_MODEL_FIELDS :: "string list" where
  "OFFER_MODEL_FIELDS = [''merchant_id'', ''product_id'', ''title'', ''description'', ''price'', ''currency'', ''rating'',
     ''in_stock'', ''offered_at'', ''claims'']"

definition metadata_key :: "string \<Rightarrow> string" where
  "metadata_key prefix = (if prefix \<noteq> [] then prefix @ ''untrusted_metadata'' else ''untrusted_metadata'')"

definition offer_keys :: "candidate_offer \<Rightarrow> string \<Rightarrow> string list" where
  "offer_keys offer prefix = map (\<lambda>name. prefix @ name) OFFER_MODEL_FIELDS
     @ (if cf_untrusted_metadata offer \<noteq> [] then [metadata_key prefix] else [])"

definition offer_prefix :: "nat \<Rightarrow> string" where
  "offer_prefix index = ''offers['' @ dec_int (int index) @ ''].''"

definition required_provenance_keys :: "canonical_payload \<Rightarrow> string list" where
  "required_provenance_keys payload = (case payload of
     Catalog c \<Rightarrow> [''claimed_merchant_id'']
       @ concat (map (\<lambda>(index, offer). offer_keys offer (offer_prefix index)) (enumerate 0 (cc_offers c)))
       @ (if cc_untrusted_metadata c \<noteq> [] then [metadata_key []] else [])
   | Offer o' \<Rightarrow> offer_keys o' [] @ [''claimed_merchant_id'']
   | Operation op \<Rightarrow> [''operation'', ''claimed_tool_name''] @ map (\<lambda>(name, _). ''arguments.'' @ name) (cop_arguments op)
   | Request r \<Rightarrow> [''claimed_merchant_id'', ''claimed_product_id'', ''claimed_quantity'', ''claimed_amount_inr'', ''claimed_currency'']
       @ (if cq_mission r \<noteq> None then [''mission_id''] else [])
       @ (if cq_claimed_expires_at r \<noteq> None then [''claimed_expires_at''] else [])
       @ (if cq_external_authorization_reference r \<noteq> None then [''external_authorization_reference''] else [])
       @ (if cq_untrusted_metadata r \<noteq> [] then [metadata_key []] else []))"

section \<open>Results of a translation\<close>

record translation_result =
  tr_canonical_payload :: canonical_payload
  tr_provenance :: provenance_map
  tr_warnings :: "adapter_warning list"

definition external_provenance :: "string \<Rightarrow> provenance_meta" where
  "external_provenance source = \<lparr>pm_source = source, pm_authority = AGENT_PROPOSAL, pm_trust = T_UNTRUSTED,
     pm_tainted = True, pm_transformed = True\<rparr>"

definition provenance_source :: "string \<Rightarrow> string \<Rightarrow> string" where
  "provenance_source adapter_id claimed_id = ''adapter:'' @ adapter_id @ '':claim:'' @ claimed_id"

section \<open>The registry\<close>

record implementation =
  im_base :: "adapter_family option"
  im_family :: "adapter_family option"
  im_translate_payload :: "json \<Rightarrow> source_identity \<Rightarrow> string \<Rightarrow> adapter_exn + translation_result"

record registered_adapter =
  rg_descriptor :: adapter_descriptor
  rg_implementation :: implementation

record adapter_registry =
  ar_adapters :: "(string \<times> registered_adapter) list"
  ar_sealed :: bool

definition new_registry :: adapter_registry where
  "new_registry = \<lparr>ar_adapters = [], ar_sealed = False\<rparr>"

definition register :: "adapter_registry \<Rightarrow> adapter_descriptor \<Rightarrow> implementation \<Rightarrow> adapter_exn + adapter_registry" where
  "register reg descriptor implementation =
     (if ar_sealed reg then Inl (AdapterRegistrationRefused ''sealed'')
      else if map_of (ar_adapters reg) (ad_adapter_id descriptor) \<noteq> None then Inl (DuplicateAdapter (ad_adapter_id descriptor))
      else if ad_family descriptor \<notin> TRANSLATING_FAMILIES then Inl (AdapterRegistrationRefused ''family'')
      else if im_base implementation \<noteq> Some (ad_family descriptor) then Inl (AdapterRegistrationRefused ''base class'')
      else if im_family implementation \<noteq> Some (ad_family descriptor) then Inl (AdapterRegistrationRefused ''reported family'')
      else if MAX_ADAPTER_AUTHORITY < ad_emits_authority descriptor then Inl (AdapterRegistrationRefused ''authority ceiling'')
      else Inr (reg\<lparr>ar_adapters := ar_adapters reg
        @ [(ad_adapter_id descriptor, \<lparr>rg_descriptor = descriptor, rg_implementation = implementation\<rparr>)]\<rparr>))"

definition seal :: "adapter_registry \<Rightarrow> adapter_registry" where
  "seal reg = reg\<lparr>ar_sealed := True\<rparr>"

definition adapter_get :: "adapter_registry \<Rightarrow> string \<Rightarrow> adapter_family \<Rightarrow> adapter_exn + registered_adapter" where
  "adapter_get reg adapter_id family = (case map_of (ar_adapters reg) adapter_id of
     None \<Rightarrow> Inl (UnknownAdapter adapter_id)
   | Some registered \<Rightarrow>
     if ad_family (rg_descriptor registered) \<noteq> family
     then Inl (AdapterFamilyMismatch adapter_id (family_display_name family)
       (family_display_name (ad_family (rg_descriptor registered))))
     else Inr registered)"

definition describe :: "adapter_registry \<Rightarrow> string \<Rightarrow> adapter_exn + adapter_descriptor" where
  "describe reg adapter_id = (case map_of (ar_adapters reg) adapter_id of
     None \<Rightarrow> Inl (UnknownAdapter adapter_id) | Some registered \<Rightarrow> Inr (rg_descriptor registered))"

definition has_adapter :: "adapter_registry \<Rightarrow> string \<Rightarrow> bool" where
  "has_adapter reg adapter_id \<longleftrightarrow> map_of (ar_adapters reg) adapter_id \<noteq> None"

definition list_adapters :: "adapter_registry \<Rightarrow> adapter_family option \<Rightarrow> adapter_descriptor list" where
  "list_adapters reg family = (let descriptors = map (\<lambda>(_, r). rg_descriptor r) (ar_adapters reg) in
     case family of None \<Rightarrow> descriptors | Some f \<Rightarrow> filter (\<lambda>d. ad_family d = f) descriptors)"

definition adapter_ids :: "adapter_registry \<Rightarrow> string list" where
  "adapter_ids reg = map fst (ar_adapters reg)"

section \<open>Translation\<close>

definition MAX_PAYLOAD_BYTES :: nat where
  "MAX_PAYLOAD_BYTES = 256 * 1024"

definition raw_reference :: "string \<Rightarrow> string" where
  "raw_reference raw = ''sha256:'' @ sha256_hex raw"

text \<open>What a caller may hand in; \<open>Other\<close> is a value of any other type, by its name.\<close>

datatype wire = Bytes string | Text string | Document document | Other string

definition wire_bytes :: "wire \<Rightarrow> adapter_exn + string" where
  "wire_bytes payload = (case payload of
     Bytes raw \<Rightarrow> Inr raw
   | Text text \<Rightarrow> Inr (utf8 text)
   | Document d \<Rightarrow> Inr (utf8 (dumps True (JObj d)))
   | Other name \<Rightarrow> Inl (MalformedProtocolPayload name))"

definition as_bytes_and_object :: "wire \<Rightarrow> adapter_exn + (string \<times> json)" where
  "as_bytes_and_object payload =
     bindE (wire_bytes payload) (\<lambda>raw.
     if MAX_PAYLOAD_BYTES < length raw then Inl (MalformedProtocolPayload ''payload too large'')
     else case payload of
       Document d \<Rightarrow> Inr (raw, JObj d)
     | _ \<Rightarrow> (case parse_body raw of
         Inr parsed \<Rightarrow> Inr (raw, parsed)
       | Inl NotJson \<Rightarrow> Inl (MalformedProtocolPayload ''payload is not valid JSON'')
       | Inl IntegerTooLong \<Rightarrow> Inl (Raised (ValueError ''int_max_str_digits''))
       | Inl BeyondModel \<Rightarrow> Inl (Raised (RuntimeError ''text beyond U+00FF''))))"

text \<open>The checks on one entry of the provenance, in the order of the loop.\<close>

definition check_entry :: "string \<Rightarrow> authority_level \<Rightarrow> string \<times> provenance_meta \<Rightarrow> adapter_exn + unit" where
  "check_entry adapter_id max_authority entry = (let (name, meta) = entry in
     if max_authority < pm_authority meta then Inl (AuthorityCeilingViolation adapter_id name)
     else if \<not> pm_tainted meta then Inl (TaintStrippedViolation adapter_id name)
     else if pm_trust meta \<noteq> T_UNTRUSTED then Inl (TaintStrippedViolation adapter_id name)
     else Inr ())"

definition missing_keys :: "translation_result \<Rightarrow> string list" where
  "missing_keys result = sort (remdups (filter (\<lambda>key. key \<notin> fst ` set (tr_provenance result))
     (required_provenance_keys (tr_canonical_payload result))))"

definition check_result :: "string \<Rightarrow> adapter_family \<Rightarrow> authority_level \<Rightarrow> translation_result \<Rightarrow> adapter_exn + unit" where
  "check_result adapter_id family max_authority result =
     (case FAMILY_PAYLOAD_TYPES family (tr_canonical_payload result) of
        None \<Rightarrow> Inl (Raised (KeyError (family_display_name family)))
      | Some permitted \<Rightarrow>
        if \<not> permitted then Inl (AdapterError adapter_id)
        else if tr_provenance result = [] then Inl (AdapterError adapter_id)
        else if missing_keys result \<noteq> [] then Inl (ProvenanceIncomplete adapter_id (missing_keys result))
        else bindE (mapE (check_entry adapter_id max_authority) (tr_provenance result)) (\<lambda>_. Inr ()))"

definition translate_with :: "adapter_registry \<Rightarrow> string \<Rightarrow> adapter_family \<Rightarrow> string \<Rightarrow> wire \<Rightarrow> source_identity
    \<Rightarrow> instant option \<Rightarrow> instant \<Rightarrow> adapter_exn + adapter_envelope" where
  "translate_with reg adapter_id family protocol_version payload source received_at clock =
     bindE (adapter_get reg adapter_id family) (\<lambda>resolved.
     let descriptor = rg_descriptor resolved in
     if \<not> supports descriptor protocol_version
     then Inl (UnsupportedProtocolVersion adapter_id protocol_version (ad_supported_protocol_versions descriptor))
     else bindE (as_bytes_and_object payload) (\<lambda>(raw, parsed).
       bindE (im_translate_payload (rg_implementation resolved) parsed source protocol_version) (\<lambda>result.
       bindE (check_result (ad_adapter_id descriptor) (ad_family descriptor) (ad_emits_authority descriptor) result) (\<lambda>_.
       Inr \<lparr>en_adapter_id = ad_adapter_id descriptor, en_adapter_family = ad_family descriptor,
         en_protocol_name = ad_protocol_name descriptor, en_protocol_version = protocol_version,
         en_adapter_version = ad_adapter_version descriptor, en_source_identity = source,
         en_source_trust = source_trust source, en_source_authority = source_authority source,
         en_received_at = (case received_at of Some t \<Rightarrow> t | None \<Rightarrow> clock),
         en_raw_reference = raw_reference raw, en_raw_byte_length = int (length raw),
         en_canonical_payload = tr_canonical_payload result, en_provenance = tr_provenance result,
         en_warnings = tr_warnings result\<rparr>))))"

section \<open>Reading a document\<close>

definition malformed :: "string \<Rightarrow> adapter_exn + 'a" where
  "malformed what = Inl (MalformedProtocolPayload what)"

definition require_object :: "json \<Rightarrow> string \<Rightarrow> adapter_exn + document" where
  "require_object v what = (case v of JObj ms \<Rightarrow> Inr ms | _ \<Rightarrow> malformed what)"

text \<open>\<open>mapping.get(key)\<close>.\<close>

definition member :: "document \<Rightarrow> string \<Rightarrow> json" where
  "member mapping key = (case jget key mapping of None \<Rightarrow> JNull | Some v \<Rightarrow> v)"

definition require_str :: "document \<Rightarrow> string \<Rightarrow> adapter_exn + string" where
  "require_str mapping key = (case member mapping key of
     JStr text \<Rightarrow> if text = [] then malformed key else Inr text | _ \<Rightarrow> malformed key)"

text \<open>\<open>float(value)\<close> of a JSON number that is no boolean.\<close>

definition require_number :: "document \<Rightarrow> string \<Rightarrow> adapter_exn + py_number" where
  "require_number mapping key = (case member mapping key of
     JInt i \<Rightarrow> if 2 ^ 1024 - 2 ^ 970 \<le> \<bar>i\<bar> then Inl (Raised OverflowError) else Inr (py_number.Finite (fl (of_int i)))
   | JFloat text \<Rightarrow> Inr (float_value text)
   | _ \<Rightarrow> malformed key)"

definition require_bool :: "document \<Rightarrow> string \<Rightarrow> adapter_exn + bool" where
  "require_bool mapping key = (case member mapping key of JBool b \<Rightarrow> Inr b | _ \<Rightarrow> malformed key)"

definition read_timestamp :: "string \<Rightarrow> string \<Rightarrow> adapter_exn + datetime" where
  "read_timestamp key text = (case fromisoformat text of
     None \<Rightarrow> malformed key | Some (Naive _) \<Rightarrow> malformed key | Some (Aware i off) \<Rightarrow> Inr (Aware i off))"

definition require_timestamp :: "document \<Rightarrow> string \<Rightarrow> adapter_exn + datetime" where
  "require_timestamp mapping key = (case member mapping key of
     JStr text \<Rightarrow> read_timestamp key text | _ \<Rightarrow> malformed key)"

definition string_list :: "json list \<Rightarrow> bool" where
  "string_list xs = list_all (\<lambda>x. case x of JStr _ \<Rightarrow> True | _ \<Rightarrow> False) xs"

fun claim_of :: "string \<Rightarrow> json \<Rightarrow> adapter_exn + policy_value" where
  "claim_of name JNull = Inr PNone"
| "claim_of name (JBool b) = Inr (PBool b)"
| "claim_of name (JInt i) = Inr (PInt i)"
| "claim_of name (JStr text) = Inr (PStr text)"
| "claim_of name (JFloat text) = (case float_value text of
     py_number.Finite x \<Rightarrow> Inr (PFloat x) | _ \<Rightarrow> Inl (Raised (RuntimeError ''float outside the model'')))"
| "claim_of name (JList xs) = (if string_list xs then Inr (PList (map (\<lambda>x. case x of JStr s \<Rightarrow> s | _ \<Rightarrow> []) xs)) else malformed name)"
| "claim_of name (JObj _) = malformed name"

definition claims_in :: "document \<Rightarrow> adapter_exn + (string \<times> policy_value) list" where
  "claims_in mapping = (case jget ''claims'' mapping of
     None \<Rightarrow> Inr []
   | Some JNull \<Rightarrow> Inr []
   | Some v \<Rightarrow> bindE (require_object v ''claims'') (mapE (\<lambda>(name, v). bindE (claim_of name v) (\<lambda>c. Inr (name, c)))))"

text \<open>A scalar or a list of strings, which is all an untrusted extra may be.\<close>

definition plain :: "json \<Rightarrow> bool" where
  "plain v = (case v of JList xs \<Rightarrow> string_list xs | JObj _ \<Rightarrow> False | _ \<Rightarrow> True)"

definition unknown_fields :: "string list \<Rightarrow> document \<Rightarrow> adapter_exn + document" where
  "unknown_fields known mapping =
     mapE (\<lambda>(name, v). if plain v then Inr (name, v) else malformed name)
       (filter (\<lambda>(name, _). name \<notin> set known) (sort_key fst mapping))"

definition check_protocol :: "string \<Rightarrow> document \<Rightarrow> adapter_exn + unit" where
  "check_protocol protocol_name document = (let declared = member document ''protocol'' in
     if declared \<noteq> JNull \<and> declared \<noteq> JStr protocol_name then Inl (ProtocolMismatch protocol_name) else Inr ())"

definition UNKNOWN_FIELDS_DETAIL :: string where
  "UNKNOWN_FIELDS_DETAIL = ''protocol-undefined fields were preserved as untrusted metadata; they are never canonical and never security state''"

section \<open>The commerce adapter\<close>

definition COMMERCE_ID :: string where
  "COMMERCE_ID = ''pactra.commerce.v1''"

definition COMMERCE_PROTOCOL :: string where
  "COMMERCE_PROTOCOL = ''pactra.commerce''"

definition MAX_OFFERS :: nat where
  "MAX_OFFERS = 50"

definition CATALOG_FIELDS :: "string list" where
  "CATALOG_FIELDS = [''protocol'', ''merchant_id'', ''offers'']"

definition OFFER_FIELDS :: "string list" where
  "OFFER_FIELDS = [''merchant_id'', ''product_id'', ''title'', ''description'', ''price'', ''currency'', ''rating'',
     ''in_stock'', ''offered_at'', ''claims'']"

definition COMMERCE_DESCRIPTOR :: adapter_descriptor where
  "COMMERCE_DESCRIPTOR = \<lparr>ad_adapter_id = COMMERCE_ID, ad_family = COMMERCE, ad_protocol_name = COMMERCE_PROTOCOL,
     ad_protocol_version = ''1.0'', ad_supported_protocol_versions = [''1.0''], ad_adapter_version = ''pactra-commerce-v1'',
     ad_status = IMPLEMENTED, ad_emits_authority = AGENT_PROPOSAL, ad_emits_trust = T_UNTRUSTED,
     ad_summary = ''Translates a PACTRA-native commerce catalog document into candidate merchant offers. Assigns no merchant trust and no authenticated identity: the claimed merchant id is verified against a transport identity downstream.''\<rparr>"

text \<open>\<open>RawMerchantOffer(**values)\<close> on checked values: the range and length constraints are left.\<close>

definition price_of :: "py_number \<Rightarrow> adapter_exn + price" where
  "price_of x = (case x of
     py_number.Finite p \<Rightarrow> if 0 \<le> p then Inr (price.Finite p) else malformed ''price''
   | PosInf \<Rightarrow> Inr Infinite
   | NegInf \<Rightarrow> malformed ''price''
   | NotANumber \<Rightarrow> Inl (Raised (RuntimeError ''float outside the model'')))"

definition rating_of :: "py_number \<Rightarrow> adapter_exn + rat" where
  "rating_of x = (case x of
     py_number.Finite r \<Rightarrow> if 0 \<le> r \<and> r \<le> 5 then Inr r else malformed ''rating''
   | NotANumber \<Rightarrow> Inl (Raised (RuntimeError ''float outside the model''))
   | _ \<Rightarrow> malformed ''rating'')"

definition translate_offer :: "json \<Rightarrow> adapter_exn + candidate_offer" where
  "translate_offer entry =
     bindE (require_object entry ''offers'') (\<lambda>offer.
     bindE (guard_payload_keys offer) (\<lambda>_.
     bindE (require_str offer ''merchant_id'') (\<lambda>merchant_id.
     bindE (require_str offer ''product_id'') (\<lambda>product_id.
     bindE (require_str offer ''title'') (\<lambda>title.
     bindE (require_number offer ''price'') (\<lambda>price_value.
     bindE (require_str offer ''currency'') (\<lambda>currency.
     bindE (require_number offer ''rating'') (\<lambda>rating_value.
     bindE (require_bool offer ''in_stock'') (\<lambda>in_stock.
     bindE (require_timestamp offer ''offered_at'') (\<lambda>offered_at.
     bindE (claims_in offer) (\<lambda>claims.
     bindE (case jget ''description'' offer of None \<Rightarrow> Inr [] | Some (JStr text) \<Rightarrow> Inr text | _ \<Rightarrow> malformed ''description'') (\<lambda>description.
     bindE (price_of price_value) (\<lambda>price.
     bindE (rating_of rating_value) (\<lambda>rating.
     let raw = \<lparr>ro_merchant_id = merchant_id, ro_product_id = product_id, ro_title = title, ro_description = description,
           ro_price = price, ro_currency = currency, ro_rating = rating, ro_in_stock = in_stock, ro_offered_at = offered_at,
           ro_claims = claims\<rparr> in
     if \<not> raw_offer_ok raw then malformed ''offers''
     else bindE (unknown_fields OFFER_FIELDS offer) (\<lambda>extras.
       Inr \<lparr>cf_claimed_merchant_id = merchant_id, cf_offer = raw, cf_untrusted_metadata = extras\<rparr>)))))))))))))))"

text \<open>The provenance of one translated offer, and of the catalog.\<close>

definition offer_provenance :: "provenance_meta \<Rightarrow> nat \<times> candidate_offer \<Rightarrow> provenance_map" where
  "offer_provenance meta entry = (let (index, offer) = entry in
     map (\<lambda>name. (offer_prefix index @ name, meta)) OFFER_MODEL_FIELDS
     @ (if cf_untrusted_metadata offer \<noteq> [] then [(offer_prefix index @ ''untrusted_metadata'', meta)] else []))"

definition catalog_provenance :: "provenance_meta \<Rightarrow> candidate_catalog \<Rightarrow> provenance_map" where
  "catalog_provenance meta c = [(''claimed_merchant_id'', meta)]
     @ (if cc_untrusted_metadata c \<noteq> [] then [(''untrusted_metadata'', meta)] else [])
     @ concat (map (offer_provenance meta) (enumerate 0 (cc_offers c)))"

definition commerce_warnings :: "candidate_catalog \<Rightarrow> adapter_exn + adapter_warning list" where
  "commerce_warnings c =
     bindE (AdapterWarning CLAIMED_IDENTITY_NOT_AUTHENTICATED (''the document claims merchant '' @ py_repr (cc_claimed_merchant_id c)
       @ ''; it is verified against a transport-authenticated identity by ingest_merchant_offer, and a mismatch is MERCHANT_IDENTITY_MISMATCH'')) (\<lambda>claimed.
     bindE (AdapterWarning MERCHANT_TRUST_NOT_ASSIGNED_BY_ADAPTER
       ''no merchant trust or display name is attached: both come from the server-owned MerchantRegistry, which this adapter cannot reach'') (\<lambda>trust.
     if cc_untrusted_metadata c \<noteq> [] \<or> list_ex (\<lambda>o'. cf_untrusted_metadata o' \<noteq> []) (cc_offers c)
     then bindE (AdapterWarning UNKNOWN_FIELDS_KEPT_AS_UNTRUSTED_METADATA UNKNOWN_FIELDS_DETAIL) (\<lambda>unknown.
       Inr [claimed, trust, unknown])
     else Inr [claimed, trust]))"

definition commerce_translate :: "json \<Rightarrow> source_identity \<Rightarrow> string \<Rightarrow> adapter_exn + translation_result" where
  "commerce_translate payload source protocol_version =
     bindE (require_object payload ''catalog'') (\<lambda>document.
     bindE (guard_payload_keys document) (\<lambda>_.
     bindE (check_protocol COMMERCE_PROTOCOL document) (\<lambda>_.
     bindE (require_str document ''merchant_id'') (\<lambda>merchant_id.
     bindE (case member document ''offers'' of JList xs \<Rightarrow> Inr xs | _ \<Rightarrow> malformed ''offers'') (\<lambda>raw_offers.
     if raw_offers = [] \<or> MAX_OFFERS < length raw_offers then malformed ''offers''
     else bindE (unknown_fields CATALOG_FIELDS document) (\<lambda>extras.
     bindE (mapE translate_offer raw_offers) (\<lambda>offers.
     let catalog = \<lparr>cc_claimed_merchant_id = merchant_id, cc_offers = offers, cc_untrusted_metadata = extras\<rparr>;
         meta = external_provenance (provenance_source COMMERCE_ID merchant_id) in
     bindE (commerce_warnings catalog) (\<lambda>warnings.
     if \<not> sized 1 120 merchant_id then Inl (Raised (ValidationError ''CandidateCommerceCatalog''))
     else Inr \<lparr>tr_canonical_payload = Catalog catalog, tr_provenance = catalog_provenance meta catalog,
       tr_warnings = warnings\<rparr>))))))))"

definition commerce_adapter :: implementation where
  "commerce_adapter = \<lparr>im_base = Some COMMERCE, im_family = Some COMMERCE, im_translate_payload = commerce_translate\<rparr>"

section \<open>The authorization-intent adapter\<close>

definition INTENT_ID :: string where
  "INTENT_ID = ''pactra.authorization-intent.v1''"

definition INTENT_PROTOCOL :: string where
  "INTENT_PROTOCOL = ''pactra.authorization-intent''"

definition INTENT_FIELDS :: "string list" where
  "INTENT_FIELDS = [''protocol'', ''mission_id'', ''merchant_id'', ''product_id'', ''quantity'', ''amount_inr'', ''currency'',
     ''expires_at'', ''external_authorization_reference'']"

definition INTENT_DESCRIPTOR :: adapter_descriptor where
  "INTENT_DESCRIPTOR = \<lparr>ad_adapter_id = INTENT_ID, ad_family = PAYMENT_AUTHORIZATION, ad_protocol_name = INTENT_PROTOCOL,
     ad_protocol_version = ''1.0'', ad_supported_protocol_versions = [''1.0''],
     ad_adapter_version = ''pactra-authorization-intent-v1'', ad_status = IMPLEMENTED,
     ad_emits_authority = AGENT_PROPOSAL, ad_emits_trust = T_UNTRUSTED,
     ad_summary = ''Translates an external authorization intention into a CandidateAuthorizationRequest. Issues nothing: an external authorization reference is carried unverified, because PACTRA has no signature verification.''\<rparr>"

definition require_int :: "document \<Rightarrow> string \<Rightarrow> adapter_exn + int" where
  "require_int mapping key = (case member mapping key of JInt i \<Rightarrow> Inr i | _ \<Rightarrow> malformed key)"

definition optional_timestamp :: "document \<Rightarrow> string \<Rightarrow> adapter_exn + datetime option" where
  "optional_timestamp mapping key = (case member mapping key of
     JNull \<Rightarrow> Inr None
   | JStr text \<Rightarrow> bindE (read_timestamp key text) (\<lambda>t. Inr (Some t))
   | _ \<Rightarrow> malformed key)"

definition optional_mission :: "document \<Rightarrow> adapter_exn + uuid option" where
  "optional_mission mapping = (case member mapping ''mission_id'' of
     JNull \<Rightarrow> Inr None
   | JStr text \<Rightarrow> (case UUID text of None \<Rightarrow> malformed ''mission_id'' | Some u \<Rightarrow> Inr (Some u))
   | _ \<Rightarrow> malformed ''mission_id'')"

definition optional_reference :: "document \<Rightarrow> adapter_exn + string option" where
  "optional_reference mapping = (case member mapping ''external_authorization_reference'' of
     JNull \<Rightarrow> Inr None | JStr text \<Rightarrow> Inr (Some text) | _ \<Rightarrow> malformed ''external_authorization_reference'')"

definition intent_candidate :: "document \<Rightarrow> adapter_exn + candidate_request" where
  "intent_candidate document =
     bindE (optional_mission document) (\<lambda>mission_id.
     bindE (optional_reference document) (\<lambda>reference.
     bindE (require_str document ''merchant_id'') (\<lambda>merchant_id.
     bindE (require_str document ''product_id'') (\<lambda>product_id.
     bindE (require_int document ''quantity'') (\<lambda>quantity.
     bindE (require_int document ''amount_inr'') (\<lambda>amount_inr.
     bindE (require_str document ''currency'') (\<lambda>currency.
     bindE (optional_timestamp document ''expires_at'') (\<lambda>expires_at.
     bindE (unknown_fields INTENT_FIELDS document) (\<lambda>extras.
     case CandidateAuthorizationRequest \<lparr>cq_mission = mission_id, cq_claimed_merchant_id = merchant_id,
         cq_claimed_product_id = product_id, cq_claimed_quantity = quantity, cq_claimed_amount_inr = amount_inr,
         cq_claimed_currency = currency, cq_claimed_expires_at = expires_at,
         cq_external_authorization_reference = reference, cq_untrusted_metadata = extras\<rparr> of
       Inl _ \<Rightarrow> malformed ''authorization intent''
     | Inr candidate \<Rightarrow> Inr candidate)))))))))"

definition intent_provenance :: "provenance_meta \<Rightarrow> candidate_request \<Rightarrow> provenance_map" where
  "intent_provenance meta candidate =
     map (\<lambda>name. (name, meta)) [''mission_id'', ''claimed_merchant_id'', ''claimed_product_id'', ''claimed_quantity'',
       ''claimed_amount_inr'', ''claimed_currency'', ''claimed_expires_at'']
     @ (if cq_external_authorization_reference candidate \<noteq> None then [(''external_authorization_reference'', meta)] else [])
     @ (if cq_untrusted_metadata candidate \<noteq> [] then [(''untrusted_metadata'', meta)] else [])"

definition intent_warnings :: "source_identity \<Rightarrow> candidate_request \<Rightarrow> adapter_exn + adapter_warning list" where
  "intent_warnings source candidate =
     bindE (AdapterWarning CLAIMED_IDENTITY_NOT_AUTHENTICATED (''the caller claimed to be '' @ py_repr (si_claimed_id source)
       @ ''; PACTRA authenticates no protocol channel, so this candidate authorizes nothing on its own'')) (\<lambda>claimed.
     bindE (if cq_external_authorization_reference candidate = None then Inr []
       else bindE (AdapterWarning EXTERNAL_AUTHORIZATION_REFERENCE_NOT_VERIFIED
         ''an external authorization reference was carried through unverified: PACTRA has no verifier for this external reference, so it is a correlation handle and never evidence of approval'') (\<lambda>w. Inr [w])) (\<lambda>reference.
     bindE (if cq_untrusted_metadata candidate = [] then Inr []
       else bindE (AdapterWarning UNKNOWN_FIELDS_KEPT_AS_UNTRUSTED_METADATA UNKNOWN_FIELDS_DETAIL) (\<lambda>w. Inr [w])) (\<lambda>unknown.
     Inr ([claimed] @ reference @ unknown))))"

definition intent_translate :: "json \<Rightarrow> source_identity \<Rightarrow> string \<Rightarrow> adapter_exn + translation_result" where
  "intent_translate payload source protocol_version =
     bindE (require_object payload ''authorization intent'') (\<lambda>document.
     bindE (guard_payload_keys document) (\<lambda>_.
     bindE (check_protocol INTENT_PROTOCOL document) (\<lambda>_.
     bindE (intent_candidate document) (\<lambda>candidate.
     bindE (intent_warnings source candidate) (\<lambda>warnings.
     Inr \<lparr>tr_canonical_payload = Request candidate,
       tr_provenance = intent_provenance (external_provenance (provenance_source INTENT_ID (si_claimed_id source))) candidate,
       tr_warnings = warnings\<rparr>)))))"

definition intent_adapter :: implementation where
  "intent_adapter = \<lparr>im_base = Some PAYMENT_AUTHORIZATION, im_family = Some PAYMENT_AUTHORIZATION,
     im_translate_payload = intent_translate\<rparr>"

section \<open>The tool adapter\<close>

definition MCP_ID :: string where
  "MCP_ID = ''mcp.tools-call.v1''"

definition JSONRPC_ENVELOPE_MEMBERS :: "string list" where
  "JSONRPC_ENVELOPE_MEMBERS = [''jsonrpc'', ''id'', ''method'', ''params'']"

definition TOOLS_CALL_PARAMS_MEMBERS :: "string list" where
  "TOOLS_CALL_PARAMS_MEMBERS = [''name'', ''arguments'', ''_meta'']"

definition TOOL_NAMES :: "(string \<times> operation_type) list" where
  "TOOL_NAMES = [(''pactra.catalog.search'', CATALOG_SEARCH), (''pactra.merchant.discover'', MERCHANT_DISCOVER),
     (''pactra.offer.request'', OFFER_REQUEST), (''pactra.offer.rank'', OFFER_RANK),
     (''pactra.purchase.propose'', PURCHASE_PROPOSE)]"

definition MAX_ARGUMENTS :: nat where
  "MAX_ARGUMENTS = 32"

definition MAX_ARGUMENT_STRING :: nat where
  "MAX_ARGUMENT_STRING = 2000"

definition MCP_DESCRIPTOR :: adapter_descriptor where
  "MCP_DESCRIPTOR = \<lparr>ad_adapter_id = MCP_ID, ad_family = TOOL, ad_protocol_name = ''MCP'',
     ad_protocol_version = ''2025-06-18'', ad_supported_protocol_versions = [''2024-11-05'', ''2025-03-26'', ''2025-06-18''],
     ad_adapter_version = ''pactra-mcp-tools-call-v1'', ad_status = PARTIAL,
     ad_emits_authority = AGENT_PROPOSAL, ad_emits_trust = T_UNTRUSTED,
     ad_summary = ''Translates a JSON-RPC 2.0 MCP tools/call request into a candidate PACTRA operation. PACTRA is not an MCP server: no transport, no initialize handshake, no tools/list, no response construction.''\<rparr>"

definition normalize_argument :: "string \<Rightarrow> json \<Rightarrow> adapter_exn + json" where
  "normalize_argument name v = (case v of
     JStr text \<Rightarrow> if MAX_ARGUMENT_STRING < length text then malformed name else Inr v
   | JList xs \<Rightarrow> if string_list xs then Inr v else malformed name
   | JObj _ \<Rightarrow> malformed name
   | _ \<Rightarrow> Inr v)"

text \<open>The envelope of the request, and the tool call inside it.\<close>

definition mcp_params :: "document \<Rightarrow> adapter_exn + document" where
  "mcp_params message =
     (if \<not> set (map fst message) \<subseteq> set JSONRPC_ENVELOPE_MEMBERS then malformed ''envelope''
      else if member message ''jsonrpc'' \<noteq> JStr ''2.0'' then Inl (ProtocolMismatch ''2.0'')
      else if (case member message ''id'' of JStr _ \<Rightarrow> False | JInt _ \<Rightarrow> False | _ \<Rightarrow> True) then malformed ''id''
      else case member message ''method'' of
        JStr call_method \<Rightarrow>
          if call_method \<noteq> ''tools/call'' then Inl (UnsupportedOperation MCP_ID call_method)
          else bindE (require_object (member message ''params'') ''params'') (\<lambda>params.
            bindE (guard_payload_keys params) (\<lambda>_.
            if \<not> set (map fst params) \<subseteq> set TOOLS_CALL_PARAMS_MEMBERS then malformed ''params''
            else if jget ''_meta'' params \<noteq> None then malformed ''_meta''
            else Inr params))
      | _ \<Rightarrow> malformed ''method'')"

definition mcp_arguments :: "document \<Rightarrow> adapter_exn + document" where
  "mcp_arguments params =
     bindE (case member params ''arguments'' of JNull \<Rightarrow> Inr [] | v \<Rightarrow> require_object v ''arguments'') (\<lambda>arguments.
     if MAX_ARGUMENTS < length arguments then malformed ''arguments''
     else bindE (guard_payload_keys arguments) (\<lambda>_.
       mapE (\<lambda>(name, v). bindE (normalize_argument name v) (\<lambda>x. Inr (name, x))) (sort_key fst arguments)))"

definition mcp_operation :: "document \<Rightarrow> adapter_exn + candidate_operation" where
  "mcp_operation params = (case member params ''name'' of
     JStr tool_name \<Rightarrow>
       if tool_name = [] then malformed ''name''
       else (case map_of TOOL_NAMES tool_name of
          None \<Rightarrow> Inl (UnsupportedOperation MCP_ID tool_name)
        | Some operation \<Rightarrow> bindE (mcp_arguments params) (\<lambda>arguments.
            Inr \<lparr>cop_operation = operation, cop_claimed_tool_name = tool_name, cop_arguments = arguments\<rparr>))
   | _ \<Rightarrow> malformed ''name'')"

definition mcp_provenance :: "provenance_meta \<Rightarrow> candidate_operation \<Rightarrow> provenance_map" where
  "mcp_provenance meta candidate = [(''operation'', meta), (''claimed_tool_name'', meta)]
     @ map (\<lambda>(name, _). (''arguments.'' @ name, meta)) (cop_arguments candidate)"

definition mcp_translate :: "json \<Rightarrow> source_identity \<Rightarrow> string \<Rightarrow> adapter_exn + translation_result" where
  "mcp_translate payload source protocol_version =
     bindE (require_object payload ''an MCP request'') (\<lambda>message.
     bindE (guard_payload_keys message) (\<lambda>_.
     bindE (mcp_params message) (\<lambda>params.
     bindE (mcp_operation params) (\<lambda>candidate.
     bindE (AdapterWarning CLAIMED_IDENTITY_NOT_AUTHENTICATED (''the MCP caller claimed to be '' @ py_repr (si_claimed_id source)
       @ ''; PACTRA authenticates no protocol channel, so this is a claim and the operation still requires a server-resolved principal'')) (\<lambda>warning.
     Inr \<lparr>tr_canonical_payload = Operation candidate,
       tr_provenance = mcp_provenance (external_provenance (provenance_source MCP_ID (si_claimed_id source))) candidate,
       tr_warnings = [warning]\<rparr>)))))"

definition mcp_adapter :: implementation where
  "mcp_adapter = \<lparr>im_base = Some TOOL, im_family = Some TOOL, im_translate_payload = mcp_translate\<rparr>"

text \<open>The capability of a candidate is enforced against the principal the caller names.\<close>

definition authorize_operation :: "candidate_operation \<Rightarrow> string \<Rightarrow> exn + capability" where
  "authorize_operation operation who =
     bindE (enforce (capabilities_for who) (required_capability operation)) (\<lambda>_. Inr (required_capability operation))"

section \<open>The server's registry and the support matrix\<close>

definition ADAPTERS :: "(adapter_descriptor \<times> implementation) list" where
  "ADAPTERS = [(COMMERCE_DESCRIPTOR, commerce_adapter), (INTENT_DESCRIPTOR, intent_adapter), (MCP_DESCRIPTOR, mcp_adapter)]"

fun register_all :: "(adapter_descriptor \<times> implementation) list \<Rightarrow> adapter_registry \<Rightarrow> adapter_exn + adapter_registry" where
  "register_all [] reg = Inr (seal reg)"
| "register_all ((descriptor, implementation) # rest) reg =
     (if has_adapter reg (ad_adapter_id descriptor) then register_all rest reg
      else bindE (register reg descriptor implementation) (register_all rest))"

definition REGISTRY :: adapter_registry where
  "REGISTRY = (case register_all ADAPTERS new_registry of Inr reg \<Rightarrow> reg | Inl _ \<Rightarrow> new_registry)"

definition translate :: "string \<Rightarrow> adapter_family \<Rightarrow> string \<Rightarrow> wire \<Rightarrow> source_identity
    \<Rightarrow> instant option \<Rightarrow> instant \<Rightarrow> adapter_exn + adapter_envelope" where
  "translate = translate_with REGISTRY"

record protocol_support =
  ps_protocol :: string
  ps_family :: "adapter_family option"
  ps_status :: support_status
  ps_adapter_id :: "string option"

definition PROTOCOL_SUPPORT :: "protocol_support list" where
  "PROTOCOL_SUPPORT =
     [\<lparr>ps_protocol = ''Razorpay'', ps_family = Some PAYMENT_RAIL, ps_status = PARTIAL, ps_adapter_id = None\<rparr>,
      \<lparr>ps_protocol = ''MCP'', ps_family = Some TOOL, ps_status = PARTIAL, ps_adapter_id = Some MCP_ID\<rparr>,
      \<lparr>ps_protocol = ''AP2'', ps_family = Some PAYMENT_AUTHORIZATION, ps_status = PLANNED, ps_adapter_id = None\<rparr>,
      \<lparr>ps_protocol = ''x402'', ps_family = None, ps_status = PLANNED, ps_adapter_id = None\<rparr>,
      \<lparr>ps_protocol = ''ACP'', ps_family = None, ps_status = PLANNED, ps_adapter_id = None\<rparr>,
      \<lparr>ps_protocol = ''pactra.commerce.v1'', ps_family = Some COMMERCE, ps_status = IMPLEMENTED,
        ps_adapter_id = Some COMMERCE_ID\<rparr>,
      \<lparr>ps_protocol = ''pactra.authorization-intent.v1'', ps_family = Some PAYMENT_AUTHORIZATION, ps_status = IMPLEMENTED,
        ps_adapter_id = Some INTENT_ID\<rparr>]"

definition support_for :: "string \<Rightarrow> exn + protocol_support" where
  "support_for protocol = (case find (\<lambda>e. ps_protocol e = protocol) PROTOCOL_SUPPORT of
     Some entry \<Rightarrow> Inr entry | None \<Rightarrow> Inl (KeyError protocol))"

definition implemented_protocols :: "string list" where
  "implemented_protocols = map ps_protocol (filter (\<lambda>e. ps_status e \<in> {IMPLEMENTED, PARTIAL}) PROTOCOL_SUPPORT)"

definition planned_protocols :: "string list" where
  "planned_protocols = map ps_protocol (filter (\<lambda>e. ps_status e = PLANNED) PROTOCOL_SUPPORT)"

definition RAIL_STATUS :: "(string \<times> support_status) list" where
  "RAIL_STATUS = [(''razorpay_test'', PARTIAL), (''fake'', NOT_APPLICABLE)]"

definition describe_payment_rails :: "string \<Rightarrow> (string \<times> support_status) list" where
  "describe_payment_rails app_env = map (\<lambda>name. (name, case map_of RAIL_STATUS name of
     Some status \<Rightarrow> status | None \<Rightarrow> NOT_APPLICABLE)) (registered_provider_names app_env)"

section \<open>The registry stays well formed\<close>

inductive registry_history :: "adapter_registry \<Rightarrow> bool" where
  empty: "registry_history new_registry"
| registered: "registry_history reg \<Longrightarrow> register reg descriptor implementation = Inr reg' \<Longrightarrow> registry_history reg'"
| sealed: "registry_history reg \<Longrightarrow> registry_history (seal reg)"

definition entry_ok :: "string \<times> registered_adapter \<Rightarrow> bool" where
  "entry_ok entry \<longleftrightarrow> (let (adapter_id, r) = entry in
     ad_adapter_id (rg_descriptor r) = adapter_id \<and> ad_family (rg_descriptor r) \<in> TRANSLATING_FAMILIES
     \<and> im_base (rg_implementation r) = Some (ad_family (rg_descriptor r))
     \<and> ad_emits_authority (rg_descriptor r) \<le> MAX_ADAPTER_AUTHORITY)"

definition registry_ok :: "adapter_registry \<Rightarrow> bool" where
  "registry_ok reg \<longleftrightarrow> distinct (adapter_ids reg) \<and> list_all entry_ok (ar_adapters reg)"

lemma register_Inr_iff:
  "register reg d i = Inr reg' \<longleftrightarrow> \<not> ar_sealed reg \<and> ad_adapter_id d \<notin> set (adapter_ids reg)
    \<and> ad_family d \<in> TRANSLATING_FAMILIES \<and> im_base i = Some (ad_family d) \<and> im_family i = Some (ad_family d)
    \<and> ad_emits_authority d \<le> MAX_ADAPTER_AUTHORITY
    \<and> reg' = reg\<lparr>ar_adapters := ar_adapters reg @ [(ad_adapter_id d, \<lparr>rg_descriptor = d, rg_implementation = i\<rparr>)]\<rparr>"
  by (auto simp: register_def adapter_ids_def map_of_eq_None_iff not_less)

lemma register_keeps_ok: "registry_ok reg \<Longrightarrow> register reg d i = Inr reg' \<Longrightarrow> registry_ok reg'"
  by (auto simp: register_Inr_iff registry_ok_def adapter_ids_def entry_ok_def)

lemma registry_history_ok: "registry_history reg \<Longrightarrow> registry_ok reg"
proof (induction rule: registry_history.induct)
  case (registered reg descriptor implementation reg')
  then show ?case by (simp add: register_keeps_ok)
qed (simp_all add: new_registry_def seal_def registry_ok_def adapter_ids_def)

lemma register_all_history: "registry_history reg \<Longrightarrow> register_all as reg = Inr reg' \<Longrightarrow> registry_history reg'"
  by (induction as reg rule: register_all.induct)
    (auto intro: registry_history.intros split: if_splits)

lemma adapter_get_Inr_iff:
  "adapter_get reg adapter_id family = Inr r \<longleftrightarrow> map_of (ar_adapters reg) adapter_id = Some r \<and> ad_family (rg_descriptor r) = family"
  by (auto simp: adapter_get_def split: option.splits)

section \<open>What the server checks\<close>

lemma check_entry_Inr_iff:
  "check_entry adapter_id a (name, meta) = Inr u \<longleftrightarrow> pm_authority meta \<le> a \<and> pm_tainted meta \<and> pm_trust meta = T_UNTRUSTED"
  by (auto simp: check_entry_def not_less)

lemma missing_keys_Nil_iff:
  "missing_keys result = [] \<longleftrightarrow> set (required_provenance_keys (tr_canonical_payload result)) \<subseteq> fst ` set (tr_provenance result)"
proof -
  have "missing_keys result = [] \<longleftrightarrow> set (missing_keys result) = {}" by simp
  also have "set (missing_keys result) = set (required_provenance_keys (tr_canonical_payload result)) - fst ` set (tr_provenance result)"
    by (auto simp: missing_keys_def)
  finally show ?thesis by blast
qed

lemma check_result_Inr_iff:
  "check_result adapter_id family a result = Inr u \<longleftrightarrow>
     FAMILY_PAYLOAD_TYPES family (tr_canonical_payload result) = Some True \<and> tr_provenance result \<noteq> []
     \<and> set (required_provenance_keys (tr_canonical_payload result)) \<subseteq> fst ` set (tr_provenance result)
     \<and> (\<forall>(name, meta) \<in> set (tr_provenance result). pm_authority meta \<le> a \<and> pm_tainted meta \<and> pm_trust meta = T_UNTRUSTED)"
proof -
  have "(\<exists>ys. mapE (check_entry adapter_id a) es = Inr ys)
      \<longleftrightarrow> (\<forall>(name, meta) \<in> set es. pm_authority meta \<le> a \<and> pm_tainted meta \<and> pm_trust meta = T_UNTRUSTED)" for es
    by (induction es) (auto simp: check_entry_Inr_iff)
  then show ?thesis
    by (auto simp: check_result_def missing_keys_Nil_iff split: option.split)
qed

text \<open>A translation that returns went through every step.\<close>

lemma translate_with_Inr:
  assumes "translate_with reg adapter_id family v payload source received_at clock = Inr env"
  obtains r raw parsed result where "map_of (ar_adapters reg) adapter_id = Some r" "ad_family (rg_descriptor r) = family"
    "v \<in> set (ad_supported_protocol_versions (rg_descriptor r))" "as_bytes_and_object payload = Inr (raw, parsed)"
    "im_translate_payload (rg_implementation r) parsed source v = Inr result"
    "check_result (ad_adapter_id (rg_descriptor r)) family (ad_emits_authority (rg_descriptor r)) result = Inr ()"
    "env = \<lparr>en_adapter_id = ad_adapter_id (rg_descriptor r), en_adapter_family = family,
         en_protocol_name = ad_protocol_name (rg_descriptor r), en_protocol_version = v,
         en_adapter_version = ad_adapter_version (rg_descriptor r), en_source_identity = source,
         en_source_trust = T_UNTRUSTED, en_source_authority = AGENT_PROPOSAL,
         en_received_at = (case received_at of Some t \<Rightarrow> t | None \<Rightarrow> clock),
         en_raw_reference = raw_reference raw, en_raw_byte_length = int (length raw),
         en_canonical_payload = tr_canonical_payload result, en_provenance = tr_provenance result,
         en_warnings = tr_warnings result\<rparr>"
  using assms
  by (auto simp: translate_with_def adapter_get_Inr_iff supports_def Let_def source_trust_def source_authority_def
      split: if_splits)

lemma as_bytes_and_object_bounds: "as_bytes_and_object payload = Inr (raw, parsed) \<Longrightarrow> length raw \<le> MAX_PAYLOAD_BYTES"
  by (auto simp: as_bytes_and_object_def split: if_splits wire.splits sum.splits body_error.splits)

text \<open>
  C13. Translation never raises authority: in every registry that registration and sealing can
  build, whatever the registered implementations compute, an envelope that \<open>translate\<close> returns
  names the adapter, family, protocol and version of the server's own descriptor, carries a payload
  its family may emit, and has a provenance entry for every canonical value; each entry is
  untrusted, tainted and at most an agent's proposal; and the raw reference is the digest of at
  most 256 KiB of bytes.
\<close>

theorem translation_never_raises_authority:
  assumes "registry_history reg"
    and "translate_with reg adapter_id family v payload source received_at clock = Inr env"
  shows "\<exists>d raw parsed. describe reg adapter_id = Inr d \<and> ad_family d = family \<and> family \<in> TRANSLATING_FAMILIES
      \<and> en_adapter_id env = adapter_id \<and> en_adapter_family env = family
      \<and> en_protocol_name env = ad_protocol_name d \<and> en_adapter_version env = ad_adapter_version d
      \<and> en_protocol_version env = v \<and> v \<in> set (ad_supported_protocol_versions d)
      \<and> en_source_trust env = T_UNTRUSTED \<and> en_source_authority env = AGENT_PROPOSAL
      \<and> as_bytes_and_object payload = Inr (raw, parsed) \<and> length raw \<le> MAX_PAYLOAD_BYTES
      \<and> en_raw_reference env = raw_reference raw \<and> en_raw_byte_length env = int (length raw)
      \<and> FAMILY_PAYLOAD_TYPES family (en_canonical_payload env) = Some True
      \<and> set (required_provenance_keys (en_canonical_payload env)) \<subseteq> fst ` set (en_provenance env)
      \<and> (\<forall>(name, meta) \<in> set (en_provenance env). pm_authority meta \<le> AGENT_PROPOSAL \<and> pm_tainted meta
           \<and> pm_trust meta = T_UNTRUSTED)"
proof -
  obtain r raw parsed result where r: "map_of (ar_adapters reg) adapter_id = Some r" "ad_family (rg_descriptor r) = family"
    "v \<in> set (ad_supported_protocol_versions (rg_descriptor r))" "as_bytes_and_object payload = Inr (raw, parsed)"
    and check: "check_result (ad_adapter_id (rg_descriptor r)) family (ad_emits_authority (rg_descriptor r)) result = Inr ()"
    and env: "en_adapter_id env = ad_adapter_id (rg_descriptor r)" "en_adapter_family env = family"
      "en_protocol_name env = ad_protocol_name (rg_descriptor r)" "en_adapter_version env = ad_adapter_version (rg_descriptor r)"
      "en_protocol_version env = v" "en_source_trust env = T_UNTRUSTED" "en_source_authority env = AGENT_PROPOSAL"
      "en_raw_reference env = raw_reference raw" "en_raw_byte_length env = int (length raw)"
      "en_canonical_payload env = tr_canonical_payload result" "en_provenance env = tr_provenance result"
    using assms(2) by (rule translate_with_Inr) simp
  have "entry_ok (adapter_id, r)"
    using registry_history_ok [OF assms(1)] map_of_SomeD [OF r(1)] by (auto simp: registry_ok_def list_all_iff)
  then have ok: "ad_adapter_id (rg_descriptor r) = adapter_id" "family \<in> TRANSLATING_FAMILIES"
    "ad_emits_authority (rg_descriptor r) \<le> AGENT_PROPOSAL"
    using r(2) by (simp_all add: entry_ok_def MAX_ADAPTER_AUTHORITY_def)
  have "describe reg adapter_id = Inr (rg_descriptor r)" using r(1) by (simp add: describe_def)
  with r ok env check as_bytes_and_object_bounds [OF r(4)] show ?thesis
    unfolding check_result_Inr_iff by (intro exI conjI) (auto dest: order_trans [OF _ ok(3)])
qed

section \<open>Key names\<close>

definition clean_keys :: "string list \<Rightarrow> bool" where
  "clean_keys ks \<longleftrightarrow> distinct (map normalize_key ks) \<and> (\<forall>k \<in> set ks. normalize_key k \<notin> RESERVED_SECURITY_FIELDS)"

lemma reject_aliases_Inr_iff:
  "reject_aliases seen ks = Inr u \<longleftrightarrow> distinct (map normalize_key ks) \<and> normalize_key ` set ks \<inter> fst ` set seen = {}"
proof (induction seen ks rule: reject_aliases.induct)
  case (2 seen key keys)
  show ?case
  proof (cases "map_of seen (normalize_key key)")
    case None
    then have "normalize_key key \<notin> fst ` set seen" by (simp add: map_of_eq_None_iff)
    with None 2 show ?thesis by (simp add: image_iff) blast
  next
    case (Some earlier)
    then have "normalize_key key \<in> fst ` set seen" by (force dest: map_of_SomeD)
    with Some show ?thesis by auto
  qed
qed simp

lemma reserved_fields_in_Nil_iff:
  "reserved_fields_in d = [] \<longleftrightarrow> (\<forall>k \<in> fst ` set d. normalize_key k \<notin> RESERVED_SECURITY_FIELDS)"
proof -
  have "reserved_fields_in d = [] \<longleftrightarrow> set (reserved_fields_in d) = {}" by simp
  then show ?thesis by (auto simp: reserved_fields_in_def)
qed

lemma guard_Inr_iff: "guard_payload_keys d = Inr u \<longleftrightarrow> clean_keys (map fst d)"
  by (auto simp: guard_payload_keys_def reject_aliased_keys_def reject_aliases_Inr_iff reject_reserved_fields_def
      reserved_fields_in_Nil_iff clean_keys_def Let_def)

lemma clean_keys_sorted: "clean_keys (map fst (sort_key f d)) \<longleftrightarrow> clean_keys (map fst d)"
proof -
  have "mset (map normalize_key (map fst (sort_key f d))) = mset (map normalize_key (map fst d))" by simp
  then have "distinct (map normalize_key (map fst (sort_key f d))) \<longleftrightarrow> distinct (map normalize_key (map fst d))"
    by (rule mset_eq_imp_distinct_iff)
  then show ?thesis by (simp add: clean_keys_def)
qed

lemma clean_keys_filter: "clean_keys (map fst d) \<Longrightarrow> clean_keys (map fst (filter P d))"
  by (auto simp: clean_keys_def o_def intro: distinct_map_filter)

lemma mapE_entries:
  "mapE (\<lambda>(name, v). bindE (f name v) (\<lambda>x. Inr (name, x))) es = Inr ys \<Longrightarrow> map fst ys = map fst es"
  by (induction es arbitrary: ys) auto

lemma unknown_fields_Inr:
  assumes "unknown_fields known d = Inr e"
  shows "e = filter (\<lambda>(name, _). name \<notin> set known) (sort_key fst d)" and "\<forall>(name, v) \<in> set e. plain v"
proof -
  have "mapE (\<lambda>(name, v). if plain v then Inr (name, v) else malformed name) es = Inr ys
      \<Longrightarrow> ys = es \<and> (\<forall>(name, v) \<in> set ys. plain v)" for es :: document and ys
    by (induction es arbitrary: ys) (auto simp: malformed_def split: if_splits)
  with assms show "e = filter (\<lambda>(name, _). name \<notin> set known) (sort_key fst d)" and "\<forall>(name, v) \<in> set e. plain v"
    unfolding unknown_fields_def by blast+
qed

lemma unknown_fields_clean: "clean_keys (map fst d) \<Longrightarrow> unknown_fields known d = Inr e \<Longrightarrow> clean_keys (map fst e)"
  using unknown_fields_Inr(1) [of known d e] by (simp add: clean_keys_filter clean_keys_sorted)

section \<open>The built-in adapters\<close>

lemma REGISTRY_eq:
  "REGISTRY = \<lparr>ar_adapters =
     [(COMMERCE_ID, \<lparr>rg_descriptor = COMMERCE_DESCRIPTOR, rg_implementation = commerce_adapter\<rparr>),
      (INTENT_ID, \<lparr>rg_descriptor = INTENT_DESCRIPTOR, rg_implementation = intent_adapter\<rparr>),
      (MCP_ID, \<lparr>rg_descriptor = MCP_DESCRIPTOR, rg_implementation = mcp_adapter\<rparr>)], ar_sealed = True\<rparr>"
  by (simp add: REGISTRY_def ADAPTERS_def has_adapter_def new_registry_def register_def seal_def COMMERCE_DESCRIPTOR_def
      INTENT_DESCRIPTOR_def MCP_DESCRIPTOR_def commerce_adapter_def intent_adapter_def mcp_adapter_def TRANSLATING_FAMILIES_def
      MAX_ADAPTER_AUTHORITY_def COMMERCE_ID_def INTENT_ID_def MCP_ID_def)

lemma REGISTRY_history: "registry_history REGISTRY"
proof -
  have "\<exists>reg. register_all ADAPTERS new_registry = Inr reg"
    by (simp add: ADAPTERS_def has_adapter_def new_registry_def register_def COMMERCE_DESCRIPTOR_def INTENT_DESCRIPTOR_def
        MCP_DESCRIPTOR_def commerce_adapter_def intent_adapter_def mcp_adapter_def TRANSLATING_FAMILIES_def
        MAX_ADAPTER_AUTHORITY_def COMMERCE_ID_def INTENT_ID_def MCP_ID_def)
  then obtain reg where reg: "register_all ADAPTERS new_registry = Inr reg" ..
  with registry_history.empty have "registry_history reg" by (rule register_all_history)
  then show ?thesis by (simp add: REGISTRY_def reg)
qed

lemma translate_offer_Inr:
  assumes "translate_offer entry = Inr o'"
  shows "raw_offer_ok (cf_offer o')" and "cf_claimed_merchant_id o' = ro_merchant_id (cf_offer o')"
    and "clean_keys (map fst (cf_untrusted_metadata o'))"
  using assms
  by (auto simp: translate_offer_def Let_def guard_Inr_iff malformed_def split: if_splits intro: unknown_fields_clean)

lemma translate_offers_Inr:
  "mapE translate_offer es = Inr os \<Longrightarrow> o' \<in> set os \<Longrightarrow> raw_offer_ok (cf_offer o')
    \<and> cf_claimed_merchant_id o' = ro_merchant_id (cf_offer o') \<and> clean_keys (map fst (cf_untrusted_metadata o'))"
  by (induction es arbitrary: os) (auto dest: translate_offer_Inr)

lemma commerce_translate_Inr:
  assumes "commerce_translate payload source v = Inr result"
  obtains d c where "payload = JObj d" "clean_keys (map fst d)" "tr_canonical_payload result = Catalog c"
    "tr_provenance result = catalog_provenance (external_provenance (provenance_source COMMERCE_ID (cc_claimed_merchant_id c))) c"
    "clean_keys (map fst (cc_untrusted_metadata c))"
    "\<forall>o' \<in> set (cc_offers c). raw_offer_ok (cf_offer o') \<and> cf_claimed_merchant_id o' = ro_merchant_id (cf_offer o')
      \<and> clean_keys (map fst (cf_untrusted_metadata o'))"
proof -
  obtain d es extras offers who warnings where "payload = JObj d" and clean: "clean_keys (map fst d)"
    and extras: "unknown_fields CATALOG_FIELDS d = Inr extras" and offers: "mapE translate_offer es = Inr offers"
    and "result = (let c = \<lparr>cc_claimed_merchant_id = who, cc_offers = offers, cc_untrusted_metadata = extras\<rparr> in
      \<lparr>tr_canonical_payload = Catalog c, tr_provenance = catalog_provenance (external_provenance (provenance_source COMMERCE_ID who)) c,
       tr_warnings = warnings\<rparr>)"
    using assms
    by (auto simp: commerce_translate_def require_object_def guard_Inr_iff malformed_def Let_def split: if_splits json.splits)
  then show thesis
    using unknown_fields_clean [OF clean extras] translate_offers_Inr [OF offers]
    by (intro that [of d "\<lparr>cc_claimed_merchant_id = who, cc_offers = offers, cc_untrusted_metadata = extras\<rparr>"])
      (simp_all add: Let_def)
qed

lemma intent_candidate_Inr:
  assumes "intent_candidate d = Inr r"
  shows "unknown_fields INTENT_FIELDS d = Inr (cq_untrusted_metadata r)"
  using assms
  by (auto simp: intent_candidate_def CandidateAuthorizationRequest_def malformed_def split: sum.splits if_splits)

lemma intent_translate_Inr:
  assumes "intent_translate payload source v = Inr result"
  obtains d r where "payload = JObj d" "clean_keys (map fst d)" "intent_candidate d = Inr r" "tr_canonical_payload result = Request r"
    "tr_provenance result = intent_provenance (external_provenance (provenance_source INTENT_ID (si_claimed_id source))) r"
    "intent_warnings source r = Inr (tr_warnings result)"
    "clean_keys (map fst (cq_untrusted_metadata r))"
proof -
  obtain d r where d: "payload = JObj d" "clean_keys (map fst d)" "intent_candidate d = Inr r"
    "intent_warnings source r = Inr (tr_warnings result)" "tr_canonical_payload result = Request r"
    "tr_provenance result = intent_provenance (external_provenance (provenance_source INTENT_ID (si_claimed_id source))) r"
    using assms
    by (auto simp: intent_translate_def require_object_def guard_Inr_iff malformed_def split: json.splits)
  moreover from unknown_fields_clean [OF d(2) intent_candidate_Inr [OF d(3)]] have "clean_keys (map fst (cq_untrusted_metadata r))" .
  ultimately show thesis using that by blast
qed

lemma mcp_arguments_clean: "mcp_arguments params = Inr args \<Longrightarrow> clean_keys (map fst args)"
  by (auto simp: mcp_arguments_def guard_Inr_iff malformed_def clean_keys_sorted dest!: mapE_entries split: if_splits)

lemma mcp_operation_Inr:
  assumes "mcp_operation params = Inr op"
  shows "map_of TOOL_NAMES (cop_claimed_tool_name op) = Some (cop_operation op)" and "clean_keys (map fst (cop_arguments op))"
  using assms by (auto simp: mcp_operation_def malformed_def mcp_arguments_clean split: json.splits if_splits option.splits)

lemma mcp_translate_Inr:
  assumes "mcp_translate payload source v = Inr result"
  obtains d params op where "payload = JObj d" "clean_keys (map fst d)" "mcp_operation params = Inr op" "tr_canonical_payload result = Operation op"
    "tr_provenance result = mcp_provenance (external_provenance (provenance_source MCP_ID (si_claimed_id source))) op"
  using assms
  by (auto simp: mcp_translate_def require_object_def guard_Inr_iff malformed_def split: json.splits)

lemma REGISTRY_cases:
  assumes "map_of (ar_adapters REGISTRY) adapter_id = Some r"
  obtains (commerce) "adapter_id = COMMERCE_ID" "r = \<lparr>rg_descriptor = COMMERCE_DESCRIPTOR, rg_implementation = commerce_adapter\<rparr>"
  | (intent) "adapter_id = INTENT_ID" "r = \<lparr>rg_descriptor = INTENT_DESCRIPTOR, rg_implementation = intent_adapter\<rparr>"
  | (mcp) "adapter_id = MCP_ID" "r = \<lparr>rg_descriptor = MCP_DESCRIPTOR, rg_implementation = mcp_adapter\<rparr>"
  using assms by (auto simp: REGISTRY_eq split: if_splits)

text \<open>The untrusted extras that a canonical payload carries, document by document.\<close>

definition carried_documents :: "canonical_payload \<Rightarrow> document list" where
  "carried_documents payload = (case payload of
     Catalog c \<Rightarrow> cc_untrusted_metadata c # map cf_untrusted_metadata (cc_offers c)
   | Offer o' \<Rightarrow> [cf_untrusted_metadata o']
   | Operation op \<Rightarrow> [cop_arguments op]
   | Request r \<Rightarrow> [cq_untrusted_metadata r])"

lemma offer_provenance_keys: "map fst (offer_provenance meta (i, o')) = offer_keys o' (offer_prefix i)"
  by (simp add: offer_provenance_def offer_keys_def metadata_key_def offer_prefix_def OFFER_MODEL_FIELDS_def)

lemma catalog_provenance_keys:
  "set (required_provenance_keys (Catalog c)) \<subseteq> fst ` set (catalog_provenance meta c)"
proof -
  have "fst ` set (concat (map (offer_provenance meta) es)) = set (concat (map (\<lambda>(i, o'). offer_keys o' (offer_prefix i)) es))" for es
    by (induction es) (auto simp: image_Un simp flip: offer_provenance_keys [of meta])
  then show ?thesis
    by (auto simp: required_provenance_keys_def catalog_provenance_def image_Un metadata_key_def)
qed

lemma intent_provenance_keys: "set (required_provenance_keys (Request r)) \<subseteq> fst ` set (intent_provenance meta r)"
  by (cases "cq_external_authorization_reference r"; cases "cq_untrusted_metadata r = []")
    (auto simp: required_provenance_keys_def intent_provenance_def metadata_key_def)

lemma mcp_provenance_keys: "set (required_provenance_keys (Operation op)) \<subseteq> fst ` set (mcp_provenance meta op)"
proof -
  have "map fst (mcp_provenance meta op) = required_provenance_keys (Operation op)"
    by (simp add: required_provenance_keys_def mcp_provenance_def case_prod_beta)
  then show ?thesis by (metis order_refl set_map)
qed

lemma provenance_is_external:
  "\<forall>e \<in> set (catalog_provenance meta c). snd e = meta" "\<forall>e \<in> set (intent_provenance meta r). snd e = meta"
  "\<forall>e \<in> set (mcp_provenance meta op). snd e = meta"
  "catalog_provenance meta c \<noteq> []" "intent_provenance meta r \<noteq> []" "mcp_provenance meta op \<noteq> []"
  by (auto simp: catalog_provenance_def offer_provenance_def intent_provenance_def mcp_provenance_def)

lemmas builtin_provenance = provenance_is_external catalog_provenance_keys intent_provenance_keys mcp_provenance_keys

lemma external_checks:
  "(\<forall>e \<in> set es. snd e = external_provenance source) \<Longrightarrow>
    \<forall>(name, meta) \<in> set es. pm_authority meta \<le> AGENT_PROPOSAL \<and> pm_tainted meta \<and> pm_trust meta = T_UNTRUSTED"
  by (fastforce simp: external_provenance_def)

section \<open>The contract of an adapter\<close>

text \<open>
  What the server relies on from an adapter it registers: a payload of its family, provenance from
  outside for every canonical value, and no security field among the keys it read or carries on.
\<close>

locale protocol_adapter =
  fixes family :: adapter_family
    and translate_payload :: "json \<Rightarrow> source_identity \<Rightarrow> string \<Rightarrow> adapter_exn + translation_result"
  assumes emits: "translate_payload parsed source v = Inr result
      \<Longrightarrow> FAMILY_PAYLOAD_TYPES family (tr_canonical_payload result) = Some True"
    and covers: "translate_payload parsed source v = Inr result
      \<Longrightarrow> set (required_provenance_keys (tr_canonical_payload result)) \<subseteq> fst ` set (tr_provenance result)"
    and external: "translate_payload parsed source v = Inr result
      \<Longrightarrow> tr_provenance result \<noteq> [] \<and> (\<exists>origin. \<forall>e \<in> set (tr_provenance result). snd e = external_provenance origin)"
    and reads_clean: "translate_payload parsed source v = Inr result \<Longrightarrow> \<exists>d. parsed = JObj d \<and> clean_keys (map fst d)"
    and carries_clean: "translate_payload parsed source v = Inr result
      \<Longrightarrow> \<forall>e \<in> set (carried_documents (tr_canonical_payload result)). clean_keys (map fst e)"
begin

lemma checked:
  assumes "translate_payload parsed source v = Inr result"
  shows "check_result i family AGENT_PROPOSAL result = Inr ()"
proof -
  obtain origin where "tr_provenance result \<noteq> []" "\<forall>e \<in> set (tr_provenance result). snd e = external_provenance origin"
    using external [OF assms] by blast
  with external_checks [of "tr_provenance result" origin] emits [OF assms] covers [OF assms] show ?thesis
    by (simp add: check_result_Inr_iff)
qed

end

interpretation commerce: protocol_adapter COMMERCE commerce_translate
  by unfold_locales (erule commerce_translate_Inr, auto simp: FAMILY_PAYLOAD_TYPES_def builtin_provenance carried_documents_def
    dest: subsetD [OF catalog_provenance_keys])+

interpretation intent: protocol_adapter PAYMENT_AUTHORIZATION intent_translate
  by unfold_locales (erule intent_translate_Inr, auto simp: FAMILY_PAYLOAD_TYPES_def builtin_provenance carried_documents_def
    dest: subsetD [OF intent_provenance_keys])+

interpretation mcp: protocol_adapter TOOL mcp_translate
  by unfold_locales (erule mcp_translate_Inr, auto simp: FAMILY_PAYLOAD_TYPES_def builtin_provenance carried_documents_def
    dest: subsetD [OF mcp_provenance_keys] mcp_operation_Inr(2))+

text \<open>Whatever the server has registered keeps the contract.\<close>

lemma registered_contract:
  assumes "map_of (ar_adapters REGISTRY) adapter_id = Some r"
  shows "protocol_adapter (ad_family (rg_descriptor r)) (im_translate_payload (rg_implementation r))"
    and "ad_emits_authority (rg_descriptor r) = AGENT_PROPOSAL"
  using assms commerce.protocol_adapter_axioms intent.protocol_adapter_axioms mcp.protocol_adapter_axioms
  by (cases rule: REGISTRY_cases; simp add: COMMERCE_DESCRIPTOR_def INTENT_DESCRIPTOR_def MCP_DESCRIPTOR_def
      commerce_adapter_def intent_adapter_def mcp_adapter_def)+


lemma unprivileged_operations:
  "OPERATION_CAPABILITY operation \<notin> PRIVILEGED_CAPABILITIES" "permits (capabilities_for ''buyer-agent'') (OPERATION_CAPABILITY operation)"
  by (cases operation; simp add: PRIVILEGED_CAPABILITIES_def permits_registered)+

text \<open>
  C15. A tool call confers nothing: an envelope from the tool adapter carries an operation of the
  server's own table for the tool name that was called, whose capability is none of the privileged
  ones and is one the buyer agent already holds; and authorizing it succeeds exactly for a principal
  whose server-owned capability set permits it, whoever called and whatever the payload said.
\<close>

theorem tool_call_confers_nothing:
  assumes "translate adapter_id TOOL v payload source received_at clock = Inr env"
  shows "\<exists>op. en_canonical_payload env = Operation op \<and> map_of TOOL_NAMES (cop_claimed_tool_name op) = Some (cop_operation op)
    \<and> required_capability op \<notin> PRIVILEGED_CAPABILITIES
    \<and> permits (capabilities_for ''buyer-agent'') (required_capability op)
    \<and> (\<forall>who. authorize_operation op who = (if permits (capabilities_for who) (required_capability op)
         then Inr (required_capability op) else Inl (CapabilityDenied who (required_capability op))))"
proof -
  obtain r parsed result where r: "map_of (ar_adapters REGISTRY) adapter_id = Some r" "ad_family (rg_descriptor r) = TOOL"
    and run: "im_translate_payload (rg_implementation r) parsed source v = Inr result"
    and env: "en_canonical_payload env = tr_canonical_payload result"
    using assms unfolding translate_def by (rule translate_with_Inr) simp
  from r have "rg_implementation r = mcp_adapter"
    by (cases rule: REGISTRY_cases) (simp_all add: COMMERCE_DESCRIPTOR_def INTENT_DESCRIPTOR_def)
  with run have "mcp_translate parsed source v = Inr result" by (simp add: mcp_adapter_def)
  then obtain params op where "mcp_operation params = Inr op" "tr_canonical_payload result = Operation op"
    by (rule mcp_translate_Inr)
  with env mcp_operation_Inr(1) show ?thesis
    by (auto simp: required_capability_def unprivileged_operations authorize_operation_def enforce_def)
qed

lemma require_str_Inr_iff: "require_str d key = Inr text \<longleftrightarrow> member d key = JStr text \<and> text \<noteq> []"
  by (auto simp: require_str_def malformed_def split: json.splits)

lemma require_int_Inr_iff: "require_int d key = Inr i \<longleftrightarrow> member d key = JInt i"
  by (auto simp: require_int_def malformed_def split: json.splits)

lemma optional_reference_Inr:
  "optional_reference d = Inr ref \<Longrightarrow> member d ''external_authorization_reference'' = (case ref of None \<Rightarrow> JNull | Some text \<Rightarrow> JStr text)"
  by (auto simp: optional_reference_def malformed_def split: json.splits)

lemma optional_timestamp_Inr:
  "optional_timestamp d key = Inr t \<Longrightarrow> \<forall>x. t = Some x \<longrightarrow> (\<exists>i off. x = Aware i off)"
  by (auto simp: optional_timestamp_def read_timestamp_def malformed_def split: json.splits option.splits datetime.splits)

definition warned :: "warning_code \<Rightarrow> adapter_warning list \<Rightarrow> bool" where
  "warned code ws \<longleftrightarrow> code \<in> aw_code ` set ws"

lemma intent_warnings_Inr:
  assumes "intent_warnings source r = Inr ws"
  shows "warned CLAIMED_IDENTITY_NOT_AUTHENTICATED ws"
    and "warned EXTERNAL_AUTHORIZATION_REFERENCE_NOT_VERIFIED ws \<longleftrightarrow> cq_external_authorization_reference r \<noteq> None"
    and "warned UNKNOWN_FIELDS_KEPT_AS_UNTRUSTED_METADATA ws \<longleftrightarrow> cq_untrusted_metadata r \<noteq> []"
  using assms by (auto simp: intent_warnings_def AdapterWarning_def warned_def split: if_splits)


text \<open>So what a built-in adapter translates, \<open>translate\<close> returns.\<close>

lemma builtin_translation_returns:
  assumes "adapter_get REGISTRY adapter_id family = Inr r" and "supports (rg_descriptor r) v"
    and "as_bytes_and_object payload = Inr (raw, parsed)"
    and "im_translate_payload (rg_implementation r) parsed source v = Inr result"
  obtains env where "translate adapter_id family v payload source received_at clock = Inr env"
    "en_canonical_payload env = tr_canonical_payload result" "en_warnings env = tr_warnings result"
proof -
  have "map_of (ar_adapters REGISTRY) adapter_id = Some r" "ad_family (rg_descriptor r) = family"
    using assms(1) by (simp_all add: adapter_get_Inr_iff)
  with protocol_adapter.checked [OF registered_contract(1) assms(4)] registered_contract(2) assms that show thesis
    by (simp add: translate_def translate_with_def Let_def)
qed

section \<open>Witnesses\<close>

definition sample_source :: source_identity where
  "sample_source = \<lparr>si_claimed_id = ''shopping-agent'', si_channel = ''mcp''\<rparr>"

definition sample_tool_call :: document where
  "sample_tool_call = [(''jsonrpc'', JStr ''2.0''), (''id'', JInt 7), (''method'', JStr ''tools/call''),
     (''params'', JObj [(''name'', JStr ''pactra.purchase.propose''), (''arguments'', JObj [(''product_id'', JStr ''anc-1''), (''quantity'', JInt 2)])])]"

definition sample_intent_document :: document where
  "sample_intent_document = [(''protocol'', JStr ''pactra.authorization-intent''), (''merchant_id'', JStr ''merchant_a''),
     (''product_id'', JStr ''anc-1''), (''quantity'', JInt 2), (''amount_inr'', JInt 3799), (''currency'', JStr ''inr''),
     (''expires_at'', JStr ''2026-01-01T00:00:00+05:30''), (''external_authorization_reference'', JStr ''ap2-token''), (''note'', JStr ''gift'')]"

lemma document_readable:
  assumes "length (utf8 (dumps True (JObj d))) \<le> MAX_PAYLOAD_BYTES"
  shows "as_bytes_and_object (Document d) = Inr (utf8 (dumps True (JObj d)), JObj d)"
  using assms by (simp add: as_bytes_and_object_def wire_bytes_def)

lemma sample_tool_call_translates:
  obtains env where "translate MCP_ID TOOL ''2025-06-18'' (Document sample_tool_call) sample_source None 0 = Inr env"
proof -
  have get: "adapter_get REGISTRY MCP_ID TOOL = Inr \<lparr>rg_descriptor = MCP_DESCRIPTOR, rg_implementation = mcp_adapter\<rparr>"
    by (simp add: adapter_get_Inr_iff REGISTRY_eq MCP_DESCRIPTOR_def COMMERCE_ID_def INTENT_ID_def MCP_ID_def)
  have "\<not> isl (mcp_translate (JObj sample_tool_call) sample_source ''2025-06-18'')" by code_simp
  then obtain result where run: "mcp_translate (JObj sample_tool_call) sample_source ''2025-06-18'' = Inr result"
    by (cases "mcp_translate (JObj sample_tool_call) sample_source ''2025-06-18''") auto
  have "length (utf8 (dumps True (JObj sample_tool_call))) \<le> 400" by code_simp
  then have "length (utf8 (dumps True (JObj sample_tool_call))) \<le> MAX_PAYLOAD_BYTES" by (simp add: MAX_PAYLOAD_BYTES_def)
  then obtain env where "translate MCP_ID TOOL ''2025-06-18'' (Document sample_tool_call) sample_source None 0 = Inr env"
    using builtin_translation_returns [OF get _ document_readable, of "''2025-06-18''" sample_tool_call sample_source result None 0] run
    by (auto simp: supports_def MCP_DESCRIPTOR_def mcp_adapter_def)
  then show thesis by (rule that)
qed

theorem translation_never_raises_authority_witness:
  "\<exists>env. translate_with REGISTRY MCP_ID TOOL ''2025-06-18'' (Document sample_tool_call) sample_source None 0 = Inr env
    \<and> en_adapter_id env = MCP_ID \<and> en_source_authority env = AGENT_PROPOSAL
    \<and> set (required_provenance_keys (en_canonical_payload env)) \<subseteq> fst ` set (en_provenance env)"
proof -
  obtain env where "translate_with REGISTRY MCP_ID TOOL ''2025-06-18'' (Document sample_tool_call) sample_source None 0 = Inr env"
    using sample_tool_call_translates unfolding translate_def .
  with translation_never_raises_authority [OF REGISTRY_history this] show ?thesis by blast
qed


theorem tool_call_confers_nothing_witness:
  "\<exists>env op. translate MCP_ID TOOL ''2025-06-18'' (Document sample_tool_call) sample_source None 0 = Inr env
    \<and> en_canonical_payload env = Operation op \<and> required_capability op \<noteq> C_PAYMENT_EXECUTE
    \<and> authorize_operation op ''shopping-agent'' = Inl (CapabilityDenied ''shopping-agent'' (required_capability op))"
proof -
  obtain env where run: "translate MCP_ID TOOL ''2025-06-18'' (Document sample_tool_call) sample_source None 0 = Inr env"
    using sample_tool_call_translates .
  with tool_call_confers_nothing [OF run] show ?thesis
    by (auto simp: permits_registered PRIVILEGED_CAPABILITIES_def)
qed


end
