(* ===== verification/Spec2Isabelle.thy ===== *)
theory Spec2Isabelle
  imports Progress Api Adapters
begin

text \<open>
  PACTRA: a verification development.
\<close>

end
